(* ===== verification/Prelude.thy ===== *)
theory Prelude
  imports "HOL-Library.Word" "HOL-Library.AList" "HOL-Library.Multiset"
begin

unbundle bit_operations_syntax

text \<open>
  The vocabulary the components share: Go's machine integers, byte strings and maps, the
  three-way outcome of a Go call that may return an error or panic, big-endian words, and the
  generic lemmas on them.

  A Go map is an association list with distinct keys (\<open>go_map\<close>): the order of the list is the
  order in which one \<open>range\<close> statement happens to visit the map, so a theorem that holds for
  every such list holds for every iteration order of the Go runtime. A nil map reads, ranges and
  measures like an empty one, so both are \<open>[]\<close>; likewise a nil slice is \<open>[]\<close>.
\<close>

section \<open>Types\<close>

type_synonym byte = "8 word"
type_synonym u16 = "16 word"
type_synonym u32 = "32 word"
type_synonym u64 = "64 word"
type_synonym bytes = "byte list"
type_synonym gostring = "byte list"
type_synonym ('k, 'v) gomap = "('k \<times> 'v) list"

named_theorems wire_simps \<open>wire formats of the encoder's write operations\<close>
named_theorems read_simps \<open>what a read operation returns in front of a written value\<close>
named_theorems keeps \<open>an operation keeps the invariant of its component\<close>
named_theorems map_views \<open>how an operation changes the abstract view of its component\<close>

text \<open>A string literal of the source as Go holds it: the bytes of its ASCII characters.\<close>

definition gs :: "string \<Rightarrow> gostring" where
  "gs s = map of_char s"

section \<open>Outcomes\<close>

text \<open>
  A Go call returns a value (\<open>Ok\<close>), returns a non-nil error (\<open>Err\<close>), or panics. No goroutine of
  the modelled packages calls \<open>recover\<close>, so a panic ends the process.
\<close>

datatype ('e, 'a) outcome = Ok 'a | Err 'e | Panic

fun obind :: "('e, 'a) outcome \<Rightarrow> ('a \<Rightarrow> ('e, 'b) outcome) \<Rightarrow> ('e, 'b) outcome" where
  "obind (Ok x) f = f x"
| "obind (Err e) f = Err e"
| "obind Panic f = Panic"

definition omap :: "('a \<Rightarrow> 'b) \<Rightarrow> ('e, 'a) outcome \<Rightarrow> ('e, 'b) outcome" where
  "omap f m = obind m (\<lambda>x. Ok (f x))"

fun panics :: "('e, 'a) outcome \<Rightarrow> bool" where
  "panics Panic = True"
| "panics (Ok x) = False"
| "panics (Err e) = False"

fun map_err :: "('e \<Rightarrow> 'f) \<Rightarrow> ('e, 'a) outcome \<Rightarrow> ('f, 'a) outcome" where
  "map_err f (Ok x) = Ok x"
| "map_err f (Err e) = Err (f e)"
| "map_err f Panic = Panic"

definition is_Ok :: "('e, 'a) outcome \<Rightarrow> bool" where
  "is_Ok m \<longleftrightarrow> (case m of Ok _ \<Rightarrow> True | _ \<Rightarrow> False)"

definition get_Ok :: "('e, 'a) outcome \<Rightarrow> 'a" where
  "get_Ok m = (case m of Ok x \<Rightarrow> x | _ \<Rightarrow> undefined)"

section \<open>Big-endian words\<close>

fun be_bytes :: "nat \<Rightarrow> 'a::len word \<Rightarrow> bytes" where
  "be_bytes 0 w = []"
| "be_bytes (Suc n) w = be_bytes n (drop_bit 8 w) @ [ucast w]"

definition shift_in :: "'a::len word \<Rightarrow> byte \<Rightarrow> 'a word" where
  "shift_in acc b = push_bit 8 acc OR ucast b"

definition be_word :: "bytes \<Rightarrow> 'a::len word" where
  "be_word bs = foldl shift_in 0 bs"

section \<open>Go maps\<close>

definition go_map :: "('k, 'v) gomap \<Rightarrow> bool" where
  "go_map m \<longleftrightarrow> distinct (map fst m)"

text \<open>\<open>maps.Equal\<close>: same keys with equal values, whatever the iteration order.\<close>

definition maps_equal :: "('k, 'v) gomap \<Rightarrow> ('k, 'v) gomap \<Rightarrow> bool" where
  "maps_equal m n \<longleftrightarrow>
     length m = length n \<and> list_all (\<lambda>(k, v). map_of n k = Some v) m"

section \<open>Strings\<close>

text \<open>\<open>strings.Cut\<close>: before and after the first occurrence of a separator.\<close>

fun go_Cut :: "gostring \<Rightarrow> gostring \<Rightarrow> (gostring \<times> gostring) option" where
  "go_Cut sep [] = (if sep = [] then Some ([], []) else None)"
| "go_Cut sep (c # cs) =
     (if take (length sep) (c # cs) = sep then Some ([], drop (length sep) (c # cs))
      else map_option (\<lambda>(a, b). (c # a, b)) (go_Cut sep cs))"

lemma go_Cut_shorter: "sep \<noteq> [] \<Longrightarrow> go_Cut sep s = Some (a, b) \<Longrightarrow> length b < length s"
  by (induction s arbitrary: a b) (auto split: if_splits simp: less_Suc_eq_le, cases sep, auto)

text \<open>\<open>strings.Split\<close>, for a separator that is not empty.\<close>

function go_Split :: "gostring \<Rightarrow> gostring \<Rightarrow> gostring list" where
  "go_Split sep s =
     (if sep = [] then [s]
      else case go_Cut sep s of None \<Rightarrow> [s] | Some (a, b) \<Rightarrow> a # go_Split sep b)"
  by pat_completeness auto
termination by (relation "measure (\<lambda>(sep, s). length s)") (auto dest: go_Cut_shorter)

declare go_Split.simps [simp del]

section \<open>Shared lemmas\<close>

lemma obind_assoc: "obind (obind m f) g = obind m (\<lambda>x. obind (f x) g)"
  by (cases m) auto

lemma outcome_Ok_obind:
  "obind m f = Ok y \<longleftrightarrow> (\<exists>x. m = Ok x \<and> f x = Ok y)"
  by (cases m) auto

lemma outcome_Err_obind:
  "obind m f = Err e \<longleftrightarrow> m = Err e \<or> (\<exists>x. m = Ok x \<and> f x = Err e)"
  by (cases m) auto

lemma outcome_Panic_obind:
  "obind m f = Panic \<longleftrightarrow> m = Panic \<or> (\<exists>x. m = Ok x \<and> f x = Panic)"
  by (cases m) auto

lemma omap_simps [simp]:
  "omap f (Ok x) = Ok (f x)" "omap f (Err e) = Err e" "omap f Panic = Panic"
  by (simp_all add: omap_def)

lemma omap_Panic [simp]: "omap f m = Panic \<longleftrightarrow> m = Panic"
  by (cases m) auto

lemma omap_Ok: "omap f m = Ok y \<longleftrightarrow> (\<exists>x. m = Ok x \<and> y = f x)"
  by (cases m) auto

lemma map_err_Ok [simp]: "map_err f m = Ok x \<longleftrightarrow> m = Ok x"
  by (cases m) auto

lemma map_err_Panic [simp]: "map_err f m = Panic \<longleftrightarrow> m = Panic"
  by (cases m) auto

lemma get_Ok: "is_Ok m \<Longrightarrow> m = Ok (get_Ok m)"
  by (cases m) (simp_all add: is_Ok_def get_Ok_def)

lemma panics_iff: "panics m \<longleftrightarrow> m = Panic"
  by (cases m) auto

lemma length_be_bytes [simp]: "length (be_bytes n w) = n"
  by (induction n arbitrary: w) auto

lemma be_bytes_top: "be_bytes (Suc m) w = ucast (drop_bit (8 * m) w) # be_bytes m w"
proof (induction m arbitrary: w)
  case 0
  show ?case by simp
next
  case (Suc m)
  have "be_bytes (Suc (Suc m)) w = be_bytes (Suc m) (drop_bit 8 w) @ [ucast w]"
    by (rule be_bytes.simps(2))
  also have "\<dots> = ucast (drop_bit (8 * Suc m) w) # be_bytes m (drop_bit 8 w) @ [ucast w]"
    by (simp only: Suc.IH) (simp add: add.commute)
  also have "be_bytes m (drop_bit 8 w) @ [ucast w] = be_bytes (Suc m) w"
    by simp
  finally show ?case .
qed

lemma be_word_Nil [simp]: "be_word [] = 0"
  by (simp add: be_word_def)

lemma be_word_snoc [simp]: "be_word (bs @ [b]) = shift_in (be_word bs) b"
  by (simp add: be_word_def)

lemma shift_in_split:
  fixes w :: "'a::len word"
  shows "shift_in (take_bit n (drop_bit 8 w)) (ucast w) = take_bit (8 + n) w"
  by (rule bit_eqI) (auto simp: shift_in_def bit_simps)

lemma be_word_be_bytes: "be_word (be_bytes n w) = take_bit (8 * n) w"
proof (induction n arbitrary: w)
  case 0
  show ?case by simp
next
  case (Suc n)
  then show ?case by (simp add: shift_in_split)
qed

lemma take_bit_word_full [simp]: "LENGTH('a) \<le> n \<Longrightarrow> take_bit n (w :: 'a::len word) = w"
  by (rule bit_eqI) (auto simp: bit_simps)

lemma bit_127: "bit (127 :: 'a::len word) k \<longleftrightarrow> k < LENGTH('a) \<and> k < 7"
proof -
  have "(127 :: 'a word) = mask 7" by (simp add: mask_eq_exp_minus_1)
  then show ?thesis by (simp only: bit_simps) (auto simp: bit_simps)
qed

lemma bit_128: "bit (128 :: 'a::len word) k \<longleftrightarrow> k < LENGTH('a) \<and> k = 7"
proof -
  have "(128 :: 'a word) = push_bit 7 1" by (simp add: push_bit_eq_mult)
  then show ?thesis by (simp only: bit_simps) (auto simp: bit_simps)
qed

lemma unat_of_nat_u64 [simp]: "n < 2 ^ 63 \<Longrightarrow> unat (of_nat n :: u64) = n"
  by (simp add: unat_of_nat)

lemma of_nat_u64_eq_0 [simp]: "n < 2 ^ 63 \<Longrightarrow> (of_nat n :: u64) = 0 \<longleftrightarrow> n = 0"
  by (simp flip: unat_eq_zero)

lemma update_fresh: "k \<notin> fst ` set m \<Longrightarrow> AList.update k v m = m @ [(k, v)]"
  by (induction m) auto

lemma go_map_update [simp]: "go_map m \<Longrightarrow> go_map (AList.update k v m)"
  by (simp add: go_map_def distinct_update)

lemma go_map_delete [simp]: "go_map m \<Longrightarrow> go_map (AList.delete k m)"
  by (simp add: go_map_def distinct_delete)

lemma go_map_Nil [simp]: "go_map []"
  by (simp add: go_map_def)

lemma card_dom_go_map: "go_map m \<Longrightarrow> card (dom (map_of m)) = length m"
  by (metis dom_map_of_conv_image_fst distinct_card go_map_def length_map set_map)

lemma maps_equal_iff:
  assumes "go_map m" and "go_map n"
  shows "maps_equal m n \<longleftrightarrow> map_of m = map_of n"
proof
  assume eq: "maps_equal m n"
  have "map_of m \<subseteq>\<^sub>m map_of n"
    using eq assms(1)
    by (fastforce simp: maps_equal_def map_le_def list_all_iff go_map_def dest: map_of_SomeD)
  moreover have "card (dom (map_of m)) = card (dom (map_of n))"
    using assms eq by (simp add: card_dom_go_map maps_equal_def)
  ultimately have "dom (map_of m) = dom (map_of n)"
    by (meson card_subset_eq finite_dom_map_of map_le_implies_dom_le)
  with \<open>map_of m \<subseteq>\<^sub>m map_of n\<close> show "map_of m = map_of n"
    by (metis map_le_antisym map_le_def)
next
  assume eq: "map_of m = map_of n"
  then have "length m = length n"
    using assms by (metis card_dom_go_map)
  moreover have "list_all (\<lambda>(k, v). map_of m k = Some v) m"
    using assms(1) by (auto simp: go_map_def list_all_iff)
  ultimately show "maps_equal m n"
    using eq by (simp add: maps_equal_def)
qed

lemma maps_equal_refl [simp]: "go_map m \<Longrightarrow> maps_equal m m"
  by (simp add: maps_equal_iff)

end
