(* ===== verification/Coder.thy ===== *)
theory Coder
  imports Prelude
begin

unbundle bit_operations_syntax

text \<open>
  Package \<open>coder\<close> (src/coder/coder.go, codable.go, poll.go): the encoder with its buffer pool,
  the decoder with its 64-bit position, and the wire format both agree on.

  The encoder is its buffer; a write operation appends. The decoder is the slice it reads and a
  \<open>u64\<close> position whose additions wrap, as in Go. A read returns its value and the moved decoder,
  an error of the package, or panics where Go's slice expressions and \<open>make\<close> do. After an error
  no caller uses the decoder again, so an error carries no decoder.

  \<open>wire\<close> functions are the specification of the format. The locale \<open>codec\<close> is the contract
  between a write and its read operation; every write/read pair interprets it.
\<close>

section \<open>Errors\<close>

datatype coder_error = ErrVarintOverflow | ErrBufferTooShort

fun coder_error_code :: "coder_error \<Rightarrow> byte" where
  "coder_error_code ErrVarintOverflow = 1"
| "coder_error_code ErrBufferTooShort = 2"

text \<open>The method \<open>Error\<close> of the underlying \<open>uint8\<close>.\<close>

definition coder_Error :: "byte \<Rightarrow> string" where
  "coder_Error e =
     (if e = 1 then ''varint overflow'' else if e = 2 then ''buffer too short''
      else ''unknown error'')"

section \<open>Encoder\<close>

record encoder =
  ebuf :: bytes

definition new_encoder :: encoder where
  "new_encoder = \<lparr>ebuf = []\<rparr>"

text \<open>
  The pool behind \<open>NewEncoder\<close>. \<open>sync.Pool.Get\<close> may return any pooled object or build a new
  one; the argument \<open>pick\<close> is that choice.
\<close>

definition pool_get :: "nat option \<Rightarrow> encoder list \<Rightarrow> encoder \<times> encoder list" where
  "pool_get pick ps =
     (case pick of
        Some i \<Rightarrow> if i < length ps then (ps ! i, take i ps @ drop (Suc i) ps)
                 else (new_encoder, ps)
      | None \<Rightarrow> (new_encoder, ps))"

definition pool_put :: "encoder \<Rightarrow> encoder list \<Rightarrow> encoder list" where
  "pool_put e ps = e # ps"

definition NewEncoder :: "nat option \<Rightarrow> encoder list \<Rightarrow> encoder \<times> encoder list" where
  "NewEncoder pick ps = pool_get pick ps"

definition free :: "encoder \<Rightarrow> encoder list \<Rightarrow> encoder list" where
  "free e ps = pool_put (e\<lparr>ebuf := []\<rparr>) ps"

definition Pick :: "encoder \<Rightarrow> encoder list \<Rightarrow> bytes \<times> encoder list" where
  "Pick e ps = (ebuf e, free e ps)"

definition WriteBytes :: "bytes \<Rightarrow> encoder \<Rightarrow> encoder" where
  "WriteBytes p e = e\<lparr>ebuf := ebuf e @ p\<rparr>"

definition WriteUInt8 :: "byte \<Rightarrow> encoder \<Rightarrow> encoder" where
  "WriteUInt8 i e = e\<lparr>ebuf := ebuf e @ [i]\<rparr>"

definition WriteUInt16 :: "u16 \<Rightarrow> encoder \<Rightarrow> encoder" where
  "WriteUInt16 i e = e\<lparr>ebuf := ebuf e @ be_bytes 2 i\<rparr>"

definition WriteUInt32 :: "u32 \<Rightarrow> encoder \<Rightarrow> encoder" where
  "WriteUInt32 i e = e\<lparr>ebuf := ebuf e @ be_bytes 4 i\<rparr>"

definition WriteUInt64 :: "u64 \<Rightarrow> encoder \<Rightarrow> encoder" where
  "WriteUInt64 i e = e\<lparr>ebuf := ebuf e @ be_bytes 8 i\<rparr>"

definition WriteBool :: "bool \<Rightarrow> encoder \<Rightarrow> encoder" where
  "WriteBool bo e = (if bo then WriteUInt8 1 e else WriteUInt8 0 e)"

text \<open>
  Go's conversions between \<open>intN\<close> and \<open>uintN\<close> keep the bits. A signed value is the integer
  \<open>sint\<close> reads from them, so the signed writers take an \<open>int\<close> and keep its low bits.
\<close>

definition WriteInt8 :: "int \<Rightarrow> encoder \<Rightarrow> encoder" where
  "WriteInt8 i = WriteUInt8 (word_of_int i)"

definition WriteInt16 :: "int \<Rightarrow> encoder \<Rightarrow> encoder" where
  "WriteInt16 i = WriteUInt16 (word_of_int i)"

definition WriteInt32 :: "int \<Rightarrow> encoder \<Rightarrow> encoder" where
  "WriteInt32 i = WriteUInt32 (word_of_int i)"

definition WriteInt64 :: "int \<Rightarrow> encoder \<Rightarrow> encoder" where
  "WriteInt64 i = WriteUInt64 (word_of_int i)"

text \<open>\<open>binary.AppendUvarint\<close>: seven bits a byte, low bits first, the high bit set on all but the last.\<close>

function uvarint_bytes :: "u64 \<Rightarrow> bytes" where
  "uvarint_bytes x =
     (if x < 0x80 then [ucast x] else (ucast x OR 0x80) # uvarint_bytes (drop_bit 7 x))"
  by pat_completeness auto
termination
proof (relation "measure unat")
  fix x :: u64
  assume "\<not> x < 0x80"
  then have "128 \<le> unat x" by (simp add: word_less_nat_alt)
  then show "(drop_bit 7 x, x) \<in> measure unat"
    by (simp add: drop_bit_eq_div unat_div)
qed simp

declare uvarint_bytes.simps [simp del]

definition WriteVarint :: "u64 \<Rightarrow> encoder \<Rightarrow> encoder" where
  "WriteVarint i e = e\<lparr>ebuf := ebuf e @ uvarint_bytes i\<rparr>"

definition WriteData :: "bytes \<Rightarrow> encoder \<Rightarrow> encoder" where
  "WriteData data e =
     (let l = length data; e1 = WriteVarint (of_nat l) e
      in if l > 0 then WriteBytes data e1 else e1)"

definition WriteString :: "gostring \<Rightarrow> encoder \<Rightarrow> encoder" where
  "WriteString s = WriteData s"

definition WriteStrMap :: "(gostring, gostring) gomap \<Rightarrow> encoder \<Rightarrow> encoder" where
  "WriteStrMap m e =
     fold (\<lambda>(k, v) e. WriteString v (WriteString k e)) m (WriteVarint (of_nat (length m)) e)"

definition WriteStrings :: "gostring list \<Rightarrow> encoder \<Rightarrow> encoder" where
  "WriteStrings ss e = fold WriteString ss (WriteVarint (of_nat (length ss)) e)"

definition WriteUInt8Map :: "(byte, gostring) gomap \<Rightarrow> encoder \<Rightarrow> encoder" where
  "WriteUInt8Map m e =
     fold (\<lambda>(k, v) e. WriteString v (WriteUInt8 k e)) m (WriteUInt8 (of_nat (length m)) e)"

section \<open>Decoder\<close>

record decoder =
  pos :: u64
  dbuf :: bytes

type_synonym 'a reader = "decoder \<Rightarrow> (coder_error, 'a \<times> decoder) outcome"

definition NewDecoder :: "bytes \<Rightarrow> decoder" where
  "NewDecoder bs = \<lparr>pos = 0, dbuf = bs\<rparr>"

text \<open>Go's \<open>uint64(len(d.buf))\<close> and the slice expression \<open>d.buf[lo:hi]\<close>.\<close>

definition len64 :: "decoder \<Rightarrow> u64" where
  "len64 d = of_nat (length (dbuf d))"

definition go_slice :: "u64 \<Rightarrow> u64 \<Rightarrow> bytes \<Rightarrow> ('e, bytes) outcome" where
  "go_slice lo hi bs =
     (if lo \<le> hi \<and> unat hi \<le> length bs
      then Ok (take (unat hi - unat lo) (drop (unat lo) bs)) else Panic)"

definition ReadBytes :: "u64 \<Rightarrow> bytes reader" where
  "ReadBytes l d =
     (if l = 0 then Ok ([], d)
      else if pos d + l > len64 d then Err ErrBufferTooShort
      else obind (go_slice (pos d) (pos d + l) (dbuf d)) (\<lambda>p. Ok (p, d\<lparr>pos := pos d + l\<rparr>)))"

definition ReadUInt8 :: "byte reader" where
  "ReadUInt8 d =
     (if pos d + 1 > len64 d then Err ErrBufferTooShort
      else if unat (pos d) < length (dbuf d)
      then Ok (dbuf d ! unat (pos d), d\<lparr>pos := pos d + 1\<rparr>) else Panic)"

definition ReadUInt16 :: "u16 reader" where
  "ReadUInt16 d = obind (ReadBytes 2 d) (\<lambda>(bs, d1). Ok (be_word bs, d1))"

definition ReadUInt32 :: "u32 reader" where
  "ReadUInt32 d = obind (ReadBytes 4 d) (\<lambda>(bs, d1). Ok (be_word bs, d1))"

definition ReadUInt64 :: "u64 reader" where
  "ReadUInt64 d = obind (ReadBytes 8 d) (\<lambda>(bs, d1). Ok (be_word bs, d1))"

definition ReadBool :: "bool reader" where
  "ReadBool d = obind (ReadUInt8 d) (\<lambda>(i, d1). Ok (i = 1, d1))"

definition ReadInt8 :: "int reader" where
  "ReadInt8 d = obind (ReadUInt8 d) (\<lambda>(u, d1). Ok (sint u, d1))"

definition ReadInt16 :: "int reader" where
  "ReadInt16 d = obind (ReadUInt16 d) (\<lambda>(u, d1). Ok (sint u, d1))"

definition ReadInt32 :: "int reader" where
  "ReadInt32 d = obind (ReadUInt32 d) (\<lambda>(u, d1). Ok (sint u, d1))"

definition ReadInt64 :: "int reader" where
  "ReadInt64 d = obind (ReadUInt64 d) (\<lambda>(u, d1). Ok (sint u, d1))"

text \<open>
  \<open>binary.Uvarint\<close>: the value and the number of bytes read; the number is 0 when the buffer ends
  too early and negative when the value overflows 64 bits (\<open>MaxVarintLen64\<close> is 10).
\<close>

fun uvarint_loop :: "nat \<Rightarrow> u64 \<Rightarrow> nat \<Rightarrow> bytes \<Rightarrow> u64 \<times> int" where
  "uvarint_loop i x s [] = (0, 0)"
| "uvarint_loop i x s (b # bs) =
     (if i = 10 then (0, - (int i + 1))
      else if b < 0x80 then
        (if i = 9 \<and> b > 1 then (0, - (int i + 1))
         else (x OR push_bit s (ucast b), int i + 1))
      else uvarint_loop (Suc i) (x OR push_bit s (ucast (b AND 0x7f))) (s + 7) bs)"

definition Uvarint :: "bytes \<Rightarrow> u64 \<times> int" where
  "Uvarint bs = uvarint_loop 0 0 0 bs"

definition ReadVarint :: "u64 reader" where
  "ReadVarint d =
     obind (go_slice (pos d) (len64 d) (dbuf d)) (\<lambda>bs.
       let (v, n) = Uvarint bs
       in if n < 0 then Err ErrVarintOverflow
          else if n = 0 then Err ErrBufferTooShort
          else Ok (v, d\<lparr>pos := pos d + word_of_int n\<rparr>))"

definition ReadData :: "bytes reader" where
  "ReadData d = obind (ReadVarint d) (\<lambda>(l, d1). ReadBytes l d1)"

definition ReadString :: "gostring reader" where
  "ReadString d = obind (ReadData d) (\<lambda>(bs, d1). Ok (bs, d1))"

text \<open>
  The loops \<open>for i := 0; i < int(l); i++\<close>: a count of \<open>2^63\<close> or more is negative as an
  \<open>int\<close>, and the loop does not run.
\<close>

definition loop_count :: "u64 \<Rightarrow> nat" where
  "loop_count l = nat (sint l)"

fun read_map_loop ::
  "'k reader \<Rightarrow> nat \<Rightarrow> ('k, gostring) gomap \<Rightarrow> ('k, gostring) gomap reader" where
  "read_map_loop rk 0 m d = Ok (m, d)"
| "read_map_loop rk (Suc n) m d =
     obind (rk d) (\<lambda>(k, d1). obind (ReadString d1) (\<lambda>(v, d2).
       read_map_loop rk n (AList.update k v m) d2))"

definition ReadStrMap :: "(gostring, gostring) gomap reader" where
  "ReadStrMap d =
     obind (ReadVarint d) (\<lambda>(l, d1). read_map_loop ReadString (loop_count l) [] d1)"

fun read_strings_loop :: "nat \<Rightarrow> gostring list \<Rightarrow> gostring list reader" where
  "read_strings_loop 0 ss d = Ok (ss, d)"
| "read_strings_loop (Suc n) ss d =
     obind (ReadString d) (\<lambda>(s, d1). read_strings_loop n (ss @ [s]) d1)"

text \<open>
  \<open>make([]string, l)\<close> panics when the runtime cannot allocate \<open>l\<close> strings; \<open>maxlen\<close> is the
  largest length it allocates. The slots not yet read hold empty strings.
\<close>

definition ReadStrings :: "nat \<Rightarrow> gostring list reader" where
  "ReadStrings maxlen d =
     obind (ReadVarint d) (\<lambda>(l, d1).
       if unat l \<le> maxlen
       then obind (read_strings_loop (loop_count l) [] d1)
              (\<lambda>(ss, d2). Ok (ss @ replicate (unat l - length ss) [], d2))
       else Panic)"

definition ReadUInt8Map :: "(byte, gostring) gomap reader" where
  "ReadUInt8Map d =
     obind (ReadUInt8 d) (\<lambda>(l, d1). read_map_loop ReadUInt8 (unat l) [] d1)"

definition ReadAll :: "bytes reader" where
  "ReadAll d =
     (let l = len64 d
      in if pos d \<ge> l then Ok ([], d)
         else obind (go_slice (pos d) l (dbuf d)) (\<lambda>p. Ok (p, d\<lparr>pos := l\<rparr>)))"

section \<open>Marshal and Unmarshal\<close>

text \<open>
  \<open>coder.Marshal\<close> and \<open>coder.Unmarshal\<close> of a type with a \<open>WriteTo\<close> and a \<open>ReadFrom\<close>. No
  \<open>WriteTo\<close> of the repository returns an error.
\<close>

definition Marshal :: "('a \<Rightarrow> encoder \<Rightarrow> encoder) \<Rightarrow> 'a \<Rightarrow> bytes" where
  "Marshal writeTo x = fst (Pick (writeTo x (fst (NewEncoder None []))) [])"

definition Unmarshal :: "'a reader \<Rightarrow> bytes \<Rightarrow> (coder_error, 'a) outcome" where
  "Unmarshal readFrom b = obind (readFrom (NewDecoder b)) (\<lambda>(x, d). Ok x)"

section \<open>The wire format\<close>

definition data_wire :: "bytes \<Rightarrow> bytes" where
  "data_wire p = uvarint_bytes (of_nat (length p)) @ p"

definition str_map_wire :: "(gostring, gostring) gomap \<Rightarrow> bytes" where
  "str_map_wire m =
     uvarint_bytes (of_nat (length m)) @ concat (map (\<lambda>(k, v). data_wire k @ data_wire v) m)"

definition strings_wire :: "gostring list \<Rightarrow> bytes" where
  "strings_wire ss = uvarint_bytes (of_nat (length ss)) @ concat (map data_wire ss)"

definition u8map_wire :: "(byte, gostring) gomap \<Rightarrow> bytes" where
  "u8map_wire m = of_nat (length m) # concat (map (\<lambda>(k, v). k # data_wire v) m)"

text \<open>A decoder that has consumed \<open>pre\<close> and has \<open>post\<close> ahead, in a slice Go can hold.\<close>

definition dec_at :: "bytes \<Rightarrow> bytes \<Rightarrow> decoder" where
  "dec_at pre post = \<lparr>pos = of_nat (length pre), dbuf = pre @ post\<rparr>"

definition room :: "bytes \<Rightarrow> bytes \<Rightarrow> bool" where
  "room pre post \<longleftrightarrow> length pre + length post < 2 ^ 63"

definition wf_dec :: "decoder \<Rightarrow> bool" where
  "wf_dec d \<longleftrightarrow> unat (pos d) \<le> length (dbuf d) \<and> length (dbuf d) < 2 ^ 63"

definition pool_ok :: "encoder list \<Rightarrow> bool" where
  "pool_ok ps \<longleftrightarrow> list_all (\<lambda>e. ebuf e = []) ps"

text \<open>The maps Go can hold and count: lengths are \<open>int\<close> values.\<close>

definition str_map_ok :: "(gostring, gostring) gomap \<Rightarrow> bool" where
  "str_map_ok m \<longleftrightarrow> go_map m \<and> length m < 2 ^ 63"

definition u8map_ok :: "(byte, gostring) gomap \<Rightarrow> bool" where
  "u8map_ok m \<longleftrightarrow> go_map m \<and> length m < 256"

section \<open>The contract between a writer and its reader\<close>

locale codec =
  fixes wire :: "'a \<Rightarrow> bytes"
    and wr :: "'a \<Rightarrow> encoder \<Rightarrow> encoder"
    and rd :: "'a reader"
    and fits :: "'a \<Rightarrow> bool"
  assumes write_wire: "ebuf (wr x e) = ebuf e @ wire x"
    and read_wire: "fits x \<Longrightarrow> room pre (wire x @ post) \<Longrightarrow>
      rd (dec_at pre (wire x @ post)) = Ok (x, dec_at (pre @ wire x) post)"
begin

lemma marshal_wire: "Marshal wr x = wire x"
  by (simp add: Marshal_def Pick_def NewEncoder_def pool_get_def write_wire new_encoder_def)

lemma unmarshal_marshal:
  assumes "fits x" and "length (wire x) < 2 ^ 63"
  shows "Unmarshal rd (Marshal wr x) = Ok x"
  using assms read_wire [of x "[]" "[]"]
  by (simp add: marshal_wire Unmarshal_def NewDecoder_def dec_at_def room_def)

lemma roundtrip: "fits x \<Longrightarrow> length (wire x) < 2 ^ 63 \<Longrightarrow> Unmarshal rd (wire x) = Ok x"
  using unmarshal_marshal [of x] by (simp add: marshal_wire)

lemma wire_inj:
  assumes "fits x" "fits y" and "length (wire x) < 2 ^ 63" and "wire x = wire y"
  shows "x = y"
  using unmarshal_marshal [of x] unmarshal_marshal [of y] assms by (simp add: marshal_wire)

text \<open>The format is prefix free: a reader cannot stop early or late.\<close>

lemma wire_prefix_free:
  assumes "fits x" "fits y" and "length (wire x @ u) < 2 ^ 63" and "wire x @ u = wire y @ v"
  shows "x = y \<and> u = v"
  using read_wire [of x "[]" u] read_wire [of y "[]" v] assms
  by (auto simp: room_def)

end

section \<open>Integers\<close>

lemma wf_dec_at [simp]: "room pre post \<Longrightarrow> wf_dec (dec_at pre post)"
  by (simp add: wf_dec_def dec_at_def room_def)

lemma NewDecoder_at: "NewDecoder bs = dec_at [] bs"
  by (simp add: NewDecoder_def dec_at_def)

lemma dec_at_pos: "room pre post \<Longrightarrow> unat (pos (dec_at pre post)) = length pre"
  by (simp add: dec_at_def room_def)

lemma dec_at_len: "room pre post \<Longrightarrow> unat (len64 (dec_at pre post)) = length pre + length post"
  by (simp add: dec_at_def room_def len64_def del: of_nat_add)

lemma dec_at_step:
  assumes "room pre (p @ post)"
  shows "unat (pos (dec_at pre (p @ post)) + of_nat (length p)) = length pre + length p"
    and "(dec_at pre (p @ post))\<lparr>pos := pos (dec_at pre (p @ post)) + of_nat (length p)\<rparr>
         = dec_at (pre @ p) post"
  using assms unat_of_nat_u64 [of "length pre + length p"]
  by (simp_all add: dec_at_def room_def)

lemma ReadBytes_at:
  assumes "room pre (p @ post)"
  shows "ReadBytes (of_nat (length p)) (dec_at pre (p @ post)) = Ok (p, dec_at (pre @ p) post)"
proof (cases "p = []")
  case False
  then have "(of_nat (length p) :: u64) \<noteq> 0"
    using assms by (simp add: room_def)
  then show ?thesis
    using assms dec_at_step [OF assms] dec_at_len [OF assms] dec_at_pos [OF assms]
    by (simp add: ReadBytes_def go_slice_def word_less_nat_alt word_le_nat_alt)
      (simp add: dec_at_def)
qed (simp add: ReadBytes_def)

lemma ReadUInt8_at [simp, read_simps]:
  assumes "room pre (i # post)"
  shows "ReadUInt8 (dec_at pre (i # post)) = Ok (i, dec_at (pre @ [i]) post)"
  using assms dec_at_step [of pre "[i]" post] dec_at_len [OF assms] dec_at_pos [OF assms]
  by (simp add: ReadUInt8_def word_less_nat_alt) (simp add: dec_at_def)

lemma ReadBytes_be:
  assumes "room pre (be_bytes n w @ post)"
  shows "ReadBytes (of_nat n) (dec_at pre (be_bytes n w @ post)) =
         Ok (be_bytes n w, dec_at (pre @ be_bytes n w) post)"
  using ReadBytes_at [OF assms] by simp

interpretation uint8: codec "\<lambda>i. [i]" WriteUInt8 ReadUInt8 "\<lambda>_. True"
  by unfold_locales (simp_all add: WriteUInt8_def)

interpretation uint16: codec "be_bytes 2" WriteUInt16 ReadUInt16 "\<lambda>_. True"
  by unfold_locales (simp_all add: ReadBytes_be [where n = 2, simplified]
    WriteUInt16_def ReadUInt16_def be_word_be_bytes)

interpretation uint32: codec "be_bytes 4" WriteUInt32 ReadUInt32 "\<lambda>_. True"
  by unfold_locales (simp_all add: ReadBytes_be [where n = 4, simplified]
    WriteUInt32_def ReadUInt32_def be_word_be_bytes)

interpretation uint64: codec "be_bytes 8" WriteUInt64 ReadUInt64 "\<lambda>_. True"
  by unfold_locales (simp_all add: ReadBytes_be [where n = 8, simplified]
    WriteUInt64_def ReadUInt64_def be_word_be_bytes)

section \<open>Variable-length integers\<close>

lemma low_seven_bits: "(v OR 0x80) AND 0x7f = take_bit 7 v" for v :: byte
proof (rule bit_word_eqI)
  fix n
  assume "n < LENGTH(8)"
  then show "bit ((v OR 0x80) AND 0x7f) n = bit (take_bit 7 v) n"
    using bit_127 [of n, where ?'a = 8] bit_128 [of n, where ?'a = 8] by (auto simp: bit_simps)
qed

lemma uvarint_byte_split:
  fixes x w :: u64
  shows "(x OR push_bit s (ucast ((ucast w OR 0x80 :: byte) AND 0x7f))) OR
           push_bit (s + 7) (drop_bit 7 w) = x OR push_bit s w"
proof (rule bit_word_eqI)
  fix n
  assume n: "n < LENGTH(64)"
  have "7 + (n - (s + 7)) = n - s" if "s + 7 \<le> n"
    using that by simp
  with n show "bit ((x OR push_bit s (ucast ((ucast w OR 0x80 :: byte) AND 0x7f))) OR
      push_bit (s + 7) (drop_bit 7 w)) n = bit (x OR push_bit s w) n"
    unfolding low_seven_bits
    by (cases "s + 7 \<le> n") (auto simp: bit_simps)
qed

lemma uvarint_bytes_bounds:
  "0 < length (uvarint_bytes w)"
  "m \<le> 9 \<Longrightarrow> unat w < 2 ^ (1 + 7 * m) \<Longrightarrow> length (uvarint_bytes w) \<le> m + 1"
proof -
  show "0 < length (uvarint_bytes w)"
    by (subst uvarint_bytes.simps) simp
  show "m \<le> 9 \<Longrightarrow> unat w < 2 ^ (1 + 7 * m) \<Longrightarrow> length (uvarint_bytes w) \<le> m + 1"
  proof (induction w arbitrary: m rule: uvarint_bytes.induct)
    case (1 w)
    show ?case
    proof (cases "w < 0x80")
      case True
      then show ?thesis by (subst uvarint_bytes.simps) simp
    next
      case False
      then have "128 \<le> unat w" by (simp add: word_less_nat_alt)
      with "1.prems" obtain k where m: "m = Suc k"
        by (cases m) auto
      have "unat (drop_bit 7 w) = unat w div 128"
        by (simp add: drop_bit_eq_div unat_div)
      also have "\<dots> < 2 ^ (1 + 7 * k)"
        using "1.prems" by (simp add: m less_mult_imp_div_less power_add mult.commute)
      finally have "length (uvarint_bytes (drop_bit 7 w)) \<le> k + 1"
        using "1.IH" [OF False, of k] "1.prems" by (simp add: m)
      with False m show ?thesis
        by (subst uvarint_bytes.simps) simp
    qed
  qed
qed

lemma length_uvarint_bytes: "length (uvarint_bytes w) \<le> 10"
  using uvarint_bytes_bounds(2) [of 9 w] unsigned_less [of w, where ?'a = nat] by simp

lemma uvarint_loop_bytes:
  "i \<le> 9 \<Longrightarrow> unat w < 2 ^ (64 - 7 * i) \<Longrightarrow>
   uvarint_loop i x (7 * i) (uvarint_bytes w @ post) =
     (x OR push_bit (7 * i) w, int (i + length (uvarint_bytes w)))"
proof (induction w arbitrary: i x rule: uvarint_bytes.induct)
  case (1 w)
  show ?case
  proof (cases "w < 0x80")
    case True
    then have small: "unat w < 128" by (simp add: word_less_nat_alt)
    have "unat (ucast w :: byte) = take_bit LENGTH(8) (unat w)"
      by (rule unsigned_ucast_eq)
    also have "\<dots> = unat w"
      using small by (intro take_bit_nat_eq_self) simp
    finally have b: "unat (ucast w :: byte) = unat w" .
    have "(ucast (ucast w :: byte) :: u64) = w"
      using small b
      by (simp add: word_unat_eq_iff unsigned_ucast_eq unsigned_take_bit_eq)
    with True small b "1.prems" show ?thesis
      by (auto simp: word_less_nat_alt uvarint_bytes.simps [of w])
  next
    case False
    then have big: "128 \<le> unat w" by (simp add: word_less_nat_alt)
    have "\<not> 57 \<le> 7 * i"
    proof
      assume "57 \<le> 7 * i"
      then have "(2::nat) ^ (64 - 7 * i) \<le> 2 ^ 7" by (intro power_increasing) auto
      with big "1.prems" show False by simp
    qed
    then have i: "Suc i \<le> 9" by simp
    have "64 - 7 * i = (64 - 7 * Suc i) + 7"
      using \<open>\<not> 57 \<le> 7 * i\<close> by simp
    then have "(2::nat) ^ (64 - 7 * i) = 2 ^ (64 - 7 * Suc i) * 2 ^ 7"
      by (metis power_add)
    then have "unat (drop_bit 7 w) < 2 ^ (64 - 7 * Suc i)"
      using "1.prems" by (simp add: drop_bit_eq_div unat_div less_mult_imp_div_less)
    from "1.IH" [OF False i this] have rec: "\<And>y.
      uvarint_loop (Suc i) y (7 * i + 7) (uvarint_bytes (drop_bit 7 w) @ post) =
        (y OR push_bit (7 * i + 7) (drop_bit 7 w), int (Suc i + length (uvarint_bytes (drop_bit 7 w))))"
      by (simp add: add.commute)
    have "\<not> (ucast w OR 0x80 :: byte) < 0x80"
      using le_word_or1 [of "0x80 :: byte" "ucast w"] by (simp add: or.commute not_less)
    with False i rec show ?thesis
      by (simp add: uvarint_byte_split uvarint_bytes.simps [of w])
  qed
qed

lemma Uvarint_bytes: "Uvarint (uvarint_bytes w @ post) = (w, int (length (uvarint_bytes w)))"
  using uvarint_loop_bytes [of 0 w 0 post] unsigned_less [of w, where ?'a = nat]
  by (simp add: Uvarint_def)

lemma slice_ahead:
  assumes "room pre post"
  shows "go_slice (pos (dec_at pre post)) (len64 (dec_at pre post)) (dbuf (dec_at pre post)) =
         Ok post"
  using dec_at_len [OF assms] dec_at_pos [OF assms]
  by (simp add: go_slice_def word_le_nat_alt) (simp add: dec_at_def)

lemma ReadVarint_at [simp, read_simps]:
  assumes "room pre (uvarint_bytes w @ post)"
  shows "ReadVarint (dec_at pre (uvarint_bytes w @ post)) =
         Ok (w, dec_at (pre @ uvarint_bytes w) post)"
  using uvarint_bytes_bounds(1) [of w] dec_at_step(2) [OF assms]
  by (simp add: ReadVarint_def Uvarint_bytes slice_ahead [OF assms])

interpretation varint: codec uvarint_bytes WriteVarint ReadVarint "\<lambda>_. True"
  by unfold_locales (simp_all add: WriteVarint_def)

section \<open>Byte slices and strings\<close>

lemma room_append [simp]: "room pre (p @ q @ post) \<Longrightarrow> room (pre @ p) (q @ post)"
  by (simp add: room_def)

lemma room_append_Cons [simp]: "room pre (p @ i # post) \<Longrightarrow> room (pre @ p) (i # post)"
  by (simp add: room_def)

lemma room_Cons [simp]: "room pre (i # post) \<Longrightarrow> room (pre @ [i]) post"
  by (simp add: room_def)

lemma room_tail [simp]: "room pre (p @ post) \<Longrightarrow> room (pre @ p) post"
  by (simp add: room_def)

lemma ReadData_at [simp, read_simps]:
  assumes "room pre (data_wire p @ post)"
  shows "ReadData (dec_at pre (data_wire p @ post)) = Ok (p, dec_at (pre @ data_wire p) post)"
  using assms ReadBytes_at [of "pre @ uvarint_bytes (of_nat (length p))" p post]
  by (simp add: ReadData_def data_wire_def)

lemma ReadString_at [simp, read_simps]:
  assumes "room pre (data_wire p @ post)"
  shows "ReadString (dec_at pre (data_wire p @ post)) = Ok (p, dec_at (pre @ data_wire p) post)"
  using assms by (simp add: ReadString_def)

lemma WriteData_wire [wire_simps]: "ebuf (WriteData p e) = ebuf e @ data_wire p"
  by (simp add: WriteData_def data_wire_def WriteBytes_def WriteVarint_def Let_def)

interpretation data: codec data_wire WriteData ReadData "\<lambda>_. True"
  by unfold_locales (simp_all add: WriteData_wire)

interpretation str: codec data_wire WriteString ReadString "\<lambda>_. True"
  by unfold_locales (simp_all add: WriteData_wire WriteString_def)

section \<open>Maps and slices of strings\<close>

context codec
begin

text \<open>
  A map whose keys this pair of operations carries: the loop of the reader rebuilds, entry by
  entry, the association list the loop of the writer walked.
\<close>

lemma write_entries:
  "ebuf (fold (\<lambda>(k, v) e. WriteString v (wr k e)) m e) =
   ebuf e @ concat (map (\<lambda>(k, v). wire k @ data_wire v) m)"
  by (induction m arbitrary: e) (auto simp: str.write_wire write_wire)

lemma read_entries:
  assumes "go_map (acc @ m)" and "list_all (\<lambda>(k, v). fits k) m"
    and "room pre (concat (map (\<lambda>(k, v). wire k @ data_wire v) m) @ post)"
  shows "read_map_loop rd (length m) acc
           (dec_at pre (concat (map (\<lambda>(k, v). wire k @ data_wire v) m) @ post)) =
         Ok (acc @ m, dec_at (pre @ concat (map (\<lambda>(k, v). wire k @ data_wire v) m)) post)"
  using assms
proof (induction m arbitrary: acc pre)
  case Nil
  then show ?case by simp
next
  case (Cons kv m)
  obtain k v where kv: "kv = (k, v)" by (cases kv)
  let ?rest = "concat (map (\<lambda>(k, v). wire k @ data_wire v) m) @ post"
  from Cons.prems kv have room: "room pre (wire k @ data_wire v @ ?rest)" by simp
  from Cons.prems kv have "k \<notin> fst ` set acc" by (auto simp: go_map_def)
  then have upd: "AList.update k v acc = acc @ [(k, v)]"
    by (rule update_fresh)
  show ?case
    using Cons.IH [of "acc @ [(k, v)]" "(pre @ wire k) @ data_wire v"] Cons.prems
      room read_wire [of k pre "data_wire v @ ?rest"] room_append [OF room]
    by (simp add: kv upd)
qed

end

lemma sint_of_int [simp]:
  "- (2 ^ (LENGTH('a) - 1)) \<le> i \<Longrightarrow> i < 2 ^ (LENGTH('a) - 1) \<Longrightarrow>
   sint (word_of_int i :: 'a::len word) = i"
  by transfer (simp add: signed_take_bit_int_eq_self)

lemma loop_count_of_nat [simp]: "n < 2 ^ 63 \<Longrightarrow> loop_count (of_nat n) = n"
proof -
  assume n: "n < 2 ^ 63"
  have "sint (of_nat n :: u64) = int n"
    using n sint_of_int [of "int n", where ?'a = 64] by simp
  then show ?thesis by (simp add: loop_count_def)
qed

lemma WriteStrMap_wire: "ebuf (WriteStrMap m e) = ebuf e @ str_map_wire m"
  by (simp add: WriteStrMap_def str_map_wire_def str.write_entries varint.write_wire)

lemma ReadStrMap_at [simp, read_simps]:
  assumes "str_map_ok m" and "room pre (str_map_wire m @ post)"
  shows "ReadStrMap (dec_at pre (str_map_wire m @ post)) =
         Ok (m, dec_at (pre @ str_map_wire m) post)"
  using assms str.read_entries [of "[]" m "pre @ uvarint_bytes (of_nat (length m))" post]
  by (simp add: ReadStrMap_def str_map_wire_def str_map_ok_def case_prod_beta list_all_iff)

interpretation str_map: codec str_map_wire WriteStrMap ReadStrMap str_map_ok
  by unfold_locales (simp_all add: WriteStrMap_wire)

lemma WriteUInt8Map_wire: "ebuf (WriteUInt8Map m e) = ebuf e @ u8map_wire m"
  using uint8.write_entries [of m "WriteUInt8 (of_nat (length m)) e"]
  by (simp add: WriteUInt8Map_def u8map_wire_def uint8.write_wire)

lemma ReadUInt8Map_at [simp, read_simps]:
  assumes "u8map_ok m" and "room pre (u8map_wire m @ post)"
  shows "ReadUInt8Map (dec_at pre (u8map_wire m @ post)) =
         Ok (m, dec_at (pre @ u8map_wire m) post)"
proof -
  have "unat (of_nat (length m) :: byte) = length m"
    using assms(1) by (simp add: u8map_ok_def unat_of_nat)
  then show ?thesis
    using assms uint8.read_entries [of "[]" m "pre @ [of_nat (length m)]" post]
    by (simp add: ReadUInt8Map_def u8map_wire_def u8map_ok_def case_prod_beta list_all_iff)
qed

interpretation u8map: codec u8map_wire WriteUInt8Map ReadUInt8Map u8map_ok
  by unfold_locales (simp_all add: WriteUInt8Map_wire)

lemma WriteStrings_wire: "ebuf (WriteStrings ss e) = ebuf e @ strings_wire ss"
proof -
  have "ebuf (fold WriteString ss e) = ebuf e @ concat (map data_wire ss)" for e
    by (induction ss arbitrary: e) (simp_all add: str.write_wire)
  then show ?thesis by (simp add: WriteStrings_def strings_wire_def varint.write_wire)
qed

lemma read_strings_loop_at:
  "room pre (concat (map data_wire ss) @ post) \<Longrightarrow>
   read_strings_loop (length ss) acc (dec_at pre (concat (map data_wire ss) @ post)) =
     Ok (acc @ ss, dec_at (pre @ concat (map data_wire ss)) post)"
proof (induction ss arbitrary: acc pre)
  case (Cons s ss)
  then show ?case
    using Cons.IH [of "pre @ data_wire s" "acc @ [s]"] by simp
qed simp

lemma ReadStrings_at [simp, read_simps]:
  assumes "length ss \<le> maxlen" "length ss < 2 ^ 63" and "room pre (strings_wire ss @ post)"
  shows "ReadStrings maxlen (dec_at pre (strings_wire ss @ post)) =
         Ok (ss, dec_at (pre @ strings_wire ss) post)"
  using assms read_strings_loop_at [of "pre @ uvarint_bytes (of_nat (length ss))" ss post "[]"]
  by (simp add: ReadStrings_def strings_wire_def)

interpretation strings: codec strings_wire WriteStrings "ReadStrings maxlen"
  "\<lambda>ss. length ss \<le> maxlen \<and> length ss < 2 ^ 63" for maxlen
  by unfold_locales (simp_all add: WriteStrings_wire)

section \<open>Booleans and signed integers\<close>

definition bool_wire :: "bool \<Rightarrow> bytes" where
  "bool_wire b = [of_bool b]"

interpretation boolean: codec bool_wire WriteBool ReadBool "\<lambda>_. True"
  by unfold_locales
    (auto simp: WriteBool_def ReadBool_def bool_wire_def uint8.write_wire of_bool_def)

interpretation int8: codec "\<lambda>i. [word_of_int i]" WriteInt8 ReadInt8
  "\<lambda>i. - (2 ^ 7) \<le> i \<and> i < 2 ^ 7"
  by unfold_locales (simp_all add: WriteInt8_def ReadInt8_def uint8.write_wire)

interpretation int16: codec "\<lambda>i. be_bytes 2 (word_of_int i :: u16)" WriteInt16 ReadInt16
  "\<lambda>i. - (2 ^ 15) \<le> i \<and> i < 2 ^ 15"
  by unfold_locales (simp_all add: WriteInt16_def ReadInt16_def uint16.write_wire uint16.read_wire)

interpretation int32: codec "\<lambda>i. be_bytes 4 (word_of_int i :: u32)" WriteInt32 ReadInt32
  "\<lambda>i. - (2 ^ 31) \<le> i \<and> i < 2 ^ 31"
  by unfold_locales (simp_all add: WriteInt32_def ReadInt32_def uint32.write_wire uint32.read_wire)

interpretation int64: codec "\<lambda>i. be_bytes 8 (word_of_int i :: u64)" WriteInt64 ReadInt64
  "\<lambda>i. - (2 ^ 63) \<le> i \<and> i < 2 ^ 63"
  by unfold_locales (simp_all add: WriteInt64_def ReadInt64_def uint64.write_wire uint64.read_wire)

lemma ReadAll_at [simp, read_simps]:
  assumes "room pre post"
  shows "ReadAll (dec_at pre post) = Ok (post, dec_at (pre @ post) [])"
proof (cases "post = []")
  case True
  then show ?thesis
    using assms dec_at_len [OF assms] dec_at_pos [OF assms]
    by (simp add: ReadAll_def word_le_nat_alt)
next
  case False
  then show ?thesis
    using assms dec_at_len [OF assms] dec_at_pos [OF assms]
    by (simp add: ReadAll_def word_le_nat_alt slice_ahead Let_def)
      (simp add: dec_at_def len64_def)
qed

section \<open>Properties\<close>

text \<open>
  A varint survives encoding and decoding for all \<open>2^64\<close> values, whatever follows it, and
  takes between one and ten bytes.
\<close>

theorem varint_roundtrip:
  "Uvarint (Marshal WriteVarint w @ post) = (w, int (length (Marshal WriteVarint w))) \<and>
   Unmarshal ReadVarint (Marshal WriteVarint w) = Ok w \<and>
   1 \<le> length (Marshal WriteVarint w) \<and> length (Marshal WriteVarint w) \<le> 10"
proof -
  have "length (uvarint_bytes w) < 2 ^ 63"
    using length_uvarint_bytes [of w] by simp
  then show ?thesis
    using varint.unmarshal_marshal [of w] uvarint_bytes_bounds(1) [of w] length_uvarint_bytes [of w]
    by (simp add: varint.marshal_wire Uvarint_bytes Suc_le_eq)
qed

text \<open>
  A string map survives encoding and decoding, in whatever order the runtime walks it while
  encoding: the decoded map is equal to it as a map.
\<close>

theorem str_map_roundtrip:
  assumes "str_map_ok m" and "length (Marshal WriteStrMap m) < 2 ^ 63"
  shows "\<exists>m'. Unmarshal ReadStrMap (Marshal WriteStrMap m) = Ok m' \<and> maps_equal m m'"
  using str_map.unmarshal_marshal [OF assms(1)] assms
  by (simp add: str_map.marshal_wire str_map_ok_def)

theorem str_map_roundtrip_witness:
  "\<exists>m'. Unmarshal ReadStrMap (Marshal WriteStrMap [(gs ''b'', gs ''1''), (gs ''a'', [])]) = Ok m' \<and>
     maps_equal [(gs ''b'', gs ''1''), (gs ''a'', [])] m'"
proof (rule str_map_roundtrip)
  show "str_map_ok [(gs ''b'', gs ''1''), (gs ''a'', [])]"
    by (simp add: str_map_ok_def go_map_def gs_def of_char_def)
  show "length (Marshal WriteStrMap [(gs ''b'', gs ''1''), (gs ''a'', [])]) < 2 ^ 63"
    by (simp add: str_map.marshal_wire str_map_wire_def data_wire_def gs_def
      uvarint_bytes.simps)
qed

text \<open>
  A property map with all 256 keys is encoded with the length byte 0 and decodes to the empty
  map: every property is lost. With fewer keys nothing is lost.
\<close>

theorem u8map_roundtrip_or_lost:
  assumes "go_map m" and "length (Marshal WriteUInt8Map m) < 2 ^ 63"
  shows "Unmarshal ReadUInt8Map (Marshal WriteUInt8Map m) = Ok (if length m < 256 then m else [])"
proof (cases "length m < 256")
  case True
  then show ?thesis
    using assms u8map.unmarshal_marshal [of m] by (simp add: u8map_ok_def u8map.marshal_wire)
next
  case False
  have "length m = card (fst ` set m)"
    using assms(1) by (metis distinct_card go_map_def length_map set_map)
  also have "\<dots> \<le> card (UNIV :: byte set)" by (rule card_mono) auto
  finally have "length m = 256" using False by (simp add: card_word)
  then have "u8map_wire m = [0 :: byte] @ concat (map (\<lambda>(k, v). k # data_wire v) m)"
    by (simp add: u8map_wire_def)
  then show ?thesis
    using False assms(2) ReadUInt8_at [of "[]" 0 "concat (map (\<lambda>(k, v). k # data_wire v) m)"]
    by (simp add: u8map.marshal_wire Unmarshal_def NewDecoder_at ReadUInt8Map_def room_def)
qed

theorem u8map_roundtrip_or_lost_witness:
  "Unmarshal ReadUInt8Map (Marshal WriteUInt8Map (map (\<lambda>i. (of_nat i, [])) [0..<256])) = Ok []"
proof -
  let ?m = "map (\<lambda>i. (of_nat i :: byte, [] :: gostring)) [0..<256]"
  have "inj_on (of_nat :: nat \<Rightarrow> byte) {0..<256}"
  proof (rule inj_onI)
    fix i j :: nat
    assume "i \<in> {0..<256}" "j \<in> {0..<256}" and eq: "(of_nat i :: byte) = of_nat j"
    from this(1,2) have "unat (of_nat i :: byte) = i" and "unat (of_nat j :: byte) = j"
      by (simp_all add: unat_of_nat del: of_nat_eq_iff)
    with eq show "i = j" by metis
  qed
  then have m: "go_map ?m"
    by (simp add: go_map_def comp_def distinct_map)
  have len: "length (Marshal WriteUInt8Map ?m) < 2 ^ 63"
    by (simp add: u8map.marshal_wire u8map_wire_def length_concat comp_def data_wire_def
      uvarint_bytes.simps sum_list_triv)
  from u8map_roundtrip_or_lost [OF m len] show ?thesis by simp
qed

text \<open>
  No encoder leaks the bytes of an earlier user: whatever pooled object the runtime hands
  out, \<open>NewEncoder\<close> starts empty, and \<open>Pick\<close> returns the buffer and gives back an empty encoder.
\<close>

theorem encoder_pool_clean:
  assumes "pool_ok ps"
  shows "ebuf (fst (NewEncoder pick ps)) = [] \<and> pool_ok (snd (NewEncoder pick ps)) \<and>
    fst (Pick e (snd (NewEncoder pick ps))) = ebuf e \<and>
    pool_ok (snd (Pick e (snd (NewEncoder pick ps))))"
  using assms
  by (auto simp: NewEncoder_def pool_get_def pool_ok_def list_all_iff new_encoder_def Pick_def
    free_def pool_put_def split: option.splits dest: in_set_takeD in_set_dropD)

theorem encoder_pool_clean_witness:
  "ebuf (fst (NewEncoder (Some 0) (snd (Pick \<lparr>ebuf = [1, 2]\<rparr> [])))) = []"
proof -
  have "pool_ok (snd (Pick \<lparr>ebuf = [1, 2]\<rparr> []))"
    by (simp add: pool_ok_def Pick_def free_def pool_put_def)
  from encoder_pool_clean [OF this, of "Some 0"] show ?thesis by blast
qed

end
