(* ===== verification/Decoder_Safety.thy ===== *)
theory Decoder_Safety
  imports Coder
begin

unbundle bit_operations_syntax

text \<open>
  What the decoder of src/coder/coder.go does on arbitrary bytes. \<open>reader\<close> is the frame every
  read operation keeps (the slice is not changed, the position only grows and stays inside it);
  \<open>total_reader\<close> adds that it never panics. All fixed-width reads, \<open>ReadVarint\<close> and
  \<open>ReadAll\<close> are total readers; \<open>ReadBytes\<close> is not: its bounds check adds the position and the
  length in 64 bits, and a length that wraps the sum passes the check.
\<close>

section \<open>Frames\<close>

definition moves :: "decoder \<Rightarrow> decoder \<Rightarrow> bool" where
  "moves d d' \<longleftrightarrow> wf_dec d' \<and> dbuf d' = dbuf d \<and> unat (pos d) \<le> unat (pos d')"

locale reader =
  fixes rd :: "'a reader"
  assumes frame: "wf_dec d \<Longrightarrow> rd d = Ok (x, d') \<Longrightarrow> moves d d'"

locale total_reader = reader +
  assumes no_panic: "wf_dec d \<Longrightarrow> rd d \<noteq> Panic"

lemma moves_refl [simp]: "wf_dec d \<Longrightarrow> moves d d"
  by (simp add: moves_def)

lemma moves_trans: "moves d d1 \<Longrightarrow> moves d1 d2 \<Longrightarrow> moves d d2"
  by (simp add: moves_def)

lemma moves_wf: "moves d d' \<Longrightarrow> wf_dec d'"
  by (simp add: moves_def)

context reader
begin

text \<open>A conversion of the value read keeps the frame, and keeps totality.\<close>

lemma frame_map:
  "wf_dec d \<Longrightarrow> obind (rd d) (\<lambda>(x, d1). Ok (f x, d1)) = Ok (y, d') \<Longrightarrow> moves d d'"
  by (cases "rd d") (auto dest: frame)

lemma panic_map: "obind (rd d) (\<lambda>(x, d1). Ok (f x, d1)) = Panic \<longleftrightarrow> rd d = Panic"
  by (cases "rd d") auto

end

section \<open>The reads of the decoder\<close>

lemma wf_dec_len: "wf_dec d \<Longrightarrow> unat (len64 d) = length (dbuf d)"
  by (simp add: wf_dec_def len64_def)

lemma unat_add_u64:
  "unat (a + b :: u64) =
     (if unat a + unat b < 2 ^ 64 then unat a + unat b else unat a + unat b - 2 ^ 64)"
proof (cases "unat a + unat b < 2 ^ 64")
  case True
  then show ?thesis by (simp add: unat_word_ariths)
next
  case False
  moreover have "unat a + unat b - 2 ^ 64 < 2 ^ 64"
    using unsigned_less [of a, where ?'a = nat] unsigned_less [of b, where ?'a = nat] by simp
  ultimately show ?thesis
    by (simp add: unat_word_ariths mod_if [of "unat a + unat b"])
qed

lemma ReadBytes_cases:
  assumes "wf_dec d"
  shows "ReadBytes l d =
    (if l = 0 then Ok ([], d)
     else if 2 ^ 64 \<le> unat (pos d) + unat l then Panic
     else if length (dbuf d) < unat (pos d) + unat l then Err ErrBufferTooShort
     else Ok (take (unat l) (drop (unat (pos d)) (dbuf d)), d\<lparr>pos := pos d + l\<rparr>))"
proof (cases "2 ^ 64 \<le> unat (pos d) + unat l")
  case True
  then have "unat (pos d + l) = unat (pos d) + unat l - 2 ^ 64"
    by (simp add: unat_add_u64)
  moreover have "unat l < 2 ^ 64"
    using unsigned_less [of l, where ?'a = nat] by simp
  ultimately have "unat (pos d + l) < unat (pos d)"
    using True by linarith
  then show ?thesis
    using assms True wf_dec_len [OF assms]
    by (auto simp: ReadBytes_def go_slice_def word_less_nat_alt word_le_nat_alt wf_dec_def)
next
  case False
  then have "unat (pos d + l) = unat (pos d) + unat l"
    by (simp add: unat_add_u64)
  then show ?thesis
    using False wf_dec_len [OF assms]
    by (auto simp: ReadBytes_def go_slice_def word_less_nat_alt word_le_nat_alt)
qed

interpretation read_bytes: reader "ReadBytes l" for l
proof
  fix d x d'
  assume "wf_dec d" and "ReadBytes l d = Ok (x, d')"
  then show "moves d d'"
    by (auto simp: ReadBytes_cases moves_def wf_dec_def unat_add_u64 split: if_splits)
qed

lemma ReadBytes_small_total:
  assumes "wf_dec d" and "unat l < 2 ^ 63"
  shows "ReadBytes l d \<noteq> Panic"
  using assms by (auto simp: ReadBytes_cases wf_dec_def)

interpretation read_uint8: total_reader ReadUInt8
proof
  fix d x d'
  assume wf: "wf_dec d"
  then have step: "unat (pos d + 1) = unat (pos d) + 1"
    by (simp add: unat_add_u64 wf_dec_def)
  show "ReadUInt8 d = Ok (x, d') \<Longrightarrow> moves d d'"
    using wf step by (auto simp: ReadUInt8_def moves_def wf_dec_def split: if_splits)
  show "ReadUInt8 d \<noteq> Panic"
    using wf step wf_dec_len [OF wf] by (auto simp: ReadUInt8_def word_less_nat_alt)
qed

lemma read_fixed_total:
  assumes "wf_dec d" and "unat l < 2 ^ 63"
  shows "obind (ReadBytes l d) (\<lambda>(bs, d1). Ok (f bs, d1)) \<noteq> Panic"
  using ReadBytes_small_total [OF assms] by (simp add: read_bytes.panic_map)

interpretation read_uint16: total_reader ReadUInt16
  by unfold_locales
    (auto simp: ReadUInt16_def read_fixed_total intro: read_bytes.frame_map)

interpretation read_uint32: total_reader ReadUInt32
  by unfold_locales
    (auto simp: ReadUInt32_def read_fixed_total intro: read_bytes.frame_map)

interpretation read_uint64: total_reader ReadUInt64
  by unfold_locales
    (auto simp: ReadUInt64_def read_fixed_total intro: read_bytes.frame_map)

interpretation read_bool: total_reader ReadBool
  by unfold_locales
    (auto simp: ReadBool_def read_uint8.panic_map read_uint8.no_panic intro: read_uint8.frame_map)

interpretation read_int8: total_reader ReadInt8
  by unfold_locales
    (auto simp: ReadInt8_def read_uint8.panic_map read_uint8.no_panic intro: read_uint8.frame_map)

interpretation read_int16: total_reader ReadInt16
  by unfold_locales
    (auto simp: ReadInt16_def read_uint16.panic_map read_uint16.no_panic
      intro: read_uint16.frame_map)

interpretation read_int32: total_reader ReadInt32
  by unfold_locales
    (auto simp: ReadInt32_def read_uint32.panic_map read_uint32.no_panic
      intro: read_uint32.frame_map)

interpretation read_int64: total_reader ReadInt64
  by unfold_locales
    (auto simp: ReadInt64_def read_uint64.panic_map read_uint64.no_panic
      intro: read_uint64.frame_map)

lemma uvarint_loop_len: "snd (uvarint_loop i x s bs) \<le> int (i + length bs)"
proof (induction i x s bs rule: uvarint_loop.induct)
  case (2 i x s b bs)
  then show ?case by (auto simp: not_less)
qed simp

lemma slice_rest:
  assumes "wf_dec d"
  shows "go_slice (pos d) (len64 d) (dbuf d) = Ok (drop (unat (pos d)) (dbuf d))"
  using assms wf_dec_len [OF assms] by (simp add: go_slice_def word_le_nat_alt wf_dec_def)

lemma ReadVarint_moves:
  assumes "wf_dec d" and "ReadVarint d = Ok (v, d')"
  shows "moves d d' \<and> unat (pos d) < unat (pos d')"
proof -
  let ?bs = "drop (unat (pos d)) (dbuf d)"
  obtain n where n: "Uvarint ?bs = (v, n)" "0 < n" "d' = d\<lparr>pos := pos d + word_of_int n\<rparr>"
    using assms(2) by (auto simp: ReadVarint_def slice_rest [OF assms(1)] split: prod.splits if_splits)
  have len: "n \<le> int (length ?bs)"
    using uvarint_loop_len [of 0 0 0 ?bs] n(1) by (simp add: Uvarint_def)
  define k where "k = nat n"
  have k: "word_of_int n = (of_nat k :: u64)" "k \<le> length ?bs" "0 < k"
    using n(2) len by (simp_all add: k_def)
  have "k < 2 ^ 63"
    using assms(1) k(2) by (simp add: wf_dec_def) linarith
  then have "unat (of_nat k :: u64) = k" by (rule unat_of_nat_u64)
  moreover have "unat (pos d) + k \<le> length (dbuf d)"
    using assms(1) k(2) by (simp add: wf_dec_def) linarith
  ultimately show ?thesis
    using k assms(1) by (simp add: n(3) moves_def wf_dec_def unat_add_u64)
qed

interpretation read_varint: total_reader ReadVarint
proof
  show "ReadVarint d = Ok (x, d') \<Longrightarrow> moves d d'" if "wf_dec d" for d x d'
    using ReadVarint_moves [OF that] by blast
  show "ReadVarint d \<noteq> Panic" if "wf_dec d" for d
    by (simp add: ReadVarint_def slice_rest [OF that] split: prod.splits)
qed

interpretation read_all: total_reader ReadAll
proof
  fix d x d'
  assume wf: "wf_dec d"
  show "ReadAll d \<noteq> Panic"
    by (simp add: ReadAll_def Let_def slice_rest [OF wf])
  show "ReadAll d = Ok (x, d') \<Longrightarrow> moves d d'"
    using wf wf_dec_len [OF wf]
    by (auto simp: ReadAll_def Let_def slice_rest [OF wf] moves_def word_le_nat_alt wf_dec_def
      split: if_splits)
qed

lemma ReadData_moves:
  assumes "wf_dec d" and "ReadData d = Ok (p, d')"
  shows "moves d d' \<and> unat (pos d) < unat (pos d')"
proof -
  obtain l d1 where v: "ReadVarint d = Ok (l, d1)" and b: "ReadBytes l d1 = Ok (p, d')"
    using assms(2) by (auto simp: ReadData_def outcome_Ok_obind)
  then have "moves d d1" "unat (pos d) < unat (pos d1)"
    using ReadVarint_moves [OF assms(1)] by blast+
  moreover from this(1) b have "moves d1 d'"
    by (blast intro: read_bytes.frame dest: moves_wf)
  ultimately show ?thesis
    by (auto simp: moves_def)
qed

interpretation read_data: reader ReadData
  by unfold_locales (blast dest: ReadData_moves)

lemma ReadString_eq_ReadData: "ReadString d = ReadData d"
  by (cases "ReadData d") (auto simp: ReadString_def)

interpretation read_string: reader ReadString
  by unfold_locales (auto simp: ReadString_eq_ReadData dest: ReadData_moves)

section \<open>Map loops\<close>

context reader
begin

text \<open>
  Every entry of a map costs at least one byte (the length prefix of its value), whatever the
  announced count: a loop that returns has read no more entries than bytes.
\<close>

lemma map_loop_moves:
  assumes "wf_dec d" and "read_map_loop rd n m d = Ok (m', d')"
  shows "moves d d' \<and> unat (pos d) + n \<le> unat (pos d') \<and> length m' \<le> length m + n
    \<and> (go_map m \<longrightarrow> go_map m')"
  using assms
proof (induction n arbitrary: m d)
  case 0
  then show ?case by simp
next
  case (Suc n)
  then obtain k d1 v d2 where
    k: "rd d = Ok (k, d1)" and v: "ReadString d1 = Ok (v, d2)"
    and rest: "read_map_loop rd n (AList.update k v m) d2 = Ok (m', d')"
    by (auto simp: outcome_Ok_obind)
  from Suc.prems(1) k have 1: "moves d d1" by (rule frame)
  then have 2: "moves d1 d2 \<and> unat (pos d1) < unat (pos d2)"
    using v ReadData_moves [of d1] by (simp add: ReadString_eq_ReadData moves_wf)
  then have "wf_dec d2" by (blast dest: moves_wf)
  moreover have "length (AList.update k v m) \<le> length m + 1"
    by (induction m) auto
  ultimately show ?case
    using Suc.IH [of d2 "AList.update k v m"] rest 1 2
    by (auto dest: moves_trans simp: moves_def)
qed

end

interpretation read_str_map: reader ReadStrMap
  by unfold_locales
    (auto simp: ReadStrMap_def outcome_Ok_obind
      dest: read_string.map_loop_moves [rotated] read_varint.frame intro: moves_wf moves_trans)

interpretation read_u8map: reader ReadUInt8Map
  by unfold_locales
    (auto simp: ReadUInt8Map_def outcome_Ok_obind
      dest: read_uint8.map_loop_moves [rotated] read_uint8.frame intro: moves_wf moves_trans)

section \<open>Properties\<close>

text \<open>
  The integer, boolean and varint reads and \<open>ReadAll\<close> never panic, on any bytes and at any
  position inside them, and a read that succeeds leaves the slice alone and moves the position
  forward inside it.
\<close>

theorem fixed_reads_safe:
  assumes "wf_dec d"
  shows "ReadUInt8 d \<noteq> Panic \<and> ReadUInt16 d \<noteq> Panic \<and> ReadUInt32 d \<noteq> Panic \<and>
    ReadUInt64 d \<noteq> Panic \<and> ReadBool d \<noteq> Panic \<and> ReadInt64 d \<noteq> Panic \<and>
    ReadVarint d \<noteq> Panic \<and> ReadAll d \<noteq> Panic \<and>
    (\<forall>v d'. ReadUInt64 d = Ok (v, d') \<longrightarrow> moves d d') \<and>
    (\<forall>v d'. ReadVarint d = Ok (v, d') \<longrightarrow> moves d d' \<and> pos d < pos d') \<and>
    (\<forall>p d'. ReadString d = Ok (p, d') \<longrightarrow> moves d d' \<and> pos d < pos d')"
  using assms ReadVarint_moves [OF assms] ReadData_moves [OF assms]
  by (auto simp: read_uint8.no_panic read_uint16.no_panic read_uint32.no_panic
    read_uint64.no_panic read_bool.no_panic read_int64.no_panic read_varint.no_panic
    read_all.no_panic word_less_nat_alt ReadString_eq_ReadData intro: read_uint64.frame)

theorem fixed_reads_safe_witness:
  "wf_dec (NewDecoder [0xff, 0x01, 0x02]) \<and> ReadVarint (NewDecoder [0xff, 0x01, 0x02]) \<noteq> Panic"
proof -
  have wf: "wf_dec (NewDecoder [0xff, 0x01, 0x02])"
    by (simp add: wf_dec_def NewDecoder_def)
  from fixed_reads_safe [OF wf] wf show ?thesis by blast
qed

text \<open>
  A length prefix that wraps the 64-bit sum of position and length defeats the bounds check
  of \<open>ReadBytes\<close>: the slice expression panics. Any reader of a string or a byte slice is
  exposed, with at most ten bytes of input.
\<close>

theorem ReadString_length_wrap_panics:
  assumes "room pre (uvarint_bytes l @ post)"
    and "2 ^ 64 \<le> length pre + length (uvarint_bytes l) + unat l"
  shows "ReadString (dec_at pre (uvarint_bytes l @ post)) = Panic"
proof -
  let ?d = "dec_at (pre @ uvarint_bytes l) post"
  have wf: "wf_dec ?d" using assms(1) by simp
  have "unat (pos ?d) = length pre + length (uvarint_bytes l)"
    using assms(1) dec_at_pos [of "pre @ uvarint_bytes l" post] by simp
  moreover have "l \<noteq> 0"
    using assms by (auto simp: room_def)
  ultimately show ?thesis
    using assms ReadBytes_cases [OF wf, of l]
    by (simp add: ReadString_eq_ReadData ReadData_def)
qed

theorem ReadString_length_wrap_panics_witness:
  "ReadString (dec_at [] (uvarint_bytes 0xffffffffffffffff @ [])) = Panic"
proof (rule ReadString_length_wrap_panics)
  show "room [] (uvarint_bytes 0xffffffffffffffff @ [])"
    using length_uvarint_bytes [of "0xffffffffffffffff"] by (simp add: room_def)
  show "2 ^ 64 \<le> length ([] :: bytes) + length (uvarint_bytes 0xffffffffffffffff)
    + unat (0xffffffffffffffff :: u64)"
    using uvarint_bytes_bounds(1) [of "0xffffffffffffffff"] by (simp add: Suc_le_eq)
qed

text \<open>
  A decoded string map has at most as many entries as bytes consumed, whatever count its
  prefix announces: the announced length drives no allocation, and the loop stops at the first
  missing byte.
\<close>

theorem ReadStrMap_entries_bounded:
  assumes "wf_dec d" and "ReadStrMap d = Ok (m, d')"
  shows "unat (pos d) + length m < unat (pos d') \<and> unat (pos d') \<le> length (dbuf d) \<and> go_map m"
proof -
  obtain l d1 where v: "ReadVarint d = Ok (l, d1)"
    and loop: "read_map_loop ReadString (loop_count l) [] d1 = Ok (m, d')"
    using assms(2) by (auto simp: ReadStrMap_def outcome_Ok_obind)
  from ReadVarint_moves [OF assms(1) v] have "moves d d1" and "unat (pos d) < unat (pos d1)"
    by blast+
  then show ?thesis
    using read_string.map_loop_moves [OF moves_wf [OF \<open>moves d d1\<close>] loop]
    by (auto simp: moves_def wf_dec_def)
qed

theorem ReadStrMap_entries_bounded_witness:
  "\<exists>m d'. ReadStrMap (NewDecoder [1, 1, 0x61, 1, 0x62]) = Ok (m, d') \<and>
     unat (pos (NewDecoder [1, 1, 0x61, 1, 0x62])) + length m < unat (pos d') \<and> length m = 1"
proof -
  have wf: "wf_dec (NewDecoder [1, 1, 0x61, 1, 0x62])"
    by (simp add: wf_dec_def NewDecoder_def)
  have run: "ReadStrMap (NewDecoder [1, 1, 0x61, 1, 0x62]) =
      Ok ([([0x61], [0x62])], \<lparr>pos = 5, dbuf = [1, 1, 0x61, 1, 0x62]\<rparr>)"
    by code_simp
  from ReadStrMap_entries_bounded [OF wf run] run show ?thesis by auto
qed

end
