(* ===== verification/Errors.thy ===== *)
theory Errors
  imports Coder
begin

text \<open>
  The error values of the repository: \<open>xerr.Error\<close> (src/xerr/error.go), \<open>packet.Error\<close>
  (src/packet/packet.go), \<open>queue.Error\<close> (src/internal/queue/queue.go), \<open>client.Error\<close>
  (src/client/client.go), the code types of package \<open>packet\<close> and \<open>client\<close> that double as errors,
  and the errors of the standard library the code distinguishes. \<open>go_error\<close> is the interface
  type \<open>error\<close>: its constructors are the dynamic types a type switch can tell apart.
\<close>

datatype packet_error =
  ErrInvalidReadLen | ErrUnknownPacketType | ErrPacketSizeTooLarge | ErrMessageKindTooLarge

definition packet_Error :: "packet_error \<Rightarrow> string" where
  "packet_Error e = (case e of
     ErrInvalidReadLen \<Rightarrow> ''invalid length when read''
   | ErrUnknownPacketType \<Rightarrow> ''unknown packet type''
   | ErrPacketSizeTooLarge \<Rightarrow> ''packet size too large''
   | ErrMessageKindTooLarge \<Rightarrow> ''message kind too large'')"

datatype xerr =
  PeerNotReady | InvalidUserID | InvalidChannel | RequestTimeout | MessageTimeout
| ServerIsClosed | RaftNodeNotReady | InvalidPeerMessage | ConnectionIsClosed
| SendingQueueIsFull | ConnectionNotFound | ServerAlreadyClosed | NetworkNotSupported
| InvalidPeerMessageFlag

definition xerr_Error :: "xerr \<Rightarrow> string" where
  "xerr_Error e = (case e of
     PeerNotReady \<Rightarrow> ''broker peer not ready''
   | InvalidUserID \<Rightarrow> ''invalid user id''
   | RequestTimeout \<Rightarrow> ''request timeout''
   | MessageTimeout \<Rightarrow> ''message timeout''
   | ServerIsClosed \<Rightarrow> ''server is closed''
   | InvalidChannel \<Rightarrow> ''invalid channel''
   | RaftNodeNotReady \<Rightarrow> ''raft node not ready''
   | InvalidPeerMessage \<Rightarrow> ''invalid peer message''
   | ConnectionIsClosed \<Rightarrow> ''connection is closed''
   | SendingQueueIsFull \<Rightarrow> ''sending queue is full''
   | ConnectionNotFound \<Rightarrow> ''connection not found''
   | ServerAlreadyClosed \<Rightarrow> ''server already closed''
   | NetworkNotSupported \<Rightarrow> ''network not supported''
   | InvalidPeerMessageFlag \<Rightarrow> ''invalid peer message flag'')"

datatype queue_error = ErrQueueIsFull | ErrQueueIsClosed

datatype client_error =
  ErrInvalidPacket | ErrRequestTimeout | ErrConnectionFailed | ErrConnectionClosed
| ErrConnectionNotReady

text \<open>\<open>packet.CloseCode\<close>, \<open>packet.ConnectCode\<close> and \<open>packet.StatusCode\<close> are \<open>uint8\<close>, \<open>client.CloseReason\<close> is \<open>uint16\<close>.\<close>

datatype go_error =
  CoderError coder_error
| PacketError packet_error
| CloseCodeError byte
| ConnectCodeError byte
| StatusCodeError byte
| CloseReasonError u16
| XError xerr
| QueueError queue_error
| ClientError client_error
| ContextCanceled
| DeadlineExceeded
| OtherError string

text \<open>\<open>interface{ Timeout() bool }\<close>: of these types only \<open>context.DeadlineExceeded\<close> says yes.\<close>

fun is_timeout :: "go_error \<Rightarrow> bool" where
  "is_timeout DeadlineExceeded = True"
| "is_timeout _ = False"

end
