(* ===== verification/Backoff.thy ===== *)
theory Backoff
  imports Errors
begin

text \<open>
  Retry delays, src/backoff/backoff.go, and the retry counter, src/client/retrier.go.

  A \<open>time.Duration\<close> and a count are \<open>int64\<close>; \<open>int64_of\<close> is the wrap-around of their arithmetic. A
  \<open>Backoff\<close> is its method \<open>Next\<close>. The exponential and the random strategy compute with \<open>float64\<close>
  (theory \<open>Backoff_Float\<close>); a client's backoff is an arbitrary function.
\<close>

section \<open>Durations\<close>

definition int64_of :: "int \<Rightarrow> int" where
  "int64_of i = (i + 2 ^ 63) mod 2 ^ 64 - 2 ^ 63"

lemma int64_of_id: "- (2 ^ 63) \<le> i \<Longrightarrow> i < 2 ^ 63 \<Longrightarrow> int64_of i = i"
  by (simp add: int64_of_def)

definition Second :: int where
  "Second = 1000000000"

section \<open>Strategies\<close>

type_synonym backoff = "int \<Rightarrow> int"

definition Constant :: "int \<Rightarrow> backoff" where
  "Constant dur n = dur"

definition ConstantD :: backoff where
  "ConstantD = Constant (3 * Second)"

definition Linear :: "int \<Rightarrow> int \<Rightarrow> backoff" where
  "Linear base step n = int64_of (base + int64_of (n * step))"

definition LinearD :: backoff where
  "LinearD = Linear Second (5 * Second)"

section \<open>The retrier\<close>

text \<open>A nil filter filters nothing.\<close>

record retrier =
  r_limit :: int
  r_count :: int
  r_filter :: "(go_error \<Rightarrow> bool) option"
  r_backoff :: backoff

definition NewRetrier :: "int \<Rightarrow> backoff \<Rightarrow> retrier" where
  "NewRetrier limit b = \<lparr>r_limit = limit, r_count = 0, r_filter = None, r_backoff = b\<rparr>"

definition retrier_Filter :: "(go_error \<Rightarrow> bool) \<Rightarrow> retrier \<Rightarrow> retrier" where
  "retrier_Filter f r = r\<lparr>r_filter := Some f\<rparr>"

definition filtered :: "go_error \<Rightarrow> retrier \<Rightarrow> bool" where
  "filtered reason r \<longleftrightarrow> (case r_filter r of Some f \<Rightarrow> f reason | None \<Rightarrow> False)"

definition Retry :: "go_error \<Rightarrow> retrier \<Rightarrow> int option \<times> retrier" where
  "Retry reason r =
     (if filtered reason r then (None, r)
      else if r_count r \<ge> r_limit r then (None, r)
      else let r' = r\<lparr>r_count := int64_of (r_count r + 1)\<rparr> in (Some (r_backoff r' (r_count r')), r'))"

definition retrier_Reset :: "retrier \<Rightarrow> retrier" where
  "retrier_Reset r = r\<lparr>r_count := 0\<rparr>"

section \<open>Budget\<close>

text \<open>How many more times \<open>Retry\<close> can say yes.\<close>

definition budget :: "retrier \<Rightarrow> nat" where
  "budget r = nat (r_limit r - r_count r)"

definition retrier_ok :: "retrier \<Rightarrow> bool" where
  "retrier_ok r \<longleftrightarrow> 0 \<le> r_count r \<and> r_limit r < 2 ^ 63"

lemma Retry_yes:
  assumes "Retry reason r = (Some d, r')" and "retrier_ok r"
  shows "retrier_ok r'" and "budget r = Suc (budget r')" and "r_count r' = r_count r + 1"
    and "d = r_backoff r (r_count r + 1)" and "r_limit r' = r_limit r" and "r_backoff r' = r_backoff r"
    and "r_filter r' = r_filter r"
  using assms by (auto simp: Retry_def retrier_ok_def budget_def int64_of_id Let_def split: if_splits)

lemma Retry_no: "Retry reason r = (None, r') \<Longrightarrow> r' = r \<and> (filtered reason r \<or> budget r = 0)"
  by (auto simp: Retry_def budget_def Let_def split: if_splits)

lemma Retry_cases:
  assumes "retrier_ok r"
  shows "Retry reason r =
    (if filtered reason r \<or> budget r = 0 then (None, r)
     else (Some (r_backoff r (r_count r + 1)), r\<lparr>r_count := r_count r + 1\<rparr>))"
  using assms by (auto simp: Retry_def budget_def retrier_ok_def int64_of_id Let_def)

text \<open>
  What a client needs of a strategy to wait longer and longer: delays that are not negative and do
  not shrink as long as the count stays below a bound.
\<close>

locale growing_backoff =
  fixes nxt :: backoff and bound :: int
  assumes grows: "0 \<le> m \<Longrightarrow> m \<le> n \<Longrightarrow> n \<le> bound \<Longrightarrow> nxt m \<le> nxt n"
    and nonneg: "0 \<le> n \<Longrightarrow> n \<le> bound \<Longrightarrow> 0 \<le> nxt n"
begin

lemma sorted_delays: "int k \<le> bound \<Longrightarrow> sorted (map (\<lambda>i. nxt (int i)) [0..<Suc k])"
  by (auto simp: sorted_iff_nth_mono simp del: upt_Suc intro!: grows)

end

interpretation constant_default: growing_backoff ConstantD bound for bound
  by unfold_locales (simp_all add: ConstantD_def Constant_def Second_def)

text \<open>The default linear strategy is exact until the delay no longer fits an \<open>int64\<close>.\<close>

lemma LinearD_exact:
  assumes "0 \<le> n" and "n \<le> 1844674407"
  shows "LinearD n = Second + n * (5 * Second)"
proof -
  have "n * (5 * Second) \<le> 1844674407 * (5 * Second)" using assms(2) by (simp add: Second_def)
  then show ?thesis
    using assms(1) by (simp add: LinearD_def Linear_def Second_def int64_of_id)
qed

interpretation linear_default: growing_backoff LinearD 1844674407
proof
  show "LinearD m \<le> LinearD n" if "0 \<le> m" "m \<le> n" "n \<le> 1844674407" for m n
    using that by (simp add: LinearD_exact Second_def)
  show "0 \<le> LinearD n" if "0 \<le> n" "n \<le> 1844674407" for n
    using that by (simp add: LinearD_exact Second_def)
qed

text \<open>
  The linear strategy is the formula of its comment, grows with the count and is never negative
  as long as the delay fits; one retry later it has wrapped around to a negative delay, which a timer
  takes for no delay at all.
\<close>

theorem linear_backoff:
  "(\<forall>n. 0 \<le> n \<and> n \<le> 1844674407 \<longrightarrow> LinearD n = Second + n * (5 * Second)) \<and>
   sorted (map (\<lambda>i. LinearD (int i)) [0..<Suc 1844674407]) \<and>
   LinearD 1844674408 < 0"
  using LinearD_exact linear_default.sorted_delays [of 1844674407]
  by (simp add: LinearD_def Linear_def Second_def int64_of_def del: upt_Suc)

theorem linear_backoff_witness: "LinearD 2 = 11 * Second"
  using linear_backoff [THEN conjunct1, THEN spec, of 2] by simp

end
