(* ===== verification/Packet.thy ===== *)
theory Packet
  imports Errors Decoder_Safety
begin

unbundle bit_operations_syntax

text \<open>
  Package \<open>packet\<close> (src/packet): the eight packet structures with their \<open>WriteTo\<close> and
  \<open>ReadFrom\<close>, and the frame around them (\<open>Marshal\<close>, \<open>Unmarshal\<close>, \<open>ReadFrom\<close> over an
  \<open>io.Reader\<close>).

  Each struct is a record; the embedded \<open>packet\<close> with its property map is the field whose name
  ends in \<open>props\<close>. The interface \<open>Packet\<close> is the datatype \<open>packet\<close>. \<open>Connect.Identity\<close> is a
  pointer, so it is an option; encoding a nil identity panics.
\<close>

section \<open>Sizes, types and properties\<close>

definition MIN_LEN :: nat where "MIN_LEN = 0"
definition MID_LEN_1 :: nat where "MID_LEN_1 = 0x3ff"
definition MID_LEN_2 :: nat where "MID_LEN_2 = 0x3ffff"
definition MID_LEN_3 :: nat where "MID_LEN_3 = 0x3ffffff"
definition MAX_LEN :: nat where "MAX_LEN = 0x3ffffffff"
definition MAX_UDP :: nat where "MAX_UDP = MID_LEN_1 + 1"

definition CONNECT :: byte where "CONNECT = 0"
definition CONNACK :: byte where "CONNACK = 1"
definition MESSAGE :: byte where "MESSAGE = 2"
definition REQUEST :: byte where "REQUEST = 3"
definition RESPONSE :: byte where "RESPONSE = 4"
definition PING :: byte where "PING = 5"
definition PONG :: byte where "PONG = 6"
definition CLOSE :: byte where "CLOSE = 7"

lemmas packet_types =
  CONNECT_def CONNACK_def MESSAGE_def REQUEST_def RESPONSE_def PING_def PONG_def CLOSE_def

lemmas packet_lens = MID_LEN_1_def MID_LEN_2_def MID_LEN_3_def MAX_LEN_def

definition PropertyUserID :: byte where "PropertyUserID = 1"
definition PropertyChannel :: byte where "PropertyChannel = 2"
definition PropertyClientID :: byte where "PropertyClientID = 3"

type_synonym props = "(byte, gostring) gomap"

definition props_Get :: "byte \<Rightarrow> props \<Rightarrow> gostring option" where
  "props_Get key ps = map_of ps key"

definition props_Set :: "byte \<Rightarrow> gostring \<Rightarrow> props \<Rightarrow> props" where
  "props_Set key value ps = AList.update key value ps"

definition props_WriteTo :: "props \<Rightarrow> encoder \<Rightarrow> encoder" where
  "props_WriteTo ps c = WriteUInt8Map ps c"

definition props_ReadFrom :: "props reader" where
  "props_ReadFrom c = ReadUInt8Map c"

section \<open>Connect and Connack\<close>

record identity =
  UserID :: gostring
  ClientID :: gostring
  Password :: gostring

definition identity_WriteTo :: "identity \<Rightarrow> encoder \<Rightarrow> encoder" where
  "identity_WriteTo i w = WriteString (Password i) (WriteString (ClientID i) (WriteString (UserID i) w))"

definition identity_ReadFrom :: "identity reader" where
  "identity_ReadFrom r =
     obind (ReadString r) (\<lambda>(userID, r1). obind (ReadString r1) (\<lambda>(clientID, r2).
     obind (ReadString r2) (\<lambda>(password, r3).
       Ok (\<lparr>UserID = userID, ClientID = clientID, Password = password\<rparr>, r3))))"

text \<open>\<open>(*Identity).Equal\<close>: a nil argument is unequal, a nil receiver is dereferenced.\<close>

definition identity_Equal :: "identity option \<Rightarrow> identity option \<Rightarrow> (go_error, bool) outcome" where
  "identity_Equal i other =
     (case other of None \<Rightarrow> Ok False
      | Some o' \<Rightarrow> (case i of None \<Rightarrow> Panic
          | Some i' \<Rightarrow> Ok (UserID i' = UserID o' \<and> ClientID i' = ClientID o'
                          \<and> Password i' = Password o')))"

record connect =
  connect_props :: props
  Version :: byte
  Identity :: "identity option"

definition NewConnect :: "identity option \<Rightarrow> connect" where
  "NewConnect i = \<lparr>connect_props = [], Version = 1, Identity = i\<rparr>"

definition connect_WriteTo :: "connect \<Rightarrow> encoder \<Rightarrow> (go_error, encoder) outcome" where
  "connect_WriteTo p w =
     (let w1 = WriteUInt8 (Version p) w
      in case Identity p of
           None \<Rightarrow> Panic
         | Some i \<Rightarrow> Ok (props_WriteTo (connect_props p) (identity_WriteTo i w1)))"

definition connect_ReadFrom :: "connect reader" where
  "connect_ReadFrom r =
     obind (ReadUInt8 r) (\<lambda>(version, r1). obind (identity_ReadFrom r1) (\<lambda>(i, r2).
     obind (props_ReadFrom r2) (\<lambda>(ps, r3).
       Ok (\<lparr>connect_props = ps, Version = version, Identity = Some i\<rparr>, r3))))"

definition ConnectAccepted :: byte where "ConnectAccepted = 0"
definition ConnectAuthfail :: byte where "ConnectAuthfail = 1"
definition ConnectDuplicate :: byte where "ConnectDuplicate = 2"
definition ConnectServerError :: byte where "ConnectServerError = 3"

definition ConnectCode_String :: "byte \<Rightarrow> string" where
  "ConnectCode_String c =
     (if c = ConnectAccepted then ''Connection Accepted''
      else if c = ConnectAuthfail then ''Connection Rejected''
      else if c = ConnectDuplicate then ''Connection Duplicate''
      else if c = ConnectServerError then ''Server Error''
      else ''Unknown Connack Code'')"

record connack =
  connack_props :: props
  connack_Code :: byte

definition NewConnack :: "byte \<Rightarrow> connack" where
  "NewConnack code = \<lparr>connack_props = [], connack_Code = code\<rparr>"

definition connack_WriteTo :: "connack \<Rightarrow> encoder \<Rightarrow> encoder" where
  "connack_WriteTo p w = props_WriteTo (connack_props p) (WriteUInt8 (connack_Code p) w)"

definition connack_ReadFrom :: "connack reader" where
  "connack_ReadFrom r =
     obind (ReadUInt8 r) (\<lambda>(code, r1). obind (props_ReadFrom r1) (\<lambda>(ps, r2).
       Ok (\<lparr>connack_props = ps, connack_Code = code\<rparr>, r2)))"

section \<open>Message, Request and Response\<close>

record message =
  message_props :: props
  Kind :: byte
  Payload :: bytes

definition NewMessage :: "bytes \<Rightarrow> message" where
  "NewMessage payload = \<lparr>message_props = [], Kind = 0, Payload = payload\<rparr>"

definition message_WriteTo :: "message \<Rightarrow> encoder \<Rightarrow> encoder" where
  "message_WriteTo p w =
     WriteBytes (Payload p) (props_WriteTo (message_props p) (WriteUInt8 (Kind p) w))"

definition message_ReadFrom :: "message reader" where
  "message_ReadFrom r =
     obind (ReadUInt8 r) (\<lambda>(kind, r1). obind (props_ReadFrom r1) (\<lambda>(ps, r2).
     obind (ReadAll r2) (\<lambda>(payload, r3).
       Ok (\<lparr>message_props = ps, Kind = kind, Payload = payload\<rparr>, r3))))"

record request =
  request_props :: props
  request_ID :: u16
  Method :: gostring
  request_Body :: bytes

record response =
  response_props :: props
  response_id :: u16
  response_Code :: byte
  response_Body :: bytes

definition NewRequest :: "gostring \<Rightarrow> bytes list \<Rightarrow> request" where
  "NewRequest method body =
     \<lparr>request_props = [], request_ID = 0, Method = method,
      request_Body = (case body of [] \<Rightarrow> [] | b # _ \<Rightarrow> b)\<rparr>"

definition request_Response :: "request \<Rightarrow> byte \<Rightarrow> bytes list \<Rightarrow> response" where
  "request_Response p code content =
     \<lparr>response_props = [], response_id = request_ID p, response_Code = code,
      response_Body = (case content of [] \<Rightarrow> [] | b # _ \<Rightarrow> b)\<rparr>"

definition request_WriteTo :: "request \<Rightarrow> encoder \<Rightarrow> encoder" where
  "request_WriteTo p w =
     WriteBytes (request_Body p) (props_WriteTo (request_props p)
       (WriteString (Method p) (WriteUInt16 (request_ID p) w)))"

definition request_ReadFrom :: "request reader" where
  "request_ReadFrom r =
     obind (ReadUInt16 r) (\<lambda>(i, r1). obind (ReadString r1) (\<lambda>(method, r2).
     obind (props_ReadFrom r2) (\<lambda>(ps, r3). obind (ReadAll r3) (\<lambda>(body, r4).
       Ok (\<lparr>request_props = ps, request_ID = i, Method = method, request_Body = body\<rparr>, r4)))))"

definition StatusUnknown :: byte where "StatusUnknown = 0"
definition StatusOK :: byte where "StatusOK = 200"
definition StatusNotFound :: byte where "StatusNotFound = 100"
definition StatusUnauthorized :: byte where "StatusUnauthorized = 101"
definition StatusInternalError :: byte where "StatusInternalError = 102"
definition StatusInvalidParams :: byte where "StatusInvalidParams = 103"
definition StatusForbidden :: byte where "StatusForbidden = 104"
definition StatusBadRequest :: byte where "StatusBadRequest = 255"

definition StatusCode_String :: "byte \<Rightarrow> string" where
  "StatusCode_String s =
     (if s = StatusOK then ''OK'' else if s = StatusNotFound then ''Not Found''
      else if s = StatusUnauthorized then ''Unauthorized''
      else if s = StatusInternalError then ''Internal Error''
      else if s = StatusInvalidParams then ''Invalid Parameters''
      else if s = StatusForbidden then ''Forbidden''
      else if s = StatusBadRequest then ''Bad Request'' else ''Unknown Status'')"

definition StatusCode_IsOK :: "byte \<Rightarrow> bool" where
  "StatusCode_IsOK s \<longleftrightarrow> s = StatusOK"

definition response_WriteTo :: "response \<Rightarrow> encoder \<Rightarrow> encoder" where
  "response_WriteTo p w =
     WriteBytes (response_Body p) (props_WriteTo (response_props p)
       (WriteUInt8 (response_Code p) (WriteUInt16 (response_id p) w)))"

definition response_ReadFrom :: "response reader" where
  "response_ReadFrom r =
     obind (ReadUInt16 r) (\<lambda>(i, r1). obind (ReadUInt8 r1) (\<lambda>(code, r2).
     obind (props_ReadFrom r2) (\<lambda>(ps, r3). obind (ReadAll r3) (\<lambda>(b, r4).
       Ok (\<lparr>response_props = ps, response_id = i, response_Code = code, response_Body = b\<rparr>, r4)))))"

section \<open>Close\<close>

definition CloseNormal :: byte where "CloseNormal = 0"
definition CloseKickedOut :: byte where "CloseKickedOut = 1"
definition CloseNoHeartbeat :: byte where "CloseNoHeartbeat = 2"
definition ClosePingTimeOut :: byte where "ClosePingTimeOut = 3"
definition CloseAuthFailure :: byte where "CloseAuthFailure = 4"
definition CloseAuthTimeout :: byte where "CloseAuthTimeout = 5"
definition CloseInvalidPacket :: byte where "CloseInvalidPacket = 6"
definition CloseInternalError :: byte where "CloseInternalError = 7"
definition CloseDuplicateLogin :: byte where "CloseDuplicateLogin = 8"
definition CloseServerShutdown :: byte where "CloseServerShutdown = 9"
definition CloseServerExpeled :: byte where "CloseServerExpeled = 10"

definition closeCodeMap :: "(byte, string) gomap" where
  "closeCodeMap =
     [(CloseNormal, ''Normal''), (CloseKickedOut, ''Kicked Out''),
      (CloseNoHeartbeat, ''No Heartbeat''), (ClosePingTimeOut, ''Ping Time Out''),
      (CloseAuthFailure, ''Authentication Failure''),
      (CloseAuthTimeout, ''Authentication Timeout''),
      (CloseInvalidPacket, ''Invalid Packet''), (CloseInternalError, ''Internal Error''),
      (CloseDuplicateLogin, ''Duplicate Login''), (CloseServerShutdown, ''Server Shutdown''),
      (CloseServerExpeled, ''Server Expeled'')]"

definition CloseCode_String :: "byte \<Rightarrow> string" where
  "CloseCode_String c = (case map_of closeCodeMap c of Some s \<Rightarrow> s | None \<Rightarrow> ''Unknown'')"

definition AsCloseCode :: "go_error \<Rightarrow> byte" where
  "AsCloseCode err =
     (case err of
        CloseCodeError e \<Rightarrow> e
      | PacketError _ \<Rightarrow> CloseInvalidPacket
      | CoderError _ \<Rightarrow> CloseInvalidPacket
      | _ \<Rightarrow> CloseInternalError)"

record close =
  close_props :: props
  close_Code :: byte

definition NewClose :: "byte \<Rightarrow> close" where
  "NewClose code = \<lparr>close_props = [], close_Code = code\<rparr>"

definition close_WriteTo :: "close \<Rightarrow> encoder \<Rightarrow> encoder" where
  "close_WriteTo p w = props_WriteTo (close_props p) (WriteUInt8 (close_Code p) w)"

definition close_ReadFrom :: "close reader" where
  "close_ReadFrom r =
     obind (ReadUInt8 r) (\<lambda>(code, r1). obind (props_ReadFrom r1) (\<lambda>(ps, r2).
       Ok (\<lparr>close_props = ps, close_Code = code\<rparr>, r2)))"

section \<open>The interface Packet\<close>

datatype packet =
  PConnect connect | PConnack connack | PMessage message | PRequest request
| PResponse response | PPing props | PPong props | PClose close

definition NewPing :: packet where "NewPing = PPing []"
definition NewPong :: packet where "NewPong = PPong []"

fun packet_Type :: "packet \<Rightarrow> byte" where
  "packet_Type (PConnect _) = CONNECT"
| "packet_Type (PConnack _) = CONNACK"
| "packet_Type (PMessage _) = MESSAGE"
| "packet_Type (PRequest _) = REQUEST"
| "packet_Type (PResponse _) = RESPONSE"
| "packet_Type (PPing _) = PING"
| "packet_Type (PPong _) = PONG"
| "packet_Type (PClose _) = CLOSE"

definition PacketType_String :: "byte \<Rightarrow> string" where
  "PacketType_String t =
     (if t = CONNECT then ''CONNECT'' else if t = CONNACK then ''CONNACK''
      else if t = MESSAGE then ''MESSAGE'' else if t = REQUEST then ''REQUEST''
      else if t = RESPONSE then ''RESPONSE'' else if t = PING then ''PING''
      else if t = PONG then ''PONG'' else if t = CLOSE then ''CLOSE'' else ''UNKNOWN'')"

fun packet_props :: "packet \<Rightarrow> props" where
  "packet_props (PConnect p) = connect_props p"
| "packet_props (PConnack p) = connack_props p"
| "packet_props (PMessage p) = message_props p"
| "packet_props (PRequest p) = request_props p"
| "packet_props (PResponse p) = response_props p"
| "packet_props (PPing ps) = ps"
| "packet_props (PPong ps) = ps"
| "packet_props (PClose p) = close_props p"

definition packet_Get :: "byte \<Rightarrow> packet \<Rightarrow> gostring option" where
  "packet_Get key p = props_Get key (packet_props p)"

fun packet_Set :: "byte \<Rightarrow> gostring \<Rightarrow> packet \<Rightarrow> packet" where
  "packet_Set k v (PConnect p) = PConnect (p\<lparr>connect_props := props_Set k v (connect_props p)\<rparr>)"
| "packet_Set k v (PConnack p) = PConnack (p\<lparr>connack_props := props_Set k v (connack_props p)\<rparr>)"
| "packet_Set k v (PMessage p) = PMessage (p\<lparr>message_props := props_Set k v (message_props p)\<rparr>)"
| "packet_Set k v (PRequest p) = PRequest (p\<lparr>request_props := props_Set k v (request_props p)\<rparr>)"
| "packet_Set k v (PResponse p) = PResponse (p\<lparr>response_props := props_Set k v (response_props p)\<rparr>)"
| "packet_Set k v (PPing ps) = PPing (props_Set k v ps)"
| "packet_Set k v (PPong ps) = PPong (props_Set k v ps)"
| "packet_Set k v (PClose p) = PClose (p\<lparr>close_props := props_Set k v (close_props p)\<rparr>)"

text \<open>
  The methods \<open>Equal\<close>: the argument is a \<open>Packet\<close> interface value, nil being \<open>None\<close>; the type test
  is the case distinction.
\<close>

definition connect_Equal :: "connect \<Rightarrow> packet option \<Rightarrow> (go_error, bool) outcome" where
  "connect_Equal p other =
     (case other of
        Some (PConnect q) \<Rightarrow>
          if maps_equal (connect_props p) (connect_props q) \<and> Version p = Version q
          then identity_Equal (Identity p) (Identity q) else Ok False
      | _ \<Rightarrow> Ok False)"

definition connack_Equal :: "connack \<Rightarrow> packet option \<Rightarrow> bool" where
  "connack_Equal p other =
     (case other of
        Some (PConnack q) \<Rightarrow>
          maps_equal (connack_props p) (connack_props q) \<and> connack_Code p = connack_Code q
      | _ \<Rightarrow> False)"

definition message_Equal :: "message \<Rightarrow> packet option \<Rightarrow> bool" where
  "message_Equal p other =
     (case other of
        Some (PMessage q) \<Rightarrow>
          Kind p = Kind q \<and> maps_equal (message_props p) (message_props q) \<and> Payload p = Payload q
      | _ \<Rightarrow> False)"

definition request_Equal :: "request \<Rightarrow> packet option \<Rightarrow> bool" where
  "request_Equal p other =
     (case other of
        Some (PRequest q) \<Rightarrow>
          maps_equal (request_props p) (request_props q) \<and> request_ID p = request_ID q
          \<and> Method p = Method q \<and> request_Body p = request_Body q
      | _ \<Rightarrow> False)"

definition response_Equal :: "response \<Rightarrow> packet option \<Rightarrow> bool" where
  "response_Equal p other =
     (case other of
        Some (PResponse q) \<Rightarrow>
          maps_equal (response_props p) (response_props q) \<and> response_id p = response_id q
          \<and> response_Code p = response_Code q \<and> response_Body p = response_Body q
      | _ \<Rightarrow> False)"

definition ping_Equal :: "props \<Rightarrow> packet option \<Rightarrow> bool" where
  "ping_Equal ps other = (case other of Some (PPing qs) \<Rightarrow> maps_equal ps qs | _ \<Rightarrow> False)"

definition pong_Equal :: "props \<Rightarrow> packet option \<Rightarrow> bool" where
  "pong_Equal ps other = (case other of Some (PPong qs) \<Rightarrow> maps_equal ps qs | _ \<Rightarrow> False)"

definition close_Equal :: "close \<Rightarrow> packet option \<Rightarrow> bool" where
  "close_Equal p other =
     (case other of
        Some (PClose q) \<Rightarrow>
          maps_equal (close_props p) (close_props q) \<and> close_Code p = close_Code q
      | _ \<Rightarrow> False)"

fun packet_Equal :: "packet \<Rightarrow> packet option \<Rightarrow> (go_error, bool) outcome" where
  "packet_Equal (PConnect p) other = connect_Equal p other"
| "packet_Equal (PConnack p) other = Ok (connack_Equal p other)"
| "packet_Equal (PMessage p) other = Ok (message_Equal p other)"
| "packet_Equal (PRequest p) other = Ok (request_Equal p other)"
| "packet_Equal (PResponse p) other = Ok (response_Equal p other)"
| "packet_Equal (PPing ps) other = Ok (ping_Equal ps other)"
| "packet_Equal (PPong ps) other = Ok (pong_Equal ps other)"
| "packet_Equal (PClose p) other = Ok (close_Equal p other)"

lemmas packet_Equals = connect_Equal_def connack_Equal_def message_Equal_def request_Equal_def
  response_Equal_def ping_Equal_def pong_Equal_def close_Equal_def

fun packet_WriteTo :: "packet \<Rightarrow> encoder \<Rightarrow> (go_error, encoder) outcome" where
  "packet_WriteTo (PConnect p) w = connect_WriteTo p w"
| "packet_WriteTo (PConnack p) w = Ok (connack_WriteTo p w)"
| "packet_WriteTo (PMessage p) w = Ok (message_WriteTo p w)"
| "packet_WriteTo (PRequest p) w = Ok (request_WriteTo p w)"
| "packet_WriteTo (PResponse p) w = Ok (response_WriteTo p w)"
| "packet_WriteTo (PPing ps) w = Ok (props_WriteTo ps w)"
| "packet_WriteTo (PPong ps) w = Ok (props_WriteTo ps w)"
| "packet_WriteTo (PClose p) w = Ok (close_WriteTo p w)"

section \<open>Frames\<close>

text \<open>
  The header is one byte with the type in its high nibble, the number of extra length bytes in
  bits 2 and 3 and the top two bits of the length below them, then the length, big-endian.
  \<open>l\<close> is Go's \<open>int\<close> length as a 64-bit word (lengths are below \<open>2^63\<close>).
\<close>

definition packet_Marshal :: "packet \<Rightarrow> (go_error, bytes) outcome" where
  "packet_Marshal p =
     obind (packet_WriteTo p (WriteBytes (replicate 5 0) (fst (NewEncoder None [])))) (\<lambda>ec.
       let data = fst (Pick ec []);
           n = length data - 5;
           l = (of_nat n :: u64);
           t = push_bit 4 (packet_Type p)
       in if n \<le> MID_LEN_1 then
            Ok (drop 3 (data[3 := t OR ucast (drop_bit 8 l), 4 := ucast l]))
          else if n \<le> MID_LEN_2 then
            Ok (drop 2 (data[2 := t OR push_bit 2 1 OR ucast (drop_bit 16 l),
                             3 := ucast (drop_bit 8 l), 4 := ucast l]))
          else if n \<le> MID_LEN_3 then
            Ok (drop 1 (data[1 := t OR push_bit 2 2 OR ucast (drop_bit 24 l),
                             2 := ucast (drop_bit 16 l), 3 := ucast (drop_bit 8 l),
                             4 := ucast l]))
          else if n \<le> MAX_LEN then
            Ok (data[0 := t OR push_bit 2 3 OR ucast (drop_bit 32 l),
                     1 := ucast (drop_bit 24 l), 2 := ucast (drop_bit 16 l),
                     3 := ucast (drop_bit 8 l), 4 := ucast l])
          else Err (PacketError ErrPacketSizeTooLarge))"

definition unpack_as :: "('a \<Rightarrow> packet) \<Rightarrow> 'a reader \<Rightarrow> bytes \<Rightarrow> (go_error, packet) outcome" where
  "unpack_as con rd data = omap con (map_err CoderError (Unmarshal rd data))"

definition unpack :: "bytes \<Rightarrow> bytes \<Rightarrow> (go_error, packet) outcome" where
  "unpack header data =
     (case header of [] \<Rightarrow> Panic
      | h # _ \<Rightarrow>
        (let t = drop_bit 4 h
         in if t = CONNECT then unpack_as PConnect connect_ReadFrom data
            else if t = CONNACK then unpack_as PConnack connack_ReadFrom data
            else if t = MESSAGE then unpack_as PMessage message_ReadFrom data
            else if t = REQUEST then unpack_as PRequest request_ReadFrom data
            else if t = RESPONSE then unpack_as PResponse response_ReadFrom data
            else if t = PING then unpack_as PPing props_ReadFrom data
            else if t = PONG then unpack_as PPong props_ReadFrom data
            else if t = CLOSE then unpack_as PClose close_ReadFrom data
            else Err (PacketError ErrUnknownPacketType)))"

text \<open>The two header bytes give the number of further length bytes and the top of the length.\<close>

definition header_count :: "bytes \<Rightarrow> byte" where
  "header_count header = drop_bit 2 (header ! 0) AND 0x03"

definition header_length :: "bytes \<Rightarrow> u64" where
  "header_length header = push_bit 8 (ucast (header ! 0 AND 0x03)) OR ucast (header ! 1)"

definition packet_Unmarshal :: "bytes \<Rightarrow> (go_error, packet) outcome" where
  "packet_Unmarshal bs =
     obind (map_err CoderError (ReadBytes 2 (NewDecoder bs))) (\<lambda>(header, dc).
     obind (if header_count header > 0
            then obind (map_err CoderError (ReadBytes (ucast (header_count header)) dc))
                   (\<lambda>(cs, dc1). Ok (foldl shift_in (header_length header) cs, dc1))
            else Ok (header_length header, dc)) (\<lambda>(len, dc1).
     obind (if len > 0 then map_err CoderError (ReadBytes len dc1) else Ok ([], dc1))
       (\<lambda>(data, dc2). unpack header data)))"

text \<open>
  An \<open>io.Reader\<close> delivers the stream in chunks: one \<open>Read\<close> fills the front of its buffer with
  what the next chunk has, at most the whole buffer, and fails at the end of the stream. The
  code ignores the number of bytes read, so the rest of the freshly made buffer stays zero.
\<close>

fun io_Read :: "nat \<Rightarrow> bytes list \<Rightarrow> (go_error, bytes \<times> bytes list) outcome" where
  "io_Read n [] = Err (OtherError ''EOF'')"
| "io_Read n (c # cs) =
     Ok (if length c \<le> n then (c, cs) else (take n c, drop n c # cs))"

definition read_buf :: "nat \<Rightarrow> bytes list \<Rightarrow> (go_error, bytes \<times> bytes list) outcome" where
  "read_buf n r =
     obind (io_Read n r) (\<lambda>(got, r1). Ok (got @ replicate (n - length got) 0, r1))"

definition packet_ReadFrom :: "bytes list \<Rightarrow> (go_error, packet \<times> bytes list) outcome" where
  "packet_ReadFrom r =
     obind (read_buf 2 r) (\<lambda>(header, r1).
     obind (if header_count header > 0
            then obind (read_buf (unat (header_count header)) r1)
                   (\<lambda>(cs, r2). Ok (foldl shift_in (header_length header) cs, r2))
            else Ok (header_length header, r1)) (\<lambda>(len, r2).
     obind (if len > 0 then read_buf (unat len) r2 else Ok ([], r2)) (\<lambda>(data, r3).
       omap (\<lambda>p. (p, r3)) (unpack header data))))"

text \<open>
  \<open>packet.WriteTo\<close>: one \<open>Write\<close> of the whole frame, one more chunk on the stream, unless the
  writer reports an error.
\<close>

definition packet_WriteTo_stream ::
  "bytes list \<Rightarrow> go_error option \<Rightarrow> packet \<Rightarrow> (go_error, bytes list) outcome" where
  "packet_WriteTo_stream w write_err p =
     obind (packet_Marshal p) (\<lambda>data.
       case write_err of None \<Rightarrow> Ok (w @ [data]) | Some e \<Rightarrow> Err e)"

end
