(* ===== verification/Framing.thy ===== *)
theory Framing
  imports Packet
begin

unbundle bit_operations_syntax

text \<open>
  Correctness of the packet format of src/packet: every packet body is undone by its reader, the
  header by its parser, and both survive the frame; what the stream reader does with a stream
  that arrives in pieces; and when decoding panics.
\<close>

section \<open>Bodies\<close>

text \<open>
  A body is the last thing in its slice, so its reader may take everything that is left. This
  is weaker than \<open>codec\<close>, which allows anything to follow.
\<close>

locale body_codec =
  fixes wire :: "'a \<Rightarrow> bytes"
    and wr :: "'a \<Rightarrow> encoder \<Rightarrow> encoder"
    and rd :: "'a reader"
    and fits :: "'a \<Rightarrow> bool"
  assumes body_wire: "ebuf (wr x e) = ebuf e @ wire x"
    and body_read: "fits x \<Longrightarrow> room pre (wire x) \<Longrightarrow>
      rd (dec_at pre (wire x)) = Ok (x, dec_at (pre @ wire x) [])"
begin

lemma body_roundtrip:
  "fits x \<Longrightarrow> length (wire x) < 2 ^ 63 \<Longrightarrow> Unmarshal rd (wire x) = Ok x"
  using body_read [of x "[]"] by (simp add: Unmarshal_def NewDecoder_at room_def)

lemma unpack_body:
  "fits x \<Longrightarrow> length (wire x) < 2 ^ 63 \<Longrightarrow> unpack_as con rd (wire x) = Ok (con x)"
  by (simp add: unpack_as_def body_roundtrip)

end

sublocale codec \<subseteq> body: body_codec wire wr rd fits
proof
  show "rd (dec_at pre (wire x)) = Ok (x, dec_at (pre @ wire x) [])"
    if "fits x" and "room pre (wire x)" for x pre
    using read_wire [of x pre "[]"] that by simp
qed (rule write_wire)

definition identity_wire :: "identity \<Rightarrow> bytes" where
  "identity_wire i = data_wire (UserID i) @ data_wire (ClientID i) @ data_wire (Password i)"

definition connack_wire :: "connack \<Rightarrow> bytes" where
  "connack_wire p = [connack_Code p] @ u8map_wire (connack_props p)"

definition message_wire :: "message \<Rightarrow> bytes" where
  "message_wire p = [Kind p] @ u8map_wire (message_props p) @ Payload p"

definition request_wire :: "request \<Rightarrow> bytes" where
  "request_wire p = be_bytes 2 (request_ID p) @ data_wire (Method p)
     @ u8map_wire (request_props p) @ request_Body p"

definition response_wire :: "response \<Rightarrow> bytes" where
  "response_wire p = be_bytes 2 (response_id p) @ [response_Code p]
     @ u8map_wire (response_props p) @ response_Body p"

definition close_wire :: "close \<Rightarrow> bytes" where
  "close_wire p = [close_Code p] @ u8map_wire (close_props p)"

definition connect_wire :: "connect \<Rightarrow> bytes" where
  "connect_wire p =
     (case Identity p of None \<Rightarrow> []
      | Some i \<Rightarrow> [Version p] @ identity_wire i @ u8map_wire (connect_props p))"

fun packet_wire :: "packet \<Rightarrow> bytes" where
  "packet_wire (PConnect p) = connect_wire p"
| "packet_wire (PConnack p) = connack_wire p"
| "packet_wire (PMessage p) = message_wire p"
| "packet_wire (PRequest p) = request_wire p"
| "packet_wire (PResponse p) = response_wire p"
| "packet_wire (PPing ps) = u8map_wire ps"
| "packet_wire (PPong ps) = u8map_wire ps"
| "packet_wire (PClose p) = close_wire p"

text \<open>What a packet needs to be encoded without loss.\<close>

fun packet_ok :: "packet \<Rightarrow> bool" where
  "packet_ok (PConnect p) \<longleftrightarrow> u8map_ok (connect_props p) \<and> Identity p \<noteq> None"
| "packet_ok p \<longleftrightarrow> u8map_ok (packet_props p)"

lemmas write_wires =
  uint8.write_wire uint16.write_wire uint32.write_wire uint64.write_wire varint.write_wire
  data.write_wire str.write_wire str_map.write_wire u8map.write_wire

lemma WriteBytes_wire: "ebuf (WriteBytes p e) = ebuf e @ p"
  by (simp add: WriteBytes_def)

lemma room_ConsI: "room pre ([i] @ post) \<Longrightarrow> room pre (i # post)"
  by (simp add: room_def)

interpretation props_body: body_codec u8map_wire props_WriteTo props_ReadFrom u8map_ok
  by unfold_locales
    (simp_all add: props_WriteTo_def props_ReadFrom_def u8map.body.body_wire u8map.body.body_read)

interpretation identity: codec identity_wire identity_WriteTo identity_ReadFrom "\<lambda>_. True"
proof
  show "ebuf (identity_WriteTo x e) = ebuf e @ identity_wire x" for x e
    by (simp add: identity_WriteTo_def identity_wire_def write_wires)
  show "identity_ReadFrom (dec_at pre (identity_wire x @ post)) =
      Ok (x, dec_at (pre @ identity_wire x) post)"
    if "room pre (identity_wire x @ post)" for pre x post
    using that
      str.read_wire [of pre "UserID x" "data_wire (ClientID x) @ data_wire (Password x) @ post"]
      str.read_wire [of "pre @ data_wire (UserID x)" "ClientID x" "data_wire (Password x) @ post"]
      str.read_wire [of "(pre @ data_wire (UserID x)) @ data_wire (ClientID x)" "Password x" post]
    by (simp add: identity_ReadFrom_def identity_wire_def room_def)
qed

interpretation connack_body: body_codec connack_wire connack_WriteTo connack_ReadFrom
  "\<lambda>p. u8map_ok (connack_props p)"
proof
  show "ebuf (connack_WriteTo x e) = ebuf e @ connack_wire x" for x e
    by (simp add: connack_WriteTo_def connack_wire_def props_WriteTo_def write_wires)
  show "connack_ReadFrom (dec_at pre (connack_wire x)) = Ok (x, dec_at (pre @ connack_wire x) [])"
    if "u8map_ok (connack_props x)" "room pre (connack_wire x)" for x pre
    using that u8map.body.body_read [of "connack_props x" "pre @ [connack_Code x]"]
    by (simp add: connack_ReadFrom_def connack_wire_def props_ReadFrom_def room_def)
qed

interpretation close_body: body_codec close_wire close_WriteTo close_ReadFrom
  "\<lambda>p. u8map_ok (close_props p)"
proof
  show "ebuf (close_WriteTo x e) = ebuf e @ close_wire x" for x e
    by (simp add: close_WriteTo_def close_wire_def props_WriteTo_def write_wires)
  show "close_ReadFrom (dec_at pre (close_wire x)) = Ok (x, dec_at (pre @ close_wire x) [])"
    if "u8map_ok (close_props x)" "room pre (close_wire x)" for x pre
    using that u8map.body.body_read [of "close_props x" "pre @ [close_Code x]"]
    by (simp add: close_ReadFrom_def close_wire_def props_ReadFrom_def room_def)
qed

interpretation message_body: body_codec message_wire message_WriteTo message_ReadFrom
  "\<lambda>p. u8map_ok (message_props p)"
proof
  show "ebuf (message_WriteTo x e) = ebuf e @ message_wire x" for x e
    by (simp add: message_WriteTo_def message_wire_def props_WriteTo_def write_wires WriteBytes_wire)
  show "message_ReadFrom (dec_at pre (message_wire x)) = Ok (x, dec_at (pre @ message_wire x) [])"
    if "u8map_ok (message_props x)" "room pre (message_wire x)" for x pre
    using that u8map.read_wire [of "message_props x" "pre @ [Kind x]" "Payload x"]
    by (simp add: message_ReadFrom_def message_wire_def props_ReadFrom_def room_def)
qed

interpretation response_body: body_codec response_wire response_WriteTo response_ReadFrom
  "\<lambda>p. u8map_ok (response_props p)"
proof
  show "ebuf (response_WriteTo x e) = ebuf e @ response_wire x" for x e
    by (simp add: response_WriteTo_def response_wire_def props_WriteTo_def write_wires WriteBytes_wire)
  show "response_ReadFrom (dec_at pre (response_wire x)) =
      Ok (x, dec_at (pre @ response_wire x) [])"
    if "u8map_ok (response_props x)" "room pre (response_wire x)" for x pre
    using that
      uint16.read_wire [of pre "response_id x"
        "[response_Code x] @ u8map_wire (response_props x) @ response_Body x"]
      u8map.read_wire [of "response_props x"
        "(pre @ be_bytes 2 (response_id x)) @ [response_Code x]" "response_Body x"]
    by (simp add: response_ReadFrom_def response_wire_def props_ReadFrom_def room_def)
qed

interpretation request_body: body_codec request_wire request_WriteTo request_ReadFrom
  "\<lambda>p. u8map_ok (request_props p)"
proof
  show "ebuf (request_WriteTo x e) = ebuf e @ request_wire x" for x e
    by (simp add: request_WriteTo_def request_wire_def props_WriteTo_def write_wires WriteBytes_wire)
  show "request_ReadFrom (dec_at pre (request_wire x)) =
      Ok (x, dec_at (pre @ request_wire x) [])"
    if "u8map_ok (request_props x)" "room pre (request_wire x)" for x pre
    using that
      uint16.read_wire [of pre "request_ID x"
        "data_wire (Method x) @ u8map_wire (request_props x) @ request_Body x"]
      str.read_wire [of "pre @ be_bytes 2 (request_ID x)" "Method x"
        "u8map_wire (request_props x) @ request_Body x"]
      u8map.read_wire [of "request_props x"
        "(pre @ be_bytes 2 (request_ID x)) @ data_wire (Method x)" "request_Body x"]
    by (simp add: request_ReadFrom_def request_wire_def props_ReadFrom_def room_def)
qed

lemma connect_body_read:
  assumes "Identity p = Some i" and "u8map_ok (connect_props p)" and "room pre (connect_wire p)"
  shows "connect_ReadFrom (dec_at pre (connect_wire p)) = Ok (p, dec_at (pre @ connect_wire p) [])"
  using assms
    identity.read_wire [of "pre @ [Version p]" i "u8map_wire (connect_props p)"]
    u8map.body.body_read [of "connect_props p" "(pre @ [Version p]) @ identity_wire i"]
  by (simp add: connect_ReadFrom_def connect_wire_def props_ReadFrom_def room_def)

lemma connect_unpack:
  assumes "Identity p \<noteq> None" and "u8map_ok (connect_props p)" and "length (connect_wire p) < 2 ^ 63"
  shows "unpack_as PConnect connect_ReadFrom (connect_wire p) = Ok (PConnect p)"
proof -
  obtain i where "Identity p = Some i" using assms(1) by blast
  then show ?thesis
    using connect_body_read [of p i "[]"] assms
    by (simp add: unpack_as_def Unmarshal_def NewDecoder_at room_def)
qed

lemma packet_WriteTo_wire:
  "packet_ok p \<Longrightarrow> \<exists>w'. packet_WriteTo p w = Ok w' \<and> ebuf w' = ebuf w @ packet_wire p"
  by (cases p) (auto simp: connect_WriteTo_def connect_wire_def identity.write_wire
    connack_body.body_wire message_body.body_wire request_body.body_wire
    response_body.body_wire props_body.body_wire close_body.body_wire write_wires)

section \<open>Headers\<close>

lemma and_3: "x AND 3 = take_bit 2 x" for x :: "'a::len word"
  by (simp add: take_bit_eq_mask mask_eq_exp_minus_1)

lemma bit_of_take_bit: "take_bit n x = x \<Longrightarrow> bit x k \<Longrightarrow> k < n" for x :: "'a::len word"
  by (metis bit_take_bit_iff)

lemma header_fields:
  fixes t k s :: byte
  assumes "take_bit 4 t = t" and "take_bit 2 k = k" and "take_bit 2 s = s"
  shows "drop_bit 4 (push_bit 4 t OR push_bit 2 k OR s) = t"
    and "drop_bit 2 (push_bit 4 t OR push_bit 2 k OR s) AND 3 = k"
    and "(push_bit 4 t OR push_bit 2 k OR s) AND 3 = s"
proof -
  note small = bit_of_take_bit [OF assms(1)] bit_of_take_bit [OF assms(2)]
    bit_of_take_bit [OF assms(3)]
  show "drop_bit 4 (push_bit 4 t OR push_bit 2 k OR s) = t"
    by (rule bit_word_eqI) (use small in \<open>fastforce simp: bit_simps\<close>)
  show "drop_bit 2 (push_bit 4 t OR push_bit 2 k OR s) AND 3 = k"
    unfolding and_3 by (rule bit_word_eqI) (use small in \<open>fastforce simp: bit_simps\<close>)
  show "(push_bit 4 t OR push_bit 2 k OR s) AND 3 = s"
    unfolding and_3 by (rule bit_word_eqI) (use small in \<open>fastforce simp: bit_simps\<close>)
qed

text \<open>
  The bytes \<open>Marshal\<close> puts in front of a body of \<open>n\<close> bytes: the type, the number \<open>k\<close> of extra
  length bytes and the length, big-endian, in \<open>k + 2\<close> bytes whose first has room for two bits.
\<close>

definition extra_bytes :: "nat \<Rightarrow> nat" where
  "extra_bytes n =
     (if n \<le> MID_LEN_1 then 0 else if n \<le> MID_LEN_2 then 1 else if n \<le> MID_LEN_3 then 2 else 3)"

definition frame_header :: "byte \<Rightarrow> nat \<Rightarrow> bytes" where
  "frame_header t n =
     (let k = extra_bytes n; bs = be_bytes (k + 2) (of_nat n :: u64)
      in (push_bit 4 t OR push_bit 2 (of_nat k) OR hd bs) # tl bs)"

lemma be_bytes_numerals:
  "be_bytes 2 w = [ucast (drop_bit 8 w), ucast w]"
  "be_bytes 3 w = [ucast (drop_bit 16 w), ucast (drop_bit 8 w), ucast w]"
  "be_bytes 4 w = [ucast (drop_bit 24 w), ucast (drop_bit 16 w), ucast (drop_bit 8 w), ucast w]"
  "be_bytes 5 w = [ucast (drop_bit 32 w), ucast (drop_bit 24 w), ucast (drop_bit 16 w),
     ucast (drop_bit 8 w), ucast w]"
  by (simp_all add: numeral_eq_Suc)

lemma Marshal_frame:
  assumes "packet_ok p"
  shows "packet_Marshal p =
    (if length (packet_wire p) \<le> MAX_LEN
     then Ok (frame_header (packet_Type p) (length (packet_wire p)) @ packet_wire p)
     else Err (PacketError ErrPacketSizeTooLarge))"
proof -
  obtain w where w: "packet_WriteTo p (WriteBytes (replicate 5 0) new_encoder) = Ok w"
    and buf: "ebuf w = replicate 5 0 @ packet_wire p"
    using packet_WriteTo_wire [OF assms, of "WriteBytes (replicate 5 0) new_encoder"]
    by (auto simp: WriteBytes_def new_encoder_def)
  have five: "replicate 5 (0::byte) = [0, 0, 0, 0, 0]"
    by (simp add: numeral_eq_Suc)
  have new: "fst (NewEncoder None []) = new_encoder"
    by (simp add: NewEncoder_def pool_get_def)
  show ?thesis
    unfolding packet_Marshal_def new w obind.simps Pick_def fst_conv
    unfolding buf five
    by (simp add: Let_def frame_header_def extra_bytes_def be_bytes_numerals packet_lens)
qed

lemma extra_bytes_bound: "n \<le> MAX_LEN \<Longrightarrow> n < 2 ^ (8 * (extra_bytes n + 1) + 2)"
  by (auto simp: extra_bytes_def packet_lens)

lemma extra_bytes_le: "extra_bytes n \<le> 3"
  by (simp add: extra_bytes_def)

lemma length_frame_header [simp]: "length (frame_header t n) = extra_bytes n + 2"
proof -
  have "length (be_bytes (extra_bytes n + 2) (of_nat n :: u64)) = extra_bytes n + 2" by simp
  then show ?thesis by (simp add: frame_header_def Let_def del: be_bytes.simps)
qed

lemma top_length_byte:
  assumes "n < 2 ^ (8 * (k + 1) + 2)" and "k \<le> 3"
  obtains s bs where "be_bytes (k + 2) (of_nat n :: u64) = s # bs" and "take_bit 2 s = s"
proof -
  define w :: u64 where "w = of_nat n"
  define s :: byte where "s = ucast (drop_bit (8 * (k + 1)) w)"
  have "8 * (k + 1) + 2 \<le> 63" using assms(2) by simp
  then have "(2::nat) ^ (8 * (k + 1) + 2) \<le> 2 ^ 63" by (intro power_increasing) auto
  then have n: "n < 2 ^ 63" using assms(1) by simp
  then have "take_bit (8 * (k + 1) + 2) w = w"
    using assms(1) by (simp add: w_def word_unat_eq_iff unsigned_take_bit_eq take_bit_nat_eq_self)
  then have high: "bit w i \<Longrightarrow> i < 8 * (k + 1) + 2" for i
    by (rule bit_of_take_bit)
  have "bit s i \<Longrightarrow> i < 2" for i
    using high [of "8 * (k + 1) + i"] by (auto simp: s_def bit_simps ac_simps)
  then have "take_bit 2 s = s"
    by (intro bit_word_eqI) (auto simp: bit_take_bit_iff)
  with be_bytes_top [of "k + 1" "of_nat n :: u64"] that [of s "be_bytes (k + 1) (of_nat n :: u64)"]
  show ?thesis by (simp add: s_def w_def del: be_bytes.simps)
qed

lemma be_word_Cons2: "foldl shift_in (push_bit 8 (ucast a) OR ucast b) cs = (be_word (a # b # cs) :: u64)"
  by (simp add: be_word_def shift_in_def)

lemma header_parse:
  assumes "take_bit 4 t = t" and "n \<le> MAX_LEN"
  obtains h0 h1 cs where "frame_header t n = h0 # h1 # cs" and "length cs = extra_bytes n"
    and "drop_bit 4 h0 = t" and "header_count [h0, h1] = of_nat (extra_bytes n)"
    and "foldl shift_in (header_length [h0, h1]) cs = of_nat n"
proof -
  let ?k = "extra_bytes n"
  obtain s bs where bs: "be_bytes (?k + 2) (of_nat n :: u64) = s # bs" and s: "take_bit 2 s = s"
    using top_length_byte [OF extra_bytes_bound [OF assms(2)] extra_bytes_le] .
  have "length (s # bs) = ?k + 2"
    by (metis bs length_be_bytes)
  then have "length bs = ?k + 1" by simp
  then obtain h1 cs where cs: "bs = h1 # cs" "length cs = ?k"
    by (cases bs) auto
  have k: "take_bit 2 (of_nat ?k :: byte) = of_nat ?k"
    by (simp add: extra_bytes_def)
  define h0 where "h0 = push_bit 4 t OR push_bit 2 (of_nat ?k) OR s"
  note hf = header_fields [OF assms(1) k s, folded h0_def]
  have "be_word (s # bs) = take_bit (8 * (?k + 2)) (of_nat n :: u64)"
    by (metis be_word_be_bytes bs)
  also have "\<dots> = of_nat n"
  proof -
    have "n < 2 ^ (8 * (?k + 2))"
      using extra_bytes_bound [OF assms(2)]
      by (rule order.strict_trans2) (intro power_increasing, auto)
    moreover have "n < 2 ^ 63" using assms(2) by (simp add: MAX_LEN_def)
    ultimately show ?thesis
      by (simp add: word_unat_eq_iff unsigned_take_bit_eq take_bit_nat_eq_self)
  qed
  finally have "foldl shift_in (header_length [h0, h1]) cs = of_nat n"
    using hf(3) by (simp add: header_length_def be_word_Cons2 cs)
  with hf cs bs that [of h0 h1 cs] show ?thesis
    by (simp add: frame_header_def Let_def header_count_def h0_def)
qed

section \<open>Whole packets\<close>

lemma packet_Type_small: "take_bit 4 (packet_Type p) = packet_Type p"
  by (cases p) (simp_all add: packet_types)

lemma unpack_wire:
  assumes "packet_ok p" and "length (packet_wire p) < 2 ^ 63" and "drop_bit 4 h0 = packet_Type p"
  shows "unpack (h0 # hs) (packet_wire p) = Ok p"
  using assms
  by (cases p) (simp_all add: unpack_def Let_def packet_types connect_unpack
    connack_body.unpack_body message_body.unpack_body request_body.unpack_body
    response_body.unpack_body props_body.unpack_body close_body.unpack_body)

lemma packet_wire_nonempty: "packet_ok p \<Longrightarrow> packet_wire p \<noteq> []"
  by (cases p) (auto simp: connect_wire_def connack_wire_def message_wire_def request_wire_def
    response_wire_def close_wire_def u8map_wire_def)

lemma packet_Equal_refl: "packet_ok p \<Longrightarrow> packet_Equal p (Some p) = Ok True"
  by (cases p) (auto simp: packet_Equals u8map_ok_def identity_Equal_def)

lemma extra_count:
  "ucast (of_nat (extra_bytes n) :: byte) = (of_nat (extra_bytes n) :: u64)"
  "(of_nat (extra_bytes n) :: byte) > 0 \<longleftrightarrow> extra_bytes n > 0"
  "unat (of_nat (extra_bytes n) :: byte) = extra_bytes n"
  by (simp_all add: extra_bytes_def)

text \<open>The header of a frame parsed, whatever follows it.\<close>

lemma Unmarshal_header:
  assumes t: "take_bit 4 t = t" and n: "n \<le> MAX_LEN" "n \<noteq> 0" and post: "length post < 2 ^ 62 + 2 ^ 61"
  shows "packet_Unmarshal (frame_header t n @ post) =
    obind (map_err CoderError (ReadBytes (of_nat n) (dec_at (frame_header t n) post)))
      (\<lambda>(data, _). unpack (take 2 (frame_header t n)) data)"
proof -
  obtain h0 h1 cs where h: "frame_header t n = h0 # h1 # cs" "length cs = extra_bytes n"
    "header_count [h0, h1] = of_nat (extra_bytes n)"
    "foldl shift_in (header_length [h0, h1]) cs = of_nat n"
    using header_parse [OF t n(1)] by blast
  have room: "room [] ([h0, h1] @ cs @ post)"
    using post h(2) extra_bytes_le [of n] by (simp add: room_def)
  have r1: "ReadBytes 2 (NewDecoder ([h0, h1] @ cs @ post)) =
      Ok ([h0, h1], dec_at [h0, h1] (cs @ post))"
    using ReadBytes_at [OF room] by (simp add: NewDecoder_at)
  have r2: "ReadBytes (of_nat (extra_bytes n)) (dec_at [h0, h1] (cs @ post)) =
      Ok (cs, dec_at ([h0, h1] @ cs) post)"
    using ReadBytes_at [of "[h0, h1]" cs post] room by (simp add: h(2) room_def)
  have pos: "(of_nat n :: u64) > 0"
    using n by (simp add: word_neq_0_conv [symmetric] MAX_LEN_def)
  have cs0: "\<not> 0 < extra_bytes n \<Longrightarrow> cs = []" using h(2) by simp
  show ?thesis
    using r1 r2 pos cs0 h(4)
    by (cases "0 < extra_bytes n") (simp_all add: packet_Unmarshal_def h(1,3) extra_count)
qed

lemma Unmarshal_frame:
  assumes ok: "packet_ok p" and len: "length (packet_wire p) \<le> MAX_LEN" and "length rest < 2 ^ 62"
  shows "packet_Unmarshal
    (frame_header (packet_Type p) (length (packet_wire p)) @ packet_wire p @ rest) = Ok p"
proof -
  let ?w = "packet_wire p" and ?h = "frame_header (packet_Type p) (length (packet_wire p))"
  obtain h0 h1 cs where h: "?h = h0 # h1 # cs" "drop_bit 4 h0 = packet_Type p"
    using header_parse [OF packet_Type_small len] by blast
  have small: "length ?w \<le> 0x3ffffffff" using len by (simp add: MAX_LEN_def)
  have room: "room ?h (?w @ rest)"
    using small assms(3) extra_bytes_le [of "length ?w"] by (simp add: room_def)
  have un: "unpack [h0, h1] ?w = Ok p"
    using unpack_wire [OF ok _ h(2)] small by simp
  show ?thesis
    using Unmarshal_header [OF packet_Type_small [of p] len, of "?w @ rest"] ReadBytes_at [OF room]
      packet_wire_nonempty [OF ok] small assms(3) un by (simp add: h(1))
qed

section \<open>Streams\<close>

lemma read_buf_exact:
  "n = length c \<Longrightarrow> read_buf n ((c @ rest) # later) = Ok (c, if rest = [] then later else rest # later)"
  by (simp add: read_buf_def)

lemma read_buf_short:
  "read_buf (length c + m) (c # later) = Ok (c @ replicate m 0, later)"
  by (simp add: read_buf_def)

text \<open>
  A frame read from a chunk that holds its header and at least one byte of its body: the header
  is parsed, and the body buffer is what the chunk still has, padded with zeros.
\<close>

lemma ReadFrom_chunk:
  assumes t: "take_bit 4 t = t" and n: "n \<le> MAX_LEN" "n \<noteq> 0" and c: "c \<noteq> []"
  shows "packet_ReadFrom ((frame_header t n @ c) # later) =
    obind (read_buf n (c # later))
      (\<lambda>(data, r). omap (\<lambda>p. (p, r)) (unpack (take 2 (frame_header t n)) data))"
proof -
  obtain h0 h1 cs where h: "frame_header t n = h0 # h1 # cs" "length cs = extra_bytes n"
    "header_count [h0, h1] = of_nat (extra_bytes n)"
    "foldl shift_in (header_length [h0, h1]) cs = of_nat n"
    using header_parse [OF t n(1)] by blast
  have small: "n < 2 ^ 63" using n(1) by (simp add: MAX_LEN_def)
  then have pos: "(of_nat n :: u64) > 0"
    using n(2) by (simp add: word_neq_0_conv [symmetric])
  have r1: "read_buf 2 ((h0 # h1 # cs @ c) # later) = Ok ([h0, h1], (cs @ c) # later)"
    using read_buf_exact [of 2 "[h0, h1]" "cs @ c" later] c by simp
  have r2: "read_buf (extra_bytes n) ((cs @ c) # later) = Ok (cs, c # later)"
    using read_buf_exact [of "extra_bytes n" cs c later] c h(2) by simp
  show ?thesis
    using r1 r2 pos small h(2,4)
    by (cases "0 < extra_bytes n")
      (simp_all add: packet_ReadFrom_def h(1,3) extra_count)
qed

lemma frame_read:
  assumes "packet_ok p" and len: "length (packet_wire p) \<le> MAX_LEN"
  shows "packet_ReadFrom ((frame_header (packet_Type p) (length (packet_wire p)) @ packet_wire p @ rest) # later)
    = Ok (p, if rest = [] then later else rest # later)"
proof -
  let ?w = "packet_wire p"
  obtain h0 h1 cs where h: "frame_header (packet_Type p) (length ?w) = h0 # h1 # cs"
    "drop_bit 4 h0 = packet_Type p"
    using header_parse [OF packet_Type_small len] by blast
  have "unpack [h0, h1] ?w = Ok p"
    using unpack_wire [OF assms(1) _ h(2)] len by (simp add: MAX_LEN_def)
  then show ?thesis
    using ReadFrom_chunk [OF packet_Type_small [of p] len, of "?w @ rest" later]
      packet_wire_nonempty [OF assms(1)] read_buf_exact [of "length ?w" ?w rest later]
    by (simp add: h(1))
qed

section \<open>Properties\<close>

text \<open>
  C1. Every packet survives \<open>Marshal\<close> and \<open>Unmarshal\<close>: the decoded packet is equal, by the
  code's own \<open>Equal\<close>, to the one sent, for every packet type, length class of the header and
  iteration order of the property map, and whatever bytes follow the frame.
\<close>

theorem packet_roundtrip:
  assumes "packet_ok p" and "packet_Marshal p = Ok bs" and "length rest < 2 ^ 62"
  shows "\<exists>q. packet_Unmarshal (bs @ rest) = Ok q \<and> packet_Equal p (Some q) = Ok True \<and>
    packet_Type q = packet_Type p"
proof -
  from assms(1,2) have "length (packet_wire p) \<le> MAX_LEN"
    and "bs = frame_header (packet_Type p) (length (packet_wire p)) @ packet_wire p"
    by (auto simp: Marshal_frame split: if_splits)
  then show ?thesis
    using Unmarshal_frame [of p rest] packet_Equal_refl [of p] assms by simp
qed

definition sample_request :: packet where
  "sample_request = PRequest \<lparr>request_props = [(PropertyUserID, gs ''u''), (PropertyClientID, gs ''c'')],
     request_ID = 7, Method = gs ''get'', request_Body = [1, 2, 3]\<rparr>"

theorem packet_roundtrip_witness:
  "\<exists>bs q. packet_Marshal sample_request = Ok bs \<and> packet_Unmarshal (bs @ [9]) = Ok q \<and>
     packet_Equal sample_request (Some q) = Ok True"
proof -
  have ok: "packet_ok sample_request"
    by (simp add: sample_request_def u8map_ok_def go_map_def PropertyUserID_def PropertyClientID_def)
  have "\<exists>bs. packet_Marshal sample_request = Ok bs"
    by (simp add: Marshal_frame [OF ok])
      (simp add: sample_request_def request_wire_def u8map_wire_def data_wire_def gs_def
        uvarint_bytes.simps MAX_LEN_def)
  then obtain bs where bs: "packet_Marshal sample_request = Ok bs" by blast
  from packet_roundtrip [OF ok bs, of "[9]"] bs show ?thesis by auto
qed

text \<open>
  A frame is its body plus two to five header bytes, and fits a UDP datagram of \<open>MAX_UDP\<close>
  bytes exactly when its body has at most 1022 bytes; the body of 1023 bytes that the short
  header can still describe does not fit.
\<close>

theorem packet_frame_size:
  assumes "packet_ok p" and "packet_Marshal p = Ok bs"
  shows "length bs = length (packet_wire p) + 2 + extra_bytes (length (packet_wire p)) \<and>
    length (packet_wire p) \<le> MAX_LEN \<and>
    (length bs \<le> MAX_UDP \<longleftrightarrow> length (packet_wire p) + 2 \<le> MAX_UDP)"
proof -
  from assms have "length (packet_wire p) \<le> MAX_LEN"
    and "length bs = length (packet_wire p) + 2 + extra_bytes (length (packet_wire p))"
    by (auto simp: Marshal_frame split: if_splits)
  then show ?thesis
    by (simp add: MAX_UDP_def extra_bytes_def packet_lens)
qed

theorem packet_frame_size_witness:
  "length (frame_header PING 1 @ packet_wire NewPing) = 3 \<and> packet_Marshal NewPing = Ok [0x50, 1, 0]"
proof -
  have ok: "packet_ok NewPing" by (simp add: NewPing_def u8map_ok_def)
  have m: "packet_Marshal NewPing = Ok [0x50, 1, 0]" by code_simp
  from packet_frame_size [OF ok m] m show ?thesis
    by (simp add: NewPing_def u8map_wire_def)
qed

text \<open>
  Reading from a stream is correct when one chunk holds the whole frame: the reader returns
  the packet sent and leaves exactly the bytes behind it.
\<close>

theorem ReadFrom_whole_frame:
  assumes "packet_ok p" and "packet_Marshal p = Ok bs"
  shows "packet_ReadFrom ((bs @ rest) # later) = Ok (p, if rest = [] then later else rest # later)"
  using assms frame_read [of p rest later] by (auto simp: Marshal_frame split: if_splits)

theorem ReadFrom_whole_frame_witness:
  "packet_ReadFrom [[0x50, 1, 0] @ [0x60, 1, 0]] = Ok (NewPing, [[0x60, 1, 0]])"
proof -
  have ok: "packet_ok NewPing" by (simp add: NewPing_def u8map_ok_def)
  have m: "packet_Marshal NewPing = Ok [0x50, 1, 0]" by code_simp
  from ReadFrom_whole_frame [OF ok m, of "[0x60, 1, 0]" "[]"] show ?thesis by simp
qed

text \<open>
  A frame whose payload arrives in two chunks is not reassembled: the reader returns, without
  an error, a message whose missing payload bytes are zero, and the bytes that arrive afterwards are
  taken for the header of the next frame.
\<close>

theorem ReadFrom_short_read:
  assumes "u8map_ok (message_props m)" and "Payload m = a @ b"
    and "packet_Marshal (PMessage m) = Ok (pre @ b)"
  shows "packet_ReadFrom (pre # b # later) =
    Ok (PMessage (m\<lparr>Payload := a @ replicate (length b) 0\<rparr>), b # later)"
proof -
  let ?w = "message_wire m" and ?m' = "m\<lparr>Payload := a @ replicate (length b) 0\<rparr>"
  define q where "q = [Kind m] @ u8map_wire (message_props m) @ a"
  have w: "?w = q @ b" and w': "message_wire ?m' = q @ replicate (length b) 0"
    by (simp_all add: message_wire_def assms(2) q_def)
  have ok: "packet_ok (PMessage m)" "packet_ok (PMessage ?m')" using assms(1) by simp_all
  have len: "length ?w \<le> MAX_LEN" and pre: "pre = frame_header MESSAGE (length ?w) @ q"
    using assms(3) by (auto simp: Marshal_frame [OF ok(1)] w split: if_splits)
  obtain h0 h1 cs where h: "frame_header MESSAGE (length ?w) = h0 # h1 # cs"
    "drop_bit 4 h0 = MESSAGE"
    using header_parse [OF packet_Type_small [of "PMessage m"] len]
    unfolding packet_Type.simps by blast
  have "length (message_wire ?m') = length ?w" by (simp add: w w')
  then have "unpack [h0, h1] (q @ replicate (length b) 0) = Ok (PMessage ?m')"
    using unpack_wire [OF ok(2), of h0 "[h1]"] len h(2) by (simp add: w' MAX_LEN_def)
  moreover have "q \<noteq> []" by (simp add: q_def)
  ultimately show ?thesis
    using ReadFrom_chunk [OF packet_Type_small [of "PMessage m"] len, of q "b # later"]
      read_buf_short [of q "length b" "b # later"] h(1)
    by (simp add: pre w)
qed

theorem ReadFrom_short_read_witness:
  "packet_ReadFrom [[0x20, 4, 0, 0, 0x61], [0x62]] =
     Ok (PMessage \<lparr>message_props = [], Kind = 0, Payload = [0x61, 0]\<rparr>, [[0x62]])"
proof -
  let ?m = "NewMessage [0x61, 0x62]"
  have 1: "u8map_ok (message_props ?m)" by (simp add: NewMessage_def u8map_ok_def)
  have 2: "Payload ?m = [0x61] @ [0x62]" by (simp add: NewMessage_def)
  have 3: "packet_Marshal (PMessage ?m) = Ok ([0x20, 4, 0, 0, 0x61] @ [0x62])" by code_simp
  from ReadFrom_short_read [OF 1 2 3, of "[]"] show ?thesis by (simp add: NewMessage_def)
qed

text \<open>
  A thirteen-byte CONNECT frame whose user id announces \<open>2^64 - 1\<close> bytes makes the decoder
  panic, on both the datagram and the stream path, before any authentication.
\<close>

theorem connect_frame_panics:
  "packet_Unmarshal [0x00, 0x0b, 1, 0xff, 0xff, 0xff, 0xff, 0xff, 0xff, 0xff, 0xff, 0xff, 0x01] = Panic
   \<and> packet_ReadFrom [[0x00, 0x0b, 1, 0xff, 0xff, 0xff, 0xff, 0xff, 0xff, 0xff, 0xff, 0xff, 0x01]] = Panic"
  by code_simp

section \<open>Decoded packets\<close>

lemma read_map_loop_ok:
  "read_map_loop rd n m d = Ok (m', d') \<Longrightarrow> go_map m \<Longrightarrow> go_map m' \<and> length m' \<le> length m + n"
proof (induction n arbitrary: m d)
  case (Suc n)
  then obtain k v d2 where "read_map_loop rd n (AList.update k v m) d2 = Ok (m', d')"
    by (auto simp: outcome_Ok_obind)
  moreover have "length (AList.update k v m) \<le> length m + 1" by (induction m) auto
  ultimately show ?case using Suc.IH [of "AList.update k v m" d2] Suc.prems(2) by auto
qed simp

lemma ReadUInt8Map_ok: "ReadUInt8Map d = Ok (m, d') \<Longrightarrow> u8map_ok m"
proof -
  assume "ReadUInt8Map d = Ok (m, d')"
  then obtain l d1 where "read_map_loop ReadUInt8 (unat (l :: byte)) [] d1 = Ok (m, d')"
    by (auto simp: ReadUInt8Map_def outcome_Ok_obind)
  moreover have "unat l < 256" using unsigned_less [of l] by simp
  ultimately show ?thesis by (auto simp: u8map_ok_def dest!: read_map_loop_ok)
qed

lemmas reads_from = connect_ReadFrom_def connack_ReadFrom_def message_ReadFrom_def request_ReadFrom_def
  response_ReadFrom_def close_ReadFrom_def props_ReadFrom_def Unmarshal_def unpack_as_def

lemma unpack_ok: "unpack header data = Ok p \<Longrightarrow> packet_ok p"
  by (auto simp: unpack_def reads_from outcome_Ok_obind omap_Ok map_err_Ok Let_def split: list.splits if_splits
    dest!: ReadUInt8Map_ok)



end
