(* ===== verification/Queue.thy ===== *)
theory Queue
  imports Errors
begin

text \<open>
  The task queue of src/internal/queue/queue.go: a bounded channel of tasks, a channel of five
  "jump" tasks that go first, and one worker goroutine.

  The state has the two channels, the worker's program counter and the goroutines that are inside
  \<open>Push\<close> or \<open>Close\<close>. One step is one atomic action of one goroutine: a channel operation, an atomic
  load or swap, the evaluation of a \<open>select\<close>'s operands. The remaining fields are history: the
  tasks the channels accepted, the tasks the worker started, both in order, and for every waiting
  jump task the number of ordinary tasks started since it was accepted.
\<close>

section \<open>State\<close>

definition queue_Error :: "queue_error \<Rightarrow> string" where
  "queue_Error e = (case e of ErrQueueIsFull \<Rightarrow> ''queue is full'' | ErrQueueIsClosed \<Rightarrow> ''queue is closed'')"

text \<open>
  The worker: at the outer \<open>select\<close>; at the inner one, having read \<open>mq.tasks\<close> (the channel, or nil
  after \<open>Close\<close>); running a task; returned.
\<close>

datatype worker = AtCheck | AtSelect bool | Running | Returned

text \<open>A call of \<open>Push\<close> that saw the queue open, and then has entered its \<open>select\<close>.\<close>

datatype 'a pusher = Passed bool 'a | SendJump 'a | SendTask bool 'a

datatype closer = NotClosed | FlagSet | JumpsClosed | TasksDropped

record 'a queue =
  jumps :: "'a list"
  jumps_closed :: bool
  tasks :: "'a list"
  tasks_nil :: bool
  cap_tasks :: nat
  closed :: bool
  worker :: worker
  pushers :: "'a pusher multiset"
  closer :: closer
  crashed :: bool
  accepted_tasks :: "'a list"
  accepted_jumps :: "'a list"
  started_tasks :: "'a list"
  started_jumps :: "'a list"
  overtaken :: "nat list"

definition cap_jumps :: nat where "cap_jumps = 5"

section \<open>Operations\<close>

text \<open>\<open>New\<close> panics for a capacity below one.\<close>

definition queue_New :: "int \<Rightarrow> (go_error, 'a queue) outcome" where
  "queue_New capacity =
     (if capacity < 1 then Panic
      else Ok \<lparr>jumps = [], jumps_closed = False, tasks = [], tasks_nil = False,
             cap_tasks = nat capacity, closed = False, worker = AtCheck, pushers = {#},
             closer = NotClosed, crashed = False, accepted_tasks = [], accepted_jumps = [],
             started_tasks = [], started_jumps = [], overtaken = []\<rparr>)"

definition len_tasks :: "'a queue \<Rightarrow> nat" where
  "len_tasks q = (if tasks_nil q then 0 else length (tasks q))"

definition queue_Len :: "'a queue \<Rightarrow> u32" where
  "queue_Len q = of_nat (len_tasks q + length (jumps q))"

definition queue_IsIdle :: "'a queue \<Rightarrow> bool" where
  "queue_IsIdle q \<longleftrightarrow> queue_Len q = 0"

definition queue_IsFull :: "'a queue \<Rightarrow> bool" where
  "queue_IsFull q \<longleftrightarrow> len_tasks q = (if tasks_nil q then 0 else cap_tasks q)"

definition queue_IsClosed :: "'a queue \<Rightarrow> bool" where
  "queue_IsClosed q \<longleftrightarrow> closed q"

text \<open>\<open>Push\<close> up to its \<open>select\<close>: the check of the flag.\<close>

definition push_check :: "bool \<Rightarrow> 'a \<Rightarrow> 'a queue \<Rightarrow> (go_error, 'a queue) outcome" where
  "push_check jump task q =
     (if closed q then Err (QueueError ErrQueueIsClosed)
      else Ok (q\<lparr>pushers := add_mset (Passed jump task) (pushers q)\<rparr>))"

text \<open>The \<open>select\<close> evaluates its channel operand once, when it is entered.\<close>

definition push_select :: "bool \<Rightarrow> 'a \<Rightarrow> 'a queue \<Rightarrow> 'a queue" where
  "push_select jump task q =
     q\<lparr>pushers := add_mset (if jump then SendJump task else SendTask (\<not> tasks_nil q) task)
         (pushers q - {#Passed jump task#})\<rparr>"

text \<open>The send: on the closed channel it panics, on the nil channel it blocks, on a full one it waits.\<close>

definition can_send :: "'a pusher \<Rightarrow> 'a queue \<Rightarrow> bool" where
  "can_send p q \<longleftrightarrow>
     (case p of
        SendJump _ \<Rightarrow> jumps_closed q \<or> length (jumps q) < cap_jumps
      | SendTask chan _ \<Rightarrow> chan \<and> length (tasks q) < cap_tasks q
      | Passed _ _ \<Rightarrow> False)"

definition push_send :: "'a pusher \<Rightarrow> 'a queue \<Rightarrow> 'a queue" where
  "push_send p q =
     (let q' = q\<lparr>pushers := pushers q - {#p#}\<rparr>
      in case p of
           SendJump t \<Rightarrow>
             if jumps_closed q then q'\<lparr>crashed := True\<rparr>
             else q'\<lparr>jumps := jumps q @ [t], accepted_jumps := accepted_jumps q @ [t],
                     overtaken := overtaken q @ [0]\<rparr>
         | SendTask _ t \<Rightarrow>
             q'\<lparr>tasks := tasks q @ [t], accepted_tasks := accepted_tasks q @ [t]\<rparr>
         | Passed _ _ \<Rightarrow> q)"

text \<open>The other branch of the \<open>select\<close>: the context is done.\<close>

definition push_cancel :: "'a pusher \<Rightarrow> 'a queue \<Rightarrow> 'a queue" where
  "push_cancel p q = q\<lparr>pushers := pushers q - {#p#}\<rparr>"

text \<open>\<open>Close\<close>: the swap of the flag, then \<open>close(mq.jumps)\<close>, then \<open>mq.tasks = nil\<close>.\<close>

definition close_step :: "'a queue \<Rightarrow> 'a queue" where
  "close_step q =
     (case closer q of
        NotClosed \<Rightarrow> q\<lparr>closed := True, closer := FlagSet\<rparr>
      | FlagSet \<Rightarrow> q\<lparr>jumps_closed := True, closer := JumpsClosed\<rparr>
      | JumpsClosed \<Rightarrow> q\<lparr>tasks_nil := True, closer := TasksDropped\<rparr>
      | TasksDropped \<Rightarrow> q)"

text \<open>The two receives of \<open>run\<close>.\<close>

definition start_jump :: "'a queue \<Rightarrow> 'a queue" where
  "start_jump q =
     q\<lparr>jumps := tl (jumps q), overtaken := tl (overtaken q), worker := Running,
       started_jumps := started_jumps q @ [hd (jumps q)]\<rparr>"

definition start_task :: "'a queue \<Rightarrow> 'a queue" where
  "start_task q =
     q\<lparr>tasks := tl (tasks q), overtaken := map Suc (overtaken q), worker := Running,
       started_tasks := started_tasks q @ [hd (tasks q)]\<rparr>"

text \<open>
  The worker's next actions: the outer \<open>select\<close> prefers a jump task, returns when that channel is
  closed and drained, and falls through to the inner \<open>select\<close> otherwise; the inner one takes any
  ready case and waits when there is none. A task that was started returns.
\<close>

definition run_steps :: "'a queue \<Rightarrow> 'a queue list" where
  "run_steps q =
     (case worker q of
        AtCheck \<Rightarrow>
          if jumps q \<noteq> [] then [start_jump q]
          else if jumps_closed q then [q\<lparr>worker := Returned\<rparr>]
          else [q\<lparr>worker := AtSelect (\<not> tasks_nil q)\<rparr>]
      | AtSelect chan \<Rightarrow>
          (if jumps q \<noteq> [] then [start_jump q]
           else if jumps_closed q then [q\<lparr>worker := Returned\<rparr>] else []) @
          (if chan \<and> tasks q \<noteq> [] then [start_task q] else [])
      | Running \<Rightarrow> [q\<lparr>worker := AtCheck\<rparr>]
      | Returned \<Rightarrow> [])"

inductive queue_step :: "'a queue \<Rightarrow> 'a queue \<Rightarrow> bool" where
  run: "q' \<in> set (run_steps q) \<Longrightarrow> queue_step q q'"
| check: "push_check jump task q = Ok q' \<Longrightarrow> queue_step q q'"
| select: "Passed jump task \<in># pushers q \<Longrightarrow> queue_step q (push_select jump task q)"
| send: "p \<in># pushers q \<Longrightarrow> can_send p q \<Longrightarrow> queue_step q (push_send p q)"
| cancel: "p \<in># pushers q \<Longrightarrow> queue_step q (push_cancel p q)"
| shut: "queue_step q (close_step q)"

inductive_cases queue_stepE: "queue_step q q'"

inductive queue_reach :: "nat \<Rightarrow> 'a queue \<Rightarrow> bool" for capacity where
  init: "queue_New (int capacity) = Ok q \<Longrightarrow> queue_reach capacity q"
| step: "queue_reach capacity q \<Longrightarrow> queue_step q q' \<Longrightarrow> queue_reach capacity q'"

section \<open>Invariants\<close>

lemmas queue_ops = push_check_def push_select_def push_send_def push_cancel_def close_step_def
  start_jump_def start_task_def run_steps_def can_send_def cap_jumps_def

text \<open>Channels are first in, first out, and never hold more than their capacity.\<close>

definition fifo_inv :: "nat \<Rightarrow> 'a queue \<Rightarrow> bool" where
  "fifo_inv n q \<longleftrightarrow>
     accepted_tasks q = started_tasks q @ tasks q \<and>
     accepted_jumps q = started_jumps q @ jumps q \<and>
     length (tasks q) \<le> n \<and> cap_tasks q = n \<and> length (jumps q) \<le> cap_jumps"

text \<open>A waiting jump task is overtaken at most once, and not yet while the worker is waiting.\<close>

definition jump_inv :: "'a queue \<Rightarrow> bool" where
  "jump_inv q \<longleftrightarrow>
     length (overtaken q) = length (jumps q) \<and> list_all (\<lambda>n. n \<le> 1) (overtaken q) \<and>
     (case worker q of AtSelect _ \<Rightarrow> list_all (\<lambda>n. n = 0) (overtaken q) | _ \<Rightarrow> True)"

text \<open>What \<open>Close\<close> has done so far, and what that means for the worker.\<close>

definition close_inv :: "'a queue \<Rightarrow> bool" where
  "close_inv q \<longleftrightarrow>
     closed q = (closer q \<noteq> NotClosed) \<and>
     jumps_closed q = (closer q = JumpsClosed \<or> closer q = TasksDropped) \<and>
     tasks_nil q = (closer q = TasksDropped) \<and>
     (worker q = Returned \<longrightarrow> jumps_closed q \<and> jumps q = []) \<and>
     (crashed q \<longrightarrow> jumps_closed q)"

lemma queue_stepI_cases:
  assumes "queue_step q q'"
    and "\<And>x. x \<in> set (run_steps q) \<Longrightarrow> P x"
    and "\<And>ps. P (q\<lparr>pushers := ps\<rparr>)"
    and "\<And>p. can_send p q \<Longrightarrow> P (push_send p q)"
    and "P (close_step q)"
  shows "P q'"
  using assms(1)
proof cases
  case (check jump task)
  then show ?thesis using assms(3) by (auto simp: push_check_def split: if_splits)
qed (auto simp: assms push_select_def push_cancel_def)

lemma run_steps_cases:
  assumes "x \<in> set (run_steps q)"
  obtains (jump) j js where "jumps q = j # js" "x = start_jump q" "worker q \<noteq> Running"
    | (task) t ts where "worker q = AtSelect True" "tasks q = t # ts" "x = start_task q"
    | (return) "jumps q = []" "jumps_closed q" "x = q\<lparr>worker := Returned\<rparr>"
    | (wait) "jumps q = []" "worker q = AtCheck" "x = q\<lparr>worker := AtSelect (\<not> tasks_nil q)\<rparr>"
    | (finish) "worker q = Running" "x = q\<lparr>worker := AtCheck\<rparr>"
proof (cases "worker q")
  case AtCheck
  with assms jump [of "hd (jumps q)" "tl (jumps q)"] return wait show ?thesis
    by (auto simp: run_steps_def split: if_splits)
next
  case (AtSelect chan)
  have chan: "x = start_task q \<and> chan \<and> tasks q \<noteq> [] \<or> x = start_jump q \<and> jumps q \<noteq> [] \<or>
      x = q\<lparr>worker := Returned\<rparr> \<and> jumps q = [] \<and> jumps_closed q"
    using assms AtSelect by (simp add: run_steps_def split: if_splits) blast+
  then show ?thesis
    using AtSelect task [of "hd (tasks q)" "tl (tasks q)"] jump [of "hd (jumps q)" "tl (jumps q)"]
      return by fastforce
next
  case Running
  with assms finish show ?thesis by (simp add: run_steps_def)
next
  case Returned
  with assms show ?thesis by (simp add: run_steps_def)
qed

lemma fifo_inv_step:
  assumes "queue_step q q'" and inv: "fifo_inv n q"
  shows "fifo_inv n q'"
  using assms(1)
proof (rule queue_stepI_cases)
  show "fifo_inv n x" if "x \<in> set (run_steps q)" for x
    using that inv
    by (cases rule: run_steps_cases) (simp_all add: fifo_inv_def start_jump_def start_task_def)
  show "fifo_inv n (push_send p q)" if "can_send p q" for p
    using that inv by (cases p) (auto simp: fifo_inv_def push_send_def can_send_def Let_def)
qed (use inv in \<open>simp_all add: fifo_inv_def close_step_def split: closer.splits\<close>)

lemma jump_inv_step:
  assumes "queue_step q q'" and inv: "jump_inv q"
  shows "jump_inv q'"
  using assms(1)
proof (rule queue_stepI_cases)
  show "jump_inv x" if "x \<in> set (run_steps q)" for x
    using that
  proof (cases rule: run_steps_cases)
    case (jump j js)
    then obtain n ns where "overtaken q = n # ns" "length ns = length js"
      using inv by (auto simp: jump_inv_def length_Suc_conv)
    with jump inv show ?thesis by (simp add: jump_inv_def start_jump_def)
  next
    case (task t ts)
    with inv show ?thesis by (simp add: jump_inv_def start_task_def list_all_iff)
  qed (use inv in \<open>simp_all add: jump_inv_def\<close>)
  show "jump_inv (push_send p q)" if "can_send p q" for p
    using inv by (cases p) (auto simp: jump_inv_def push_send_def Let_def split: worker.splits)
qed (use inv in \<open>auto simp: jump_inv_def close_step_def split: closer.splits worker.splits\<close>)

lemma close_inv_step:
  assumes "queue_step q q'" and inv: "close_inv q"
  shows "close_inv q'"
  using assms(1)
proof (rule queue_stepI_cases)
  show "close_inv x" if "x \<in> set (run_steps q)" for x
    using that inv
    by (cases rule: run_steps_cases) (auto simp: close_inv_def start_jump_def start_task_def)
  show "close_inv (push_send p q)" if "can_send p q" for p
    using inv by (cases p) (auto simp: close_inv_def push_send_def Let_def)
qed (use inv in \<open>auto simp: close_inv_def close_step_def split: closer.splits\<close>)

lemma queue_reach_inv:
  assumes "queue_reach n q"
  shows "fifo_inv n q \<and> jump_inv q \<and> close_inv q"
  using assms
proof induction
  case (init q)
  then show ?case
    by (auto simp: queue_New_def fifo_inv_def jump_inv_def close_inv_def split: if_splits)
next
  case (step q q')
  then show ?case using fifo_inv_step jump_inv_step close_inv_step by blast
qed

section \<open>After Close\<close>

text \<open>An upper bound on the worker's steps once the jump channel is closed.\<close>

definition worker_measure :: "'a queue \<Rightarrow> nat" where
  "worker_measure q =
     2 * length (jumps q) +
     (case worker q of Returned \<Rightarrow> 0 | AtCheck \<Rightarrow> 1 | Running \<Rightarrow> 2 | AtSelect _ \<Rightarrow> 3)"

lemma worker_measure_step:
  assumes "q' \<in> set (run_steps q)" and "jumps_closed q"
  shows "worker_measure q' < worker_measure q \<and> jumps_closed q'"
  using assms(1)
proof (cases rule: run_steps_cases)
  case (wait)
  with assms show ?thesis by (auto simp: run_steps_def worker_measure_def)
next
  case (return)
  with assms show ?thesis
    by (cases "worker q") (auto simp: run_steps_def worker_measure_def)
next
  case (jump j js)
  with assms show ?thesis
    by (cases "worker q") (auto simp: run_steps_def worker_measure_def start_jump_def)
qed (use assms(2) in \<open>simp_all add: worker_measure_def start_task_def\<close>)

lemma worker_not_stuck:
  "jumps_closed q \<Longrightarrow> run_steps q = [] \<longleftrightarrow> worker q = Returned"
  by (cases "worker q") (simp_all add: run_steps_def)

definition worker_run :: "'a queue \<Rightarrow> 'a queue \<Rightarrow> bool" where
  "worker_run q q' \<longleftrightarrow> q' \<in> set (run_steps q)"

lemma worker_returns:
  "jumps_closed q \<Longrightarrow> \<exists>q'. worker_run\<^sup>*\<^sup>* q q' \<and> worker q' = Returned"
proof (induction q rule: measure_induct_rule [where f = worker_measure])
  case (less q)
  show ?case
  proof (cases "run_steps q")
    case Nil
    with less.prems show ?thesis by (auto simp: worker_not_stuck)
  next
    case (Cons x xs)
    then have x: "x \<in> set (run_steps q)" by simp
    from worker_measure_step [OF this less.prems] less.IH
    obtain q' where "worker_run\<^sup>*\<^sup>* x q'" "worker q' = Returned" by blast
    moreover have "worker_run q x" using x by (simp add: worker_run_def)
    ultimately show ?thesis by (blast intro: converse_rtranclp_into_rtranclp)
  qed
qed

section \<open>Properties\<close>


text \<open>
  C26. Jump tasks go first: at its outer \<open>select\<close> the worker starts no ordinary task while a jump task
  waits, and no jump task is ever overtaken by more than one ordinary task.
\<close>

theorem jump_overtaken_once:
  assumes "queue_reach n q"
  shows "length (overtaken q) = length (jumps q) \<and> list_all (\<lambda>k. k \<le> 1) (overtaken q) \<and>
    (worker q = AtCheck \<and> jumps q \<noteq> [] \<longrightarrow> run_steps q = [start_jump q])"
  using queue_reach_inv [OF assms] by (simp add: jump_inv_def run_steps_def)

text \<open>
  C19. Once \<open>Close\<close> has closed the jump channel every later \<open>Push\<close> is refused, the worker cannot get
  stuck, takes a bounded number of further steps and can reach its return; when it has returned,
  every jump task ever accepted was started.
\<close>

theorem queue_close_drains:
  assumes "queue_reach n q" and "jumps_closed q"
  shows "push_check jump task q = Err (QueueError ErrQueueIsClosed) \<and>
    (\<forall>q'. worker_run q q' \<longrightarrow> worker_measure q' < worker_measure q) \<and>
    (\<exists>q'. worker_run\<^sup>*\<^sup>* q q' \<and> worker q' = Returned) \<and>
    (worker q = Returned \<longrightarrow> started_jumps q = accepted_jumps q)"
  using queue_reach_inv [OF assms(1)] assms(2) worker_measure_step [of _ q] worker_returns [of q]
  by (auto simp: close_inv_def fifo_inv_def push_check_def worker_run_def)

section \<open>A concrete run\<close>

text \<open>
  One goroutine pushes a jump task and passes the check of the flag; another closes the queue; the
  first then sends on the closed channel.
\<close>

definition race_trace :: "nat queue list" where
  "race_trace =
     (case queue_New 1 of
        Ok q0 \<Rightarrow>
          (case push_check True 7 q0 of
             Ok q1 \<Rightarrow>
               (let q2 = push_select True 7 q1; q3 = close_step q2; q4 = close_step q3;
                    q5 = push_send (SendJump 7) q4
                in [q0, q1, q2, q3, q4, q5])
           | _ \<Rightarrow> [])
      | _ \<Rightarrow> [])"

lemma race_trace_reach: "list_all (queue_reach 1) race_trace \<and> length race_trace = 6"
proof -
  define q0 :: "nat queue" where "q0 = hd race_trace"
  have q0: "queue_New 1 = Ok q0" 
    by (simp add: q0_def race_trace_def queue_New_def push_check_def Let_def)
  then have r0: "queue_reach 1 q0" by (intro queue_reach.init) simp
  define q1 where "q1 = q0\<lparr>pushers := {#Passed True 7#}\<rparr>"
  have q1: "push_check True 7 q0 = Ok q1"
    using q0 by (auto simp: queue_New_def q1_def push_check_def split: if_splits)
  then have r1: "queue_reach 1 q1" by (rule queue_reach.step [OF r0 queue_step.check])
  define q2 where "q2 = push_select True 7 q1"
  have r2: "queue_reach 1 q2"
    unfolding q2_def by (rule queue_reach.step [OF r1 queue_step.select]) (simp add: q1_def)
  define q3 where "q3 = close_step q2"
  have r3: "queue_reach 1 q3" unfolding q3_def by (rule queue_reach.step [OF r2 queue_step.shut])
  define q4 where "q4 = close_step q3"
  have r4: "queue_reach 1 q4" unfolding q4_def by (rule queue_reach.step [OF r3 queue_step.shut])
  have c0: "closer q0 = NotClosed" using q0 by (auto simp: queue_New_def)
  have 4: "jumps_closed q4" "SendJump 7 \<in># pushers q4"
    by (simp_all add: q4_def q3_def q2_def q1_def close_step_def push_select_def c0)
  have r5: "queue_reach 1 (push_send (SendJump 7) q4)"
    by (rule queue_reach.step [OF r4 queue_step.send]) (use 4 in \<open>simp_all add: can_send_def\<close>)
  have tr: "race_trace = [q0, q1, q2, q3, q4, push_send (SendJump 7) q4]"
    by (simp add: race_trace_def q0 q1 q2_def q3_def q4_def Let_def)
  show ?thesis unfolding tr using r0 r1 r2 r3 r4 r5 by simp
qed


theorem jump_overtaken_once_witness:
  "\<exists>q :: nat queue. queue_reach 1 q \<and> list_all (\<lambda>k. k \<le> 1) (overtaken q)"
proof -
  have "queue_reach 1 (race_trace ! 0)"
    using race_trace_reach by (simp add: list_all_length)
  with jump_overtaken_once [OF this] show ?thesis by blast
qed

theorem queue_close_drains_witness:
  "\<exists>q :: nat queue. queue_reach 1 q \<and> jumps_closed q \<and>
     push_check True 7 q = Err (QueueError ErrQueueIsClosed)"
proof -
  have r: "queue_reach 1 (race_trace ! 4)"
    using race_trace_reach by (simp add: list_all_length)
  have "jumps_closed (race_trace ! 4)"
    by (simp add: race_trace_def queue_New_def push_check_def push_select_def close_step_def Let_def)
  with queue_close_drains [OF r this] r show ?thesis by blast
qed

text \<open>
  \<open>Push\<close> of a jump task can race with \<open>Close\<close>: the flag is checked before the channel is closed,
  and the send on the closed channel then panics.
\<close>

theorem push_close_race_panics: "\<exists>q :: nat queue. queue_reach 1 q \<and> crashed q"
proof -
  have "queue_reach 1 (race_trace ! 5)"
    using race_trace_reach by (simp add: list_all_length)
  moreover have "crashed (race_trace ! 5)"
    by (simp add: race_trace_def queue_New_def push_check_def push_select_def close_step_def
      push_send_def Let_def)
  ultimately show ?thesis by blast
qed

end
