(* ===== verification/Conn.thy ===== *)
theory Conn
  imports Framing Queue
begin

text \<open>
  A server-side connection: src/internal/network/conn.go, the read loops of transport_tcp.go and
  transport_udp.go, and src/internal/keepalive/keepalive.go.

  A call of a method is one function on the connection's state. A frame waiting in the send queue
  is the task that writes it, so the queue is a \<open>bytes queue\<close>; \<open>conn_work\<close> is the worker running the
  next task. Calls into the delegate (the server) are not made here: the function that would make
  one says so in its result. Logging and the statistics handler change no state and are left out.
  The interleavings that need the locks are the step relation \<open>request_step\<close>.
\<close>

section \<open>Contexts\<close>

text \<open>
  What a \<open>select\<close> sees of a context: the error it is done with, if it is done while the call waits,
  and whether the runtime picks that case when a channel is ready too.
\<close>

record ctx =
  ctx_err :: "go_error option"
  picks_done :: bool

definition background :: ctx where
  "background = \<lparr>ctx_err = None, picks_done = False\<rparr>"

section \<open>State\<close>

text \<open>
  The \<open>rawconn\<close>: what was written to it, in order, and whether it is closed; a \<open>udpConn\<close> shares the
  listener's socket and its \<open>Close\<close> does nothing.
\<close>

record conn =
  raw_ID :: "identity option"
  raw_IP :: gostring
  raw_udp :: bool
  raw_out :: "bytes list"
  raw_closed :: bool
  conn_closed :: bool
  pingChan :: bool
  sendQueue :: "bytes queue"
  requestID :: u64
  requestTasks :: "(u16, nat) gomap"
  nextChan :: nat

definition newConn :: "identity option \<Rightarrow> gostring \<Rightarrow> bool \<Rightarrow> int \<Rightarrow> (go_error, conn) outcome" where
  "newConn ident ip udp queueCapacity =
     obind (queue_New queueCapacity) (\<lambda>q.
       Ok \<lparr>raw_ID = ident, raw_IP = ip, raw_udp = udp, raw_out = [], raw_closed = False,
           conn_closed = False,
           pingChan = False, sendQueue = q, requestID = 0, requestTasks = [], nextChan = 0\<rparr>)"

definition conn_IsIdle :: "conn \<Rightarrow> bool" where
  "conn_IsIdle c = queue_IsIdle (sendQueue c)"

definition conn_IsClosed :: "conn \<Rightarrow> bool" where
  "conn_IsClosed c = conn_closed c"

section \<open>Sending\<close>

text \<open>\<open>WriteData\<close> on a closed raw connection is an error that is only logged.\<close>

definition WriteData :: "bytes \<Rightarrow> conn \<Rightarrow> conn" where
  "WriteData data c = (if raw_closed c then c else c\<lparr>raw_out := raw_out c @ [data]\<rparr>)"

text \<open>The worker runs one task: a jump if there is one.\<close>

definition conn_work :: "conn \<Rightarrow> conn" where
  "conn_work c =
     (let q = sendQueue c
      in if jumps q \<noteq> [] then
           WriteData (hd (jumps q)) (c\<lparr>sendQueue := (start_jump q)\<lparr>worker := AtCheck\<rparr>\<rparr>)
         else if \<not> jumps_closed q \<and> \<not> tasks_nil q \<and> tasks q \<noteq> [] then
           WriteData (hd (tasks q)) (c\<lparr>sendQueue := (start_task q)\<lparr>worker := AtCheck\<rparr>\<rparr>)
         else c)"

fun conn_works :: "nat \<Rightarrow> conn \<Rightarrow> conn" where
  "conn_works 0 c = c"
| "conn_works (Suc n) c = conn_works n (conn_work c)"

text \<open>The worker's tasks until it is idle, and until the channel that is waited for has room.\<close>

definition conn_drain :: "conn \<Rightarrow> conn" where
  "conn_drain c = conn_works (length (jumps (sendQueue c)) + length (tasks (sendQueue c))) c"

definition wait_room :: "bool \<Rightarrow> conn \<Rightarrow> conn" where
  "wait_room jump c =
     (if jump then conn_work c else conn_works (Suc (length (jumps (sendQueue c)))) c)"

definition has_room :: "bool \<Rightarrow> 'a queue \<Rightarrow> bool" where
  "has_room jump q \<longleftrightarrow>
     (if jump then length (jumps q) < cap_jumps else length (tasks q) < cap_tasks q)"

text \<open>
  \<open>sendQueue.Push\<close>, without interruption by \<open>Close\<close>: check, select, send. A push that finds the
  channel full waits until the worker has made room or its context is done.
\<close>

definition accept :: "bool \<Rightarrow> 'a \<Rightarrow> 'a queue \<Rightarrow> 'a queue" where
  "accept jump t q =
     push_send (if jump then SendJump t else SendTask True t)
       (push_select jump t (q\<lparr>pushers := add_mset (Passed jump t) (pushers q)\<rparr>))"

definition conn_push :: "ctx \<Rightarrow> bool \<Rightarrow> bytes \<Rightarrow> conn \<Rightarrow> (go_error, conn) outcome" where
  "conn_push cx jump data c =
     (let q = sendQueue c; room = has_room jump q
      in if closed q then Err (QueueError ErrQueueIsClosed)
         else case ctx_err cx of
                Some e \<Rightarrow>
                  if room \<and> \<not> picks_done cx
                  then Ok (c\<lparr>sendQueue := accept jump data q\<rparr>) else Err e
              | None \<Rightarrow>
                  (let c' = if room then c else wait_room jump c
                   in Ok (c'\<lparr>sendQueue := accept jump data (sendQueue c')\<rparr>)))"

definition conn_SendPacket :: "ctx \<Rightarrow> packet \<Rightarrow> conn \<Rightarrow> (go_error, conn) outcome" where
  "conn_SendPacket cx p c =
     (if conn_IsClosed c then Err (XError ConnectionIsClosed)
      else obind (packet_Marshal p) (\<lambda>data. conn_push cx False data c))"

definition jumpPacket :: "ctx \<Rightarrow> packet \<Rightarrow> conn \<Rightarrow> (go_error, conn) outcome" where
  "jumpPacket cx p c =
     (if conn_IsClosed c then Err (XError ConnectionIsClosed)
      else obind (packet_Marshal p) (\<lambda>data. conn_push cx True data c))"

definition conn_SendMessage :: "ctx \<Rightarrow> message \<Rightarrow> conn \<Rightarrow> (go_error, conn) outcome" where
  "conn_SendMessage cx p c = conn_SendPacket cx (PMessage p) c"

definition SendPong :: "conn \<Rightarrow> (go_error, conn) outcome" where
  "SendPong c = jumpPacket background NewPong c"

definition ConnackCode :: "byte \<Rightarrow> conn \<Rightarrow> (go_error, conn) outcome" where
  "ConnackCode code c = jumpPacket background (PConnack (NewConnack code)) c"

text \<open>The state after a call whose error is ignored; a panic does not return.\<close>

fun ignoring :: "'a \<Rightarrow> ('e, 'a) outcome \<Rightarrow> ('e, 'a) outcome" where
  "ignoring s (Ok s') = Ok s'"
| "ignoring s (Err e) = Ok s"
| "ignoring s Panic = Panic"

section \<open>Closing\<close>

text \<open>\<open>Queue.Close\<close> without interruption.\<close>

definition queue_Close :: "'a queue \<Rightarrow> 'a queue" where
  "queue_Close q = (if closed q then q else close_step (close_step (close_step q)))"

text \<open>\<open>Close\<close>: the second component says that \<open>delegate.OnClose\<close> is called.\<close>

definition conn_Close :: "conn \<Rightarrow> conn \<times> bool" where
  "conn_Close c =
     (if \<not> conn_closed c
      then (c\<lparr>conn_closed := True, sendQueue := queue_Close (sendQueue c),
              raw_closed := raw_closed c \<or> \<not> raw_udp c\<rparr>, True)
      else (c, False))"

definition conn_CloseCode :: "byte \<Rightarrow> conn \<Rightarrow> (go_error, conn \<times> bool) outcome" where
  "conn_CloseCode code c =
     omap conn_Close (ignoring c (jumpPacket background (PClose (NewClose code)) c))"

section \<open>Requests and pings\<close>

definition next_request_id :: "u64 \<Rightarrow> u16" where
  "next_request_id n = ucast (n div 65535)"

definition SendRequest_end :: "u16 \<Rightarrow> conn \<Rightarrow> conn" where
  "SendRequest_end i c = c\<lparr>requestTasks := AList.delete i (requestTasks c)\<rparr>"

text \<open>
  \<open>SendRequest\<close> up to its \<open>select\<close>: the id, the channel registered under it, the packet sent. When
  the send fails the deferred function removes the registration.
\<close>

definition SendRequest_begin ::
  "ctx \<Rightarrow> request \<Rightarrow> conn \<Rightarrow> (go_error, nat \<times> u16) outcome \<times> conn" where
  "SendRequest_begin cx p c =
     (if conn_IsClosed c then (Err (XError ConnectionIsClosed), c)
      else
        (let fresh = (request_ID p = 0);
             n = requestID c + 1;
             i = (if fresh then next_request_id n else request_ID p);
             chan = nextChan c;
             c1 = c\<lparr>requestID := (if fresh then n else requestID c),
                    requestTasks := AList.update i chan (requestTasks c), nextChan := Suc chan\<rparr>
         in case conn_SendPacket cx (PRequest (p\<lparr>request_ID := i\<rparr>)) c1 of
              Ok c2 \<Rightarrow> (Ok (chan, i), c2)
            | Err e \<Rightarrow> (Err e, SendRequest_end i c1)
            | Panic \<Rightarrow> (Panic, c1)))"

text \<open>\<open>recvResponse\<close>: the channel the response is sent on.\<close>

definition recvResponse :: "response \<Rightarrow> conn \<Rightarrow> nat option" where
  "recvResponse p c = map_of (requestTasks c) (response_id p)"

definition SendPing_end :: "conn \<Rightarrow> conn" where
  "SendPing_end c = c\<lparr>pingChan := False\<rparr>"

definition SendPing_begin :: "ctx \<Rightarrow> conn \<Rightarrow> (go_error, unit) outcome \<times> conn" where
  "SendPing_begin cx c =
     (if conn_IsClosed c then (Err (XError ConnectionIsClosed), c)
      else let c1 = c\<lparr>pingChan := True\<rparr>
           in case conn_SendPacket cx NewPing c1 of
                Ok c2 \<Rightarrow> (Ok (), c2)
              | Err e \<Rightarrow> (Err e, SendPing_end c1)
              | Panic \<Rightarrow> (Panic, c1))"

text \<open>\<open>recvPong\<close>: whether the waiting ping is woken.\<close>

definition recvPong :: "conn \<Rightarrow> bool" where
  "recvPong c = pingChan c"

section \<open>Receiving\<close>

text \<open>What \<open>RecvPacket\<close> asks of others: the delegate's handlers, or a waiting call.\<close>

datatype recv_call =
  CallOnMessage message | CallOnRequest request | CallOnClose
| WakeRequest nat | WakePing | LogNoTask u16

definition RecvPacket :: "packet \<Rightarrow> conn \<Rightarrow> (go_error, conn \<times> recv_call list) outcome" where
  "RecvPacket p c =
     (if conn_closed c then Ok (c, [])
      else case p of
             PMessage m \<Rightarrow> Ok (c, [CallOnMessage m])
           | PRequest r \<Rightarrow> Ok (c, [CallOnRequest r])
           | PResponse r \<Rightarrow>
               Ok (c, [case recvResponse r c of Some ch \<Rightarrow> WakeRequest ch | None \<Rightarrow> LogNoTask (response_id r)])
           | PPing _ \<Rightarrow> omap (\<lambda>c'. (c', [])) (ignoring c (SendPong c))
           | PPong _ \<Rightarrow> Ok (c, if recvPong c then [WakePing] else [])
           | PClose _ \<Rightarrow> (case conn_Close c of (c', onclose) \<Rightarrow> Ok (c', if onclose then [CallOnClose] else []))
           | _ \<Rightarrow> Ok (c, []))"

text \<open>The pinger: a ping that times out closes the connection.\<close>

definition pinger_SendPing :: "go_error option \<Rightarrow> conn \<Rightarrow> (go_error, conn \<times> bool) outcome" where
  "pinger_SendPing result c =
     (case result of
        None \<Rightarrow> Ok (c, False)
      | Some e \<Rightarrow> if is_timeout e then conn_CloseCode ClosePingTimeOut c else Ok (c, False))"

section \<open>The read loops\<close>

definition getAddrIp :: "gostring \<Rightarrow> gostring" where
  "getAddrIp addr = takeWhile (\<lambda>b. b \<noteq> of_char CHR '':'') addr"

text \<open>
  \<open>waitConnPacket\<close>: the packets it writes before it closes the connection, and its result. A timer
  that fires first writes and closes; the read then fails with the closed connection's error, and
  what is written after that is lost.
\<close>

definition waitConnPacket ::
  "bool \<Rightarrow> bytes list \<Rightarrow> packet list \<times> (go_error, connect \<times> bytes list) outcome" where
  "waitConnPacket timed_out r =
     (if timed_out then
        ([PClose (NewClose CloseAuthTimeout)], Err (OtherError ''use of closed network connection''))
      else case packet_ReadFrom r of
             Panic \<Rightarrow> ([], Panic)
           | Err e \<Rightarrow> ([PClose (NewClose (AsCloseCode e))], Err e)
           | Ok (PConnect p, r') \<Rightarrow> ([], Ok (p, r'))
           | Ok _ \<Rightarrow> ([PClose (NewClose CloseInvalidPacket)], Err (CloseCodeError CloseInvalidPacket)))"

text \<open>
  The loop of \<open>transportTCP.handleConn\<close>: the packets handed to \<open>RecvPacket\<close>, each in a goroutine of
  its own, until a read fails, and the code the connection is closed with; \<open>None\<close> is a panic.
\<close>

definition stream_size :: "bytes list \<Rightarrow> nat" where
  "stream_size r = sum_list (map (\<lambda>c. Suc (length c)) r)"

lemma io_Read_size:
  "0 < n \<Longrightarrow> io_Read n r = Ok (got, r') \<Longrightarrow> stream_size r' < stream_size r"
  by (cases r) (auto simp: stream_size_def split: if_splits)

lemma read_buf_size:
  "0 < n \<Longrightarrow> read_buf n r = Ok (got, r') \<Longrightarrow> stream_size r' < stream_size r"
  by (auto simp: read_buf_def outcome_Ok_obind dest: io_Read_size)

lemma ReadFrom_size:
  assumes "packet_ReadFrom r = Ok (p, r')"
  shows "stream_size r' < stream_size r"
proof -
  obtain header r1 len r2 data where
    1: "read_buf 2 r = Ok (header, r1)" and
    2: "(if header_count header > 0
         then obind (read_buf (unat (header_count header)) r1)
                (\<lambda>(cs, r2). Ok (foldl shift_in (header_length header) cs, r2))
         else Ok (header_length header, r1)) = Ok (len, r2)" and
    3: "(if len > 0 then read_buf (unat len) r2 else Ok ([], r2)) = Ok (data, r')"
    using assms by (auto simp: packet_ReadFrom_def outcome_Ok_obind omap_Ok)
  have "stream_size r1 < stream_size r" using read_buf_size [OF _ 1] by simp
  moreover have "stream_size r2 \<le> stream_size r1"
    using 2 read_buf_size [of "unat (header_count header)" r1]
    by (auto simp: outcome_Ok_obind word_less_nat_alt less_imp_le split: if_splits)
  moreover have "stream_size r' \<le> stream_size r2"
    using 3 read_buf_size [of "unat len" r2]
    by (auto simp: word_less_nat_alt less_imp_le split: if_splits)
  ultimately show ?thesis by simp
qed

function handleConn_loop :: "bytes list \<Rightarrow> packet list \<times> byte option" where
  "handleConn_loop r =
     (case packet_ReadFrom r of
        Panic \<Rightarrow> ([], None)
      | Err e \<Rightarrow> ([], Some (AsCloseCode e))
      | Ok (p, r') \<Rightarrow> (case handleConn_loop r' of (ps, end) \<Rightarrow> (p # ps, end)))"
  by pat_completeness auto
termination
  by (relation "measure stream_size") (auto dest: ReadFrom_size)

declare handleConn_loop.simps [simp del]

text \<open>
  \<open>transportUDP\<close>: a datagram longer than \<open>MAX_UDP\<close> is cut by the read, one that does not decode is
  dropped, a CONNECT makes a connection, any other packet goes to the connection its
  \<open>PropertyClientID\<close> names, whoever sent it.
\<close>

datatype udp_action = UdpDrop | UdpConnect connect | UdpRecv nat packet

definition udp_handle :: "(gostring \<Rightarrow> nat option) \<Rightarrow> bytes \<Rightarrow> (go_error, udp_action) outcome" where
  "udp_handle getConn datagram =
     (case packet_Unmarshal (take MAX_UDP datagram) of
        Panic \<Rightarrow> Panic
      | Err _ \<Rightarrow> Ok UdpDrop
      | Ok p \<Rightarrow>
          (case p of
             PConnect cp \<Rightarrow> Ok (UdpConnect cp)
           | _ \<Rightarrow> (case packet_Get PropertyClientID p of
                    None \<Rightarrow> Ok UdpDrop
                  | Some cid \<Rightarrow> (case getConn cid of
                                  None \<Rightarrow> Ok UdpDrop
                                | Some c \<Rightarrow> Ok (UdpRecv c p)))))"

section \<open>Keep-alive\<close>

text \<open>Times and intervals are nanoseconds, \<open>int64\<close>.\<close>

record keepalive =
  stoped :: bool
  interval :: int
  lastPacketTime :: int

definition keepalive_New :: "int \<Rightarrow> int \<Rightarrow> keepalive" where
  "keepalive_New now intv = \<lparr>stoped = True, interval = intv, lastPacketTime = now\<rparr>"

text \<open>\<open>Start\<close>: whether a goroutine running \<open>run\<close> is started.\<close>

definition keepalive_Start :: "keepalive \<Rightarrow> keepalive \<times> bool" where
  "keepalive_Start k = (if stoped k then (k\<lparr>stoped := False\<rparr>, True) else (k, False))"

definition keepalive_Stop :: "keepalive \<Rightarrow> keepalive" where
  "keepalive_Stop k = k\<lparr>stoped := True\<rparr>"

definition keepalive_UpdateTime :: "int \<Rightarrow> keepalive \<Rightarrow> keepalive" where
  "keepalive_UpdateTime now k = k\<lparr>lastPacketTime := now\<rparr>"

definition keepalive_sendPing :: "int \<Rightarrow> keepalive \<Rightarrow> bool" where
  "keepalive_sendPing now k \<longleftrightarrow> \<not> now - lastPacketTime k < interval k"

end
