(* ===== verification/Client.thy ===== *)
theory Client
  imports Backoff Conn
begin

text \<open>
  The client of src/client: client.go, conn.go, options.go and status.go.

  A method is one function on the client's state; what the network does is an argument: a
  \<open>link\<close> says how one attempt to connect goes, \<open>werr\<close> is the error of a socket write. A packet in the
  send queue is the task that writes it. Goroutines and timers the code starts are counted or listed
  in the state: \<open>c_loops\<close> receive loops, \<open>c_timers\<close> pending reconnects with their delays, \<open>c_calls\<close> the
  calls of \<open>OnStatus\<close>. Logging is left out.
\<close>

section \<open>Status\<close>

datatype status = Status_Unknown | StatusClosed | StatusOpened | StatusOpening | StatusClosing

fun Status_String :: "status \<Rightarrow> string" where
  "Status_String Status_Unknown = ''Unknown''"
| "Status_String StatusClosed = ''Closed''"
| "Status_String StatusOpened = ''Opened''"
| "Status_String StatusOpening = ''Opening''"
| "Status_String StatusClosing = ''Closing''"

definition CloseReasonNormal :: u16 where "CloseReasonNormal = 0"
definition CloseReasonPingTimeout :: u16 where "CloseReasonPingTimeout = 1"
definition CloseReasonNetworkError :: u16 where "CloseReasonNetworkError = 2"
definition CloseReasonServerClose :: u16 where "CloseReasonServerClose = 3"

definition CloseReason_String :: "u16 \<Rightarrow> string" where
  "CloseReason_String c =
     (if c = CloseReasonNormal then ''Normal''
      else if c = CloseReasonPingTimeout then ''Ping Timeout''
      else if c = CloseReasonNetworkError then ''Network Error''
      else if c = CloseReasonServerClose then ''Server Close''
      else ''Unknown'')"

fun client_Error :: "client_error \<Rightarrow> string" where
  "client_Error ErrInvalidPacket = ''invalid packet''"
| "client_Error ErrRequestTimeout = ''request timeout''"
| "client_Error ErrConnectionFailed = ''connection failed''"
| "client_Error ErrConnectionClosed = ''connection closed''"
| "client_Error ErrConnectionNotReady = ''connection not ready''"

section \<open>Connections\<close>

text \<open>
  The types of src/client/conn.go that frame packets on a stream, and the one that sends datagrams
  and stamps them with the client id.
\<close>

datatype conn_kind = StreamConn | UDPConn gostring

definition WritePacket :: "conn_kind \<Rightarrow> packet \<Rightarrow> (go_error, bytes) outcome" where
  "WritePacket k p =
     (case k of
        StreamConn \<Rightarrow> packet_Marshal p
      | UDPConn cid \<Rightarrow>
          obind (packet_Marshal (packet_Set PropertyClientID cid p)) (\<lambda>data.
            if length data > MAX_UDP then Err (PacketError ErrPacketSizeTooLarge) else Ok data))"

text \<open>\<open>udpConn.ReadPacket\<close>: the buffer cuts a datagram that is too long.\<close>

definition udp_ReadPacket :: "bytes \<Rightarrow> (go_error, packet) outcome" where
  "udp_ReadPacket datagram = packet_Unmarshal (take MAX_UDP datagram)"

definition stream_ReadPacket :: "bytes list \<Rightarrow> (go_error, packet \<times> bytes list) outcome" where
  "stream_ReadPacket r = packet_ReadFrom r"

section \<open>Options\<close>

record client_options =
  o_id :: "identity option"
  o_retrier :: "retrier option"
  o_tls :: bool
  o_quic :: bool
  o_pingTimeout :: int
  o_pingInterval :: int
  o_writeTimeout :: int
  o_requestTimeout :: int
  o_messageTimeout :: int
  o_sendQueue :: int

definition client_newOptions ::
  "backoff \<Rightarrow> (client_options \<Rightarrow> client_options) list \<Rightarrow> client_options" where
  "client_newOptions exponential os =
     foldl (\<lambda>o' f. f o')
       \<lparr>o_id = None, o_retrier = Some (NewRetrier 10 exponential), o_tls = True, o_quic = True,
        o_pingTimeout = 5 * Second, o_pingInterval = 60 * Second, o_writeTimeout = 5 * Second,
        o_requestTimeout = 5 * Second, o_messageTimeout = 5 * Second, o_sendQueue = 1024\<rparr> os"

definition client_WithID :: "identity option \<Rightarrow> client_options \<Rightarrow> client_options" where
  "client_WithID ident o' = o'\<lparr>o_id := ident\<rparr>"

definition client_WithPing :: "int \<Rightarrow> int \<Rightarrow> client_options \<Rightarrow> client_options" where
  "client_WithPing timeout intv o' = o'\<lparr>o_pingTimeout := timeout, o_pingInterval := intv\<rparr>"

definition client_WithKeepAlive :: "int \<Rightarrow> int \<Rightarrow> client_options \<Rightarrow> client_options" where
  "client_WithKeepAlive timeout intv o' = o'\<lparr>o_pingTimeout := timeout, o_pingInterval := intv\<rparr>"

definition client_WithRetrier :: "retrier option \<Rightarrow> client_options \<Rightarrow> client_options" where
  "client_WithRetrier r o' = o'\<lparr>o_retrier := r\<rparr>"

definition client_WithTLSConfig :: "bool \<Rightarrow> client_options \<Rightarrow> client_options" where
  "client_WithTLSConfig has o' = o'\<lparr>o_tls := has\<rparr>"

definition client_WithQuicConfig :: "bool \<Rightarrow> client_options \<Rightarrow> client_options" where
  "client_WithQuicConfig has o' = o'\<lparr>o_quic := has\<rparr>"

definition client_WithWriteTimeout :: "int \<Rightarrow> client_options \<Rightarrow> client_options" where
  "client_WithWriteTimeout t o' = o'\<lparr>o_writeTimeout := t\<rparr>"

definition client_WithRequestTimeout :: "int \<Rightarrow> client_options \<Rightarrow> client_options" where
  "client_WithRequestTimeout t o' = o'\<lparr>o_requestTimeout := t\<rparr>"

definition client_WithMessageTimeout :: "int \<Rightarrow> client_options \<Rightarrow> client_options" where
  "client_WithMessageTimeout t o' = o'\<lparr>o_messageTimeout := t\<rparr>"

definition client_WithSendQueue :: "int \<Rightarrow> client_options \<Rightarrow> client_options" where
  "client_WithSendQueue n o' = o'\<lparr>o_sendQueue := n\<rparr>"

section \<open>State\<close>

record client =
  c_id :: "identity option"
  c_kind :: conn_kind
  c_open :: bool
  c_out :: "bytes list"
  c_closed :: bool
  c_status :: status
  c_retrier :: "retrier option"
  c_retrying :: bool
  c_pingChan :: bool
  c_queue :: "packet queue"
  c_keepalive :: keepalive
  c_requestID :: u64
  c_requestTasks :: "(u16, nat) gomap"
  c_nextChan :: nat
  c_loops :: nat
  c_timers :: "int list"
  c_calls :: "status list"

text \<open>
  \<open>New\<close>: the endpoint is split at \<open>://\<close>. The constructors of the connections panic for a missing
  configuration, and for an address that does not resolve (\<open>resolves\<close>); the one for UDP reads the
  client id of the identity.
\<close>

definition client_conn ::
  "(gostring \<Rightarrow> bool) \<Rightarrow> gostring \<Rightarrow> client_options \<Rightarrow> (go_error, conn_kind) outcome" where
  "client_conn resolves endpoint o' =
     (case go_Split (gs ''://'') endpoint of
        [network, address] \<Rightarrow>
          (if network = gs ''ws'' then Ok StreamConn
           else if network = gs ''wss'' then (if o_tls o' then Ok StreamConn else Panic)
           else if network = gs ''tcp'' then (if resolves address then Ok StreamConn else Panic)
           else if network = gs ''tls'' then (if o_tls o' then Ok StreamConn else Panic)
           else if network = gs ''udp'' then
             (case o_id o' of
                None \<Rightarrow> Panic
              | Some ident \<Rightarrow> if resolves address then Ok (UDPConn (ClientID ident)) else Panic)
           else if network = gs ''quic'' then (if o_quic o' then Ok StreamConn else Panic)
           else Panic)
      | _ \<Rightarrow> Panic)"

definition client_New ::
  "(gostring \<Rightarrow> bool) \<Rightarrow> backoff \<Rightarrow> int \<Rightarrow> gostring \<Rightarrow> (client_options \<Rightarrow> client_options) list \<Rightarrow>
     (go_error, client) outcome" where
  "client_New resolves exponential now endpoint os =
     (let o' = client_newOptions exponential os
      in obind (client_conn resolves endpoint o') (\<lambda>k. obind (queue_New (o_sendQueue o')) (\<lambda>q.
           Ok \<lparr>c_id = o_id o', c_kind = k, c_open = False, c_out = [], c_closed = False,
               c_status = Status_Unknown, c_retrier = o_retrier o', c_retrying = False,
               c_pingChan = False, c_queue = q, c_keepalive = keepalive_New now (o_pingInterval o'),
               c_requestID = 0, c_requestTasks = [], c_nextChan = 0, c_loops = 0, c_timers = [],
               c_calls = []\<rparr>)))"

section \<open>Status changes\<close>

definition IsReady :: "client \<Rightarrow> bool" where
  "IsReady c \<longleftrightarrow> c_status c = StatusOpened"

definition setStatus :: "status \<Rightarrow> client \<Rightarrow> client" where
  "setStatus st c =
     (if c_status c = st then c
      else let c1 = c\<lparr>c_status := st, c_calls := c_calls c @ [st]\<rparr>
           in case st of
                StatusClosed \<Rightarrow> c1\<lparr>c_open := False, c_keepalive := keepalive_Stop (c_keepalive c)\<rparr>
              | StatusOpening \<Rightarrow> c1\<lparr>c_keepalive := keepalive_Stop (c_keepalive c)\<rparr>
              | StatusClosing \<Rightarrow> c1\<lparr>c_keepalive := keepalive_Stop (c_keepalive c)\<rparr>
              | StatusOpened \<Rightarrow>
                  c1\<lparr>c_keepalive := fst (keepalive_Start (c_keepalive c)), c_loops := c_loops c + 1\<rparr>
              | Status_Unknown \<Rightarrow> c1)"

text \<open>\<open>tryClose\<close> sets a timer for the next attempt, or gives up.\<close>

definition tryClose :: "go_error \<Rightarrow> client \<Rightarrow> client" where
  "tryClose err c =
     (if c_retrying c then c
      else if c_id c = None then c
      else if c_status c = StatusClosed \<or> c_status c = StatusClosing then c
      else if err = CloseReasonError CloseReasonNormal then setStatus StatusClosed c
      else case c_retrier c of
             None \<Rightarrow> setStatus StatusClosed c
           | Some r \<Rightarrow>
               (case Retry err r of
                  (None, r') \<Rightarrow> setStatus StatusClosed (c\<lparr>c_retrier := Some r'\<rparr>)
                | (Some delay, r') \<Rightarrow>
                    (let c1 = setStatus StatusOpening (c\<lparr>c_retrier := Some r', c_retrying := True\<rparr>)
                     in c1\<lparr>c_timers := c_timers c1 @ [delay]\<rparr>)))"

text \<open>How one attempt goes: dialling, writing the CONNECT, reading the answer.\<close>

record link =
  dial_err :: "go_error option"
  write_err :: "go_error option"
  answer :: "(go_error, packet) outcome"

definition reconnect :: "link \<Rightarrow> client \<Rightarrow> (go_error, go_error option \<times> client) outcome" where
  "reconnect l c =
     (case dial_err l of
        Some e \<Rightarrow> Ok (Some e, c\<lparr>c_open := False\<rparr>)
      | None \<Rightarrow>
          (let c1 = c\<lparr>c_open := True\<rparr>
           in case WritePacket (c_kind c) (PConnect (NewConnect (c_id c))) of
                Panic \<Rightarrow> Panic
              | Err e \<Rightarrow> Ok (Some e, c1)
              | Ok data \<Rightarrow>
                  (case write_err l of
                     Some e \<Rightarrow> Ok (Some e, c1)
                   | None \<Rightarrow>
                       (let c2 = c1\<lparr>c_out := c_out c1 @ [data]\<rparr>
                        in case answer l of
                             Panic \<Rightarrow> Panic
                           | Err e \<Rightarrow> Ok (Some e, c2)
                           | Ok (PConnack ack) \<Rightarrow>
                               if connack_Code ack \<noteq> ConnectAccepted
                               then Ok (Some (ConnectCodeError (connack_Code ack)), c2)
                               else Ok (None, setStatus StatusOpened c2)
                           | Ok (PClose p) \<Rightarrow> Ok (Some (CloseCodeError (close_Code p)), c2)
                           | Ok _ \<Rightarrow> Ok (Some (ClientError ErrConnectionFailed), c2)))))"

text \<open>\<open>Connect\<close>; without a retrier, resetting it after a failure is a nil pointer.\<close>

definition Connect :: "link \<Rightarrow> client \<Rightarrow> (go_error, client) outcome" where
  "Connect l c =
     (if c_status c = StatusOpened \<or> c_status c = StatusOpening then Ok c
      else obind (reconnect l (setStatus StatusOpening c)) (\<lambda>(err, c1).
             case err of
               None \<Rightarrow> Ok c1
             | Some e \<Rightarrow>
                 (case c_retrier c1 of
                    None \<Rightarrow> Panic
                  | Some r \<Rightarrow>
                      Ok (tryClose e (c1\<lparr>c_retrying := False, c_retrier := Some (retrier_Reset r)\<rparr>)))))"

text \<open>The first pending timer fires.\<close>

definition fire :: "link \<Rightarrow> client \<Rightarrow> (go_error, client) outcome" where
  "fire l c =
     (case c_timers c of
        [] \<Rightarrow> Ok c
      | _ # ts \<Rightarrow>
          (let c0 = c\<lparr>c_timers := ts\<rparr>
           in if c_status c0 \<noteq> StatusOpening then Ok c0
              else obind (reconnect l c0) (\<lambda>(err, c1).
                     case err of
                       None \<Rightarrow> Ok c1
                     | Some e \<Rightarrow> Ok (tryClose e (c1\<lparr>c_retrying := False\<rparr>)))))"

definition client_Close :: "client \<Rightarrow> client" where
  "client_Close c =
     (if c_closed c then c
      else c\<lparr>c_closed := True, c_keepalive := keepalive_Stop (c_keepalive c),
             c_queue := queue_Close (c_queue c), c_open := False\<rparr>)"

section \<open>Sending\<close>

text \<open>\<open>sendPacket\<close>; \<open>None\<close> while the call waits for room in the queue.\<close>

definition sendPacket :: "ctx \<Rightarrow> bool \<Rightarrow> packet \<Rightarrow> client \<Rightarrow> (go_error, client) outcome option" where
  "sendPacket cx jump p c =
     (if \<not> IsReady c then Some (Err (ClientError ErrConnectionNotReady))
      else if closed (c_queue c) then Some (Err (QueueError ErrQueueIsClosed))
      else let room = has_room jump (c_queue c)
           in case ctx_err cx of
                Some e \<Rightarrow>
                  if room \<and> \<not> picks_done cx then Some (Ok (c\<lparr>c_queue := accept jump p (c_queue c)\<rparr>))
                  else Some (Err e)
              | None \<Rightarrow> if room then Some (Ok (c\<lparr>c_queue := accept jump p (c_queue c)\<rparr>)) else None)"

definition client_SendMessage :: "ctx \<Rightarrow> message \<Rightarrow> client \<Rightarrow> (go_error, client) outcome option" where
  "client_SendMessage cx m c =
     (if \<not> IsReady c then Some (Err (ClientError ErrConnectionNotReady))
      else sendPacket cx False (PMessage m) c)"

definition sendPong :: "client \<Rightarrow> (go_error, client) outcome option" where
  "sendPong c = sendPacket background True NewPong c"

text \<open>The task in the queue: it writes when the client is ready, and a failed write may reconnect.\<close>

definition run_task :: "int \<Rightarrow> go_error option \<Rightarrow> packet \<Rightarrow> client \<Rightarrow> (go_error, client) outcome" where
  "run_task now werr p c =
     (if \<not> IsReady c then Ok c
      else case WritePacket (c_kind c) p of
             Panic \<Rightarrow> Panic
           | Err e \<Rightarrow> Ok (tryClose e c)
           | Ok data \<Rightarrow>
               (case werr of
                  Some e \<Rightarrow> Ok (tryClose e c)
                | None \<Rightarrow> Ok (c\<lparr>c_out := c_out c @ [data],
                                c_keepalive := keepalive_UpdateTime now (c_keepalive c)\<rparr>)))"

definition client_work :: "int \<Rightarrow> go_error option \<Rightarrow> client \<Rightarrow> (go_error, client) outcome" where
  "client_work now werr c =
     (let q = c_queue c
      in if jumps q \<noteq> [] then
           run_task now werr (hd (jumps q)) (c\<lparr>c_queue := (start_jump q)\<lparr>worker := AtCheck\<rparr>\<rparr>)
         else if \<not> jumps_closed q \<and> \<not> tasks_nil q \<and> tasks q \<noteq> [] then
           run_task now werr (hd (tasks q)) (c\<lparr>c_queue := (start_task q)\<lparr>worker := AtCheck\<rparr>\<rparr>)
         else Ok c)"

text \<open>\<open>SendRequest\<close> up to its \<open>select\<close>.\<close>

definition client_request_end :: "u16 \<Rightarrow> client \<Rightarrow> client" where
  "client_request_end i c = c\<lparr>c_requestTasks := AList.delete i (c_requestTasks c)\<rparr>"

definition client_SendRequest ::
  "ctx \<Rightarrow> request \<Rightarrow> client \<Rightarrow> ((go_error, nat \<times> u16) outcome \<times> client) option" where
  "client_SendRequest cx p c =
     (if \<not> IsReady c then Some (Err (ClientError ErrConnectionNotReady), c)
      else
        (let fresh = (request_ID p = 0);
             n = c_requestID c + 1;
             i = (if fresh then next_request_id n else request_ID p);
             chan = c_nextChan c;
             c1 = c\<lparr>c_requestID := (if fresh then n else c_requestID c),
                    c_requestTasks := AList.update i chan (c_requestTasks c), c_nextChan := Suc chan\<rparr>
         in case sendPacket cx False (PRequest (p\<lparr>request_ID := i\<rparr>)) c1 of
              None \<Rightarrow> None
            | Some (Ok c2) \<Rightarrow> Some (Ok (chan, i), c2)
            | Some (Err e) \<Rightarrow> Some (Err e, client_request_end i c1)
            | Some Panic \<Rightarrow> Some (Panic, c1)))"

text \<open>\<open>SendPing\<close>: \<open>result\<close> is what \<open>sendPing\<close> returned; a timeout may reconnect.\<close>

definition client_SendPing :: "go_error option \<Rightarrow> client \<Rightarrow> client" where
  "client_SendPing result c =
     (case result of
        None \<Rightarrow> c
      | Some e \<Rightarrow> if is_timeout e then tryClose (CloseReasonError CloseReasonPingTimeout) c else c)"

definition sendPing_begin :: "ctx \<Rightarrow> client \<Rightarrow> ((go_error, unit) outcome \<times> client) option" where
  "sendPing_begin cx c =
     (if \<not> IsReady c then Some (Err (ClientError ErrConnectionNotReady), c)
      else let c1 = c\<lparr>c_pingChan := True\<rparr>
           in case sendPacket cx False NewPing c1 of
                None \<Rightarrow> None
              | Some (Ok c2) \<Rightarrow> Some (Ok (), c2)
              | Some (Err e) \<Rightarrow> Some (Err e, c1\<lparr>c_pingChan := False\<rparr>)
              | Some Panic \<Rightarrow> Some (Panic, c1))"

section \<open>Receiving\<close>

text \<open>\<open>recv\<close> hands every packet to \<open>handlePacket\<close> and ends when a read fails.\<close>

definition recv_err :: "go_error \<Rightarrow> client \<Rightarrow> client" where
  "recv_err e c = tryClose e (c\<lparr>c_loops := c_loops c - 1\<rparr>)"

datatype client_call = CallMessage message | WakeClientRequest nat | LogClientNoTask u16 | WakeClientPing

text \<open>The response to a request: the handler's status code, or \<open>StatusBadRequest\<close> for any other error.\<close>

definition client_Response :: "(go_error, bytes) outcome \<Rightarrow> request \<Rightarrow> (go_error, response) outcome" where
  "client_Response res p =
     (case res of
        Ok body \<Rightarrow> Ok (request_Response p StatusOK [body])
      | Err (StatusCodeError code) \<Rightarrow> Ok (request_Response p code [])
      | Err e \<Rightarrow> Ok (request_Response p StatusBadRequest [])
      | Panic \<Rightarrow> Panic)"

text \<open>An error of a send is logged; \<open>None\<close> while a send waits for room.\<close>

definition after_send :: "client \<Rightarrow> (go_error, client) outcome option \<Rightarrow> (go_error, client \<times> client_call list) outcome option" where
  "after_send c res = map_option (\<lambda>r. omap (\<lambda>c'. (c', [])) (ignoring c r)) res"

definition handlePacket ::
  "(request \<Rightarrow> (go_error, bytes) outcome) \<Rightarrow> int \<Rightarrow> packet \<Rightarrow> client \<Rightarrow>
     (go_error, client \<times> client_call list) outcome option" where
  "handlePacket onRequest now p c0 =
     (let c = c0\<lparr>c_keepalive := keepalive_UpdateTime now (c_keepalive c0)\<rparr>
      in case p of
           PMessage m \<Rightarrow> Some (Ok (c, [CallMessage m]))
         | PRequest r \<Rightarrow>
             (case client_Response (onRequest r) r of
                Ok res \<Rightarrow> after_send c (sendPacket background False (PResponse res) c)
              | Err e \<Rightarrow> Some (Err e)
              | Panic \<Rightarrow> Some Panic)
         | PResponse r \<Rightarrow>
             Some (Ok (c, [case map_of (c_requestTasks c) (response_id r) of
                             Some ch \<Rightarrow> WakeClientRequest ch | None \<Rightarrow> LogClientNoTask (response_id r)]))
         | PPing _ \<Rightarrow> after_send c (sendPong c)
         | PPong _ \<Rightarrow> Some (Ok (c, if c_pingChan c then [WakeClientPing] else []))
         | PClose q \<Rightarrow> Some (Ok (tryClose (CloseCodeError (close_Code q)) c, []))
         | _ \<Rightarrow> Some (Ok (c, [])))"

end
