(* ===== verification/Conn_Safety.thy ===== *)
theory Conn_Safety
  imports Conn
begin

text \<open>
  What the connection of \<^verbatim>\<open>src/internal/network/conn.go\<close> guarantees: packets arrive whole and in
  order, closing happens once, what a datagram carries; and where its request handling fails.
\<close>

section \<open>Delivery\<close>

text \<open>An open stream connection with no jump task waiting.\<close>

definition conn_plain :: "conn \<Rightarrow> bool" where
  "conn_plain c \<longleftrightarrow>
     (let q = sendQueue c
      in \<not> conn_closed c \<and> \<not> raw_closed c \<and> \<not> closed q \<and> \<not> jumps_closed q \<and> \<not> tasks_nil q \<and>
         jumps q = [] \<and> length (tasks q) \<le> cap_tasks q \<and> 0 < cap_tasks q)"

definition sent :: "conn \<Rightarrow> bytes list" where
  "sent c = raw_out c @ tasks (sendQueue c)"

lemma accept_task [simp]:
  "tasks (accept False t q) = tasks q @ [t]" "jumps (accept False t q) = jumps q"
  "closed (accept False t q) = closed q" "jumps_closed (accept False t q) = jumps_closed q"
  "tasks_nil (accept False t q) = tasks_nil q" "cap_tasks (accept False t q) = cap_tasks q"
  by (simp_all add: accept_def push_send_def push_select_def Let_def)

lemma conn_work_plain:
  assumes "conn_plain c"
  shows "conn_plain (conn_work c) \<and> sent (conn_work c) = sent c \<and>
    length (tasks (sendQueue (conn_work c))) = length (tasks (sendQueue c)) - 1 \<and>
    cap_tasks (sendQueue (conn_work c)) = cap_tasks (sendQueue c)"
  using assms
  by (cases "tasks (sendQueue c)")
    (auto simp: conn_plain_def Let_def conn_work_def WriteData_def start_task_def sent_def)

lemma conn_works_plain:
  "conn_plain c \<Longrightarrow> conn_plain (conn_works n c) \<and> sent (conn_works n c) = sent c \<and>
    length (tasks (sendQueue (conn_works n c))) = length (tasks (sendQueue c)) - n"
proof (induction n arbitrary: c)
  case (Suc n)
  then show ?case using conn_work_plain [of c] by simp
qed simp

lemma conn_drain_plain: "conn_plain c \<Longrightarrow> raw_out (conn_drain c) = sent c"
  using conn_works_plain [of c "length (jumps (sendQueue c)) + length (tasks (sendQueue c))"]
  by (auto simp: conn_drain_def sent_def conn_plain_def Let_def)

lemma conn_push_plain:
  assumes "conn_plain c"
  obtains c' where "conn_push background False data c = Ok c'" and "conn_plain c'"
    and "sent c' = sent c @ [data]"
proof -
  define c1 where "c1 = (if has_room False (sendQueue c) then c else wait_room False c)"
  have j: "jumps (sendQueue c) = []" using assms by (simp add: conn_plain_def Let_def)
  have c1: "conn_plain c1 \<and> sent c1 = sent c \<and> length (tasks (sendQueue c1)) < cap_tasks (sendQueue c1)"
    using assms conn_work_plain [OF assms] j
    by (auto simp: c1_def has_room_def wait_room_def conn_plain_def Let_def)
  let ?c' = "c1\<lparr>sendQueue := accept False data (sendQueue c1)\<rparr>"
  have "conn_push background False data c = Ok ?c'"
    using assms by (simp add: conn_push_def Let_def conn_plain_def background_def c1_def)
  moreover have "conn_plain ?c'" using c1 by (simp add: conn_plain_def Let_def)
  moreover have "sent ?c' = sent c @ [data]" using c1 by (simp add: sent_def)
  ultimately show ?thesis by (rule that)
qed

text \<open>Several packets, one after the other.\<close>

fun send_all :: "packet list \<Rightarrow> conn \<Rightarrow> (go_error, conn) outcome" where
  "send_all [] c = Ok c"
| "send_all (p # ps) c = obind (conn_SendPacket background p c) (send_all ps)"

definition frame :: "packet \<Rightarrow> bytes" where
  "frame p = frame_header (packet_Type p) (length (packet_wire p)) @ packet_wire p"

definition sendable :: "packet \<Rightarrow> bool" where
  "sendable p \<longleftrightarrow> packet_ok p \<and> length (packet_wire p) \<le> MAX_LEN"

lemma Marshal_sendable: "sendable p \<Longrightarrow> packet_Marshal p = Ok (frame p)"
  by (simp add: sendable_def Marshal_frame frame_def)

lemma send_all_plain:
  "conn_plain c \<Longrightarrow> list_all sendable ps \<Longrightarrow>
   \<exists>c'. send_all ps c = Ok c' \<and> conn_plain c' \<and> sent c' = sent c @ map frame ps"
proof (induction ps arbitrary: c)
  case (Cons p ps)
  then obtain c1 where c1: "conn_push background False (frame p) c = Ok c1" "conn_plain c1"
    "sent c1 = sent c @ [frame p]"
    using conn_push_plain [of c "frame p"] by blast
  have "conn_SendPacket background p c = Ok c1"
    using Cons.prems c1
    by (simp add: conn_SendPacket_def conn_IsClosed_def conn_plain_def Let_def Marshal_sendable)
  with Cons.IH [of c1] Cons.prems c1 show ?case by auto
qed simp

lemma ReadFrom_frame: "sendable p \<Longrightarrow> packet_ReadFrom (frame p # later) = Ok (p, later)"
  using frame_read [of p "[]" later] by (simp add: sendable_def frame_def)

lemma handleConn_frames:
  "list_all sendable ps \<Longrightarrow> handleConn_loop (map frame ps) = (ps, Some CloseInternalError)"
proof (induction ps)
  case Nil
  show ?case
    by (subst handleConn_loop.simps) (simp add: packet_ReadFrom_def read_buf_def AsCloseCode_def)
next
  case (Cons p ps)
  then show ?case
    by (subst handleConn_loop.simps) (simp add: ReadFrom_frame)
qed

lemma newConn_plain: "newConn ident ip udp cap = Ok c \<Longrightarrow> conn_plain c \<and> sent c = []"
  by (auto simp: newConn_def queue_New_def conn_plain_def sent_def Let_def split: if_splits)

section \<open>Datagrams\<close>

lemma ReadBytes_short:
  assumes "room pre post" and "length post < n" and "n < 2 ^ 62"
  shows "ReadBytes (of_nat n) (dec_at pre post) = Err ErrBufferTooShort"
proof -
  have "(of_nat (length pre) + of_nat n :: u64) = of_nat (length pre + n)" by simp
  moreover have "unat (of_nat (length pre + n) :: u64) = length pre + n"
    using assms by (simp only: room_def unat_of_nat) (simp add: unat_of_nat)
  moreover have "unat (of_nat (length pre + length post) :: u64) = length pre + length post"
    using assms by (simp only: room_def unat_of_nat) (simp add: unat_of_nat)
  ultimately show ?thesis
    using assms
    by (simp add: ReadBytes_def dec_at_def len64_def word_less_nat_alt room_def)
qed

lemma Unmarshal_cut:
  assumes "sendable p" and "MAX_UDP < length (frame p)"
  shows "packet_Unmarshal (take MAX_UDP (frame p)) = Err (CoderError ErrBufferTooShort)"
proof -
  let ?w = "packet_wire p"
  let ?h = "frame_header (packet_Type p) (length ?w)" and ?m = "MAX_UDP - (2 + extra_bytes (length ?w))"
  have len: "length ?w \<le> MAX_LEN" and k: "extra_bytes (length ?w) \<le> 3"
    using assms(1) by (simp_all add: sendable_def extra_bytes_le)
  have cut: "take MAX_UDP (frame p) = ?h @ take ?m ?w"
    using k by (simp add: frame_def MAX_UDP_def MID_LEN_1_def)
  have short: "length (take ?m ?w) < length ?w" and ne: "length ?w \<noteq> 0"
    using assms(2) k by (auto simp: frame_def MAX_UDP_def MID_LEN_1_def)
  have m: "length (take ?m ?w) \<le> 1024" by (simp add: MAX_UDP_def MID_LEN_1_def)
  have room: "room ?h (take ?m ?w)" using m k by (simp add: room_def)
  have "length ?w < 2 ^ 62" using len by (simp add: MAX_LEN_def)
  from ReadBytes_short [OF room short this] Unmarshal_header [OF packet_Type_small len ne, of "take ?m ?w" p] m
  show ?thesis by (simp add: cut)
qed

section \<open>A request and its response\<close>

lemma next_request_id_low: "unat n < 65535 \<Longrightarrow> next_request_id n = 0"
proof -
  assume "unat n < 65535"
  then have "unat (n div 65535) = 0" by (simp add: unat_div)
  then have "n div 65535 = 0" by (simp only: unat_eq_zero)
  then show ?thesis by (simp add: next_request_id_def)
qed

text \<open>
  One goroutine in \<open>SendRequest\<close>, past its send, and one in \<open>recvResponse\<close> for the same id. The
  requester waits in its \<open>select\<close> and then runs its deferred function, which takes \<open>requestLock\<close>; the
  receiver takes the lock, sends on the unbuffered channel while it holds it, and releases it.
\<close>

datatype requester = Selecting | Leaving | Gone
datatype receiver = Arriving | Sending | Finished

record request_sys =
  requester :: requester
  receiver :: receiver
  lock_held :: bool
  registered :: bool

definition request_start :: request_sys where
  "request_start = \<lparr>requester = Selecting, receiver = Arriving, lock_held = False, registered = True\<rparr>"

inductive request_step :: "request_sys \<Rightarrow> request_sys \<Rightarrow> bool" where
  arrive: "receiver s = Arriving \<Longrightarrow> \<not> lock_held s \<Longrightarrow> registered s \<Longrightarrow>
    request_step s (s\<lparr>receiver := Sending, lock_held := True\<rparr>)"
| late: "receiver s = Arriving \<Longrightarrow> \<not> lock_held s \<Longrightarrow> \<not> registered s \<Longrightarrow>
    request_step s (s\<lparr>receiver := Finished\<rparr>)"
| deliver: "receiver s = Sending \<Longrightarrow> requester s = Selecting \<Longrightarrow>
    request_step s (s\<lparr>receiver := Finished, lock_held := False, requester := Leaving\<rparr>)"
| expire: "requester s = Selecting \<Longrightarrow> request_step s (s\<lparr>requester := Leaving\<rparr>)"
| leave: "requester s = Leaving \<Longrightarrow> \<not> lock_held s \<Longrightarrow>
    request_step s (s\<lparr>requester := Gone, registered := False\<rparr>)"

inductive_simps request_step_iff: "request_step s t"

definition request_inv :: "request_sys \<Rightarrow> bool" where
  "request_inv s \<longleftrightarrow> lock_held s = (receiver s = Sending) \<and> registered s = (requester s \<noteq> Gone) \<and>
     (receiver s = Sending \<longrightarrow> requester s \<noteq> Gone)"

lemma request_inv_reachable: "request_step\<^sup>*\<^sup>* request_start s \<Longrightarrow> request_inv s"
  by (induction rule: rtranclp_induct)
    (auto simp: request_start_def request_inv_def request_step_iff)

lemma request_stuck_iff:
  assumes "request_inv s"
  shows "(\<forall>t. \<not> request_step s t) \<longleftrightarrow>
    (requester s = Gone \<and> receiver s = Finished) \<or> (requester s = Leaving \<and> receiver s = Sending)"
proof (cases "requester s"; cases "receiver s")
qed (use assms in \<open>auto simp: request_inv_def request_step_iff\<close>)

section \<open>Properties\<close>



text \<open>
  A datagram carries its packet exactly when the frame has at most \<open>MAX_UDP\<close> bytes: then the
  transport dispatches the packet that was sent; a longer frame is cut by the read buffer and
  dropped without an error to the sender.
\<close>

theorem udp_datagram:
  assumes "packet_ok p" and "packet_Marshal p = Ok bs" and "\<forall>cp. p \<noteq> PConnect cp"
  shows "udp_handle getConn bs =
    Ok (if length bs \<le> MAX_UDP then
          (case packet_Get PropertyClientID p of
             Some cid \<Rightarrow> (case getConn cid of Some c \<Rightarrow> UdpRecv c p | None \<Rightarrow> UdpDrop)
           | None \<Rightarrow> UdpDrop)
        else UdpDrop)"
proof -
  have p: "sendable p" "bs = frame p"
    using assms(1,2) by (auto simp: Marshal_frame sendable_def frame_def split: if_splits)
  then have len: "length (packet_wire p) \<le> MAX_LEN" by (simp add: sendable_def)
  show ?thesis
  proof (cases "length bs \<le> MAX_UDP")
    case True
    then have "packet_Unmarshal (take MAX_UDP bs) = Ok p"
      using Unmarshal_frame [OF assms(1) len, of "[]"] by (simp add: p(2) frame_def)
    with True assms(3) show ?thesis
      by (cases p) (auto simp: udp_handle_def split: option.splits)
  next
    case False
    then show ?thesis using Unmarshal_cut [OF p(1)] p(2) by (simp add: udp_handle_def)
  qed
qed

theorem udp_datagram_witness:
  "udp_handle (\<lambda>_. Some 4) [0x20, 5, 0, 1, 3, 1, 0x61] =
     Ok (UdpRecv 4 (PMessage \<lparr>message_props = [(3, [0x61])], Kind = 0, Payload = []\<rparr>))"
proof -
  let ?p = "PMessage \<lparr>message_props = [(3, [0x61])], Kind = 0, Payload = []\<rparr>"
  have 1: "packet_ok ?p" by (simp add: u8map_ok_def go_map_def)
  have 2: "packet_Marshal ?p = Ok [0x20, 5, 0, 1, 3, 1, 0x61]" by code_simp
  have 3: "\<forall>cp. ?p \<noteq> PConnect cp" by simp
  have 4: "packet_Get PropertyClientID ?p = Some [0x61]"
    by (simp add: packet_Get_def props_Get_def PropertyClientID_def)
  from udp_datagram [OF 1 2 3, of "\<lambda>_. Some 4"] 4 show ?thesis
    by (simp add: MAX_UDP_def MID_LEN_1_def)
qed

text \<open>
  Closing with a code happens once: it closes the connection and its queue and calls the
  delegate's \<open>OnClose\<close> exactly once, every later send is refused and every later close changes
  nothing; and on a stream the CLOSE packet is still in the queue when the socket is closed, so
  unless the worker ran in between it is never written.
\<close>

theorem conn_CloseCode_once:
  assumes "\<not> conn_closed c" and "\<not> closed (sendQueue c)" and "closer (sendQueue c) = NotClosed"
    and "length (jumps (sendQueue c)) < cap_jumps" and "\<not> jumps_closed (sendQueue c)"
  shows "\<exists>c'. conn_CloseCode code c = Ok (c', True) \<and> conn_closed c' \<and> closed (sendQueue c') \<and>
    conn_Close c' = (c', False) \<and> conn_SendPacket cx p c' = Err (XError ConnectionIsClosed) \<and>
    jumpPacket cx p c' = Err (XError ConnectionIsClosed) \<and>
    (\<not> raw_udp c \<longrightarrow> raw_out (conn_works n c') = raw_out c)"
proof -
  have s: "sendable (PClose (NewClose code))"
    by (simp add: sendable_def NewClose_def u8map_ok_def close_wire_def u8map_wire_def MAX_LEN_def)
  let ?c1 = "c\<lparr>sendQueue := accept True (frame (PClose (NewClose code))) (sendQueue c)\<rparr>"
  have j: "jumpPacket background (PClose (NewClose code)) c = Ok ?c1"
    using assms Marshal_sendable [OF s]
    by (simp add: jumpPacket_def conn_IsClosed_def conn_push_def background_def has_room_def Let_def)
  have cl: "closer (accept True t q) = closer q" "closed (accept True t q) = closed q"
    if "\<not> jumps_closed q" for t :: bytes and q
    using that by (simp_all add: accept_def push_send_def push_select_def Let_def)
  have q: "closed (queue_Close (sendQueue ?c1))"
    using assms cl by (simp add: queue_Close_def close_step_def)
  define c' where "c' = fst (conn_Close ?c1)"
  have c': "conn_CloseCode code c = Ok (c', True)"
    using assms(1) by (simp add: conn_CloseCode_def j conn_Close_def c'_def)
  have fields: "conn_closed c'" "closed (sendQueue c')" "raw_out c' = raw_out c"
    "\<not> raw_udp c \<Longrightarrow> raw_closed c'"
    using assms(1) q by (simp_all add: c'_def conn_Close_def)
  have quiet: "raw_closed x \<Longrightarrow> raw_out (conn_works n x) = raw_out x" for x
  proof (induction n arbitrary: x)
    case (Suc n)
    have "raw_closed (conn_work x) \<and> raw_out (conn_work x) = raw_out x"
      using Suc.prems by (simp add: conn_work_def Let_def WriteData_def)
    then show ?case using Suc.IH [of "conn_work x"] by simp
  qed simp
  from c' fields quiet [of c'] show ?thesis
    by (intro exI [of _ c'])
      (simp add: conn_Close_def conn_SendPacket_def jumpPacket_def conn_IsClosed_def)
qed

theorem conn_CloseCode_once_witness:
  "\<exists>c c'. newConn None [] False 8 = Ok c \<and> conn_CloseCode CloseKickedOut c = Ok (c', True) \<and>
     raw_out (conn_drain c') = []"
proof -
  obtain c where c: "newConn None [] False 8 = Ok c" by (simp add: newConn_def queue_New_def)
  have h: "\<not> conn_closed c" "\<not> closed (sendQueue c)" "closer (sendQueue c) = NotClosed"
    "length (jumps (sendQueue c)) < cap_jumps" "\<not> jumps_closed (sendQueue c)"
    "\<not> raw_udp c" "raw_out c = []"
    using c by (auto simp: newConn_def queue_New_def cap_jumps_def split: if_splits)
  have "\<exists>c'. conn_CloseCode CloseKickedOut c = Ok (c', True) \<and> raw_out (conn_works n c') = []" for n
    using conn_CloseCode_once [OF h(1-5), of CloseKickedOut background NewPing n] h(6,7) by auto
  then show ?thesis using c unfolding conn_drain_def by (metis outcome.inject(1) prod.inject)
qed

text \<open>
  Request ids collide: the first 65534 ids drawn on a connection are all 0, so of two requests
  without an id that are pending together the second takes over the registration, the response to
  the first is handed to the second, and the first is never woken by any response with its id.
\<close>

theorem request_ids_collide:
  assumes "unat (requestID c) + 2 < 65535" and "request_ID p = 0" and "request_ID q = 0"
    and "SendRequest_begin cx p c = (Ok (chan1, i1), c1)"
    and "SendRequest_begin cx q c1 = (Ok (chan2, i2), c2)"
  shows "i1 = 0 \<and> i2 = 0 \<and> chan1 \<noteq> chan2 \<and>
    (\<forall>r. response_id r = i1 \<longrightarrow> recvResponse r c2 = Some chan2)"
proof -
  have work: "requestID (conn_work x) = requestID x \<and> requestTasks (conn_work x) = requestTasks x \<and>
      nextChan (conn_work x) = nextChan x" for x
    by (simp add: conn_work_def Let_def WriteData_def)
  then have works: "requestID (conn_works n x) = requestID x \<and>
      requestTasks (conn_works n x) = requestTasks x \<and> nextChan (conn_works n x) = nextChan x" for n x
    by (induction n arbitrary: x) simp_all
  have send: "requestID y = requestID x \<and> requestTasks y = requestTasks x \<and> nextChan y = nextChan x"
    if "conn_SendPacket cx k x = Ok y" for k x y
    using that work works [of _ x]
    by (auto simp: conn_SendPacket_def conn_push_def wait_room_def Let_def outcome_Ok_obind
      simp del: conn_works.simps split: if_splits option.splits)
  have low: "next_request_id (requestID c + 1) = 0" "next_request_id (requestID c + 1 + 1) = 0"
    using assms(1) by (simp_all add: next_request_id_low unat_word_ariths)
  have 1: "i1 = 0" "chan1 = nextChan c" "requestID c1 = requestID c + 1" "nextChan c1 = Suc (nextChan c)"
    using assms(2,4) low send
    by (auto simp: SendRequest_begin_def Let_def split: if_splits outcome.splits)
  have 2: "i2 = 0" "chan2 = nextChan c1" "map_of (requestTasks c2) 0 = Some (nextChan c1)"
    using assms(3,5) low send 1
    by (auto simp: SendRequest_begin_def Let_def update_conv' split: if_splits outcome.splits)
  show ?thesis using 1 2 by (simp add: recvResponse_def)
qed

definition demo_conn :: conn where
  "demo_conn =
     (case newConn None [] False 8 of Ok c \<Rightarrow> c\<lparr>requestID := 3\<rparr> | _ \<Rightarrow> undefined)"

theorem request_ids_collide_witness:
  "recvResponse \<lparr>response_props = [], response_id = 0, response_Code = StatusOK, response_Body = []\<rparr>
     (snd (SendRequest_begin background (NewRequest [] [])
       (snd (SendRequest_begin background (NewRequest [] []) demo_conn)))) = Some 1"
proof -
  let ?p = "NewRequest [] []"
  let ?c1 = "snd (SendRequest_begin background ?p demo_conn)"
  let ?c2 = "snd (SendRequest_begin background ?p ?c1)"
  have f: "fst (SendRequest_begin background ?p demo_conn) = Ok (0, 0)"
    "fst (SendRequest_begin background ?p ?c1) = Ok (1, 0)"
    by code_simp+
  then have 1: "SendRequest_begin background ?p demo_conn = (Ok (0, 0), ?c1)"
    and 2: "SendRequest_begin background ?p ?c1 = (Ok (1, 0), ?c2)"
    by (metis prod.collapse)+
  have "unat (requestID demo_conn) + 2 < 65535"
    by (simp add: demo_conn_def newConn_def queue_New_def)
  from request_ids_collide [OF this _ _ 1 2] show ?thesis by (simp add: NewRequest_def)
qed

text \<open>
  A response that meets a timeout can deadlock: the only states in which neither goroutine can
  move are the finished one and the one in which the receiver sends while it holds the lock and
  the requester, whose context is done, waits for that lock; the second is reachable too.
\<close>

theorem request_deadlock:
  "(\<exists>s. request_step\<^sup>*\<^sup>* request_start s \<and> requester s = Leaving \<and> receiver s = Sending \<and>
      (\<forall>t. \<not> request_step s t)) \<and>
   (\<forall>s. request_step\<^sup>*\<^sup>* request_start s \<longrightarrow> (\<forall>t. \<not> request_step s t) \<longrightarrow>
      (requester s = Gone \<and> receiver s = Finished) \<or> (requester s = Leaving \<and> receiver s = Sending))"
proof (intro conjI allI impI)
  let ?s = "\<lparr>requester = Leaving, receiver = Sending, lock_held = True, registered = True\<rparr>"
  have "request_step request_start (request_start\<lparr>receiver := Sending, lock_held := True\<rparr>)"
    by (rule request_step.arrive) (simp_all add: request_start_def)
  moreover have "request_step (request_start\<lparr>receiver := Sending, lock_held := True\<rparr>) ?s"
    using request_step.expire [of "request_start\<lparr>receiver := Sending, lock_held := True\<rparr>"]
    by (simp add: request_start_def)
  ultimately have r: "request_step\<^sup>*\<^sup>* request_start ?s" by simp
  then have "\<forall>t. \<not> request_step ?s t"
    using request_stuck_iff [OF request_inv_reachable [OF r]] by simp
  with r show "\<exists>s. request_step\<^sup>*\<^sup>* request_start s \<and> requester s = Leaving \<and> receiver s = Sending \<and>
      (\<forall>t. \<not> request_step s t)" by (intro exI [of _ ?s]) simp
  show "(requester s = Gone \<and> receiver s = Finished) \<or> (requester s = Leaving \<and> receiver s = Sending)"
    if "request_step\<^sup>*\<^sup>* request_start s" "\<forall>t. \<not> request_step s t" for s
    using request_stuck_iff [OF request_inv_reachable [OF that(1)]] that(2) by simp
qed

theorem request_deadlock_witness:
  "\<exists>s. request_step\<^sup>*\<^sup>* request_start s \<and> requester s = Leaving \<and> receiver s = Sending \<and>
     (\<forall>t. \<not> request_step s t)"
  using request_deadlock by blast

end
