(* ===== verification/Client_Safety.thy ===== *)
theory Client_Safety
  imports Client Conn_Safety
begin

text \<open>
  The life of the client of src/client: which states it can be in, that retrying ends, what happens
  after a retry that succeeds, and how its datagrams are seen by the server.
\<close>

section \<open>Steps\<close>

text \<open>
  Everything that can happen to a client: its own goroutines and timers, the sends of its user and \<open>Close\<close>; and
  the calls of \<open>Connect\<close>.
\<close>

inductive own_step :: "client \<Rightarrow> client \<Rightarrow> bool" where
  timer: "fire l c = Ok c' \<Longrightarrow> own_step c c'"
| send: "sendPacket cx jump p c = Some (Ok c') \<Longrightarrow> own_step c c'"
| request: "client_SendRequest cx q c = Some (res, c') \<Longrightarrow> own_step c c'"
| work: "client_work now werr c = Ok c' \<Longrightarrow> own_step c c'"
| handle: "handlePacket onRequest now p c = Some (Ok (c', calls)) \<Longrightarrow> own_step c c'"
| read_error: "own_step c (recv_err e c)"
| ping: "sendPing_begin cx c = Some (res, c') \<Longrightarrow> own_step c c'"
| ping_result: "own_step c (client_SendPing result c)"
| shut: "own_step c (client_Close c)"

inductive client_step :: "client \<Rightarrow> client \<Rightarrow> bool" where
  connect: "Connect l c = Ok c' \<Longrightarrow> client_step c c'"
| own: "own_step c c' \<Longrightarrow> client_step c c'"

section \<open>Effects on the status\<close>

text \<open>The part of the state that decides whether and when the client connects again.\<close>

definition same_life :: "client \<Rightarrow> client \<Rightarrow> bool" where
  "same_life c c' \<longleftrightarrow> c_status c' = c_status c \<and> c_retrying c' = c_retrying c \<and> c_timers c' = c_timers c \<and>
     c_retrier c' = c_retrier c \<and> c_id c' = c_id c \<and> stoped (c_keepalive c') = stoped (c_keepalive c) \<and>
     c_closed c' = c_closed c \<and> c_calls c' = c_calls c"

lemma same_life_refl [simp]: "same_life c c"
  by (simp add: same_life_def)

lemma same_life_trans: "same_life a b \<Longrightarrow> same_life b c \<Longrightarrow> same_life a c"
  by (simp add: same_life_def)

lemma sendPacket_life [keeps]: "sendPacket cx jump p c = Some (Ok c') \<Longrightarrow> same_life c c'"
  by (auto simp: sendPacket_def same_life_def Let_def split: if_splits option.splits)

lemma request_life [keeps]: "client_SendRequest cx q c = Some (res, c') \<Longrightarrow> same_life c c'"
  by (auto simp: client_SendRequest_def client_request_end_def same_life_def Let_def
    split: if_splits option.splits outcome.splits dest!: sendPacket_life)

lemma ping_life [keeps]: "sendPing_begin cx c = Some (res, c') \<Longrightarrow> same_life c c'"
  by (auto simp: sendPing_begin_def same_life_def Let_def
    split: if_splits option.splits outcome.splits dest!: sendPacket_life)

text \<open>Running a task, handling a packet and the rest change it through \<open>tryClose\<close> only.\<close>

definition life_or_close :: "client \<Rightarrow> client \<Rightarrow> bool" where
  "life_or_close c c' \<longleftrightarrow> same_life c c' \<or> (\<exists>c1 e. same_life c c1 \<and> c' = tryClose e c1)"

lemma life_or_closeI:
  "same_life c c' \<Longrightarrow> life_or_close c c'" "same_life c c1 \<Longrightarrow> life_or_close c (tryClose e c1)"
  by (auto simp: life_or_close_def)

lemma run_task_life: "run_task now werr p c = Ok c' \<Longrightarrow> life_or_close c c'"
  by (auto simp: run_task_def keepalive_UpdateTime_def split: if_splits outcome.splits option.splits
    intro!: life_or_closeI) (simp add: same_life_def)

lemma life_or_close_from: "same_life c c1 \<Longrightarrow> life_or_close c1 c2 \<Longrightarrow> life_or_close c c2"
  by (auto simp: life_or_close_def dest: same_life_trans)

lemma work_life: "client_work now werr c = Ok c' \<Longrightarrow> life_or_close c c'"
  by (auto simp: client_work_def Let_def split: if_splits dest!: run_task_life intro: life_or_closeI)
    (auto elim!: life_or_close_from [rotated] simp: same_life_def)

lemma handle_life: "handlePacket onRequest now p c = Some (Ok (c', calls)) \<Longrightarrow> life_or_close c c'"
proof -
  let ?c = "c\<lparr>c_keepalive := keepalive_UpdateTime now (c_keepalive c)\<rparr>"
  assume h: "handlePacket onRequest now p c = Some (Ok (c', calls))"
  have u: "same_life c ?c" by (simp add: same_life_def keepalive_UpdateTime_def)
  have "same_life ?c c' \<or> (\<exists>e. c' = tryClose e ?c)"
    using h
    by (auto simp: handlePacket_def Let_def after_send_def sendPong_def omap_Ok
      split: packet.splits outcome.splits option.splits dest!: sendPacket_life)
      (metis ignoring.elims outcome.distinct(3) outcome.inject(1) same_life_refl sendPacket_life)+
  then have "life_or_close ?c c'" by (auto intro: life_or_closeI)
  with u show ?thesis by (rule life_or_close_from)
qed


section \<open>Invariant\<close>

text \<open>What holds of a client between two steps.\<close>

definition client_base :: "client \<Rightarrow> bool" where
  "client_base c \<longleftrightarrow> c_status c \<noteq> StatusClosing \<and>
     (\<not> stoped (c_keepalive c) \<longrightarrow> c_status c = StatusOpened) \<and>
     (c_status c = StatusOpened \<and> \<not> c_closed c \<longrightarrow> \<not> stoped (c_keepalive c)) \<and>
     (case c_retrier c of None \<Rightarrow> True | Some r \<Rightarrow> retrier_ok r)"

definition client_inv :: "client \<Rightarrow> bool" where
  "client_inv c \<longleftrightarrow> client_base c \<and> length (c_timers c) \<le> 1 \<and>
     (c_timers c \<noteq> [] \<longleftrightarrow> c_status c = StatusOpening \<and> c_id c \<noteq> None) \<and>
     (c_timers c \<noteq> [] \<longrightarrow> c_retrying c)"

lemmas client_inv_defs = client_inv_def client_base_def

lemma same_life_inv: "same_life c c' \<Longrightarrow> client_inv c \<Longrightarrow> client_inv c'"
  by (simp add: same_life_def client_inv_defs)

lemma setStatus_fields [simp]:
  "c_status (setStatus st c) = st" "c_retrying (setStatus st c) = c_retrying c"
  "c_timers (setStatus st c) = c_timers c" "c_retrier (setStatus st c) = c_retrier c"
  "c_id (setStatus st c) = c_id c" "c_closed (setStatus st c) = c_closed c"
  "c_kind (setStatus st c) = c_kind c" "c_queue (setStatus st c) = c_queue c"
  by (auto simp: setStatus_def Let_def split: status.split)

lemma setStatus_stoped:
  "stoped (c_keepalive (setStatus st c)) \<longleftrightarrow>
     (if c_status c = st \<or> st = Status_Unknown then stoped (c_keepalive c) else st \<noteq> StatusOpened)"
  by (auto simp: setStatus_def Let_def keepalive_Stop_def keepalive_Start_def split: status.split)

text \<open>\<open>tryClose\<close> from a state with no timer and no retry under way, and from any other.\<close>

lemma tryClose_inv:
  assumes "client_base c" and "c_timers c = []" and "\<not> c_retrying c"
  shows "client_inv (tryClose e c)"
proof (cases "c_retrier c")
  case None
  then show ?thesis using assms by (auto simp: tryClose_def client_inv_defs setStatus_stoped)
next
  case (Some r)
  with assms have ok: "retrier_ok r" by (simp add: client_base_def)
  show ?thesis
    using assms Some ok
    by (auto simp: tryClose_def client_inv_defs setStatus_stoped Let_def Retry_cases [OF ok])
      (auto simp: retrier_ok_def budget_def)
qed

lemma tryClose_keeps: "client_inv c \<Longrightarrow> client_inv (tryClose e c)"
proof (cases "c_retrying c")
  case True
  then show "client_inv c \<Longrightarrow> client_inv (tryClose e c)" by (simp add: tryClose_def)
next
  case False
  then show "client_inv c \<Longrightarrow> client_inv (tryClose e c)"
    by (intro tryClose_inv) (auto simp: client_inv_def)
qed

lemma life_or_close_inv: "life_or_close c c' \<Longrightarrow> client_inv c \<Longrightarrow> client_inv c'"
  by (auto simp: life_or_close_def intro: same_life_inv tryClose_keeps)

text \<open>A successful attempt opens the client; a failed one changes nothing that matters here.\<close>

lemma same_life_conn [simp]:
  "same_life c (c\<lparr>c_open := b\<rparr>)" "same_life c (c\<lparr>c_open := b, c_out := out\<rparr>)"
  by (simp_all add: same_life_def)

lemma reconnect_shape:
  "reconnect l c = Ok (err, c1) \<Longrightarrow>
     err = None \<and> (\<exists>c2. c1 = setStatus StatusOpened c2 \<and> same_life c c2) \<or> err \<noteq> None \<and> same_life c c1"
  by (auto simp: reconnect_def Let_def split: option.splits outcome.splits packet.splits if_splits)

lemma reconnect_cases:
  assumes "reconnect l c = Ok (err, c1)"
  obtains (opened) c2 where "err = None" and "same_life c c2" and "c1 = setStatus StatusOpened c2"
  | (failed) e where "err = Some e" and "same_life c c1"
  using reconnect_shape [OF assms] by auto

lemma reconnect_inv:
  assumes r: "reconnect l c = Ok (err, c1)" and base: "client_base c" and "c_timers c = []"
  shows "client_base c1 \<and> c_timers c1 = [] \<and>
    (err = None \<longrightarrow> c_status c1 = StatusOpened \<and> c_retrying c1 = c_retrying c \<and> client_inv c1)"
  using r
proof (cases rule: reconnect_cases)
  case (opened c2)
  then show ?thesis
    using assms(2,3) by (auto simp: same_life_def client_inv_defs setStatus_stoped)
next
  case (failed e)
  then show ?thesis using assms(2,3) by (simp add: same_life_def client_base_def)
qed

lemma Connect_inv:
  assumes "Connect l c = Ok c'" and inv: "client_inv c"
  shows "client_inv c'"
proof (cases "c_status c = StatusOpened \<or> c_status c = StatusOpening")
  case True
  then show ?thesis using assms by (simp add: Connect_def)
next
  case False
  then have base: "client_base (setStatus StatusOpening c)" "c_timers (setStatus StatusOpening c) = []"
    using inv by (auto simp: client_inv_defs setStatus_stoped)
  from assms(1) False obtain err c1 where r: "reconnect l (setStatus StatusOpening c) = Ok (err, c1)"
    by (auto simp: Connect_def outcome_Ok_obind)
  from reconnect_inv [OF r base] show ?thesis
    using assms(1) False r
    by (auto simp: Connect_def client_base_def retrier_Reset_def retrier_ok_def
      split: option.splits intro!: tryClose_inv)
qed

lemma fire_inv:
  assumes "fire l c = Ok c'" and inv: "client_inv c"
  shows "client_inv c'"
proof (cases "c_timers c")
  case Nil
  then show ?thesis using assms by (simp add: fire_def)
next
  case (Cons d ts)
  then have ts: "ts = []" and op: "c_status c = StatusOpening"
    using inv by (auto simp: client_inv_def)
  let ?c = "c\<lparr>c_timers := ts\<rparr>"
  have base: "client_base ?c" "c_timers ?c = []" using inv ts by (simp_all add: client_inv_defs)
  from assms(1) Cons op obtain err c1 where r: "reconnect l ?c = Ok (err, c1)"
    by (auto simp: fire_def Let_def outcome_Ok_obind)
  from reconnect_inv [OF r base] show ?thesis
    using assms(1) Cons op r
    by (auto simp: fire_def Let_def client_base_def split: option.splits intro!: tryClose_inv)
qed

lemma Close_inv: "client_inv c \<Longrightarrow> client_inv (client_Close c)"
  by (auto simp: client_Close_def client_inv_defs keepalive_Stop_def)

lemma recv_err_life: "life_or_close c (recv_err e c)"
  by (auto simp: recv_err_def same_life_def intro!: life_or_closeI)

lemma client_SendPing_life: "life_or_close c (client_SendPing result c)"
  by (auto simp: client_SendPing_def intro!: life_or_closeI split: option.split)

lemma own_step_inv: "own_step c c' \<Longrightarrow> client_inv c \<Longrightarrow> client_inv c'"
  by (induction rule: own_step.induct)
    (blast intro: fire_inv Close_inv same_life_inv sendPacket_life request_life ping_life
      life_or_close_inv work_life handle_life recv_err_life client_SendPing_life)+

lemma client_step_inv: "client_step c c' \<Longrightarrow> client_inv c \<Longrightarrow> client_inv c'"
  by (induction rule: client_step.induct) (blast intro: Connect_inv own_step_inv)+

lemma client_steps_inv: "client_step\<^sup>*\<^sup>* c c' \<Longrightarrow> client_inv c \<Longrightarrow> client_inv c'"
  by (induction rule: rtranclp_induct) (auto intro: client_step_inv)

section \<open>Failed attempts\<close>

text \<open>
  How an attempt can fail: no connection, a failed write, a refusal or a broken answer. No network
  error is the client's own \<open>CloseReasonNormal\<close>.
\<close>

definition network_error :: "go_error \<Rightarrow> bool" where
  "network_error e \<longleftrightarrow> e \<noteq> CloseReasonError CloseReasonNormal"

definition rejects :: "link \<Rightarrow> bool" where
  "rejects l \<longleftrightarrow>
     (case dial_err l of Some e \<Rightarrow> network_error e | None \<Rightarrow>
     (case write_err l of Some e \<Rightarrow> network_error e | None \<Rightarrow>
     (case answer l of
        Panic \<Rightarrow> False
      | Err e \<Rightarrow> network_error e
      | Ok (PConnack a) \<Rightarrow> connack_Code a \<noteq> ConnectAccepted
      | Ok p \<Rightarrow> True)))"

fun fires :: "link list \<Rightarrow> client \<Rightarrow> (go_error, client) outcome" where
  "fires [] c = Ok c"
| "fires (l # ls) c = obind (fire l c) (fires ls)"

lemma connect_writes:
  assumes "c_id c \<noteq> None"
  shows "WritePacket k (PConnect (NewConnect (c_id c))) \<noteq> Panic"
    and "WritePacket k (PConnect (NewConnect (c_id c))) = Err e \<Longrightarrow> network_error e"
  using assms
  by (auto simp: WritePacket_def NewConnect_def Marshal_frame u8map_ok_def props_Set_def go_map_def
    network_error_def split: conn_kind.splits if_splits)

lemma rejects_reconnect:
  assumes "rejects l" and "c_id c \<noteq> None"
  obtains e c1 where "reconnect l c = Ok (Some e, c1)" and "same_life c c1" and "network_error e"
proof -
  have "\<exists>e c1. reconnect l c = Ok (Some e, c1) \<and> network_error e"
    using assms(1) connect_writes [OF assms(2), of "c_kind c"]
    by (auto simp: reconnect_def rejects_def Let_def network_error_def
      split: outcome.splits option.splits packet.splits)
  then show thesis using that by (auto dest: reconnect_shape)
qed

text \<open>One more failed attempt uses one unit of the budget, or ends the retries.\<close>

lemma fire_fails:
  assumes "client_inv c" and "c_timers c \<noteq> []" and "rejects l" and r: "c_retrier c = Some r"
  shows "\<exists>c'. fire l c = Ok c' \<and> client_inv c' \<and>
    (c_timers c' = [] \<and> c_status c' = StatusClosed \<and> c_retrier c' = Some r \<and>
       (r_filter r = None \<longrightarrow> budget r = 0) \<or>
     c_timers c' = [r_backoff r (r_count r + 1)] \<and> 0 < budget r \<and>
       c_retrier c' = Some (r\<lparr>r_count := r_count r + 1\<rparr>))"
proof -
  obtain d where d: "c_timers c = [d]" and op: "c_status c = StatusOpening" and i: "c_id c \<noteq> None"
    using assms(1,2) by (cases "c_timers c") (auto simp: client_inv_def)
  let ?c = "c\<lparr>c_timers := []\<rparr>"
  from i obtain e c1 where rc: "reconnect l ?c = Ok (Some e, c1)" and l: "same_life ?c c1"
    and e: "network_error e"
    using rejects_reconnect [OF assms(3), of ?c] by auto
  let ?c' = "tryClose e (c1\<lparr>c_retrying := False\<rparr>)"
  have f: "fire l c = Ok ?c'" using d op rc by (simp add: fire_def)
  have ok: "retrier_ok r" using assms(1) r by (simp add: client_inv_defs)
  have "c_timers ?c' = [] \<and> c_status ?c' = StatusClosed \<and> c_retrier ?c' = Some r \<and>
      (r_filter r = None \<longrightarrow> budget r = 0) \<or>
    c_timers ?c' = [r_backoff r (r_count r + 1)] \<and> 0 < budget r \<and>
      c_retrier ?c' = Some (r\<lparr>r_count := r_count r + 1\<rparr>)"
    using l op i r e
    by (auto simp: tryClose_def same_life_def network_error_def Retry_cases [OF ok] Let_def filtered_def)
  then show ?thesis by (intro exI [of _ ?c'] conjI f fire_inv [OF f assms(1)])
qed

lemma fires_idle: "c_timers c = [] \<Longrightarrow> fires ls c = Ok c"
  by (induction ls) (simp_all add: fire_def)

lemma budget_Suc: "0 < budget r \<Longrightarrow> budget r = Suc (budget (r\<lparr>r_count := r_count r + 1\<rparr>))"
  by (simp add: budget_def)

lemma fires_fail:
  assumes "client_inv c" and "c_timers c \<noteq> []" and "list_all rejects ls" and "c_retrier c = Some r"
  shows "\<exists>c'. fires ls c = Ok c' \<and>
    (budget r < length ls \<longrightarrow> c_status c' = StatusClosed \<and> c_timers c' = []) \<and>
    (r_filter r = None \<and> length ls \<le> budget r \<longrightarrow> c_status c' = StatusOpening \<and> length (c_timers c') = 1)"
  using assms
proof (induction ls arbitrary: c r)
  case Nil
  then show ?case by (auto simp: client_inv_def le_Suc_eq)
next
  case (Cons l ls)
  then obtain c1 where f: "fire l c = Ok c1" and inv: "client_inv c1"
    and how: "c_timers c1 = [] \<and> c_status c1 = StatusClosed \<and> c_retrier c1 = Some r \<and>
        (r_filter r = None \<longrightarrow> budget r = 0) \<or>
      c_timers c1 = [r_backoff r (r_count r + 1)] \<and> 0 < budget r \<and>
        c_retrier c1 = Some (r\<lparr>r_count := r_count r + 1\<rparr>)"
    using fire_fails [of c l r] by auto
  from how show ?case
  proof
    assume "c_timers c1 = [] \<and> c_status c1 = StatusClosed \<and> c_retrier c1 = Some r \<and>
      (r_filter r = None \<longrightarrow> budget r = 0)"
    then show ?thesis using f fires_idle [of c1 ls] by auto
  next
    assume a: "c_timers c1 = [r_backoff r (r_count r + 1)] \<and> 0 < budget r \<and>
      c_retrier c1 = Some (r\<lparr>r_count := r_count r + 1\<rparr>)"
    then have "c_timers c1 \<noteq> []" "c_retrier c1 = Some (r\<lparr>r_count := r_count r + 1\<rparr>)" by simp_all
    from Cons.IH [OF inv this(1) _ this(2)] Cons.prems(3) a budget_Suc [of r] f show ?thesis
      by auto
  qed
qed

section \<open>Properties\<close>

lemma New_inv:
  assumes "client_New resolves exponential now endpoint os = Ok c"
    and "\<forall>r. c_retrier c = Some r \<longrightarrow> retrier_ok r"
  shows "client_inv c"
  using assms
  by (auto simp: client_New_def Let_def outcome_Ok_obind client_inv_defs keepalive_New_def split: option.split)

text \<open>A client of the default linear strategy with two retries, and a server that is not there.\<close>

definition sample_retrier :: retrier where
  "sample_retrier = NewRetrier 2 LinearD"

definition sample_identity :: identity where
  "sample_identity = \<lparr>UserID = gs ''u'', ClientID = gs ''c'', Password = []\<rparr>"

definition unreachable :: link where
  "unreachable = \<lparr>dial_err = Some (OtherError ''refused''), write_err = None, answer = Err (OtherError ''EOF'')\<rparr>"

definition accepting :: link where
  "accepting = \<lparr>dial_err = None, write_err = None, answer = Ok (PConnack (NewConnack ConnectAccepted))\<rparr>"

definition sample_New :: "(go_error, client) outcome" where
  "sample_New = client_New (\<lambda>_. True) LinearD 0 (gs ''tcp://h:1'')
     [client_WithID (Some sample_identity), client_WithRetrier (Some sample_retrier)]"

lemma sample_client:
  obtains c where "sample_New = Ok c" and "c_id c = Some sample_identity" and "c_kind c = StreamConn"
    and "c_status c = Status_Unknown" and "\<not> c_retrying c" and "c_retrier c = Some sample_retrier"
    and "c_timers c = []" and "client_inv c"
proof -
  have "go_Split (gs ''://'') (gs ''tcp://h:1'') = [gs ''tcp'', gs ''h:1'']" by code_simp
  moreover have "gs ''tcp'' \<noteq> gs ''ws''" "gs ''tcp'' \<noteq> gs ''wss''" by (simp_all add: gs_def)
  ultimately obtain c where c: "sample_New = Ok c" "c_id c = Some sample_identity" "c_kind c = StreamConn"
    "c_status c = Status_Unknown" "\<not> c_retrying c" "c_retrier c = Some sample_retrier" "c_timers c = []"
    by (auto simp: sample_New_def client_New_def client_conn_def client_newOptions_def client_WithID_def
      client_WithRetrier_def queue_New_def Let_def)
  moreover have "client_inv c"
    using c by (intro New_inv) (auto simp: sample_New_def sample_retrier_def NewRetrier_def retrier_ok_def)
  ultimately show thesis using that by blast
qed

lemma sample_connect_marshals:
  "\<exists>data. packet_Marshal (PConnect (NewConnect (Some sample_identity))) = Ok data"
  by (simp add: Marshal_frame NewConnect_def u8map_ok_def sample_identity_def gs_def connect_wire_def
    identity_wire_def data_wire_def uvarint_bytes.simps u8map_wire_def MAX_LEN_def)

lemma sample_Connect:
  assumes "c_id c = Some sample_identity" and "c_status c = Status_Unknown"
    and "c_retrier c = Some sample_retrier" and "c_timers c = []"
  shows "\<exists>c'. Connect unreachable c = Ok c' \<and> c_status c' = StatusOpening \<and> c_retrying c' \<and>
    c_timers c' = [6 * Second] \<and> c_id c' = Some sample_identity \<and> c_kind c' = c_kind c \<and>
    c_retrier c' = Some (sample_retrier\<lparr>r_count := 1\<rparr>)"
  using assms
  by (simp add: Connect_def reconnect_def unreachable_def tryClose_def Retry_def sample_retrier_def
    NewRetrier_def retrier_Reset_def filtered_def int64_of_def LinearD_def Linear_def Second_def Let_def)





text \<open>What a retry that succeeded leaves behind.\<close>

definition deaf :: "client \<Rightarrow> bool" where
  "deaf c \<longleftrightarrow> c_status c = StatusOpened \<and> c_retrying c \<and> c_timers c = []"

lemma deaf_tryClose: "deaf c \<Longrightarrow> tryClose e c = c"
  by (simp add: deaf_def tryClose_def)

lemma deaf_life: "life_or_close c c' \<Longrightarrow> deaf c \<Longrightarrow> deaf c'"
  by (auto simp: life_or_close_def deaf_def same_life_def tryClose_def)

lemma deaf_own_step: "own_step c c' \<Longrightarrow> deaf c \<Longrightarrow> deaf c'"
proof (induction rule: own_step.induct)
  case (timer l c c')
  then show ?case by (simp add: deaf_def fire_def)
next
  case (shut c)
  then show ?case by (simp add: deaf_def client_Close_def)
qed (blast intro: deaf_life life_or_closeI sendPacket_life request_life ping_life work_life handle_life
  recv_err_life client_SendPing_life)+

lemma deaf_step: "client_step c c' \<Longrightarrow> deaf c \<Longrightarrow> deaf c'"
proof (induction rule: client_step.induct)
  case (connect l c c')
  then show ?case by (simp add: deaf_def Connect_def)
qed (rule deaf_own_step)

lemma tryClose_status: "c_status (tryClose e c) \<in> {c_status c, StatusClosed, StatusOpening}"
  by (auto simp: tryClose_def Let_def split: option.split prod.split)

text \<open>
  After a retry that succeeded the client no longer notices that its connection is lost:
  \<open>retrying\<close> stays set, so from then on every read error, write error, ping timeout and CLOSE packet is
  ignored, the status stays \<open>StatusOpened\<close> for ever and no reconnect is ever scheduled.
\<close>

theorem stuck_after_reconnect:
  assumes "c_timers c = [d]" and "c_status c = StatusOpening" and "c_retrying c"
    and "fire l c = Ok c1" and "c_status c1 = StatusOpened" and "client_step\<^sup>*\<^sup>* c1 c2"
  shows "c_status c2 = StatusOpened \<and> c_timers c2 = [] \<and> tryClose e c2 = c2 \<and>
    recv_err e c2 = c2\<lparr>c_loops := c_loops c2 - 1\<rparr> \<and> client_SendPing (Some DeadlineExceeded) c2 = c2"
proof -
  obtain err c' where r: "reconnect l (c\<lparr>c_timers := []\<rparr>) = Ok (err, c')"
    using assms(1,2,4) by (auto simp: fire_def outcome_Ok_obind)
  have "deaf c1"
    using r
  proof (cases rule: reconnect_cases)
    case (opened c'')
    then show ?thesis using assms(1-4) r by (auto simp: fire_def deaf_def same_life_def)
  next
    case (failed e')
    then have "c_status c1 \<in> {StatusOpening, StatusClosed}"
      using assms(1,2,4) r tryClose_status [of e' "c'\<lparr>c_retrying := False\<rparr>"]
      by (auto simp: fire_def same_life_def)
    with assms(5) show ?thesis by auto
  qed
  with assms(6) have "deaf c2" by (induction rule: rtranclp_induct) (auto intro: deaf_step)
  moreover from this have "deaf (c2\<lparr>c_loops := c_loops c2 - 1\<rparr>)" by (simp add: deaf_def)
  ultimately show ?thesis
    by (simp add: deaf_tryClose recv_err_def client_SendPing_def) (simp add: deaf_def)
qed

theorem stuck_after_reconnect_witness:
  "\<exists>c0 c c1. sample_New = Ok c0 \<and> Connect unreachable c0 = Ok c \<and> fire accepting c = Ok c1 \<and>
     c_status c1 = StatusOpened \<and> tryClose (OtherError ''EOF'') c1 = c1"
proof -
  obtain c0 where c0: "sample_New = Ok c0" "c_id c0 = Some sample_identity" "c_kind c0 = StreamConn"
    "c_status c0 = Status_Unknown" "\<not> c_retrying c0" "c_retrier c0 = Some sample_retrier"
    "c_timers c0 = []" "client_inv c0" by (rule sample_client)
  obtain c where c: "Connect unreachable c0 = Ok c" "c_timers c = [6 * Second]"
    "c_id c = Some sample_identity" "c_status c = StatusOpening" "c_retrying c" "c_kind c = StreamConn"
    using sample_Connect [of c0] c0 by auto
  obtain c1 where f: "fire accepting c = Ok c1" "c_status c1 = StatusOpened"
    using c sample_connect_marshals by (auto simp: fire_def reconnect_def accepting_def WritePacket_def NewConnack_def)
  from stuck_after_reconnect [OF c(2,4,5) f rtranclp.rtrancl_refl, of "OtherError ''EOF''"] c0 c f
  show ?thesis by auto
qed

text \<open>
  Every CLOSE packet makes an open client connect again, also the ones that say that the close is
  normal or that the user was kicked out: the code of the packet is never the client's own
  \<open>CloseReasonNormal\<close>, so as long as retries are left a timer is set.
\<close>

theorem close_reconnects:
  assumes "c_status c = StatusOpened" and "\<not> c_retrying c" and "c_id c \<noteq> None"
    and "c_retrier c = Some r" and "retrier_ok r" and "r_filter r = None" and "0 < budget r"
  shows "\<exists>c'. handlePacket onRequest now (PClose (NewClose code)) c = Some (Ok (c', [])) \<and>
    c_status c' = StatusOpening \<and> c_timers c' = c_timers c @ [r_backoff r (r_count r + 1)]"
  using assms
  by (simp add: handlePacket_def tryClose_def NewClose_def Retry_cases filtered_def Let_def)

theorem close_reconnects_witness:
  "\<exists>c0 c c'. sample_New = Ok c0 \<and> Connect accepting c0 = Ok c \<and>
     handlePacket (\<lambda>_. Panic) 0 (PClose (NewClose CloseKickedOut)) c = Some (Ok (c', [])) \<and>
     c_timers c' = [6 * Second]"
proof -
  obtain c0 where c0: "sample_New = Ok c0" "c_id c0 = Some sample_identity" "c_kind c0 = StreamConn"
    "c_status c0 = Status_Unknown" "\<not> c_retrying c0" "c_retrier c0 = Some sample_retrier"
    "c_timers c0 = []" "client_inv c0" by (rule sample_client)
  obtain c where c: "Connect accepting c0 = Ok c" "c_status c = StatusOpened" "\<not> c_retrying c"
    "c_id c \<noteq> None" "c_retrier c = Some sample_retrier" "c_timers c = []"
    using c0 sample_connect_marshals by (auto simp: Connect_def reconnect_def accepting_def WritePacket_def NewConnack_def)
  have "retrier_ok sample_retrier" "r_filter sample_retrier = None" "0 < budget sample_retrier"
    "r_backoff sample_retrier (r_count sample_retrier + 1) = 6 * Second"
    by (simp_all add: sample_retrier_def NewRetrier_def retrier_ok_def budget_def LinearD_exact Second_def)
  from close_reconnects [OF c(2-5) this(1-3), of "\<lambda>_. Panic" 0 CloseKickedOut] this(4) c c0(1)
  show ?thesis by auto
qed

lemma length_update: "length (AList.update k v m) \<le> Suc (length m)"
  by (induction m) auto

text \<open>
  What a client sends over UDP reaches the connection the server has for its id: every packet but a
  CONNECT is stamped with the client id and dispatched unchanged otherwise, whatever id the sender
  put in it; without a connection of that id the server drops it.
\<close>

theorem client_udp_reaches_server:
  assumes "WritePacket (UDPConn cid) p = Ok data" and "packet_ok p" and "length (packet_props p) < 255"
    and "\<forall>cp. p \<noteq> PConnect cp"
  shows "udp_handle getConn data =
    Ok (case getConn cid of Some c \<Rightarrow> UdpRecv c (packet_Set PropertyClientID cid p) | None \<Rightarrow> UdpDrop)"
proof -
  let ?p = "packet_Set PropertyClientID cid p"
  have m: "packet_Marshal ?p = Ok data" and len: "length data \<le> MAX_UDP"
    using assms(1) by (auto simp: WritePacket_def outcome_Ok_obind split: if_splits)
  have g: "packet_Get PropertyClientID ?p = Some cid"
    by (cases p) (simp_all add: packet_Get_def props_Get_def props_Set_def update_conv')
  have ok: "packet_ok ?p" and nc: "\<forall>cp. ?p \<noteq> PConnect cp"
    using assms(2-4) length_update [of PropertyClientID cid "packet_props p"]
    by (cases p; simp add: u8map_ok_def props_Set_def)+
  show ?thesis using udp_datagram [OF ok m nc, of getConn] len g by (simp split: option.split)
qed

theorem client_udp_reaches_server_witness:
  "udp_handle (\<lambda>cid. if cid = [0x61] then Some 4 else None) [0x50, 4, 1, 3, 1, 0x61] =
     Ok (UdpRecv 4 (PPing [(PropertyClientID, [0x61])]))"
proof -
  have 1: "WritePacket (UDPConn [0x61]) NewPing = Ok [0x50, 4, 1, 3, 1, 0x61]" by code_simp
  have 2: "packet_ok NewPing" "length (packet_props NewPing) < 255" "\<forall>cp. NewPing \<noteq> PConnect cp"
    by (simp_all add: NewPing_def u8map_ok_def)
  from client_udp_reaches_server [OF 1 2, of "\<lambda>cid. if cid = [0x61] then Some 4 else None"]
  show ?thesis by (simp add: NewPing_def props_Set_def)
qed

end
