(* ===== verification/Client_Conn.thy ===== *)
theory Client_Conn
  imports Client
begin

text \<open>
  The connections of the client, src/client/conn.go: \<open>tcpConn\<close>, \<open>tlsConn\<close>, \<open>udpConn\<close>, \<open>wsConn\<close> and \<open>quicConn\<close>, with
  the sockets they hold, and the calls the client makes of them.

  Sockets are numbered in the order they are opened. What the network and the libraries answer is an
  argument: an error for each stage of \<open>Dail\<close>, and the error of closing. \<open>nil_Close\<close> is what \<open>Close\<close> of a nil
  pointer of the library's type does; for \<open>net.UDPConn\<close>, whose \<open>Close\<close> is that of an embedded struct, it is a
  nil dereference.
\<close>

section \<open>State\<close>

datatype network_conn = tcpConn | tlsConn | udpConn gostring | wsConn bool | quicConn

record cconn =
  cc_kind :: network_conn
  cc_conn :: "nat option"
  cc_sockets :: "nat list"
  cc_next :: nat

definition new_cconn :: "network_conn \<Rightarrow> cconn" where
  "new_cconn k = \<lparr>cc_kind = k, cc_conn = None, cc_sockets = [], cc_next = 0\<rparr>"

text \<open>The constructors; \<open>resolves\<close> says whether the address can be resolved.\<close>

definition newTCPConn :: "bool \<Rightarrow> (go_error, cconn) outcome" where
  "newTCPConn resolves = (if resolves then Ok (new_cconn tcpConn) else Panic)"

definition newTLSConn :: "bool \<Rightarrow> (go_error, cconn) outcome" where
  "newTLSConn has_config = (if has_config then Ok (new_cconn tlsConn) else Panic)"

definition newUDPConn :: "bool \<Rightarrow> gostring \<Rightarrow> (go_error, cconn) outcome" where
  "newUDPConn resolves cid = (if resolves then Ok (new_cconn (udpConn cid)) else Panic)"

definition newWSConn :: cconn where
  "newWSConn = new_cconn (wsConn False)"

definition newWSSConn :: "bool \<Rightarrow> (go_error, cconn) outcome" where
  "newWSSConn has_config = (if has_config then Ok (new_cconn (wsConn True)) else Panic)"

definition newQUICConn :: "bool \<Rightarrow> (go_error, cconn) outcome" where
  "newQUICConn has_config = (if has_config then Ok (new_cconn quicConn) else Panic)"

section \<open>Operations\<close>

definition open_socket :: "cconn \<Rightarrow> cconn" where
  "open_socket k = k\<lparr>cc_sockets := cc_next k # cc_sockets k, cc_next := Suc (cc_next k)\<rparr>"

definition close_socket :: "nat \<Rightarrow> cconn \<Rightarrow> cconn" where
  "close_socket s k = k\<lparr>cc_sockets := removeAll s (cc_sockets k)\<rparr>"

text \<open>\<open>Dail\<close> of \<open>tcpConn\<close>, \<open>tlsConn\<close>, \<open>udpConn\<close> and \<open>wsConn\<close>: the old connection is closed first.\<close>

definition hang_up :: "cconn \<Rightarrow> cconn" where
  "hang_up k = (case cc_conn k of None \<Rightarrow> k | Some s \<Rightarrow> (close_socket s k)\<lparr>cc_conn := None\<rparr>)"

definition dail_conn :: "go_error option list \<Rightarrow> cconn \<Rightarrow> go_error option \<times> cconn" where
  "dail_conn errs k =
     (let k1 = hang_up k
      in case find (\<lambda>e. e \<noteq> None) errs of
           Some e \<Rightarrow> (e, k1)
         | None \<Rightarrow> (None, (open_socket k1)\<lparr>cc_conn := Some (cc_next k1)\<rparr>))"

text \<open>
  \<open>Dail\<close> of \<open>quicConn\<close>: a socket, an endpoint on it, a connection and a stream. The socket that was opened is
  kept when a later stage fails, and so is the endpoint of the connection before.
\<close>

definition dail_quic :: "go_error option list \<Rightarrow> cconn \<Rightarrow> go_error option \<times> cconn" where
  "dail_quic errs k =
     (case errs of
        Some e # _ \<Rightarrow> (Some e, k)
      | _ \<Rightarrow>
          (let k1 = open_socket k
           in case find (\<lambda>e. e \<noteq> None) (tl errs) of
                Some e \<Rightarrow> (e, k1)
              | None \<Rightarrow> (None, k1\<lparr>cc_conn := Some (cc_next k)\<rparr>)))"

definition Dail :: "go_error option list \<Rightarrow> cconn \<Rightarrow> go_error option \<times> cconn" where
  "Dail errs k = (if cc_kind k = quicConn then dail_quic errs k else dail_conn errs k)"

definition cconn_Close ::
  "(go_error, go_error option) outcome \<Rightarrow> go_error option \<Rightarrow> cconn \<Rightarrow> (go_error, go_error option \<times> cconn) outcome" where
  "cconn_Close nil_Close err k =
     (case cc_kind k of
        tcpConn \<Rightarrow> (case cc_conn k of None \<Rightarrow> Ok (None, k) | Some s \<Rightarrow> Ok (err, (close_socket s k)\<lparr>cc_conn := None\<rparr>))
      | tlsConn \<Rightarrow> (case cc_conn k of None \<Rightarrow> Ok (None, k) | Some s \<Rightarrow> Ok (err, (close_socket s k)\<lparr>cc_conn := None\<rparr>))
      | udpConn cid \<Rightarrow> (case cc_conn k of None \<Rightarrow> Panic | Some s \<Rightarrow> Ok (err, close_socket s k))
      | _ \<Rightarrow> (case cc_conn k of None \<Rightarrow> omap (\<lambda>e. (e, k)) nil_Close | Some s \<Rightarrow> Ok (err, close_socket s k)))"

text \<open>How the packets of a connection are framed.\<close>

fun framing :: "network_conn \<Rightarrow> conn_kind" where
  "framing (udpConn cid) = UDPConn cid"
| "framing _ = StreamConn"

section \<open>The client and its connection\<close>

text \<open>
  \<open>Connect\<close>, the timer of \<open>tryClose\<close> and \<open>Close\<close> of the client together with the connection they use: \<open>reconnect\<close>
  dials, and the status \<open>StatusClosed\<close> closes.
\<close>

definition closes :: "(go_error, go_error option) outcome \<Rightarrow> client \<Rightarrow> client \<Rightarrow> cconn \<Rightarrow> (go_error, cconn) outcome" where
  "closes nil_Close c c' k =
     (if c_status c' = StatusClosed \<and> c_status c \<noteq> StatusClosed then omap snd (cconn_Close nil_Close None k) else Ok k)"

definition full_Connect ::
  "(go_error, go_error option) outcome \<Rightarrow> go_error option list \<Rightarrow> link \<Rightarrow> client \<times> cconn \<Rightarrow> (go_error, client \<times> cconn) outcome" where
  "full_Connect nil_Close errs l = (\<lambda>(c, k).
     if c_status c = StatusOpened \<or> c_status c = StatusOpening then Ok (c, k)
     else case Dail errs k of (err, k1) \<Rightarrow>
       obind (Connect (l\<lparr>dial_err := err\<rparr>) c) (\<lambda>c'.
         omap (\<lambda>k2. (c', k2)) (closes nil_Close (setStatus StatusOpening c) c' k1)))"

definition full_fire ::
  "(go_error, go_error option) outcome \<Rightarrow> go_error option list \<Rightarrow> link \<Rightarrow> client \<times> cconn \<Rightarrow> (go_error, client \<times> cconn) outcome" where
  "full_fire nil_Close errs l = (\<lambda>(c, k).
     if c_timers c = [] \<or> c_status c \<noteq> StatusOpening then omap (\<lambda>c'. (c', k)) (fire l c)
     else case Dail errs k of (err, k1) \<Rightarrow>
       obind (fire (l\<lparr>dial_err := err\<rparr>) c) (\<lambda>c'. omap (\<lambda>k2. (c', k2)) (closes nil_Close c c' k1)))"

definition full_Close ::
  "(go_error, go_error option) outcome \<Rightarrow> client \<times> cconn \<Rightarrow> (go_error, client \<times> cconn) outcome" where
  "full_Close nil_Close = (\<lambda>(c, k).
     if c_closed c then Ok (c, k) else omap (\<lambda>r. (client_Close c, snd r)) (cconn_Close nil_Close None k))"

section \<open>The contract of a connection\<close>

text \<open>
  What a client may expect: dialling leaves one socket or, when it fails, none; closing leaves none.
\<close>

locale one_socket =
  fixes inv :: "'c \<Rightarrow> bool" and sockets :: "'c \<Rightarrow> nat list"
    and dail :: "'env \<Rightarrow> 'c \<Rightarrow> go_error option \<times> 'c" and close :: "'c \<Rightarrow> (go_error, go_error option \<times> 'c) outcome"
  assumes dail_inv: "inv c \<Longrightarrow> dail env c = (err, c') \<Longrightarrow> inv c'"
    and dail_sockets: "inv c \<Longrightarrow> dail env c = (err, c') \<Longrightarrow> length (sockets c') = (if err = None then 1 else 0)"
    and close_inv: "inv c \<Longrightarrow> close c = Ok (err, c') \<Longrightarrow> inv c' \<and> sockets c' = []"
begin

lemma attempts_inv: "inv c \<Longrightarrow> inv (fold (\<lambda>env c. snd (dail env c)) envs c)"
  by (induction envs arbitrary: c) (auto intro: dail_inv [OF _ prod.collapse [symmetric]])

lemma attempts_sockets:
  "inv c \<Longrightarrow> length (sockets c) \<le> 1 \<Longrightarrow> length (sockets (fold (\<lambda>env c. snd (dail env c)) envs c)) \<le> 1"
proof (induction envs arbitrary: c)
  case (Cons env envs)
  have "inv (snd (dail env c))" and "length (sockets (snd (dail env c))) \<le> 1"
    using dail_inv [OF Cons.prems(1), of env] dail_sockets [OF Cons.prems(1), of env] by (auto simp: prod_eq_iff)
  then show ?case using Cons.IH by simp
qed simp

lemma closed_after_attempts:
  assumes "inv c" and "close (fold (\<lambda>env c. snd (dail env c)) envs c) = Ok (err, c')"
  shows "sockets c' = []"
  using close_inv [OF attempts_inv [OF assms(1)] assms(2)] by simp

end

definition cconn_inv :: "cconn \<Rightarrow> bool" where
  "cconn_inv k \<longleftrightarrow> cc_kind k \<noteq> quicConn \<and> set (cc_sockets k) \<subseteq> set_option (cc_conn k) \<and> distinct (cc_sockets k)"

lemma hang_up_none:
  assumes "cconn_inv k"
  shows "cc_sockets (hang_up k) = []" "cc_conn (hang_up k) = None" "cc_kind (hang_up k) = cc_kind k"
proof -
  have "removeAll s (cc_sockets k) = []" if "cc_conn k = Some s" for s
    using assms that by (auto simp: cconn_inv_def filter_empty_conv removeAll_filter_not_eq)
  then show "cc_sockets (hang_up k) = []" "cc_conn (hang_up k) = None" "cc_kind (hang_up k) = cc_kind k"
    using assms by (auto simp: cconn_inv_def hang_up_def close_socket_def split: option.splits)
qed

interpretation plain_conn: one_socket cconn_inv cc_sockets Dail "cconn_Close nil_Close err" for nil_Close err
proof unfold_locales
  fix c c' env e
  assume inv: "cconn_inv c" and d: "Dail env c = (e, c')"
  then have k: "cc_kind c \<noteq> quicConn" by (simp add: cconn_inv_def)
  note h = hang_up_none [OF inv]
  show "cconn_inv c'" "length (cc_sockets c') = (if e = None then 1 else 0)"
    using d k h by (auto simp: Dail_def dail_conn_def open_socket_def cconn_inv_def Let_def find_Some_iff split: option.splits)
next
  fix c c' e
  assume inv: "cconn_inv c" and c: "cconn_Close nil_Close err c = Ok (e, c')"
  have "removeAll s (cc_sockets c) = []" if "cc_conn c = Some s" for s
    using inv that by (auto simp: cconn_inv_def filter_empty_conv removeAll_filter_not_eq)
  with inv c show "cconn_inv c' \<and> cc_sockets c' = []"
    by (auto simp: cconn_inv_def cconn_Close_def close_socket_def omap_Ok split: network_conn.splits option.splits)
qed

section \<open>Properties\<close>

text \<open>
  C24. On every network but QUIC a client holds at most one socket, however often it reconnects and whichever
  attempts fail, and none after \<open>Close\<close> returns.
\<close>

theorem one_socket_at_a_time:
  assumes "kind \<noteq> quicConn"
  shows "length (cc_sockets (fold (\<lambda>errs k. snd (Dail errs k)) envs (new_cconn kind))) \<le> 1 \<and>
    (\<forall>err k. cconn_Close nil_Close cerr (fold (\<lambda>errs k. snd (Dail errs k)) envs (new_cconn kind)) = Ok (err, k) \<longrightarrow> cc_sockets k = [])"
proof -
  have inv: "cconn_inv (new_cconn kind)" using assms by (simp add: cconn_inv_def new_cconn_def)
  have "length (cc_sockets (new_cconn kind)) \<le> 1" by (simp add: new_cconn_def)
  from plain_conn.attempts_sockets [OF inv this] plain_conn.closed_after_attempts [OF inv] show ?thesis by blast
qed

theorem one_socket_at_a_time_witness:
  "length (cc_sockets (fold (\<lambda>errs k. snd (Dail errs k)) [[None], [Some (OtherError ''refused'')], [None]] (new_cconn tcpConn))) \<le> 1"
  using one_socket_at_a_time [of tcpConn "[[None], [Some (OtherError ''refused'')], [None]]"] by simp

text \<open>On QUIC every reconnection leaves the endpoint of the connection before open, also after \<open>Close\<close>.\<close>

theorem quic_leaks_endpoints:
  "cc_sockets (fold (\<lambda>errs k. snd (Dail errs k)) (replicate (Suc n) [None, None, None, None]) (new_cconn quicConn)) = rev [0..<Suc n] \<and>
   (\<exists>err k. cconn_Close nil_Close cerr (fold (\<lambda>errs k. snd (Dail errs k)) (replicate (Suc n) [None, None, None, None])
      (new_cconn quicConn)) = Ok (err, k) \<and> length (cc_sockets k) = n)"
proof -
  have run: "fold (\<lambda>errs k. snd (Dail errs k)) (replicate m [None, None, None, None]) (new_cconn quicConn) =
      \<lparr>cc_kind = quicConn, cc_conn = (if m = 0 then None else Some (m - 1)), cc_sockets = rev [0..<m], cc_next = m\<rparr>" for m
  proof (induction m)
    case (Suc m)
    then show ?case
      by (simp add: replicate_append_same [symmetric] Dail_def dail_quic_def open_socket_def del: replicate_Suc)
  qed (simp add: new_cconn_def)
  have "removeAll n (rev [0..<n]) = rev [0..<n]" by (rule removeAll_id) simp
  then show ?thesis unfolding run by (simp add: cconn_Close_def close_socket_def)
qed

lemma failed_dail_hangs_up:
  assumes "cc_kind k \<noteq> quicConn" and "find (\<lambda>e. e \<noteq> None) errs = Some (Some e)"
  shows "fst (Dail errs k) = Some e \<and> cc_conn (snd (Dail errs k)) = None \<and> cc_kind (snd (Dail errs k)) = cc_kind k"
  using assms by (auto simp: Dail_def dail_conn_def hang_up_def close_socket_def Let_def split: option.splits)

lemma Close_undialled:
  assumes "cc_conn k = None"
  shows "cconn_Close nil_Close cerr k =
    (case cc_kind k of tcpConn \<Rightarrow> Ok (None, k) | tlsConn \<Rightarrow> Ok (None, k) | udpConn cid \<Rightarrow> Panic
     | _ \<Rightarrow> omap (\<lambda>e. (e, k)) nil_Close)"
  using assms by (simp add: cconn_Close_def split: network_conn.splits)

text \<open>
  A client that cannot reach its server gives up by panicking, on UDP and WebSocket: when dialling fails
  and the retrier allows no further attempt, the status \<open>StatusClosed\<close> closes a connection that is nil. Over TCP
  and TLS the same client is closed.
\<close>

theorem giving_up_panics:
  assumes "c_status c \<noteq> StatusOpened" and "c_status c \<noteq> StatusOpening" and "c_id c \<noteq> None"
    and "c_retrier c = Some r" and "Retry e (retrier_Reset r) = (None, r')"
    and "find (\<lambda>e. e \<noteq> None) errs = Some (Some e)" and "cc_kind k \<noteq> quicConn"
  shows "case cc_kind k of
      udpConn cid \<Rightarrow> full_Connect nil_Close errs l (c, k) = Panic
    | wsConn tls \<Rightarrow> nil_Close = Panic \<longrightarrow> full_Connect nil_Close errs l (c, k) = Panic
    | _ \<Rightarrow> \<exists>c' k'. full_Connect nil_Close errs l (c, k) = Ok (c', k') \<and> c_status c' = StatusClosed"
proof -
  obtain k1 where k1: "Dail errs k = (Some e, k1)" "cc_conn k1 = None" "cc_kind k1 = cc_kind k"
    using failed_dail_hangs_up [OF assms(7,6)] by (cases "Dail errs k") auto
  have "\<exists>c'. Connect (l\<lparr>dial_err := Some e\<rparr>) c = Ok c' \<and> c_status c' = StatusClosed"
    using assms(1-5) by (auto simp: Connect_def reconnect_def setStatus_def tryClose_def Let_def)
  then obtain c' where c': "Connect (l\<lparr>dial_err := Some e\<rparr>) c = Ok c'" "c_status c' = StatusClosed" by blast
  have "c_status (setStatus StatusOpening c) = StatusOpening" using assms(2) by (simp add: setStatus_def Let_def)
  then have "full_Connect nil_Close errs l (c, k) = omap (\<lambda>k2. (c', k2)) (omap snd (cconn_Close nil_Close None k1))"
    using assms(1,2) k1(1) c' by (simp add: full_Connect_def closes_def)
  with Close_undialled [OF k1(2), of nil_Close None] k1(3) c'(2) assms(7) show ?thesis
    by (cases "cc_kind k") auto
qed

definition demo_udp :: "(go_error, client) outcome" where
  "demo_udp = client_New (\<lambda>_. True) (\<lambda>n. n) 0 (gs ''udp://h:1'')
     [client_WithID (Some \<lparr>UserID = gs ''u'', ClientID = gs ''c'', Password = []\<rparr>),
      client_WithRetrier (Some (NewRetrier 0 (\<lambda>n. n)))]"

theorem giving_up_panics_witness:
  "full_Connect Panic [Some (OtherError ''unreachable'')] \<lparr>dial_err = None, write_err = None, answer = Panic\<rparr>
     (get_Ok demo_udp, new_cconn (udpConn (gs ''c''))) = Panic"
proof -
  let ?c = "get_Ok demo_udp" and ?e = "OtherError ''unreachable''"
  have c: "c_status ?c \<noteq> StatusOpened" "c_status ?c \<noteq> StatusOpening" "c_id ?c \<noteq> None" by code_simp+
  have r: "c_retrier ?c = Some (NewRetrier 0 (\<lambda>n. n))"
  proof -
    have "go_Split (gs ''://'') (gs ''udp://h:1'') = [gs ''udp'', gs ''h:1'']" by code_simp
    then show ?thesis
      by (simp add: demo_udp_def get_Ok_def client_New_def client_conn_def client_newOptions_def client_WithID_def
        client_WithRetrier_def queue_New_def gs_def)
  qed
  have retry: "Retry ?e (retrier_Reset (NewRetrier 0 (\<lambda>n. n))) = (None, retrier_Reset (NewRetrier 0 (\<lambda>n. n)))"
    by (simp add: Retry_def retrier_Reset_def NewRetrier_def filtered_def)
  from giving_up_panics [OF c r retry, of "[Some ?e]" "new_cconn (udpConn (gs ''c''))" Panic] show ?thesis
    by (simp add: new_cconn_def)
qed

text \<open>Closing a client that was never connected panics on UDP.\<close>

lemma close_unconnected:
  "\<not> c_closed c \<Longrightarrow> full_Close nil_Close (c, new_cconn (udpConn cid)) = Panic"
  by (simp add: full_Close_def cconn_Close_def new_cconn_def)

end
