(* ===== verification/Safe_Map.thy ===== *)
theory Safe_Map
  imports Prelude
begin

text \<open>
  The thread-safe maps of src/internal/safe: \<open>Map\<close> (map.go), \<open>RMap\<close> with its separate atomic
  length counter (rmap.go) and the map of maps \<open>KeyMap\<close> (keymap.go).

  A method that returns \<open>(actual V, loaded bool)\<close> returns \<open>Some actual\<close> for \<open>(actual, true)\<close> and
  \<open>None\<close> for the zero value with \<open>false\<close>. A \<open>Range\<close> callback is a function on the callback's own
  state which also says whether to go on; it visits the entries in the list's order, and a
  theorem for every list holds for every order the runtime may choose.

  \<open>Map\<close> holds its lock for a whole method, so a method is one step. \<open>RMap\<close> does two atomic
  actions, one on the \<open>sync.Map\<close> and one on the counter: the interleavings of several callers are
  the step relation \<open>rmap_step\<close>.
\<close>

section \<open>Map\<close>

type_synonym ('k, 'v) Map = "('k, 'v) gomap"

definition NewMap :: "('k, 'v) gomap list \<Rightarrow> ('k, 'v) Map" where
  "NewMap ms = (case ms of m # _ \<Rightarrow> m | [] \<Rightarrow> [])"

definition Map_Len :: "('k, 'v) Map \<Rightarrow> u32" where
  "Map_Len m = of_nat (length m)"

definition Map_Set :: "'k \<Rightarrow> 'v \<Rightarrow> ('k, 'v) Map \<Rightarrow> ('k, 'v) Map" where
  "Map_Set key value m = AList.update key value m"

definition Map_Get :: "'k \<Rightarrow> ('k, 'v) Map \<Rightarrow> 'v option" where
  "Map_Get key m = map_of m key"

definition Map_Load :: "('k, 'v) Map \<Rightarrow> ('k, 'v) gomap" where
  "Map_Load m = m"

definition Map_Store :: "('k, 'v) gomap \<Rightarrow> ('k, 'v) Map \<Rightarrow> ('k, 'v) Map" where
  "Map_Store data m = data"

definition Map_Swap :: "'k \<Rightarrow> 'v \<Rightarrow> ('k, 'v) Map \<Rightarrow> 'v option \<times> ('k, 'v) Map" where
  "Map_Swap key value m =
     (case map_of m key of
        Some actual \<Rightarrow> (Some actual, AList.update key value m)
      | None \<Rightarrow> (None, AList.update key value m))"

fun Map_Range :: "('k \<Rightarrow> 'v \<Rightarrow> 's \<Rightarrow> bool \<times> 's) \<Rightarrow> ('k, 'v) Map \<Rightarrow> 's \<Rightarrow> 's" where
  "Map_Range f [] s = s"
| "Map_Range f ((k, v) # m) s =
     (case f k v s of (go_on, s') \<Rightarrow> if \<not> go_on then s' else Map_Range f m s')"

definition Map_Delete :: "'k \<Rightarrow> ('k, 'v) Map \<Rightarrow> bool \<times> ('k, 'v) Map" where
  "Map_Delete key m =
     (case map_of m key of Some _ \<Rightarrow> (True, AList.delete key m) | None \<Rightarrow> (False, m))"

definition Map_GetOrSet :: "'k \<Rightarrow> 'v \<Rightarrow> ('k, 'v) Map \<Rightarrow> ('v \<times> bool) \<times> ('k, 'v) Map" where
  "Map_GetOrSet key value m =
     (case map_of m key of
        Some actual \<Rightarrow> ((actual, True), m)
      | None \<Rightarrow> ((value, False), AList.update key value m))"

section \<open>RMap\<close>

record ('k, 'v) RMap =
  rmap_m :: "('k, 'v) gomap"
  rmap_l :: u32

definition empty_RMap :: "('k, 'v) RMap" where
  "empty_RMap = \<lparr>rmap_m = [], rmap_l = 0\<rparr>"

definition RMap_Len :: "('k, 'v) RMap \<Rightarrow> u32" where
  "RMap_Len m = rmap_l m"

definition RMap_Set :: "'k \<Rightarrow> 'v \<Rightarrow> ('k, 'v) RMap \<Rightarrow> bool \<times> ('k, 'v) RMap" where
  "RMap_Set key value m =
     (let m' = m\<lparr>rmap_m := AList.update key value (rmap_m m)\<rparr>
      in case map_of (rmap_m m) key of
           Some _ \<Rightarrow> (False, m')
         | None \<Rightarrow> (True, m'\<lparr>rmap_l := rmap_l m + 1\<rparr>))"

definition RMap_Get :: "'k \<Rightarrow> ('k, 'v) RMap \<Rightarrow> 'v option" where
  "RMap_Get key m = map_of (rmap_m m) key"

definition RMap_Swap :: "'k \<Rightarrow> 'v \<Rightarrow> ('k, 'v) RMap \<Rightarrow> 'v option \<times> ('k, 'v) RMap" where
  "RMap_Swap key value m =
     (let m' = m\<lparr>rmap_m := AList.update key value (rmap_m m)\<rparr>
      in case map_of (rmap_m m) key of
           Some old \<Rightarrow> (Some old, m')
         | None \<Rightarrow> (None, m'\<lparr>rmap_l := rmap_l m + 1\<rparr>))"

definition RMap_Range :: "('k \<Rightarrow> 'v \<Rightarrow> 's \<Rightarrow> bool \<times> 's) \<Rightarrow> ('k, 'v) RMap \<Rightarrow> 's \<Rightarrow> 's" where
  "RMap_Range f m s = Map_Range f (rmap_m m) s"

definition RMap_Delete :: "'k \<Rightarrow> ('k, 'v) RMap \<Rightarrow> bool \<times> ('k, 'v) RMap" where
  "RMap_Delete key m =
     (case map_of (rmap_m m) key of
        Some _ \<Rightarrow> (True, \<lparr>rmap_m = AList.delete key (rmap_m m), rmap_l = rmap_l m - 1\<rparr>)
      | None \<Rightarrow> (False, m))"

definition RMap_GetOrSet :: "'k \<Rightarrow> 'v \<Rightarrow> ('k, 'v) RMap \<Rightarrow> ('v \<times> bool) \<times> ('k, 'v) RMap" where
  "RMap_GetOrSet key value m =
     (case map_of (rmap_m m) key of
        Some val \<Rightarrow> ((val, True), m)
      | None \<Rightarrow> ((value, False),
          \<lparr>rmap_m = AList.update key value (rmap_m m), rmap_l = rmap_l m + 1\<rparr>))"

text \<open>
  A value of an \<open>RMap\<close> is often a pointer. A method called through the pointer changes the value
  in place: neither the keys nor the counter are touched.
\<close>

definition RMap_via :: "'k \<Rightarrow> ('v \<Rightarrow> 'v) \<Rightarrow> ('k, 'v) RMap \<Rightarrow> ('k, 'v) RMap" where
  "RMap_via key f m = m\<lparr>rmap_m := AList.map_entry key f (rmap_m m)\<rparr>"

section \<open>KeyMap\<close>

type_synonym 'v KeyMap = "(gostring, (gostring, 'v) Map) RMap"

definition KeyMap_LenKey :: "gostring \<Rightarrow> 'v KeyMap \<Rightarrow> u32" where
  "KeyMap_LenKey key m = (case RMap_Get key m of Some v \<Rightarrow> Map_Len v | None \<Rightarrow> 0)"

definition KeyMap_SetKey :: "gostring \<Rightarrow> gostring \<Rightarrow> 'v \<Rightarrow> 'v KeyMap \<Rightarrow> 'v KeyMap" where
  "KeyMap_SetKey key filed val m =
     (let (_, m') = RMap_GetOrSet key (NewMap []) m
      in RMap_via key (Map_Set filed val) m')"

definition KeyMap_GetKey :: "gostring \<Rightarrow> gostring \<Rightarrow> 'v KeyMap \<Rightarrow> 'v option" where
  "KeyMap_GetKey key filed m =
     (case RMap_Get key m of
        None \<Rightarrow> None
      | Some v \<Rightarrow> (case Map_Get filed v of None \<Rightarrow> None | Some val \<Rightarrow> Some val))"

definition KeyMap_RangeKey ::
  "gostring \<Rightarrow> (gostring \<Rightarrow> 'v \<Rightarrow> 's \<Rightarrow> bool \<times> 's) \<Rightarrow> 'v KeyMap \<Rightarrow> 's \<Rightarrow> 's" where
  "KeyMap_RangeKey key f m s =
     (case RMap_Get key m of Some v \<Rightarrow> Map_Range f v s | None \<Rightarrow> s)"

definition KeyMap_DeleteKey :: "gostring \<Rightarrow> gostring \<Rightarrow> 'v KeyMap \<Rightarrow> 'v KeyMap" where
  "KeyMap_DeleteKey key filed m =
     (case RMap_Get key m of
        Some v \<Rightarrow>
          (let v' = snd (Map_Delete filed v); m' = RMap_via key (\<lambda>_. v') m
           in if Map_Len v' = 0 then snd (RMap_Delete key m') else m')
      | None \<Rightarrow> m)"

definition KeyMap_Len :: "'v KeyMap \<Rightarrow> u32" where
  "KeyMap_Len m = RMap_Len m"

definition KeyMap_Set :: "gostring \<Rightarrow> (gostring, 'v) Map \<Rightarrow> 'v KeyMap \<Rightarrow> 'v KeyMap" where
  "KeyMap_Set key val m = snd (RMap_Set key val m)"

definition KeyMap_Get :: "gostring \<Rightarrow> 'v KeyMap \<Rightarrow> (gostring, 'v) Map option" where
  "KeyMap_Get key m = RMap_Get key m"

definition KeyMap_Range ::
  "(gostring \<Rightarrow> (gostring, 'v) Map \<Rightarrow> 's \<Rightarrow> bool \<times> 's) \<Rightarrow> 'v KeyMap \<Rightarrow> 's \<Rightarrow> 's" where
  "KeyMap_Range f m s = RMap_Range f m s"

definition KeyMap_Delete :: "gostring \<Rightarrow> 'v KeyMap \<Rightarrow> 'v KeyMap" where
  "KeyMap_Delete key m = snd (RMap_Delete key m)"

section \<open>The interface of a map\<close>

definition Map_ok :: "('k, 'v) Map \<Rightarrow> bool" where
  "Map_ok m \<longleftrightarrow> go_map m"

text \<open>Between calls the counter of an \<open>RMap\<close> is the number of its keys, as an \<open>int32\<close>.\<close>

definition RMap_ok :: "('k, 'v) RMap \<Rightarrow> bool" where
  "RMap_ok m \<longleftrightarrow> go_map (rmap_m m) \<and> rmap_l m = of_nat (length (rmap_m m))"

locale safe_map =
  fixes get :: "'k \<Rightarrow> 'm \<Rightarrow> 'v option"
    and put :: "'k \<Rightarrow> 'v \<Rightarrow> 'm \<Rightarrow> 'm"
    and swap :: "'k \<Rightarrow> 'v \<Rightarrow> 'm \<Rightarrow> 'v option \<times> 'm"
    and del :: "'k \<Rightarrow> 'm \<Rightarrow> bool \<times> 'm"
    and get_or_set :: "'k \<Rightarrow> 'v \<Rightarrow> 'm \<Rightarrow> ('v \<times> bool) \<times> 'm"
    and len :: "'m \<Rightarrow> u32"
    and ok :: "'m \<Rightarrow> bool"
  assumes get_put: "ok m \<Longrightarrow> get k' (put k v m) = (if k' = k then Some v else get k' m)"
    and ok_put: "ok m \<Longrightarrow> ok (put k v m)"
    and swap: "ok m \<Longrightarrow> swap k v m = (get k m, put k v m)"
    and del_fst: "ok m \<Longrightarrow> fst (del k m) \<longleftrightarrow> get k m \<noteq> None"
    and get_del: "ok m \<Longrightarrow> get k' (snd (del k m)) = (if k' = k then None else get k' m)"
    and ok_del: "ok m \<Longrightarrow> ok (snd (del k m))"
    and get_or_set: "ok m \<Longrightarrow> get_or_set k v m =
      (case get k m of Some w \<Rightarrow> ((w, True), m) | None \<Rightarrow> ((v, False), put k v m))"
    and len: "ok m \<Longrightarrow> len m = of_nat (card {k. get k m \<noteq> None})"
    and finite: "ok m \<Longrightarrow> finite {k. get k m \<noteq> None}"
begin

definition view :: "'m \<Rightarrow> 'k \<rightharpoonup> 'v" where
  "view m = (\<lambda>k. get k m)"

lemma view_put: "ok m \<Longrightarrow> view (put k v m) = (view m)(k \<mapsto> v)"
  by (auto simp: view_def get_put fun_eq_iff)

lemma view_del: "ok m \<Longrightarrow> view (snd (del k m)) = (view m)(k := None)"
  by (auto simp: view_def get_del fun_eq_iff)

lemma get_or_set_get:
  "ok m \<Longrightarrow> get_or_set k v m = ((w, loaded), m') \<Longrightarrow> get k m' = Some w"
  by (auto simp: get_or_set get_put split: option.splits)

lemma get_or_set_ok: "ok m \<Longrightarrow> ok (snd (get_or_set k v m))"
  by (auto simp: get_or_set ok_put split: option.splits)

lemma get_or_set_other:
  "ok m \<Longrightarrow> k' \<noteq> k \<Longrightarrow> get k' (snd (get_or_set k v m)) = get k' m"
  by (auto simp: get_or_set get_put split: option.splits)

lemma len_put:
  assumes "ok m"
  shows "len (put k v m) = (if get k m = None then len m + 1 else len m)"
proof -
  have "{k'. get k' (put k v m) \<noteq> None} = insert k {k'. get k' m \<noteq> None}"
    using assms by (auto simp: get_put)
  then show ?thesis
    using assms finite [OF assms]
    by (simp add: len ok_put card_insert_if)
qed

lemma len_del:
  assumes "ok m"
  shows "len (snd (del k m)) = (if fst (del k m) then len m - 1 else len m)"
proof -
  have *: "{k'. get k' (snd (del k m)) \<noteq> None} = {k'. get k' m \<noteq> None} - {k}"
    using assms by (auto simp: get_del)
  show ?thesis
  proof (cases "get k m = None")
    case True
    then have "{k'. get k' m \<noteq> None} - {k} = {k'. get k' m \<noteq> None}" by auto
    then show ?thesis using assms True * by (simp add: len ok_del del_fst)
  next
    case False
    then have "card {k'. get k' m \<noteq> None} = Suc (card ({k'. get k' m \<noteq> None} - {k}))"
      using finite [OF assms] card.remove [of "{k'. get k' m \<noteq> None}" k] by simp
    then show ?thesis using assms False * by (simp add: len ok_del del_fst)
  qed
qed

lemma view_puts:
  "ok m \<Longrightarrow> ok (foldl (\<lambda>m (k, v). put k v m) m kvs) \<and>
     view (foldl (\<lambda>m (k, v). put k v m) m kvs) = view m ++ map_of (rev kvs)"
  by (induction kvs arbitrary: m) (auto simp: ok_put view_put)

end

lemma length_update_go_map:
  "length (AList.update k v m) = (if map_of m k = None then Suc (length m) else length m)"
  by (induction m) auto

lemma length_delete_go_map:
  "go_map m \<Longrightarrow> length (AList.delete k m) = (if map_of m k = None then length m else length m - 1)"
proof (induction m)
  case (Cons a m)
  then have m: "go_map m" and new: "fst a \<notin> fst ` set m" by (auto simp: go_map_def)
  have "map_of m k \<noteq> None \<Longrightarrow> 0 < length m" by (cases m) auto
  moreover have "fst a = k \<Longrightarrow> AList.delete k m = m"
    using new by (auto intro!: delete_idem)
  ultimately show ?case using Cons.IH [OF m] by (cases a) auto
qed auto

lemma map_of_update_iff: "map_of (AList.update k v m) k' = (if k' = k then Some v else map_of m k')"
  by (simp add: update_conv')

lemma map_of_delete_iff: "map_of (AList.delete k m) k' = (if k' = k then None else map_of m k')"
  by (simp add: delete_conv')

lemma dom_card: "go_map m \<Longrightarrow> card {k. \<exists>y. map_of m k = Some y} = length m"
  using card_dom_go_map [of m] by (simp add: dom_def)

lemma dom_finite: "finite {k. \<exists>y. map_of m k = Some y}"
  using finite_dom_map_of [of m] by (simp add: dom_def)

interpretation gmap: safe_map Map_Get Map_Set Map_Swap Map_Delete Map_GetOrSet Map_Len Map_ok
  by unfold_locales
    (auto simp: Map_Get_def Map_Set_def Map_Swap_def Map_Delete_def Map_GetOrSet_def Map_Len_def
      Map_ok_def map_of_update_iff map_of_delete_iff dom_card dom_finite split: option.splits)

interpretation rmap: safe_map RMap_Get "\<lambda>k v m. snd (RMap_Set k v m)" RMap_Swap RMap_Delete
  RMap_GetOrSet RMap_Len RMap_ok
proof
  fix m :: "('a, 'b) RMap" and k
  assume ok: "RMap_ok m"
  have "map_of (rmap_m m) k \<noteq> None \<Longrightarrow> 0 < length (rmap_m m)"
    by (cases "rmap_m m") auto
  then show "RMap_ok (snd (RMap_Delete k m))"
    using ok by (auto simp: RMap_ok_def RMap_Delete_def length_delete_go_map of_nat_diff Suc_le_eq split: option.splits)
qed (auto simp: RMap_Get_def RMap_Set_def RMap_Swap_def RMap_Delete_def RMap_GetOrSet_def
      RMap_Len_def RMap_ok_def map_of_update_iff map_of_delete_iff length_update_go_map
      Let_def dom_card dom_finite split: option.splits)

text \<open>What every call of a \<open>Range\<close> callback keeps, the whole \<open>Range\<close> keeps.\<close>

lemma Map_Range_keeps:
  assumes "\<And>k v s. (k, v) \<in> set m \<Longrightarrow> P s \<Longrightarrow> P (snd (f k v s))" and "P s"
  shows "P (Map_Range f m s)"
  using assms
proof (induction m arbitrary: s)
  case (Cons a m)
  obtain k v where a: "a = (k, v)" by (cases a)
  have "P (snd (f k v s))" using Cons.prems a by simp
  then show ?case using Cons.IH Cons.prems a by (cases "f k v s") auto
qed simp

text \<open>A callback that never stops the \<open>Range\<close> makes it a fold.\<close>

lemma Map_Range_fold:
  "Map_Range (\<lambda>k v s. (True, g k v s)) m s = fold (\<lambda>(k, v). g k v) m s"
  by (induction m arbitrary: s) auto

section \<open>RMap under concurrent callers\<close>

text \<open>
  The shared map, and what the callers that are between their two atomic actions will still add
  to the counter.
\<close>

record ('k, 'v) rmap_sys =
  shared :: "('k, 'v) RMap"
  pending :: "u32 multiset"

inductive rmap_step :: "('k, 'v) rmap_sys \<Rightarrow> ('k, 'v) rmap_sys \<Rightarrow> bool" where
  store_new: "map_of (rmap_m (shared s)) k = None \<Longrightarrow>
    rmap_step s \<lparr>shared = (shared s)\<lparr>rmap_m := AList.update k v (rmap_m (shared s))\<rparr>,
      pending = add_mset 1 (pending s)\<rparr>"
| store_old: "map_of (rmap_m (shared s)) k \<noteq> None \<Longrightarrow>
    rmap_step s (s\<lparr>shared := (shared s)\<lparr>rmap_m := AList.update k v (rmap_m (shared s))\<rparr>\<rparr>)"
| remove: "map_of (rmap_m (shared s)) k \<noteq> None \<Longrightarrow>
    rmap_step s \<lparr>shared = (shared s)\<lparr>rmap_m := AList.delete k (rmap_m (shared s))\<rparr>,
      pending = add_mset (- 1) (pending s)\<rparr>"
| count: "d \<in># pending s \<Longrightarrow>
    rmap_step s \<lparr>shared = (shared s)\<lparr>rmap_l := rmap_l (shared s) + d\<rparr>,
      pending = pending s - {#d#}\<rparr>"

definition rmap_start :: "('k, 'v) rmap_sys" where
  "rmap_start = \<lparr>shared = empty_RMap, pending = {#}\<rparr>"

definition rmap_inv :: "('k, 'v) rmap_sys \<Rightarrow> bool" where
  "rmap_inv s \<longleftrightarrow> go_map (rmap_m (shared s)) \<and>
     rmap_l (shared s) + sum_mset (pending s) = of_nat (length (rmap_m (shared s)))"

lemma rmap_inv_start: "rmap_inv rmap_start"
  by (simp add: rmap_inv_def rmap_start_def empty_RMap_def)

lemma rmap_inv_step: "rmap_step s t \<Longrightarrow> rmap_inv s \<Longrightarrow> rmap_inv t"
proof (induction rule: rmap_step.induct)
  case (remove s k)
  then have "0 < length (rmap_m (shared s))" by (cases "rmap_m (shared s)") auto
  with remove show ?case
    by (auto simp: rmap_inv_def length_delete_go_map of_nat_diff Suc_le_eq algebra_simps)
next
  case (count d s)
  then obtain p where "pending s = add_mset d p" by (meson mset_add)
  with count show ?case by (simp add: rmap_inv_def add.assoc)
qed (auto simp: rmap_inv_def length_update_go_map algebra_simps)

lemma rmap_inv_reachable: "rmap_step\<^sup>*\<^sup>* s t \<Longrightarrow> rmap_inv s \<Longrightarrow> rmap_inv t"
  by (induction rule: rtranclp_induct) (auto intro: rmap_inv_step)

text \<open>Every method of \<open>RMap\<close>, run without interruption, is a run of at most two steps.\<close>

lemma rmap_two_steps:
  assumes "map_of (rmap_m r) k = None"
  shows "rmap_step\<^sup>*\<^sup>* \<lparr>shared = r, pending = {#}\<rparr>
    \<lparr>shared = r\<lparr>rmap_m := AList.update k v (rmap_m r), rmap_l := rmap_l r + 1\<rparr>, pending = {#}\<rparr>"
  using rmap_step.store_new [of "\<lparr>shared = r, pending = {#}\<rparr>" k v] assms
    rmap_step.count [of 1 "\<lparr>shared = r\<lparr>rmap_m := AList.update k v (rmap_m r)\<rparr>, pending = {#1#}\<rparr>"]
  by (auto intro: converse_rtranclp_into_rtranclp)

lemma rmap_Set_steps:
  "rmap_step\<^sup>*\<^sup>* \<lparr>shared = r, pending = {#}\<rparr> \<lparr>shared = snd (RMap_Set k v r), pending = {#}\<rparr>"
  using rmap_two_steps [of r k v] rmap_step.store_old [of "\<lparr>shared = r, pending = {#}\<rparr>" k v]
  by (auto simp: RMap_Set_def Let_def split: option.splits)

lemma rmap_Delete_steps:
  "rmap_step\<^sup>*\<^sup>* \<lparr>shared = r, pending = {#}\<rparr> \<lparr>shared = snd (RMap_Delete k r), pending = {#}\<rparr>"
proof (cases "map_of (rmap_m r) k")
  case (Some v)
  have "rmap_step \<lparr>shared = r, pending = {#}\<rparr>
      \<lparr>shared = r\<lparr>rmap_m := AList.delete k (rmap_m r)\<rparr>, pending = {#- 1#}\<rparr>"
    using rmap_step.remove [of "\<lparr>shared = r, pending = {#}\<rparr>" k] Some by simp
  moreover have "rmap_step \<lparr>shared = r\<lparr>rmap_m := AList.delete k (rmap_m r)\<rparr>, pending = {#- 1#}\<rparr>
      \<lparr>shared = \<lparr>rmap_m = AList.delete k (rmap_m r), rmap_l = rmap_l r - 1\<rparr>, pending = {#}\<rparr>"
    using rmap_step.count [of "- 1" "\<lparr>shared = r\<lparr>rmap_m := AList.delete k (rmap_m r)\<rparr>,
      pending = {#- 1#}\<rparr>"]
    by (cases r) simp
  ultimately show ?thesis using Some by (simp add: RMap_Delete_def)
qed (simp add: RMap_Delete_def)

section \<open>Nested maps\<close>

definition inner_ok :: "(gostring, 'v) Map \<Rightarrow> bool" where
  "inner_ok v \<longleftrightarrow> go_map v \<and> v \<noteq> []"

text \<open>No key with an empty inner map: \<open>DeleteKey\<close> drops the key with its last field.\<close>

definition KeyMap_ok :: "'v KeyMap \<Rightarrow> bool" where
  "KeyMap_ok m \<longleftrightarrow> RMap_ok m \<and> list_all (\<lambda>(k, v). inner_ok v) (rmap_m m)"

text \<open>\<open>Len\<close> is an \<open>int32\<close>, so \<open>DeleteKey\<close> takes \<open>2^32\<close> remaining fields for none.\<close>

definition KeyMap_fits :: "gostring \<Rightarrow> 'v KeyMap \<Rightarrow> bool" where
  "KeyMap_fits key m \<longleftrightarrow>
     (case RMap_Get key m of Some v \<Rightarrow> length v < 2 ^ 32 | None \<Rightarrow> True)"

locale key_map =
  fixes getk :: "'a \<Rightarrow> 'b \<Rightarrow> 'm \<Rightarrow> 'v option"
    and setk :: "'a \<Rightarrow> 'b \<Rightarrow> 'v \<Rightarrow> 'm \<Rightarrow> 'm"
    and delk :: "'a \<Rightarrow> 'b \<Rightarrow> 'm \<Rightarrow> 'm"
    and ok :: "'m \<Rightarrow> bool"
    and fits :: "'a \<Rightarrow> 'm \<Rightarrow> bool"
  assumes getk_setk: "ok m \<Longrightarrow>
      getk a' b' (setk a b v m) = (if a' = a \<and> b' = b then Some v else getk a' b' m)"
    and getk_delk: "ok m \<Longrightarrow> fits a m \<Longrightarrow>
      getk a' b' (delk a b m) = (if a' = a \<and> b' = b then None else getk a' b' m)"
    and ok_setk: "ok m \<Longrightarrow> ok (setk a b v m)"
    and ok_delk: "ok m \<Longrightarrow> ok (delk a b m)"
begin

definition pairs :: "'m \<Rightarrow> 'a \<times> 'b \<rightharpoonup> 'v" where
  "pairs m = (\<lambda>(a, b). getk a b m)"

lemma pairs_setk: "ok m \<Longrightarrow> pairs (setk a b v m) = (pairs m)((a, b) \<mapsto> v)"
  by (auto simp: pairs_def getk_setk fun_eq_iff)

lemma pairs_delk: "ok m \<Longrightarrow> fits a m \<Longrightarrow> pairs (delk a b m) = (pairs m)((a, b) := None)"
  by (auto simp: pairs_def getk_delk fun_eq_iff)

lemma ok_setks: "ok m \<Longrightarrow> ok (foldl (\<lambda>m (a, b, v). setk a b v m) m es)"
  by (induction es arbitrary: m) (auto simp: ok_setk)

lemma pairs_setks:
  "ok m \<Longrightarrow> pairs (foldl (\<lambda>m (a, b, v). setk a b v m) m es) =
     pairs m ++ map_of (rev (map (\<lambda>(a, b, v). ((a, b), v)) es))"
  by (induction es arbitrary: m) (auto simp: ok_setk pairs_setk)

end

lemma map_entry_views:
  "map_of (AList.map_entry k f m) k' =
     (if k' = k then map_option f (map_of m k) else map_of m k')"
  "go_map (AList.map_entry k f m) = go_map m" "length (AList.map_entry k f m) = length m"
  by (induction m) (auto simp: go_map_def dom_map_entry split: if_splits)

lemma list_all_go_map:
  "go_map m \<Longrightarrow> list_all (\<lambda>(k, v). P v) m \<longleftrightarrow> (\<forall>k v. map_of m k = Some v \<longrightarrow> P v)"
  by (fastforce simp: go_map_def list_all_iff dest: map_of_SomeD)

lemma KeyMap_ok_iff:
  "KeyMap_ok m \<longleftrightarrow> RMap_ok m \<and> (\<forall>k v. RMap_Get k m = Some v \<longrightarrow> inner_ok v)"
  by (auto simp: KeyMap_ok_def RMap_ok_def RMap_Get_def list_all_go_map)

lemma RMap_ok_via [simp]: "RMap_ok (RMap_via k f m) = RMap_ok m"
  by (simp add: RMap_ok_def RMap_via_def map_entry_views)

lemma RMap_Get_via [simp]:
  "RMap_Get k' (RMap_via k f m) = (if k' = k then map_option f (RMap_Get k m) else RMap_Get k' m)"
  by (simp add: RMap_Get_def RMap_via_def map_entry_views)

lemma inner_ok_Set [simp]: "go_map v \<Longrightarrow> inner_ok (Map_Set f x v)"
  by (simp add: inner_ok_def Map_Set_def update_nonempty)

lemma RMap_Get_SetKey:
  assumes "RMap_ok m"
  shows "RMap_Get k' (KeyMap_SetKey k f x m) =
    (if k' = k then Some (Map_Set f x (case RMap_Get k m of Some v \<Rightarrow> v | None \<Rightarrow> []))
     else RMap_Get k' m)"
  using assms
  by (auto simp: KeyMap_SetKey_def Let_def rmap.get_or_set rmap.get_put NewMap_def
    split: option.splits)

lemma RMap_ok_SetKey: "RMap_ok m \<Longrightarrow> RMap_ok (KeyMap_SetKey k f x m)"
  by (auto simp: KeyMap_SetKey_def Let_def rmap.get_or_set rmap.ok_put split: option.splits)

lemma RMap_Get_DeleteKey:
  assumes "RMap_ok m"
  shows "RMap_Get k' (KeyMap_DeleteKey k f m) =
    (if k' = k then
       (case RMap_Get k m of None \<Rightarrow> None
        | Some v \<Rightarrow> let v' = snd (Map_Delete f v) in if Map_Len v' = 0 then None else Some v')
     else RMap_Get k' m)"
  using assms
  by (auto simp: KeyMap_DeleteKey_def Let_def rmap.get_del split: option.splits)

lemma RMap_ok_DeleteKey: "RMap_ok m \<Longrightarrow> RMap_ok (KeyMap_DeleteKey k f m)"
  by (auto simp: KeyMap_DeleteKey_def Let_def rmap.ok_del split: option.splits)

lemma Map_Len_0_iff: "length v < 2 ^ 32 \<Longrightarrow> Map_Len v = 0 \<longleftrightarrow> v = []"
  by (auto simp: Map_Len_def word_unat_eq_iff unat_of_nat)

lemma length_Map_Delete:
  "go_map v \<Longrightarrow> length (snd (Map_Delete f v)) =
     (if map_of v f = None then length v else length v - 1)"
  by (auto simp: Map_Delete_def length_delete_go_map split: option.splits)

lemma KeyMap_ok_SetKey: "KeyMap_ok m \<Longrightarrow> KeyMap_ok (KeyMap_SetKey k f x m)"
  by (auto simp: KeyMap_ok_iff RMap_ok_SetKey RMap_Get_SetKey inner_ok_def Map_Set_def update_nonempty
    split: if_splits option.splits)

lemma KeyMap_ok_DeleteKey: "KeyMap_ok m \<Longrightarrow> KeyMap_ok (KeyMap_DeleteKey k f m)"
  by (auto simp: KeyMap_ok_iff RMap_ok_DeleteKey RMap_Get_DeleteKey inner_ok_def Let_def
    Map_Delete_def Map_Len_def split: if_splits option.splits)

lemma GetKey_eq:
  "KeyMap_GetKey k f m = (case RMap_Get k m of None \<Rightarrow> None | Some v \<Rightarrow> map_of v f)"
  by (auto simp: KeyMap_GetKey_def Map_Get_def split: option.splits)

lemma GetKey_DeleteKey:
  assumes "KeyMap_ok m" and "KeyMap_fits k m"
  shows "KeyMap_GetKey k' f' (KeyMap_DeleteKey k f m) =
    (if k' = k \<and> f' = f then None else KeyMap_GetKey k' f' m)"
proof (cases "RMap_Get k m")
  case None
  then show ?thesis
    using assms by (auto simp: GetKey_eq RMap_Get_DeleteKey KeyMap_ok_iff)
next
  case (Some v)
  then have v: "go_map v" "length v < 2 ^ 32"
    using assms by (auto simp: KeyMap_ok_iff inner_ok_def KeyMap_fits_def)
  then have "length (snd (Map_Delete f v)) < 2 ^ 32" by (auto simp: length_Map_Delete)
  then have gone: "Map_Len (snd (Map_Delete f v)) = 0 \<longleftrightarrow> snd (Map_Delete f v) = []"
    by (rule Map_Len_0_iff)
  have rest: "map_of (snd (Map_Delete f v)) f' = (if f' = f then None else map_of v f')"
    by (auto simp: Map_Delete_def map_of_delete_iff split: option.splits)
  then have "snd (Map_Delete f v) = [] \<Longrightarrow> f' \<noteq> f \<Longrightarrow> map_of v f' = None" by simp
  with Some gone rest show ?thesis
    using assms by (auto simp: GetKey_eq RMap_Get_DeleteKey KeyMap_ok_iff Let_def)
qed

interpretation kmap: key_map KeyMap_GetKey KeyMap_SetKey KeyMap_DeleteKey KeyMap_ok KeyMap_fits
proof
  show "KeyMap_GetKey a' b' (KeyMap_SetKey a b v m) =
      (if a' = a \<and> b' = b then Some v else KeyMap_GetKey a' b' m)" if "KeyMap_ok m" for m :: "'v KeyMap"
    and a b a' b' v
    using that
    by (auto simp: GetKey_eq RMap_Get_SetKey KeyMap_ok_iff Map_Set_def map_of_update_iff
      split: option.splits)
qed (simp_all add: GetKey_DeleteKey KeyMap_ok_SetKey KeyMap_ok_DeleteKey)

section \<open>Properties\<close>

text \<open>
  However the atomic actions of concurrent \<open>Set\<close>, \<open>Swap\<close>, \<open>GetOrSet\<close> and \<open>Delete\<close> calls on one
  \<open>RMap\<close> interleave, the counter plus what the calls in flight still have to add is the number of
  keys; so \<open>Len\<close> is exact whenever no call is in flight.
\<close>

theorem RMap_Len_interleaved:
  assumes "rmap_step\<^sup>*\<^sup>* rmap_start s"
  shows "RMap_Len (shared s) + sum_mset (pending s) =
      of_nat (card {k. RMap_Get k (shared s) \<noteq> None}) \<and>
    (pending s = {#} \<longrightarrow> RMap_ok (shared s))"
proof -
  have "rmap_inv s" using rmap_inv_reachable [OF assms rmap_inv_start] .
  then show ?thesis
    by (auto simp: rmap_inv_def RMap_ok_def RMap_Len_def RMap_Get_def dom_card)
qed

theorem RMap_Len_interleaved_witness:
  "\<exists>s :: (byte, byte) rmap_sys. rmap_step\<^sup>*\<^sup>* rmap_start s \<and> pending s = {#1#} \<and>
     RMap_Len (shared s) = 0 \<and> of_nat (card {k. RMap_Get k (shared s) \<noteq> None}) = (1 :: u32)"
proof -
  let ?s = "\<lparr>shared = \<lparr>rmap_m = [(1, 2)], rmap_l = 0\<rparr>, pending = {#1#}\<rparr> :: (byte, byte) rmap_sys"
  have "rmap_step rmap_start ?s"
    using rmap_step.store_new [of "rmap_start :: (byte, byte) rmap_sys" 1 2]
    by (simp add: rmap_start_def empty_RMap_def)
  then have run: "rmap_step\<^sup>*\<^sup>* rmap_start ?s" by simp
  have "RMap_Len (shared ?s) = 0" by (simp add: RMap_Len_def)
  with RMap_Len_interleaved [OF run] run show ?thesis by (intro exI [of _ ?s]) simp
qed

text \<open>
  A \<open>KeyMap\<close> is a map from pairs: what was set under a key and a field is what is found there
  and nothing else changes, \<open>DeleteKey\<close> removes that pair only, both keep every inner map non-empty,
  and \<open>Len\<close> stays the number of keys that have a field.
\<close>

theorem KeyMap_pairs:
  assumes "KeyMap_ok m" and "KeyMap_fits k m"
  shows "KeyMap_GetKey k' f' (KeyMap_SetKey k f v m) =
      (if k' = k \<and> f' = f then Some v else KeyMap_GetKey k' f' m) \<and>
    KeyMap_GetKey k' f' (KeyMap_DeleteKey k f m) =
      (if k' = k \<and> f' = f then None else KeyMap_GetKey k' f' m) \<and>
    KeyMap_ok (KeyMap_SetKey k f v m) \<and> KeyMap_ok (KeyMap_DeleteKey k f m) \<and>
    KeyMap_Len m = of_nat (card {a. \<exists>b. KeyMap_GetKey a b m \<noteq> None})"
proof -
  have "RMap_Get a m \<noteq> None \<longleftrightarrow> (\<exists>b. KeyMap_GetKey a b m \<noteq> None)" for a
  proof
    assume "RMap_Get a m \<noteq> None"
    then obtain v where "RMap_Get a m = Some v" "v \<noteq> []"
      using assms(1) by (auto simp: KeyMap_ok_iff inner_ok_def)
    then show "\<exists>b. KeyMap_GetKey a b m \<noteq> None"
      by (cases v) (auto simp: GetKey_eq split: if_splits intro!: exI [of _ "fst (hd v)"])
  qed (auto simp: GetKey_eq split: option.splits)
  then have "KeyMap_Len m = of_nat (card {a. \<exists>b. KeyMap_GetKey a b m \<noteq> None})"
    using assms(1) rmap.len [of m] by (simp add: KeyMap_Len_def KeyMap_ok_iff)
  with assms show ?thesis
    by (simp add: kmap.getk_setk kmap.getk_delk kmap.ok_setk kmap.ok_delk)
qed

theorem KeyMap_pairs_witness:
  "KeyMap_GetKey (gs ''u'') (gs ''c'')
     (KeyMap_DeleteKey (gs ''u'') (gs ''d'')
       (KeyMap_SetKey (gs ''u'') (gs ''c'') True (KeyMap_SetKey (gs ''u'') (gs ''d'') False empty_RMap)))
   = Some True"
proof -
  let ?m = "KeyMap_SetKey (gs ''u'') (gs ''c'') True
    (KeyMap_SetKey (gs ''u'') (gs ''d'') False empty_RMap)"
  have ok: "KeyMap_ok ?m"
    by (intro KeyMap_ok_SetKey) (simp add: KeyMap_ok_def RMap_ok_def empty_RMap_def)
  have m: "?m = \<lparr>rmap_m = [(gs ''u'', [(gs ''d'', False), (gs ''c'', True)])], rmap_l = 1\<rparr>"
    by (simp add: KeyMap_SetKey_def RMap_GetOrSet_def RMap_via_def empty_RMap_def Map_Set_def
      NewMap_def gs_def)
  have fits: "KeyMap_fits (gs ''u'') ?m"
    unfolding m by (simp add: KeyMap_fits_def RMap_Get_def)
  have "KeyMap_GetKey (gs ''u'') (gs ''c'') ?m = Some True"
    unfolding m by (simp add: KeyMap_GetKey_def RMap_Get_def Map_Get_def gs_def)
  with KeyMap_pairs [OF ok fits, of "gs ''u''" "gs ''c''" "gs ''d''"] show ?thesis
    by (simp add: gs_def)
qed

end
