(* ===== verification/Broker_State.thy ===== *)
theory Broker_State
  imports Safe_Map
begin

text \<open>
  The replicated state of a broker, src/cluster/broker.go: which clients every node has for a user
  and for a channel, and which channels a client joined; and the four operations the raft log
  applies to it, with the removal of a node and the snapshot.

  The three tables map a node id to a \<open>KeyMap\<close>. \<open>Node_Set\<close> and \<open>Node_Delete\<close> are a \<open>SetKey\<close> or \<open>DeleteKey\<close>
  through the pointer to a node's \<open>KeyMap\<close>. A Go map of an operation (\<open>op.channels\<close>) is an
  association list, its order the order of the \<open>range\<close> loop.
\<close>

section \<open>State\<close>

type_synonym 'v node_map = "(u64, 'v KeyMap) RMap"

record broker_state =
  userClients :: "gostring node_map"
  channelClients :: "gostring node_map"
  clientChannels :: "unit node_map"

definition empty_broker :: broker_state where
  "empty_broker = \<lparr>userClients = empty_RMap, channelClients = empty_RMap, clientChannels = empty_RMap\<rparr>"

text \<open>\<open>GetOrSet(id, &safe.KeyMap[T]{})\<close>, for its effect on the table.\<close>

definition Node_Ensure :: "u64 \<Rightarrow> 'v node_map \<Rightarrow> 'v node_map" where
  "Node_Ensure n m = snd (RMap_GetOrSet n empty_RMap m)"

definition Node_SetKey :: "u64 \<Rightarrow> gostring \<Rightarrow> gostring \<Rightarrow> 'v \<Rightarrow> 'v node_map \<Rightarrow> 'v node_map" where
  "Node_SetKey n key filed v m = RMap_via n (KeyMap_SetKey key filed v) m"

definition Node_DeleteKey :: "u64 \<Rightarrow> gostring \<Rightarrow> gostring \<Rightarrow> 'v node_map \<Rightarrow> 'v node_map" where
  "Node_DeleteKey n key filed m = RMap_via n (KeyMap_DeleteKey key filed) m"

section \<open>Operations\<close>

record userOpenedOp =
  opened_uid :: gostring
  opened_cid :: gostring
  opened_net :: gostring
  opened_nodeID :: u64
  opened_channels :: "(gostring, gostring) gomap"

record userClosedOp =
  closed_uid :: gostring
  closed_cid :: gostring
  closed_nodeID :: u64

record channelOp =
  chan_uid :: gostring
  chan_channels :: "(gostring, gostring) gomap"

text \<open>One client put into, or taken out of, one channel.\<close>

definition add_member :: "u64 \<Rightarrow> gostring \<Rightarrow> gostring \<Rightarrow> gostring \<Rightarrow> broker_state \<Rightarrow> broker_state" where
  "add_member n ch cid net b =
     b\<lparr>channelClients := Node_SetKey n ch cid net (channelClients b),
       clientChannels := Node_SetKey n cid ch () (clientChannels b)\<rparr>"

definition drop_member :: "u64 \<Rightarrow> gostring \<Rightarrow> gostring \<Rightarrow> broker_state \<Rightarrow> broker_state" where
  "drop_member n ch cid b =
     b\<lparr>channelClients := Node_DeleteKey n ch cid (channelClients b),
       clientChannels := Node_DeleteKey n cid ch (clientChannels b)\<rparr>"

definition ensure_channels :: "u64 \<Rightarrow> broker_state \<Rightarrow> broker_state" where
  "ensure_channels n b =
     b\<lparr>channelClients := Node_Ensure n (channelClients b),
       clientChannels := Node_Ensure n (clientChannels b)\<rparr>"

definition broker_userOpened :: "userOpenedOp \<Rightarrow> broker_state \<Rightarrow> broker_state" where
  "broker_userOpened op b =
     (let n = opened_nodeID op; uid = opened_uid op; cid = opened_cid op; net = opened_net op;
          b1 = ensure_channels n (b\<lparr>userClients := Node_Ensure n (userClients b)\<rparr>);
          b2 = b1\<lparr>userClients := Node_SetKey n uid cid net (userClients b1)\<rparr>
      in fold (\<lambda>(ch, _). add_member n ch cid net) (opened_channels op) b2)"

definition broker_userClosed :: "userClosedOp \<Rightarrow> broker_state \<Rightarrow> broker_state" where
  "broker_userClosed op b =
     (let n = closed_nodeID op; uid = closed_uid op; cid = closed_cid op;
          b1 = (case RMap_Get n (userClients b) of
                  Some _ \<Rightarrow> b\<lparr>userClients := Node_DeleteKey n uid cid (userClients b)\<rparr>
                | None \<Rightarrow> b)
      in case RMap_Get n (clientChannels b1) of
           None \<Rightarrow> b1
         | Some channels \<Rightarrow>
             (let b2 = (case RMap_Get n (channelClients b1) of
                          None \<Rightarrow> b1
                        | Some _ \<Rightarrow>
                            KeyMap_RangeKey cid (\<lambda>ch _ s.
                                (True, s\<lparr>channelClients := Node_DeleteKey n ch cid (channelClients s)\<rparr>))
                              channels b1)
              in b2\<lparr>clientChannels := Node_DeleteKey n cid uid (clientChannels b2)\<rparr>))"

definition broker_joinChannel :: "channelOp \<Rightarrow> broker_state \<Rightarrow> broker_state" where
  "broker_joinChannel op b =
     RMap_Range (\<lambda>n uc s.
         (True, KeyMap_RangeKey (chan_uid op) (\<lambda>cid net t.
             (True, fold (\<lambda>(ch, _). add_member n ch cid net) (chan_channels op) t))
           uc (ensure_channels n s)))
       (userClients b) b"

definition broker_leaveChannel :: "channelOp \<Rightarrow> broker_state \<Rightarrow> broker_state" where
  "broker_leaveChannel op b =
     RMap_Range (\<lambda>n uc s.
         (True, KeyMap_RangeKey (chan_uid op) (\<lambda>cid net t.
             (True, fold (\<lambda>(ch, _). drop_member n ch cid) (chan_channels op) t))
           uc (ensure_channels n s)))
       (userClients b) b"

text \<open>The part of \<open>applyRemoveNode\<close> that is about the tables.\<close>

definition broker_removeNode :: "u64 \<Rightarrow> broker_state \<Rightarrow> broker_state" where
  "broker_removeNode n b =
     b\<lparr>userClients := snd (RMap_Delete n (userClients b)),
       clientChannels := snd (RMap_Delete n (clientChannels b)),
       channelClients := snd (RMap_Delete n (channelClients b))\<rparr>"

section \<open>Snapshots\<close>

type_synonym 'v node_tree = "(u64, (gostring, (gostring, 'v) gomap) gomap) gomap"

record snapshot =
  UserClients :: "gostring node_tree"
  ChannelClients :: "gostring node_tree"
  ClientChannels :: "unit node_tree"

text \<open>One table copied into plain maps, entry by entry.\<close>

definition snap_table :: "'v node_map \<Rightarrow> 'v node_tree" where
  "snap_table m =
     RMap_Range (\<lambda>n v acc.
         (let ucmap = (case map_of acc n of Some x \<Rightarrow> x | None \<Rightarrow> []);
              ucmap' = KeyMap_Range (\<lambda>key inner t. (True, AList.update key (Map_Load inner) t)) v ucmap
          in (True, AList.update n ucmap' acc)))
       m []"

definition makeSnapshot :: "broker_state \<Rightarrow> snapshot" where
  "makeSnapshot b =
     \<lparr>UserClients = snap_table (userClients b), ChannelClients = snap_table (channelClients b),
      ClientChannels = snap_table (clientChannels b)\<rparr>"

definition recover_table :: "'v node_tree \<Rightarrow> 'v node_map" where
  "recover_table t =
     foldl (\<lambda>m (n, ucmap).
         foldl (\<lambda>m' (key, inner). RMap_via n (KeyMap_Set key (NewMap [inner])) m') (Node_Ensure n m) ucmap)
       empty_RMap t"

definition recoverFromSnapshot :: "snapshot \<Rightarrow> broker_state" where
  "recoverFromSnapshot s =
     \<lparr>userClients = recover_table (UserClients s), channelClients = recover_table (ChannelClients s),
      clientChannels = recover_table (ClientChannels s)\<rparr>"

section \<open>Well-formed tables\<close>

definition NMap_ok :: "'v node_map \<Rightarrow> bool" where
  "NMap_ok m \<longleftrightarrow> RMap_ok m \<and> (\<forall>n k. RMap_Get n m = Some k \<longrightarrow> KeyMap_ok k)"

definition NGet :: "u64 \<Rightarrow> gostring \<Rightarrow> gostring \<Rightarrow> 'v node_map \<Rightarrow> 'v option" where
  "NGet n key filed m = (case RMap_Get n m of None \<Rightarrow> None | Some k \<Rightarrow> KeyMap_GetKey key filed k)"

definition NSet :: "u64 \<Rightarrow> gostring \<Rightarrow> gostring \<Rightarrow> 'v \<Rightarrow> 'v node_map \<Rightarrow> 'v node_map" where
  "NSet n key filed v m = Node_SetKey n key filed v (Node_Ensure n m)"

definition NMap_fits :: "u64 \<Rightarrow> gostring \<Rightarrow> 'v node_map \<Rightarrow> bool" where
  "NMap_fits n key m \<longleftrightarrow> (case RMap_Get n m of None \<Rightarrow> True | Some k \<Rightarrow> KeyMap_fits key k)"

lemma KeyMap_ok_empty [simp]: "KeyMap_ok empty_RMap"
  by (simp add: KeyMap_ok_def RMap_ok_def empty_RMap_def)

lemma RMap_Get_empty [simp]: "RMap_Get k empty_RMap = None"
  by (simp add: RMap_Get_def empty_RMap_def)

lemma GetKey_empty [simp]: "KeyMap_GetKey k f empty_RMap = None"
  by (simp add: KeyMap_GetKey_def)

lemma RMap_Get_Ensure:
  "RMap_ok m \<Longrightarrow> RMap_Get n' (Node_Ensure n m) =
     (if n' = n \<and> RMap_Get n m = None then Some empty_RMap else RMap_Get n' m)"
  by (auto simp: Node_Ensure_def rmap.get_or_set rmap.get_put split: option.splits)

lemma RMap_ok_Ensure: "RMap_ok m \<Longrightarrow> RMap_ok (Node_Ensure n m)"
  by (simp add: Node_Ensure_def rmap.get_or_set_ok)

lemma NMap_ok_Ensure [keeps]: "NMap_ok m \<Longrightarrow> NMap_ok (Node_Ensure n m)"
  by (auto simp: NMap_ok_def RMap_ok_Ensure RMap_Get_Ensure split: if_splits)

lemma NGet_Ensure [simp]: "NMap_ok m \<Longrightarrow> NGet n' k f (Node_Ensure n m) = NGet n' k f m"
  by (auto simp: NGet_def NMap_ok_def RMap_Get_Ensure split: option.splits)

lemma NMap_ok_SetKey [keeps]: "NMap_ok m \<Longrightarrow> NMap_ok (Node_SetKey n k f v m)"
  by (auto simp: NMap_ok_def Node_SetKey_def KeyMap_ok_SetKey split: if_splits)

lemma NMap_ok_DeleteKey [keeps]: "NMap_ok m \<Longrightarrow> NMap_ok (Node_DeleteKey n k f m)"
  by (auto simp: NMap_ok_def Node_DeleteKey_def KeyMap_ok_DeleteKey split: if_splits)

lemma NMap_ok_Delete [keeps]: "NMap_ok m \<Longrightarrow> NMap_ok (snd (RMap_Delete n m))"
  by (auto simp: NMap_ok_def rmap.ok_del rmap.get_del split: if_splits)

lemma NMap_ok_empty [simp]: "NMap_ok empty_RMap"
  by (simp add: NMap_ok_def RMap_ok_def) (simp add: empty_RMap_def)

lemma NGet_SetKey:
  assumes "NMap_ok m" and "RMap_Get n m \<noteq> None"
  shows "NGet n' k' f' (Node_SetKey n k f v m) =
    (if n' = n \<and> k' = k \<and> f' = f then Some v else NGet n' k' f' m)"
  using assms
  by (auto simp: NGet_def Node_SetKey_def NMap_ok_def kmap.getk_setk split: option.splits)

lemma NGet_DeleteKey:
  assumes "NMap_ok m" and "NMap_fits n k m"
  shows "NGet n' k' f' (Node_DeleteKey n k f m) =
    (if n' = n \<and> k' = k \<and> f' = f then None else NGet n' k' f' m)"
  using assms
  by (auto simp: NGet_def Node_DeleteKey_def NMap_ok_def NMap_fits_def kmap.getk_delk
    split: option.splits)

text \<open>The tables are \<open>key_map\<close>s too, with the node as part of the key.\<close>

interpretation nmap: key_map "\<lambda>(n, k) f m. NGet n k f m" "\<lambda>(n, k) f v m. NSet n k f v m"
  "\<lambda>(n, k) f m. Node_DeleteKey n k f m" NMap_ok "\<lambda>(n, k) m. NMap_fits n k m"
proof
  show "(case a' of (n, k) \<Rightarrow> \<lambda>f m. NGet n k f m) b' ((case a of (n, k) \<Rightarrow> \<lambda>f v m. NSet n k f v m) b v m) =
      (if a' = a \<and> b' = b then Some v else (case a' of (n, k) \<Rightarrow> \<lambda>f m. NGet n k f m) b' m)"
    if ok: "NMap_ok m" for m :: "'v node_map" and a b a' b' v
  proof (cases a)
    case (Pair n k)
    have "RMap_Get n (Node_Ensure n m) \<noteq> None"
      using ok by (simp add: RMap_Get_Ensure NMap_ok_def)
    then show ?thesis
      using ok Pair NGet_SetKey [OF NMap_ok_Ensure [OF ok, of n]]
      by (cases a') (auto simp: NSet_def)
  qed
qed (auto simp: NGet_DeleteKey NSet_def keeps split: prod.splits)

end
