(* ===== verification/Registry.thy ===== *)
theory Registry
  imports Broker_State
begin

text \<open>
  The abstract registry of a cluster, three partial functions, and the proof that the operations
  of \<open>Broker_State\<close> implement its operations, whatever the iteration order of the maps; with what
  that gives: replicas agree, channel members are connected clients, a snapshot loses nothing.
\<close>

section \<open>The registry\<close>

record registry =
  users :: "u64 \<Rightarrow> gostring \<Rightarrow> gostring \<Rightarrow> gostring option"
  members :: "u64 \<Rightarrow> gostring \<Rightarrow> gostring \<Rightarrow> gostring option"
  joined :: "u64 \<Rightarrow> gostring \<Rightarrow> gostring \<Rightarrow> bool"

definition abs_broker :: "broker_state \<Rightarrow> registry" where
  "abs_broker b =
     \<lparr>users = (\<lambda>n uid cid. NGet n uid cid (userClients b)),
      members = (\<lambda>n ch cid. NGet n ch cid (channelClients b)),
      joined = (\<lambda>n cid ch. NGet n cid ch (clientChannels b) \<noteq> None)\<rparr>"

definition reg_opened :: "userOpenedOp \<Rightarrow> registry \<Rightarrow> registry" where
  "reg_opened op R =
     (let here = (\<lambda>n cid. n = opened_nodeID op \<and> cid = opened_cid op);
          chs = fst ` set (opened_channels op)
      in \<lparr>users = (\<lambda>n uid cid. if here n cid \<and> uid = opened_uid op then Some (opened_net op) else users R n uid cid),
          members = (\<lambda>n ch cid. if here n cid \<and> ch \<in> chs then Some (opened_net op) else members R n ch cid),
          joined = (\<lambda>n cid ch. here n cid \<and> ch \<in> chs \<or> joined R n cid ch)\<rparr>)"

text \<open>What the code does: of the client's channels it forgets only one named like the user.\<close>

definition reg_closed :: "userClosedOp \<Rightarrow> registry \<Rightarrow> registry" where
  "reg_closed op R =
     (let here = (\<lambda>n cid. n = closed_nodeID op \<and> cid = closed_cid op)
      in \<lparr>users = (\<lambda>n uid cid. if here n cid \<and> uid = closed_uid op then None else users R n uid cid),
          members = (\<lambda>n ch cid. if here n cid \<and> joined R n cid ch then None else members R n ch cid),
          joined = (\<lambda>n cid ch. joined R n cid ch \<and> \<not> (here n cid \<and> ch = closed_uid op))\<rparr>)"

definition reg_join :: "channelOp \<Rightarrow> registry \<Rightarrow> registry" where
  "reg_join op R =
     (let hit = (\<lambda>n ch cid. ch \<in> fst ` set (chan_channels op) \<and> users R n (chan_uid op) cid \<noteq> None)
      in R\<lparr>members := (\<lambda>n ch cid. if hit n ch cid then users R n (chan_uid op) cid else members R n ch cid),
           joined := (\<lambda>n cid ch. hit n ch cid \<or> joined R n cid ch)\<rparr>)"

definition reg_leave :: "channelOp \<Rightarrow> registry \<Rightarrow> registry" where
  "reg_leave op R =
     (let hit = (\<lambda>n ch cid. ch \<in> fst ` set (chan_channels op) \<and> users R n (chan_uid op) cid \<noteq> None)
      in R\<lparr>members := (\<lambda>n ch cid. if hit n ch cid then None else members R n ch cid),
           joined := (\<lambda>n cid ch. joined R n cid ch \<and> \<not> hit n ch cid)\<rparr>)"

definition reg_remove :: "u64 \<Rightarrow> registry \<Rightarrow> registry" where
  "reg_remove n R =
     \<lparr>users = (users R)(n := (\<lambda>_ _. None)), members = (members R)(n := (\<lambda>_ _. None)),
      joined = (joined R)(n := (\<lambda>_ _. False))\<rparr>"

section \<open>Single writes\<close>

definition broker_ok :: "broker_state \<Rightarrow> bool" where
  "broker_ok b \<longleftrightarrow> NMap_ok (userClients b) \<and> NMap_ok (channelClients b) \<and> NMap_ok (clientChannels b)"

text \<open>No inner map has \<open>2^32\<close> entries, where \<open>DeleteKey\<close> would take it for empty.\<close>

definition broker_fits :: "broker_state \<Rightarrow> bool" where
  "broker_fits b \<longleftrightarrow> (\<forall>n k. NMap_fits n k (userClients b) \<and> NMap_fits n k (channelClients b) \<and>
     NMap_fits n k (clientChannels b))"

definition has_node :: "u64 \<Rightarrow> broker_state \<Rightarrow> bool" where
  "has_node n b \<longleftrightarrow> RMap_Get n (channelClients b) \<noteq> None \<and> RMap_Get n (clientChannels b) \<noteq> None"

definition reg_add :: "u64 \<Rightarrow> gostring \<Rightarrow> gostring \<Rightarrow> gostring \<Rightarrow> registry \<Rightarrow> registry" where
  "reg_add n ch cid net R =
     R\<lparr>members := (\<lambda>n' ch' cid'. if n' = n \<and> ch' = ch \<and> cid' = cid then Some net else members R n' ch' cid'),
       joined := (\<lambda>n' cid' ch'. n' = n \<and> ch' = ch \<and> cid' = cid \<or> joined R n' cid' ch')\<rparr>"

definition reg_drop :: "u64 \<Rightarrow> gostring \<Rightarrow> gostring \<Rightarrow> registry \<Rightarrow> registry" where
  "reg_drop n ch cid R =
     R\<lparr>members := (\<lambda>n' ch' cid'. if n' = n \<and> ch' = ch \<and> cid' = cid then None else members R n' ch' cid'),
       joined := (\<lambda>n' cid' ch'. joined R n' cid' ch' \<and> \<not> (n' = n \<and> ch' = ch \<and> cid' = cid))\<rparr>"

lemma broker_ok_add [keeps]: "broker_ok b \<Longrightarrow> broker_ok (add_member n ch cid net b)"
  by (simp add: broker_ok_def add_member_def keeps)

lemma broker_ok_drop [keeps]: "broker_ok b \<Longrightarrow> broker_ok (drop_member n ch cid b)"
  by (simp add: broker_ok_def drop_member_def keeps)

lemma broker_ok_ensure [keeps]: "broker_ok b \<Longrightarrow> broker_ok (ensure_channels n b)"
  by (simp add: broker_ok_def ensure_channels_def keeps)

lemma has_node_ensure [simp]: "broker_ok b \<Longrightarrow> has_node n (ensure_channels n b)"
  by (simp add: has_node_def ensure_channels_def broker_ok_def NMap_ok_def RMap_Get_Ensure)

lemma has_node_add [simp]: "has_node n (add_member n' ch cid net b) = has_node n b"
  by (simp add: has_node_def add_member_def Node_SetKey_def)

lemma userClients_writes [simp]:
  "userClients (add_member n ch cid net b) = userClients b"
  "userClients (drop_member n ch cid b) = userClients b"
  "userClients (ensure_channels n b) = userClients b"
  by (simp_all add: add_member_def drop_member_def ensure_channels_def)

lemma abs_ensure [simp]: "broker_ok b \<Longrightarrow> abs_broker (ensure_channels n b) = abs_broker b"
  by (simp add: abs_broker_def ensure_channels_def broker_ok_def)

lemma abs_add: "broker_ok b \<Longrightarrow> has_node n b \<Longrightarrow>
    abs_broker (add_member n ch cid net b) = reg_add n ch cid net (abs_broker b)"
  by (auto simp: abs_broker_def add_member_def reg_add_def broker_ok_def has_node_def NGet_SetKey
    fun_eq_iff)

lemma fits_via_delete:
  assumes "NMap_ok m" and "\<forall>n k. NMap_fits n k m"
  shows "\<forall>n k. NMap_fits n k (Node_DeleteKey n' k' f m)"
proof (intro allI)
  fix n k
  show "NMap_fits n k (Node_DeleteKey n' k' f m)"
  proof (cases "n = n' \<and> RMap_Get n m \<noteq> None")
    case True
    then obtain km where km: "RMap_Get n m = Some km" by blast
    then have ok: "RMap_ok km" "\<And>a v. RMap_Get a km = Some v \<Longrightarrow> go_map v"
      using assms(1) by (auto simp: NMap_ok_def KeyMap_ok_iff inner_ok_def)
    have fits: "KeyMap_fits a km" for a using assms(2) [rule_format, of n a] km by (simp add: NMap_fits_def)
    have "length (snd (Map_Delete f v)) \<le> length v" if "go_map v" for v :: "(gostring, 'a) Map"
      using that by (simp add: length_Map_Delete)
    then have "KeyMap_fits k (KeyMap_DeleteKey k' f km)"
      using fits [of k] ok
      by (auto simp: KeyMap_fits_def RMap_Get_DeleteKey Let_def split: option.splits if_splits)
        (meson le_less_trans)
    with True km show ?thesis by (simp add: NMap_fits_def Node_DeleteKey_def)
  next
    case False
    then show ?thesis using assms(2) by (auto simp: NMap_fits_def Node_DeleteKey_def split: option.splits)
  qed
qed

lemma broker_fits_drop [keeps]:
  "broker_ok b \<Longrightarrow> broker_fits b \<Longrightarrow> broker_fits (drop_member n ch cid b)"
  using fits_via_delete [of "channelClients b" n ch cid] fits_via_delete [of "clientChannels b" n cid ch]
  by (simp add: broker_ok_def broker_fits_def drop_member_def)

lemma broker_fits_ensure [keeps]:
  "broker_ok b \<Longrightarrow> broker_fits b \<Longrightarrow> broker_fits (ensure_channels n b)"
  by (auto simp: broker_ok_def broker_fits_def ensure_channels_def NMap_fits_def NMap_ok_def
    RMap_Get_Ensure KeyMap_fits_def split: option.splits)

lemma abs_drop: "broker_ok b \<Longrightarrow> broker_fits b \<Longrightarrow>
    abs_broker (drop_member n ch cid b) = reg_drop n ch cid (abs_broker b)"
  by (auto simp: abs_broker_def drop_member_def reg_drop_def broker_ok_def broker_fits_def NGet_DeleteKey
    fun_eq_iff)

section \<open>Loops\<close>

text \<open>Every client of a user on every node, with every channel: what \<open>join\<close> and \<open>leave\<close> loop over.\<close>

definition user_pairs :: "gostring \<Rightarrow> 'v KeyMap \<Rightarrow> (gostring \<times> 'v) list" where
  "user_pairs uid uc = (case RMap_Get uid uc of Some v \<Rightarrow> v | None \<Rightarrow> [])"

lemma RangeKey_fold:
  "KeyMap_RangeKey uid (\<lambda>k v s. (True, g k v s)) uc s = fold (\<lambda>(k, v). g k v) (user_pairs uid uc) s"
  by (simp add: KeyMap_RangeKey_def user_pairs_def Map_Range_fold split: option.splits)

lemma abs_add_channels:
  assumes "broker_ok b" and "has_node n b"
  shows "broker_ok (fold (\<lambda>(ch, _). add_member n ch cid net) chs b) \<and>
    has_node n (fold (\<lambda>(ch, _). add_member n ch cid net) chs b) \<and>
    userClients (fold (\<lambda>(ch, _). add_member n ch cid net) chs b) = userClients b \<and>
    abs_broker (fold (\<lambda>(ch, _). add_member n ch cid net) chs b) =
      fold (\<lambda>z. reg_add n (fst z) cid net) chs (abs_broker b)"
  using assms
proof (induction chs arbitrary: b)
  case (Cons a chs)
  then show ?case
    using Cons.IH [of "add_member n (fst a) cid net b"] by (auto simp: broker_ok_add abs_add split_beta)
qed simp

lemma abs_drop_channels:
  assumes "broker_ok b" and "broker_fits b"
  shows "broker_ok (fold (\<lambda>(ch, _). drop_member n ch cid) chs b) \<and>
    broker_fits (fold (\<lambda>(ch, _). drop_member n ch cid) chs b) \<and>
    userClients (fold (\<lambda>(ch, _). drop_member n ch cid) chs b) = userClients b \<and>
    abs_broker (fold (\<lambda>(ch, _). drop_member n ch cid) chs b) =
      fold (\<lambda>z. reg_drop n (fst z) cid) chs (abs_broker b)"
  using assms
proof (induction chs arbitrary: b)
  case (Cons a chs)
  then show ?case
    using Cons.IH [of "drop_member n (fst a) cid b"]
    by (auto simp: broker_ok_drop broker_fits_drop abs_drop split_beta)
qed simp

text \<open>A loop refines the loop of its body's specification.\<close>

lemma fold_refines:
  assumes "\<And>x s. x \<in> set xs \<Longrightarrow> P s \<Longrightarrow> P (f x s) \<and> A (f x s) = g x (A s)" and "P s"
  shows "P (fold f xs s) \<and> A (fold f xs s) = fold g xs (A s)"
  using assms by (induction xs arbitrary: s) auto

lemma abs_join_loop:
  assumes "broker_ok b"
  shows "broker_ok (broker_joinChannel op b) \<and> userClients (broker_joinChannel op b) = userClients b \<and>
    abs_broker (broker_joinChannel op b) =
      fold (\<lambda>x. fold (\<lambda>y. fold (\<lambda>z. reg_add (fst x) (fst z) (fst y) (snd y)) (chan_channels op))
        (user_pairs (chan_uid op) (snd x))) (rmap_m (userClients b)) (abs_broker b)"
proof -
  let ?P = "\<lambda>s. broker_ok s \<and> userClients s = userClients b"
  let ?f = "\<lambda>n y. fold (\<lambda>(ch, _). add_member n ch (fst y) (snd y)) (chan_channels op)"
  let ?g = "\<lambda>n y. fold (\<lambda>z. reg_add n (fst z) (fst y) (snd y)) (chan_channels op)"
  let ?F = "\<lambda>x s. fold (?f (fst x)) (user_pairs (chan_uid op) (snd x)) (ensure_channels (fst x) s)"
  let ?G = "\<lambda>x. fold (?g (fst x)) (user_pairs (chan_uid op) (snd x))"
  have inner: "(?P (fold (?f n) ps s) \<and> has_node n (fold (?f n) ps s)) \<and>
      abs_broker (fold (?f n) ps s) = fold (?g n) ps (abs_broker s)"
    if "?P s \<and> has_node n s" for n ps s
    using that
    by (rule fold_refines [where P = "\<lambda>s. ?P s \<and> has_node n s" and f = "?f n" and g = "?g n", rotated])
      (auto dest: abs_add_channels [where chs = "chan_channels op"] simp: split_beta)
  have "?P (fold ?F (rmap_m (userClients b)) b) \<and>
      abs_broker (fold ?F (rmap_m (userClients b)) b) = fold ?G (rmap_m (userClients b)) (abs_broker b)"
  proof (rule fold_refines)
    fix x s assume "?P s"
    then show "?P (?F x s) \<and> abs_broker (?F x s) = ?G x (abs_broker s)"
      using inner [of "ensure_channels (fst x) s" "fst x"] by (simp add: broker_ok_ensure)
  qed (use assms in simp)
  moreover have "broker_joinChannel op b = fold ?F (rmap_m (userClients b)) b"
    by (simp add: broker_joinChannel_def RMap_Range_def Map_Range_fold RangeKey_fold split_beta')
  ultimately show ?thesis by simp
qed

lemma abs_leave_loop:
  assumes "broker_ok b" and "broker_fits b"
  shows "broker_ok (broker_leaveChannel op b) \<and> userClients (broker_leaveChannel op b) = userClients b \<and>
    abs_broker (broker_leaveChannel op b) =
      fold (\<lambda>x. fold (\<lambda>y. fold (\<lambda>z. reg_drop (fst x) (fst z) (fst y)) (chan_channels op))
        (user_pairs (chan_uid op) (snd x))) (rmap_m (userClients b)) (abs_broker b)"
proof -
  let ?P = "\<lambda>s. broker_ok s \<and> broker_fits s \<and> userClients s = userClients b"
  let ?f = "\<lambda>n y. fold (\<lambda>(ch, _). drop_member n ch (fst y)) (chan_channels op)"
  let ?g = "\<lambda>n y. fold (\<lambda>z. reg_drop n (fst z) (fst y)) (chan_channels op)"
  let ?F = "\<lambda>x s. fold (?f (fst x)) (user_pairs (chan_uid op) (snd x)) (ensure_channels (fst x) s)"
  let ?G = "\<lambda>x. fold (?g (fst x)) (user_pairs (chan_uid op) (snd x))"
  have inner: "?P (fold (?f n) ps s) \<and> abs_broker (fold (?f n) ps s) = fold (?g n) ps (abs_broker s)"
    if "?P s" for n ps s
    using that
    by (rule fold_refines [where P = ?P and f = "?f n" and g = "?g n", rotated])
      (auto dest: abs_drop_channels [where chs = "chan_channels op"] simp: split_beta)
  have "?P (fold ?F (rmap_m (userClients b)) b) \<and>
      abs_broker (fold ?F (rmap_m (userClients b)) b) = fold ?G (rmap_m (userClients b)) (abs_broker b)"
  proof (rule fold_refines)
    fix x s assume "?P s"
    then show "?P (?F x s) \<and> abs_broker (?F x s) = ?G x (abs_broker s)"
      using inner [of "ensure_channels (fst x) s" "fst x"] by (simp add: broker_ok_ensure broker_fits_ensure)
  qed (use assms in simp)
  moreover have "broker_leaveChannel op b = fold ?F (rmap_m (userClients b)) b"
    by (simp add: broker_leaveChannel_def RMap_Range_def Map_Range_fold RangeKey_fold split_beta')
  ultimately show ?thesis by simp
qed

section \<open>What the loops compute\<close>

text \<open>The nested loops are one loop over the flat list of their writes.\<close>

definition writes :: "channelOp \<Rightarrow> (u64 \<times> gostring KeyMap) list \<Rightarrow> (u64 \<times> gostring \<times> gostring \<times> gostring) list" where
  "writes op ns = concat (map (\<lambda>x. concat (map (\<lambda>y. map (\<lambda>z. (fst x, fst z, fst y, snd y)) (chan_channels op))
     (user_pairs (chan_uid op) (snd x)))) ns)"

lemma fold_concat_map: "fold f (concat (map h xs)) = fold (\<lambda>x. fold f (h x)) xs"
  by (induction xs) auto

lemma fold_map_arg: "fold f (map h xs) = fold (\<lambda>x. f (h x)) xs"
  by (induction xs) auto

lemma fold_writes:
  "fold (\<lambda>x. fold (\<lambda>y. fold (\<lambda>z. F (fst x) (fst z) (fst y) (snd y)) (chan_channels op))
     (user_pairs (chan_uid op) (snd x))) ns R =
   fold (\<lambda>(n, ch, cid, net). F n ch cid net) (writes op ns) R"
  by (simp add: writes_def fold_concat_map fold_map_arg split_beta)

lemma in_writes:
  assumes "NMap_ok m"
  shows "(n, ch, cid, net) \<in> set (writes op (rmap_m m)) \<longleftrightarrow>
    ch \<in> fst ` set (chan_channels op) \<and> NGet n (chan_uid op) cid m = Some net"
proof -
  have get: "(n, uc) \<in> set (rmap_m m) \<longleftrightarrow> RMap_Get n m = Some uc" for n uc
    using assms by (simp add: NMap_ok_def RMap_ok_def RMap_Get_def go_map_def)
  have "(cid, net) \<in> set (user_pairs (chan_uid op) uc) \<longleftrightarrow> KeyMap_GetKey (chan_uid op) cid uc = Some net"
    if "RMap_Get n m = Some uc" for uc
  proof (cases "RMap_Get (chan_uid op) uc")
    case (Some v)
    then have "go_map v"
      using assms that unfolding NMap_ok_def KeyMap_ok_iff inner_ok_def by blast
    with Some show ?thesis by (simp add: user_pairs_def GetKey_eq go_map_def)
  qed (simp add: user_pairs_def GetKey_eq)
  note pairs = this
  have "(n, ch, cid, net) \<in> set (writes op (rmap_m m)) \<longleftrightarrow> (\<exists>uc. RMap_Get n m = Some uc \<and>
      (cid, net) \<in> set (user_pairs (chan_uid op) uc) \<and> ch \<in> fst ` set (chan_channels op))"
    unfolding get [symmetric] writes_def by (auto simp: image_iff) (metis fst_conv snd_conv)+
  then show ?thesis using pairs by (auto simp: NGet_def split: option.splits)
qed

lemma fold_reg_add:
  assumes "\<forall>(n, ch, cid, net) \<in> set W. net = f n cid"
  shows "members (fold (\<lambda>(n, ch, cid, net). reg_add n ch cid net) W R) n ch cid =
      (if (n, ch, cid, f n cid) \<in> set W then Some (f n cid) else members R n ch cid) \<and>
    joined (fold (\<lambda>(n, ch, cid, net). reg_add n ch cid net) W R) n cid ch =
      ((n, ch, cid, f n cid) \<in> set W \<or> joined R n cid ch) \<and>
    users (fold (\<lambda>(n, ch, cid, net). reg_add n ch cid net) W R) = users R"
  using assms
proof (induction W arbitrary: R)
  case (Cons w W)
  obtain n' ch' cid' net' where w: "w = (n', ch', cid', net')" by (cases w)
  then have "net' = f n' cid'" and W: "\<forall>(n, ch, cid, net) \<in> set W. net = f n cid"
    using Cons.prems by auto
  with Cons.IH [OF W, of "reg_add n' ch' cid' net' R"] show ?case by (auto simp: w reg_add_def)
qed simp

lemma fold_reg_drop:
  "members (fold (\<lambda>(n, ch, cid, net). reg_drop n ch cid) W R) n ch cid =
      (if \<exists>net. (n, ch, cid, net) \<in> set W then None else members R n ch cid) \<and>
    joined (fold (\<lambda>(n, ch, cid, net). reg_drop n ch cid) W R) n cid ch =
      (joined R n cid ch \<and> \<not> (\<exists>net. (n, ch, cid, net) \<in> set W)) \<and>
    users (fold (\<lambda>(n, ch, cid, net). reg_drop n ch cid) W R) = users R"
proof (induction W arbitrary: R)
  case (Cons w W)
  obtain n' ch' cid' net' where w: "w = (n', ch', cid', net')" by (cases w)
  with Cons.IH [of "reg_drop n' ch' cid' R"] show ?case
    by (auto simp: reg_drop_def)
qed simp

lemma registry_eqI:
  "(\<And>n a b. users R n a b = users S n a b) \<Longrightarrow> (\<And>n a b. members R n a b = members S n a b) \<Longrightarrow>
   (\<And>n a b. joined R n a b = joined S n a b) \<Longrightarrow> R = (S :: registry)"
  by (cases R; cases S) (auto simp: fun_eq_iff)

section \<open>Refinement of each operation\<close>

lemma abs_fields [simp]:
  "users (abs_broker b) n uid cid = NGet n uid cid (userClients b)"
  "members (abs_broker b) n ch cid = NGet n ch cid (channelClients b)"
  "joined (abs_broker b) n cid ch = (NGet n cid ch (clientChannels b) \<noteq> None)"
  by (simp_all add: abs_broker_def)

lemma abs_join: "broker_ok b \<Longrightarrow> abs_broker (broker_joinChannel op b) = reg_join op (abs_broker b)"
proof -
  assume ok: "broker_ok b"
  let ?W = "writes op (rmap_m (userClients b))" and ?R = "abs_broker b"
  let ?f = "\<lambda>n cid. the (NGet n (chan_uid op) cid (userClients b))"
  note W = in_writes [of "userClients b" _ _ _ _ op]
  have uc: "NMap_ok (userClients b)" using ok by (simp add: broker_ok_def)
  have "abs_broker (broker_joinChannel op b) = fold (\<lambda>(n, ch, cid, net). reg_add n ch cid net) ?W ?R"
    using abs_join_loop [OF ok] fold_writes [of reg_add] by simp
  moreover have f: "\<forall>(n, ch, cid, net) \<in> set ?W. net = ?f n cid"
    using W [OF uc] by auto
  have "members (fold (\<lambda>(n, ch, cid, net). reg_add n ch cid net) ?W ?R) n ch cid =
      members (reg_join op ?R) n ch cid \<and>
    joined (fold (\<lambda>(n, ch, cid, net). reg_add n ch cid net) ?W ?R) n cid ch =
      joined (reg_join op ?R) n cid ch \<and>
    users (fold (\<lambda>(n, ch, cid, net). reg_add n ch cid net) ?W ?R) n uid cid =
      users (reg_join op ?R) n uid cid" for n ch cid uid
    using fold_reg_add [of ?W ?f ?R n ch cid] f W [OF uc, of n ch cid]
    by (auto simp: reg_join_def Let_def)
  ultimately show ?thesis by (auto intro!: registry_eqI)
qed

lemma abs_leave:
  "broker_ok b \<Longrightarrow> broker_fits b \<Longrightarrow>
    abs_broker (broker_leaveChannel op b) = reg_leave op (abs_broker b)"
proof -
  assume ok: "broker_ok b" and fits: "broker_fits b"
  let ?W = "writes op (rmap_m (userClients b))" and ?R = "abs_broker b"
  have uc: "NMap_ok (userClients b)" using ok by (simp add: broker_ok_def)
  have "abs_broker (broker_leaveChannel op b) = fold (\<lambda>(n, ch, cid, net). reg_drop n ch cid) ?W ?R"
    using abs_leave_loop [OF ok fits] fold_writes [of "\<lambda>n ch cid _. reg_drop n ch cid"] by simp
  moreover have "members (fold (\<lambda>(n, ch, cid, net). reg_drop n ch cid) ?W ?R) n ch cid =
      members (reg_leave op ?R) n ch cid \<and>
    joined (fold (\<lambda>(n, ch, cid, net). reg_drop n ch cid) ?W ?R) n cid ch =
      joined (reg_leave op ?R) n cid ch \<and>
    users (fold (\<lambda>(n, ch, cid, net). reg_drop n ch cid) ?W ?R) n uid cid =
      users (reg_leave op ?R) n uid cid" for n ch cid uid
    using fold_reg_drop [of ?W ?R n ch cid] in_writes [OF uc, of n ch cid]
    by (auto simp: reg_leave_def Let_def)
  ultimately show ?thesis by (auto intro!: registry_eqI)
qed

lemma fold_reg_add_client:
  "users (fold (\<lambda>z. reg_add n (fst z) cid net) chs R) = users R \<and>
   members (fold (\<lambda>z. reg_add n (fst z) cid net) chs R) n' ch' cid' =
     (if n' = n \<and> cid' = cid \<and> ch' \<in> fst ` set chs then Some net else members R n' ch' cid') \<and>
   joined (fold (\<lambda>z. reg_add n (fst z) cid net) chs R) n' cid' ch' =
     (n' = n \<and> cid' = cid \<and> ch' \<in> fst ` set chs \<or> joined R n' cid' ch')"
  by (induction chs arbitrary: R) (auto simp: reg_add_def)

lemma abs_opened:
  assumes "broker_ok b"
  shows "broker_ok (broker_userOpened op b) \<and>
    abs_broker (broker_userOpened op b) = reg_opened op (abs_broker b)"
proof -
  let ?n = "opened_nodeID op"
  define b1 where "b1 = ensure_channels ?n (b\<lparr>userClients := Node_Ensure ?n (userClients b)\<rparr>)"
  define b2 where "b2 = b1\<lparr>userClients := Node_SetKey ?n (opened_uid op) (opened_cid op) (opened_net op) (userClients b1)\<rparr>"
  have uc: "userClients b1 = Node_Ensure ?n (userClients b)" by (simp add: b1_def)
  have ok0: "broker_ok (b\<lparr>userClients := Node_Ensure ?n (userClients b)\<rparr>)"
    using assms by (simp add: broker_ok_def keeps)
  then have ok1: "broker_ok b1" "has_node ?n b1" by (simp_all add: b1_def keeps)
  then have ok2: "broker_ok b2" "has_node ?n b2"
    by (simp_all add: b2_def broker_ok_def has_node_def keeps)
  have present: "RMap_Get ?n (userClients b1) \<noteq> None"
    using assms by (simp add: uc RMap_Get_Ensure broker_ok_def NMap_ok_def)
  have abs2: "users (abs_broker b2) n uid cid =
      (if n = ?n \<and> uid = opened_uid op \<and> cid = opened_cid op then Some (opened_net op)
       else users (abs_broker b) n uid cid)"
    "members (abs_broker b2) = members (abs_broker b)" "joined (abs_broker b2) = joined (abs_broker b)"
    for n uid cid
    using NGet_SetKey [OF _ present] ok1 assms
    by (auto simp: abs_broker_def b2_def broker_ok_def uc b1_def ensure_channels_def)
  have "broker_userOpened op b =
      fold (\<lambda>(ch, _). add_member ?n ch (opened_cid op) (opened_net op)) (opened_channels op) b2"
    by (simp add: broker_userOpened_def b2_def b1_def Let_def)
  with abs_add_channels [OF ok2, of "opened_cid op" "opened_net op" "opened_channels op"]
    fold_reg_add_client [of ?n "opened_cid op" "opened_net op" "opened_channels op" "abs_broker b2"]
    abs2 show ?thesis
    by (auto simp: reg_opened_def Let_def intro!: registry_eqI)
qed

lemma fold_channel_updates:
  "fold (\<lambda>z s. s\<lparr>channelClients := h z (channelClients s)\<rparr>) chs b =
     b\<lparr>channelClients := fold h chs (channelClients b)\<rparr>"
  by (induction chs arbitrary: b) simp_all

lemma fold_delete_keys:
  assumes "NMap_ok m" and "\<forall>n k. NMap_fits n k m"
  shows "NMap_ok (fold (\<lambda>z. Node_DeleteKey n (fst z) cid) chs m) \<and>
    NGet n' ch' c' (fold (\<lambda>z. Node_DeleteKey n (fst z) cid) chs m) =
      (if n' = n \<and> c' = cid \<and> ch' \<in> fst ` set chs then None else NGet n' ch' c' m)"
  using assms
proof (induction chs arbitrary: m)
  case (Cons a chs)
  have "NMap_ok (Node_DeleteKey n (fst a) cid m)" "\<forall>n' k. NMap_fits n' k (Node_DeleteKey n (fst a) cid m)"
    using Cons.prems fits_via_delete by (simp_all add: keeps)
  from Cons.IH [OF this] NGet_DeleteKey [OF Cons.prems(1), of n "fst a" n' ch' c' cid] Cons.prems(2)
  show ?case by auto
qed simp

lemma keys_of_joined:
  assumes "NMap_ok m" and "RMap_Get n m = Some km"
  shows "ch \<in> fst ` set (user_pairs cid km) \<longleftrightarrow> NGet n cid ch m \<noteq> None"
proof (cases "RMap_Get cid km")
  case (Some v)
  then show ?thesis
    using assms by (auto simp: user_pairs_def NGet_def GetKey_eq map_of_eq_None_iff image_iff)
qed (use assms in \<open>simp add: user_pairs_def NGet_def GetKey_eq\<close>)

lemma NGet_absent: "RMap_Get n m = None \<Longrightarrow> NGet n a b m = None"
  by (simp add: NGet_def)

lemma abs_closed:
  assumes ok: "broker_ok b" and fits: "broker_fits b"
  shows "broker_ok (broker_userClosed op b) \<and>
    abs_broker (broker_userClosed op b) = reg_closed op (abs_broker b)"
proof -
  let ?n = "closed_nodeID op" and ?uid = "closed_uid op" and ?cid = "closed_cid op"
  have oks: "NMap_ok (userClients b)" "NMap_ok (channelClients b)" "NMap_ok (clientChannels b)"
    using ok by (simp_all add: broker_ok_def)
  have fitss: "NMap_fits n k (userClients b)" "\<forall>n k. NMap_fits n k (channelClients b)"
    "NMap_fits n k (clientChannels b)" for n k
    using fits by (simp_all add: broker_fits_def)
  define b1 where "b1 = (case RMap_Get ?n (userClients b) of
      Some _ \<Rightarrow> b\<lparr>userClients := Node_DeleteKey ?n ?uid ?cid (userClients b)\<rparr> | None \<Rightarrow> b)"
  have b1: "channelClients b1 = channelClients b" "clientChannels b1 = clientChannels b"
    "NMap_ok (userClients b1)"
    "NGet n u c (userClients b1) = (if n = ?n \<and> u = ?uid \<and> c = ?cid then None else NGet n u c (userClients b))"
    for n u c
    using oks NGet_DeleteKey [OF oks(1) fitss(1)] NGet_absent
    by (auto simp: b1_def keeps split: option.splits)
  show ?thesis
  proof (cases "RMap_Get ?n (clientChannels b)")
    case None
    then have "broker_userClosed op b = b1"
      using b1 by (simp add: broker_userClosed_def b1_def [symmetric] Let_def)
    then show ?thesis
      using b1 oks NGet_absent [OF None]
      by (auto simp: broker_ok_def reg_closed_def Let_def intro!: registry_eqI)
  next
    case (Some channels)
    let ?cc = "fold (\<lambda>z. Node_DeleteKey ?n (fst z) ?cid) (user_pairs ?cid channels) (channelClients b)"
    define cc' where "cc' = (if RMap_Get ?n (channelClients b) = None then channelClients b else ?cc)"
    have eq: "broker_userClosed op b = b1\<lparr>channelClients := cc',
        clientChannels := Node_DeleteKey ?n ?cid ?uid (clientChannels b)\<rparr>"
      using b1 Some
        fold_channel_updates [of "\<lambda>z. Node_DeleteKey ?n (fst z) ?cid" "user_pairs ?cid channels" b1]
      by (auto simp: broker_userClosed_def b1_def [symmetric] Let_def RangeKey_fold split_beta' cc'_def
        split: option.splits)
    have cc: "NMap_ok cc'" "NGet n ch c cc' =
        (if n = ?n \<and> c = ?cid \<and> NGet ?n ?cid ch (clientChannels b) \<noteq> None then None
         else NGet n ch c (channelClients b))" for n ch c
      using fold_delete_keys [OF oks(2) fitss(2), of ?n ?cid "user_pairs ?cid channels" n ch c] oks(2)
        keys_of_joined [OF oks(3) Some, of ch ?cid] NGet_absent [of ?n "channelClients b"]
      by (auto simp: cc'_def)
    show ?thesis
      using b1 oks cc NGet_DeleteKey [OF oks(3) fitss(3)]
      by (auto simp: eq broker_ok_def reg_closed_def Let_def keeps intro!: registry_eqI split: if_splits)
  qed
qed

lemma abs_remove:
  "broker_ok b \<Longrightarrow> broker_ok (broker_removeNode n b) \<and>
     abs_broker (broker_removeNode n b) = reg_remove n (abs_broker b)"
  by (auto simp: broker_ok_def broker_removeNode_def keeps reg_remove_def NGet_def NMap_ok_def
    rmap.get_del rmap.ok_del intro!: registry_eqI split: if_splits)

section \<open>Sequences of operations\<close>

datatype broker_op =
  OpUserOpened userOpenedOp | OpUserClosed userClosedOp | OpJoinChannel channelOp
| OpLeaveChannel channelOp | OpRemoveNode u64

fun broker_apply :: "broker_op \<Rightarrow> broker_state \<Rightarrow> broker_state" where
  "broker_apply (OpUserOpened op) b = broker_userOpened op b"
| "broker_apply (OpUserClosed op) b = broker_userClosed op b"
| "broker_apply (OpJoinChannel op) b = broker_joinChannel op b"
| "broker_apply (OpLeaveChannel op) b = broker_leaveChannel op b"
| "broker_apply (OpRemoveNode n) b = broker_removeNode n b"

fun reg_apply :: "broker_op \<Rightarrow> registry \<Rightarrow> registry" where
  "reg_apply (OpUserOpened op) R = reg_opened op R"
| "reg_apply (OpUserClosed op) R = reg_closed op R"
| "reg_apply (OpJoinChannel op) R = reg_join op R"
| "reg_apply (OpLeaveChannel op) R = reg_leave op R"
| "reg_apply (OpRemoveNode n) R = reg_remove n R"

definition broker_run :: "broker_op list \<Rightarrow> broker_state \<Rightarrow> broker_state" where
  "broker_run ops b = fold broker_apply ops b"

definition run_fits :: "broker_op list \<Rightarrow> broker_state \<Rightarrow> bool" where
  "run_fits ops b \<longleftrightarrow> (\<forall>k < length ops. broker_fits (broker_run (take k ops) b))"

lemma run_fits_Cons: "run_fits (op # ops) b \<longleftrightarrow> broker_fits b \<and> run_fits ops (broker_apply op b)"
proof -
  have "(\<forall>k < Suc (length ops). broker_fits (broker_run (take k (op # ops)) b)) \<longleftrightarrow>
      broker_fits b \<and> (\<forall>k < length ops. broker_fits (broker_run (take k ops) (broker_apply op b)))"
    by (simp only: All_less_Suc2) (simp add: broker_run_def)
  then show ?thesis by (simp add: run_fits_def)
qed

lemma broker_apply_refines:
  "broker_ok b \<Longrightarrow> broker_fits b \<Longrightarrow>
     broker_ok (broker_apply op b) \<and> abs_broker (broker_apply op b) = reg_apply op (abs_broker b)"
  by (cases op) (simp_all add: abs_opened abs_closed abs_join abs_leave abs_remove abs_join_loop abs_leave_loop)

lemma broker_run_refines:
  "broker_ok b \<Longrightarrow> run_fits ops b \<Longrightarrow>
     broker_ok (broker_run ops b) \<and> abs_broker (broker_run ops b) = fold reg_apply ops (abs_broker b)"
proof (induction ops arbitrary: b)
  case (Cons op ops)
  then show ?case
    using broker_apply_refines [of b op] by (simp add: run_fits_Cons broker_run_def)
qed (simp add: broker_run_def)

lemma broker_ok_empty [simp]: "broker_ok empty_broker"
  by (simp add: broker_ok_def empty_broker_def)

text \<open>Channel members are clients that are connected and know of their membership.\<close>

definition reg_inv :: "registry \<Rightarrow> bool" where
  "reg_inv R \<longleftrightarrow> (\<forall>n ch cid. members R n ch cid \<noteq> None \<longrightarrow>
     joined R n cid ch \<and> (\<exists>uid. users R n uid cid \<noteq> None))"

lemma reg_invD:
  "reg_inv R \<Longrightarrow> members R n ch cid \<noteq> None \<Longrightarrow>
     joined R n cid ch \<and> (\<exists>uid. users R n uid cid \<noteq> None)"
  by (simp add: reg_inv_def)

lemma reg_inv_apply: "reg_inv R \<Longrightarrow> reg_inv (reg_apply op R)"
proof (cases op)
  case (OpUserOpened o')
  moreover assume "reg_inv R"
  ultimately show ?thesis by (auto simp: reg_inv_def reg_opened_def Let_def) blast+
next
  case (OpUserClosed o')
  assume inv: "reg_inv R"
  have "reg_inv (reg_closed o' R)"
    unfolding reg_inv_def
  proof (intro allI impI)
    fix n ch cid assume "members (reg_closed o' R) n ch cid \<noteq> None"
    then have m: "members R n ch cid \<noteq> None"
      and away: "\<not> (n = closed_nodeID o' \<and> cid = closed_cid o' \<and> joined R n cid ch)"
      by (auto simp: reg_closed_def Let_def split: if_splits)
    have "joined R n cid ch" "\<exists>uid. users R n uid cid \<noteq> None"
      using inv m by (auto simp: reg_inv_def)
    with away show "joined (reg_closed o' R) n cid ch \<and> (\<exists>uid. users (reg_closed o' R) n uid cid \<noteq> None)"
      by (auto simp: reg_closed_def Let_def)
  qed
  then show ?thesis by (simp add: OpUserClosed)
next
  case (OpJoinChannel o')
  moreover assume "reg_inv R"
  ultimately show ?thesis by (auto simp: reg_inv_def reg_join_def Let_def)
next
  case (OpLeaveChannel o')
  moreover assume "reg_inv R"
  ultimately show ?thesis by (auto simp: reg_inv_def reg_leave_def Let_def)
next
  case (OpRemoveNode n)
  moreover assume "reg_inv R"
  ultimately show ?thesis by (auto simp: reg_inv_def reg_remove_def)
qed

lemma reg_inv_run: "reg_inv R \<Longrightarrow> reg_inv (fold reg_apply ops R)"
  by (induction ops arbitrary: R) (auto intro: reg_inv_apply)

lemma reg_inv_empty: "reg_inv (abs_broker empty_broker)"
  by (simp add: reg_inv_def empty_broker_def NGet_def)

section \<open>Snapshots\<close>

text \<open>A fold of insertions with fresh keys rebuilds the list.\<close>

lemma fold_updates_fresh:
  "distinct (map fst ys) \<Longrightarrow> fst ` set ys \<inter> fst ` set acc = {} \<Longrightarrow>
     fold (\<lambda>(k, v). AList.update k v) ys acc = acc @ ys"
proof (induction ys arbitrary: acc)
  case (Cons y ys)
  obtain k v where y: "y = (k, v)" by (cases y)
  then have "AList.update k v acc = acc @ [(k, v)]" using Cons.prems by (intro update_fresh) auto
  then show ?case using Cons.IH [of "acc @ [(k, v)]"] Cons.prems y by (auto simp: disjoint_iff)
qed simp

definition plain_table :: "(u64 \<times> 'v KeyMap) list \<Rightarrow> 'v node_tree" where
  "plain_table ns = map (\<lambda>(n, k). (n, rmap_m k)) ns"

lemma snap_table_step:
  assumes "go_map (rmap_m k)" and "n \<notin> fst ` set acc"
  shows "(let ucmap = (case map_of acc n of Some x \<Rightarrow> x | None \<Rightarrow> []);
       ucmap' = KeyMap_Range (\<lambda>key inner t. (True, AList.update key (Map_Load inner) t)) k ucmap
     in AList.update n ucmap' acc) = acc @ [(n, rmap_m k)]"
proof -
  have "map_of acc n = None" using assms(2) by (simp add: map_of_eq_None_iff)
  moreover have "fold (\<lambda>(key, inner). AList.update key inner) (rmap_m k) [] = rmap_m k"
    using fold_updates_fresh [of "rmap_m k" "[]"] assms(1) by (simp add: go_map_def)
  ultimately show ?thesis
    using update_fresh [OF assms(2)]
    by (simp add: KeyMap_Range_def RMap_Range_def Map_Range_fold Map_Load_def)
qed

lemma snap_table_plain:
  assumes "NMap_ok m"
  shows "snap_table m = plain_table (rmap_m m)"
proof -
  let ?g = "\<lambda>n v acc. let ucmap = (case map_of acc n of Some x \<Rightarrow> x | None \<Rightarrow> []);
       ucmap' = KeyMap_Range (\<lambda>key inner t. (True, AList.update key (Map_Load inner) t)) v ucmap
     in AList.update n ucmap' acc"
  have inner: "go_map (rmap_m k)" if "(n, k) \<in> set (rmap_m m)" for n k
  proof -
    have "RMap_Get n m = Some k"
      using assms that by (simp add: NMap_ok_def RMap_ok_def go_map_def RMap_Get_def)
    then show ?thesis using assms by (auto simp: NMap_ok_def KeyMap_ok_def RMap_ok_def)
  qed
  have loop: "fold (\<lambda>(n, v). ?g n v) ns acc = acc @ plain_table ns"
    if "distinct (map fst ns)" "fst ` set ns \<inter> fst ` set acc = {}"
      "\<forall>(n, k) \<in> set ns. go_map (rmap_m k)" for ns acc
    using that
  proof (induction ns arbitrary: acc)
    case (Cons a ns)
    obtain n k where a: "a = (n, k)" by (cases a)
    have "?g n k acc = acc @ [(n, rmap_m k)]"
      using Cons.prems a by (intro snap_table_step) auto
    then show ?case
      using Cons.IH [of "acc @ [(n, rmap_m k)]"] Cons.prems a by (auto simp: plain_table_def disjoint_iff)
  qed (simp add: plain_table_def)
  have "snap_table m = fold (\<lambda>(n, v). ?g n v) (rmap_m m) []"
    unfolding snap_table_def RMap_Range_def Map_Range_fold [symmetric] by (simp add: Let_def)
  with loop [of "rmap_m m" "[]"] inner assms show ?thesis
    by (auto simp: NMap_ok_def RMap_ok_def go_map_def)
qed

lemma map_entry_last:
  "n \<notin> fst ` set xs \<Longrightarrow> AList.map_entry n f (xs @ [(n, v)]) = xs @ [(n, f v)]"
  by (induction xs) auto

lemma KeyMap_Set_fresh:
  "key \<notin> fst ` set (rmap_m k) \<Longrightarrow>
     KeyMap_Set key v k = \<lparr>rmap_m = rmap_m k @ [(key, v)], rmap_l = rmap_l k + 1\<rparr>"
  by (simp add: KeyMap_Set_def RMap_Set_def Let_def update_fresh map_of_eq_None_iff [symmetric])

lemma recover_inner:
  assumes "n \<notin> fst ` set xs" and "distinct (map fst (ys @ us))"
  shows "foldl (\<lambda>m' (key, inner). RMap_via n (KeyMap_Set key (NewMap [inner])) m')
      \<lparr>rmap_m = xs @ [(n, \<lparr>rmap_m = ys, rmap_l = of_nat (length ys)\<rparr>)], rmap_l = l\<rparr> us =
    \<lparr>rmap_m = xs @ [(n, \<lparr>rmap_m = ys @ us, rmap_l = of_nat (length (ys @ us))\<rparr>)], rmap_l = l\<rparr>"
  using assms(2)
proof (induction us arbitrary: ys)
  case (Cons u us)
  obtain key v where u: "u = (key, v)" by (cases u)
  have "key \<notin> fst ` set ys" using Cons.prems u by auto
  then have "RMap_via n (KeyMap_Set key (NewMap [v]))
      \<lparr>rmap_m = xs @ [(n, \<lparr>rmap_m = ys, rmap_l = of_nat (length ys)\<rparr>)], rmap_l = l\<rparr> =
    \<lparr>rmap_m = xs @ [(n, \<lparr>rmap_m = ys @ [u], rmap_l = of_nat (length (ys @ [u]))\<rparr>)], rmap_l = l\<rparr>"
    using assms(1) by (simp add: RMap_via_def map_entry_last KeyMap_Set_fresh NewMap_def u add.commute)
  then show ?case using Cons.IH [of "ys @ [u]"] Cons.prems u by simp
qed simp

lemma Node_Ensure_fresh:
  "n \<notin> fst ` set (rmap_m m) \<Longrightarrow> Node_Ensure n m =
     \<lparr>rmap_m = rmap_m m @ [(n, \<lparr>rmap_m = [], rmap_l = of_nat (length ([] :: (gostring \<times> (gostring, 'v) Map) list))\<rparr>)],
      rmap_l = rmap_l m + 1\<rparr>" for m :: "'v node_map"
  by (simp add: Node_Ensure_def RMap_GetOrSet_def update_fresh empty_RMap_def map_of_eq_None_iff [symmetric])

lemma recover_plain:
  assumes "NMap_ok m"
  shows "recover_table (plain_table (rmap_m m)) = m"
proof -
  let ?F = "\<lambda>m (n, ucmap).
      foldl (\<lambda>m' (key, inner). RMap_via n (KeyMap_Set key (NewMap [inner])) m') (Node_Ensure n m) ucmap"
  have inner: "RMap_ok k" if "(n, k) \<in> set (rmap_m m)" for n k
  proof -
    have "RMap_Get n m = Some k"
      using assms that by (simp add: NMap_ok_def RMap_ok_def go_map_def RMap_Get_def)
    then show ?thesis using assms by (auto simp: NMap_ok_def KeyMap_ok_def)
  qed
  have loop: "foldl ?F \<lparr>rmap_m = xs, rmap_l = of_nat (length xs)\<rparr> (plain_table ns) =
      \<lparr>rmap_m = xs @ ns, rmap_l = of_nat (length (xs @ ns))\<rparr>"
    if "distinct (map fst (xs @ ns))" "\<forall>(n, k) \<in> set ns. RMap_ok k" for xs ns
    using that
  proof (induction ns arbitrary: xs)
    case (Cons a ns)
    obtain n k where a: "a = (n, k)" by (cases a)
    have k: "distinct (map fst (rmap_m k))" "k = \<lparr>rmap_m = rmap_m k, rmap_l = of_nat (length (rmap_m k))\<rparr>"
      using Cons.prems a by (auto simp: RMap_ok_def go_map_def)
    have n: "n \<notin> fst ` set xs" using Cons.prems a by auto
    have "?F \<lparr>rmap_m = xs, rmap_l = of_nat (length xs)\<rparr> (n, rmap_m k) =
        \<lparr>rmap_m = xs @ [(n, k)], rmap_l = of_nat (length (xs @ [(n, k)]))\<rparr>"
      using recover_inner [OF n, of "[]" "rmap_m k"] k n
      by (simp add: Node_Ensure_fresh add.commute)
    then show ?case
      using Cons.IH [of "xs @ [a]"] Cons.prems a by (simp add: plain_table_def)
  qed (simp add: plain_table_def)
  have "m = \<lparr>rmap_m = rmap_m m, rmap_l = of_nat (length (rmap_m m))\<rparr>"
    using assms by (simp add: NMap_ok_def RMap_ok_def)
  with loop [of "[]" "rmap_m m"] inner assms show ?thesis
    by (auto simp: recover_table_def empty_RMap_def NMap_ok_def RMap_ok_def go_map_def)
qed

lemma recover_make: "broker_ok b \<Longrightarrow> recoverFromSnapshot (makeSnapshot b) = b"
  by (simp add: recoverFromSnapshot_def makeSnapshot_def broker_ok_def snap_table_plain recover_plain)

section \<open>Properties\<close>

text \<open>
  C2. The broker's tables implement the registry: any sequence of log operations, run by the loops
  over nested maps in whatever order the maps are visited, has exactly the effect of the abstract
  operations on three partial functions, and keeps the tables well formed.
\<close>

theorem broker_refines_registry:
  assumes "broker_ok b" and "run_fits ops b"
  shows "broker_ok (broker_run ops b) \<and>
    abs_broker (broker_run ops b) = fold reg_apply ops (abs_broker b)"
  using assms by (rule broker_run_refines)

text \<open>
  C9. Replicas agree: two nodes whose tables have the same content, in whatever order their maps
  hold it, have the same content after applying the same operations.
\<close>

theorem replicas_agree:
  assumes "broker_ok b" and "broker_ok c" and "run_fits ops b" and "run_fits ops c"
    and "abs_broker b = abs_broker c"
  shows "abs_broker (broker_run ops b) = abs_broker (broker_run ops c)"
  using broker_run_refines [of b ops] broker_run_refines [of c ops] assms by simp

text \<open>
  C39. No ghost members: whatever operations were applied, a client listed in a channel is listed as
  a connected client of some user on the same node, so messages to a channel only go to clients
  that are connected.
\<close>

theorem channel_members_connected:
  assumes "run_fits ops empty_broker"
    and "NGet n ch cid (channelClients (broker_run ops empty_broker)) = Some net"
  shows "(\<exists>uid. NGet n uid cid (userClients (broker_run ops empty_broker)) \<noteq> None) \<and>
    NGet n cid ch (clientChannels (broker_run ops empty_broker)) = Some ()"
proof -
  have "reg_inv (abs_broker (broker_run ops empty_broker))"
    using broker_run_refines [OF broker_ok_empty assms(1)] reg_inv_run [OF reg_inv_empty] by simp
  from reg_invD [OF this, of n ch cid] assms(2) show ?thesis by simp
qed

text \<open>
  Closing a connection takes the client out of every channel it had joined, but its own list of
  channels keeps every channel not named like the user: the entries stay after the client is gone.
\<close>

theorem userClosed_forgets_members_only:
  assumes "broker_ok b" and "broker_fits b" and "reg_inv (abs_broker b)"
  shows "NGet (closed_nodeID op) ch (closed_cid op) (channelClients (broker_userClosed op b)) = None \<and>
    (ch \<noteq> closed_uid op \<longrightarrow>
       NGet (closed_nodeID op) (closed_cid op) ch (clientChannels (broker_userClosed op b)) =
       NGet (closed_nodeID op) (closed_cid op) ch (clientChannels b))"
proof -
  let ?b = "broker_userClosed op b" and ?n = "closed_nodeID op" and ?cid = "closed_cid op"
  note abs = conjunct2 [OF abs_closed [OF assms(1,2), of op]]
  have "NGet ?n ch ?cid (channelClients ?b) = members (reg_closed op (abs_broker b)) ?n ch ?cid"
    by (simp flip: abs)
  moreover have "members (reg_closed op (abs_broker b)) ?n ch ?cid = None"
    using reg_invD [OF assms(3), of ?n ch ?cid]
    by (cases "members (abs_broker b) ?n ch ?cid") (simp_all add: reg_closed_def Let_def)
  moreover have "(NGet ?n ?cid ch (clientChannels ?b) \<noteq> None) =
      joined (reg_closed op (abs_broker b)) ?n ?cid ch"
    by (simp flip: abs)
  ultimately show ?thesis
    by (cases "NGet ?n ?cid ch (clientChannels ?b)"; cases "NGet ?n ?cid ch (clientChannels b)")
      (auto simp: reg_closed_def Let_def)
qed

text \<open>
  A snapshot loses nothing: recovering from the snapshot of a well-formed state gives exactly
  that state, tables, orders and counters included.
\<close>

theorem snapshot_recovers:
  assumes "broker_ok b"
  shows "recoverFromSnapshot (makeSnapshot b) = b"
  using assms by (rule recover_make)

subsection \<open>Witnesses\<close>

definition demo_opened :: userOpenedOp where
  "demo_opened = \<lparr>opened_uid = gs ''u'', opened_cid = gs ''c'', opened_net = gs ''tcp'',
     opened_nodeID = 1, opened_channels = [(gs ''room'', [])]\<rparr>"

definition demo_broker :: broker_state where
  "demo_broker = broker_userOpened demo_opened empty_broker"

lemma demo_broker_eq:
  "demo_broker =
     \<lparr>userClients = \<lparr>rmap_m = [(1, \<lparr>rmap_m = [(gs ''u'', [(gs ''c'', gs ''tcp'')])], rmap_l = 1\<rparr>)], rmap_l = 1\<rparr>,
      channelClients = \<lparr>rmap_m = [(1, \<lparr>rmap_m = [(gs ''room'', [(gs ''c'', gs ''tcp'')])], rmap_l = 1\<rparr>)], rmap_l = 1\<rparr>,
      clientChannels = \<lparr>rmap_m = [(1, \<lparr>rmap_m = [(gs ''c'', [(gs ''room'', ())])], rmap_l = 1\<rparr>)], rmap_l = 1\<rparr>\<rparr>"
  by code_simp

lemma empty_fits: "broker_fits empty_broker"
  by (simp add: broker_fits_def empty_broker_def NMap_fits_def)

lemma demo_fits: "broker_fits demo_broker"
  by (simp add: broker_fits_def demo_broker_eq NMap_fits_def RMap_Get_def KeyMap_fits_def)

lemma demo_run: "run_fits [OpUserOpened demo_opened] empty_broker"
  "broker_run [OpUserOpened demo_opened] empty_broker = demo_broker"
  by (simp_all add: run_fits_Cons empty_fits run_fits_def broker_run_def demo_broker_def)

lemma demo_ok: "broker_ok demo_broker"
  using broker_run_refines [OF broker_ok_empty demo_run(1)] demo_run(2) by simp

theorem broker_refines_registry_witness:
  "users (abs_broker demo_broker) 1 (gs ''u'') (gs ''c'') = Some (gs ''tcp'') \<and>
   abs_broker demo_broker = reg_opened demo_opened (abs_broker empty_broker)"
  using broker_refines_registry [OF broker_ok_empty demo_run(1)] demo_run(2)
  by (simp add: reg_opened_def Let_def demo_opened_def)

definition demo_opened2 :: userOpenedOp where
  "demo_opened2 = demo_opened\<lparr>opened_cid := gs ''d''\<rparr>"

lemma demo_orders:
  "broker_userOpened demo_opened2 (broker_userOpened demo_opened empty_broker) =
     \<lparr>userClients = \<lparr>rmap_m = [(1, \<lparr>rmap_m = [(gs ''u'', [(gs ''c'', gs ''tcp''), (gs ''d'', gs ''tcp'')])], rmap_l = 1\<rparr>)], rmap_l = 1\<rparr>,
      channelClients = \<lparr>rmap_m = [(1, \<lparr>rmap_m = [(gs ''room'', [(gs ''c'', gs ''tcp''), (gs ''d'', gs ''tcp'')])], rmap_l = 1\<rparr>)], rmap_l = 1\<rparr>,
      clientChannels = \<lparr>rmap_m = [(1, \<lparr>rmap_m = [(gs ''c'', [(gs ''room'', ())]), (gs ''d'', [(gs ''room'', ())])], rmap_l = 2\<rparr>)], rmap_l = 1\<rparr>\<rparr>"
  "broker_userOpened demo_opened (broker_userOpened demo_opened2 empty_broker) =
     \<lparr>userClients = \<lparr>rmap_m = [(1, \<lparr>rmap_m = [(gs ''u'', [(gs ''d'', gs ''tcp''), (gs ''c'', gs ''tcp'')])], rmap_l = 1\<rparr>)], rmap_l = 1\<rparr>,
      channelClients = \<lparr>rmap_m = [(1, \<lparr>rmap_m = [(gs ''room'', [(gs ''d'', gs ''tcp''), (gs ''c'', gs ''tcp'')])], rmap_l = 1\<rparr>)], rmap_l = 1\<rparr>,
      clientChannels = \<lparr>rmap_m = [(1, \<lparr>rmap_m = [(gs ''d'', [(gs ''room'', ())]), (gs ''c'', [(gs ''room'', ())])], rmap_l = 2\<rparr>)], rmap_l = 1\<rparr>\<rparr>"
  by code_simp+

theorem replicas_agree_witness:
  "abs_broker (broker_run [OpJoinChannel \<lparr>chan_uid = gs ''u'', chan_channels = [(gs ''lobby'', [])]\<rparr>]
     (broker_userOpened demo_opened2 (broker_userOpened demo_opened empty_broker))) =
   abs_broker (broker_run [OpJoinChannel \<lparr>chan_uid = gs ''u'', chan_channels = [(gs ''lobby'', [])]\<rparr>]
     (broker_userOpened demo_opened (broker_userOpened demo_opened2 empty_broker)))"
proof -
  let ?b = "broker_userOpened demo_opened2 (broker_userOpened demo_opened empty_broker)"
  let ?c = "broker_userOpened demo_opened (broker_userOpened demo_opened2 empty_broker)"
  have ok: "broker_ok ?b" "broker_ok ?c" by (simp_all add: abs_opened)
  have "broker_fits ?b" "broker_fits ?c"
    unfolding demo_orders by (simp_all add: broker_fits_def NMap_fits_def RMap_Get_def KeyMap_fits_def)
  then have fits: "run_fits [op] ?b" "run_fits [op] ?c" for op
    by (simp_all add: run_fits_def broker_run_def)
  have "abs_broker ?b = abs_broker ?c"
    by (simp add: abs_opened, rule registry_eqI)
      (auto simp: reg_opened_def Let_def demo_opened2_def demo_opened_def gs_def)
  from replicas_agree [OF ok fits this] show ?thesis .
qed

theorem channel_members_connected_witness:
  "\<exists>uid. NGet 1 uid (gs ''c'') (userClients demo_broker) \<noteq> None"
proof -
  have "NGet 1 (gs ''room'') (gs ''c'') (channelClients (broker_run [OpUserOpened demo_opened] empty_broker)) =
      Some (gs ''tcp'')"
    by code_simp
  from channel_members_connected [OF demo_run(1) this] demo_run(2) show ?thesis by simp
qed

theorem userClosed_forgets_members_only_witness:
  "NGet 1 (gs ''c'') (gs ''room'') (clientChannels
     (broker_userClosed \<lparr>closed_uid = gs ''u'', closed_cid = gs ''c'', closed_nodeID = 1\<rparr> demo_broker)) = Some ()"
proof -
  let ?op = "\<lparr>closed_uid = gs ''u'', closed_cid = gs ''c'', closed_nodeID = 1\<rparr>"
  have inv: "reg_inv (abs_broker demo_broker)"
    using broker_run_refines [OF broker_ok_empty demo_run(1)] reg_inv_run [OF reg_inv_empty] demo_run(2)
    by metis
  have "NGet 1 (gs ''c'') (gs ''room'') (clientChannels demo_broker) = Some ()" by code_simp
  with userClosed_forgets_members_only [OF demo_ok demo_fits inv, of ?op "gs ''room''"] show ?thesis
    by (simp add: gs_def)
qed

theorem snapshot_recovers_witness:
  "recoverFromSnapshot (makeSnapshot demo_broker) = demo_broker"
  using snapshot_recovers [OF demo_ok] .

end
