(* ===== verification/Peer.thy ===== *)
theory Peer
  imports Errors
begin

text \<open>
  The connection to another broker, src/cluster/peer_client.go: when a \<open>peerClient\<close> is ready, what a
  change of address does, and when the connection is tried again.

  \<open>grpc.NewClient\<close> is the argument \<open>dial\<close>: the error it returns for an address, if any. It does not
  wait for a connection, so its error depends on the address only. The calls that go over the
  connection are in theory \<open>Routing\<close>.
\<close>

record peer_client =
  peer_id :: u64
  peer_addr :: gostring
  peer_conn :: "gostring option"
  peer_ready :: bool

definition newPeerClient :: "u64 \<Rightarrow> gostring \<Rightarrow> peer_client" where
  "newPeerClient i addr = \<lparr>peer_id = i, peer_addr = addr, peer_conn = None, peer_ready = False\<rparr>"

definition peer_reconnnect ::
  "(gostring \<Rightarrow> go_error option) \<Rightarrow> peer_client \<Rightarrow> (go_error, peer_client) outcome" where
  "peer_reconnnect dial p =
     (case dial (peer_addr p) of
        Some e \<Rightarrow> Err e
      | None \<Rightarrow> Ok (p\<lparr>peer_conn := Some (peer_addr p)\<rparr>))"

text \<open>\<open>connect\<close>: the second component says that a timer is set to call it again.\<close>

definition peer_connect ::
  "(gostring \<Rightarrow> go_error option) \<Rightarrow> peer_client \<Rightarrow> peer_client \<times> bool" where
  "peer_connect dial p =
     (if peer_ready p then (p, False)
      else case peer_reconnnect dial p of
             Ok p' \<Rightarrow> (p'\<lparr>peer_ready := True\<rparr>, False)
           | _ \<Rightarrow> (p, True))"

definition peer_Close :: "peer_client \<Rightarrow> peer_client" where
  "peer_Close p = (if peer_ready p then p\<lparr>peer_ready := False, peer_conn := None\<rparr> else p)"

definition peer_isReady :: "peer_client \<Rightarrow> bool" where
  "peer_isReady p = peer_ready p"

definition peer_updateAddr ::
  "(gostring \<Rightarrow> go_error option) \<Rightarrow> gostring \<Rightarrow> peer_client \<Rightarrow> peer_client \<times> bool" where
  "peer_updateAddr dial addr p =
     (if peer_addr p = addr then (p, False)
      else peer_connect dial (p\<lparr>peer_addr := addr, peer_ready := False\<rparr>))"

text \<open>A client that is ready has a connection to its present address.\<close>

definition peer_ok :: "peer_client \<Rightarrow> bool" where
  "peer_ok p \<longleftrightarrow> (peer_ready p \<longrightarrow> peer_conn p = Some (peer_addr p))"

lemma newPeerClient_ok [keeps]: "peer_ok (newPeerClient i addr)"
  by (simp add: peer_ok_def newPeerClient_def)

lemma peer_connect_ok [keeps]: "peer_ok p \<Longrightarrow> peer_ok (fst (peer_connect dial p))"
  by (auto simp: peer_ok_def peer_connect_def peer_reconnnect_def split: option.splits)

lemma peer_Close_ok [keeps]: "peer_ok p \<Longrightarrow> peer_ok (peer_Close p)"
  by (simp add: peer_ok_def peer_Close_def)

lemma peer_updateAddr_ok [keeps]: "peer_ok p \<Longrightarrow> peer_ok (fst (peer_updateAddr dial addr p))"
  using peer_connect_ok [of "p\<lparr>peer_addr := addr, peer_ready := False\<rparr>"]
  by (simp add: peer_updateAddr_def peer_ok_def)

text \<open>
  After an attempt a client is ready or a timer is set: no client is given up, until the address is
  one that can be dialled.
\<close>

lemma peer_connect_ready_or_retries:
  "peer_ready (fst (peer_connect dial p)) \<longleftrightarrow> \<not> snd (peer_connect dial p)"
  by (auto simp: peer_connect_def peer_reconnnect_def split: option.splits)

end
