(* ===== verification/Raft.thy ===== *)
theory Raft
  imports Registry Packet Peer
begin

text \<open>
  The replicated log of a cluster, src/cluster/cluster_raft.go and the state of src/cluster/cluster.go:
  the encoding of the operations, what applying a committed entry does, and snapshots.

  The raft library (go.etcd.io/raft) is not part of the repository. What it is asked to do is
  collected in \<open>proposals\<close> and \<open>conf_proposals\<close>; what it answers is an argument: \<open>decode_cc\<close> for
  \<open>ConfChange.Unmarshal\<close>, \<open>apply_cc\<close> for \<open>Node.ApplyConfChange\<close>, and the results of the storage calls.
  A raft snapshot's data is the JSON text of a \<open>snapshot\<close>; it is modelled by the value that
  \<open>json.Unmarshal\<close> gives for it, \<open>None\<close> when it does not parse, and \<open>json_snapshot\<close> is what a snapshot
  becomes by being written and read: strings that are not UTF-8 are changed.
\<close>

section \<open>Operations in the log\<close>

datatype opdata =
  UserOpened userOpenedOp | UserClosed userClosedOp | JoinChannel channelOp | LeaveChannel channelOp

definition optypeUserOpened :: byte where "optypeUserOpened = 0"
definition optypeUserClosed :: byte where "optypeUserClosed = 1"
definition optypeJoinChannel :: byte where "optypeJoinChannel = 2"
definition optypeLeaveChannel :: byte where "optypeLeaveChannel = 3"

lemmas optypes = optypeUserOpened_def optypeUserClosed_def optypeJoinChannel_def optypeLeaveChannel_def

fun opt :: "opdata \<Rightarrow> byte" where
  "opt (UserOpened _) = optypeUserOpened"
| "opt (UserClosed _) = optypeUserClosed"
| "opt (JoinChannel _) = optypeJoinChannel"
| "opt (LeaveChannel _) = optypeLeaveChannel"

definition userOpened_WriteTo :: "userOpenedOp \<Rightarrow> encoder \<Rightarrow> encoder" where
  "userOpened_WriteTo op e =
     WriteStrMap (opened_channels op) (WriteUInt64 (opened_nodeID op) (WriteString (opened_net op)
       (WriteString (opened_cid op) (WriteString (opened_uid op) e))))"

definition userOpened_ReadFrom :: "userOpenedOp reader" where
  "userOpened_ReadFrom d =
     obind (ReadString d) (\<lambda>(uid, d1). obind (ReadString d1) (\<lambda>(cid, d2).
     obind (ReadString d2) (\<lambda>(net, d3). obind (ReadUInt64 d3) (\<lambda>(n, d4).
     obind (ReadStrMap d4) (\<lambda>(chs, d5).
       Ok (\<lparr>opened_uid = uid, opened_cid = cid, opened_net = net, opened_nodeID = n,
            opened_channels = chs\<rparr>, d5))))))"

definition userClosed_WriteTo :: "userClosedOp \<Rightarrow> encoder \<Rightarrow> encoder" where
  "userClosed_WriteTo op e =
     WriteUInt64 (closed_nodeID op) (WriteString (closed_cid op) (WriteString (closed_uid op) e))"

definition userClosed_ReadFrom :: "userClosedOp reader" where
  "userClosed_ReadFrom d =
     obind (ReadString d) (\<lambda>(uid, d1). obind (ReadString d1) (\<lambda>(cid, d2).
     obind (ReadUInt64 d2) (\<lambda>(n, d3).
       Ok (\<lparr>closed_uid = uid, closed_cid = cid, closed_nodeID = n\<rparr>, d3))))"

text \<open>\<open>joinChannelOp\<close> and \<open>leaveChannelOp\<close> have the same fields and the same encoding.\<close>

definition joinChannel_WriteTo :: "channelOp \<Rightarrow> encoder \<Rightarrow> encoder" where
  "joinChannel_WriteTo op e = WriteStrMap (chan_channels op) (WriteString (chan_uid op) e)"

definition joinChannel_ReadFrom :: "channelOp reader" where
  "joinChannel_ReadFrom d =
     obind (ReadString d) (\<lambda>(uid, d1). obind (ReadStrMap d1) (\<lambda>(chs, d2).
       Ok (\<lparr>chan_uid = uid, chan_channels = chs\<rparr>, d2)))"

definition leaveChannel_WriteTo :: "channelOp \<Rightarrow> encoder \<Rightarrow> encoder" where
  "leaveChannel_WriteTo op e = WriteStrMap (chan_channels op) (WriteString (chan_uid op) e)"

definition leaveChannel_ReadFrom :: "channelOp reader" where
  "leaveChannel_ReadFrom d =
     obind (ReadString d) (\<lambda>(uid, d1). obind (ReadStrMap d1) (\<lambda>(chs, d2).
       Ok (\<lparr>chan_uid = uid, chan_channels = chs\<rparr>, d2)))"

fun op_WriteTo :: "opdata \<Rightarrow> encoder \<Rightarrow> encoder" where
  "op_WriteTo (UserOpened op) e = userOpened_WriteTo op e"
| "op_WriteTo (UserClosed op) e = userClosed_WriteTo op e"
| "op_WriteTo (JoinChannel op) e = joinChannel_WriteTo op e"
| "op_WriteTo (LeaveChannel op) e = leaveChannel_WriteTo op e"

section \<open>State\<close>

datatype cc_type = ConfChangeAddNode | ConfChangeRemoveNode | ConfChangeOther

record conf_change =
  cc_Type :: cc_type
  cc_NodeID :: u64
  cc_ID :: u64

datatype entry_type = EntryNormal | EntryConfChange | EntryOther

record raft_entry =
  entry_Type :: entry_type
  entry_Index :: u64
  entry_Data :: bytes

record 'cs cluster =
  nodeId :: u64
  raft_started :: bool
  cluster_size :: u32
  ready :: bool
  peers :: "(u64, peer_client) RMap"
  broker :: broker_state
  leader :: u64
  confState :: "'cs option"
  appliedIndex :: u64
  snapshotIndex :: u64
  confChangeCount :: u64
  proposals :: "bytes list"
  conf_proposals :: "conf_change list"
  stored_snapshot :: "(u64 \<times> snapshot) option"
  expelled :: nat
  ready_calls :: nat

definition newCluster :: "u64 \<Rightarrow> u32 \<Rightarrow> 'cs cluster" where
  "newCluster n sz =
     \<lparr>nodeId = n, raft_started = False, cluster_size = sz, ready = False, peers = empty_RMap,
      broker = empty_broker, leader = 0, confState = None, appliedIndex = 0, snapshotIndex = 0,
      confChangeCount = 0, proposals = [], conf_proposals = [], stored_snapshot = None, expelled = 0,
      ready_calls = 0\<rparr>"

section \<open>Proposals\<close>

text \<open>The error of \<open>raft.Propose\<close> is ignored.\<close>

definition SubmitOperation :: "opdata \<Rightarrow> 'cs cluster \<Rightarrow> (go_error, 'cs cluster) outcome" where
  "SubmitOperation op c =
     (if \<not> raft_started c then Err (XError RaftNodeNotReady)
      else let ec = op_WriteTo op (WriteUInt8 (opt op) (fst (NewEncoder None [])))
           in Ok (c\<lparr>proposals := proposals c @ [fst (Pick ec [])]\<rparr>))"

text \<open>\<open>ProposeConfChange\<close>'s own error is the result's.\<close>

definition addNode :: "go_error option \<Rightarrow> u64 \<Rightarrow> 'cs cluster \<Rightarrow> go_error option \<times> 'cs cluster" where
  "addNode propose_err i c =
     (if \<not> raft_started c then (Some (XError RaftNodeNotReady), c)
      else let k = confChangeCount c + 1
           in (propose_err, c\<lparr>confChangeCount := k, conf_proposals := conf_proposals c @
                 [\<lparr>cc_Type = ConfChangeAddNode, cc_NodeID = i, cc_ID = k\<rparr>]\<rparr>))"

definition removeNode :: "go_error option \<Rightarrow> u64 \<Rightarrow> 'cs cluster \<Rightarrow> go_error option \<times> 'cs cluster" where
  "removeNode propose_err i c =
     (if \<not> raft_started c then (Some (XError RaftNodeNotReady), c)
      else let k = confChangeCount c + 1
           in (propose_err, c\<lparr>confChangeCount := k, conf_proposals := conf_proposals c @
                 [\<lparr>cc_Type = ConfChangeRemoveNode, cc_NodeID = i, cc_ID = k\<rparr>]\<rparr>))"

text \<open>
  \<open>startRaft\<close>: the ids handed to \<open>raft.StartNode\<close>. The slice is made with \<open>size\<close> zero peers, the
  first is set, and the peers are appended behind them; a size that is not positive panics.
\<close>

definition initPeers :: "'cs cluster \<Rightarrow> (go_error, u64 list) outcome" where
  "initPeers c =
     (if sint (cluster_size c) < 1 then Panic
      else Ok (RMap_Range (\<lambda>key addr acc. (True, acc @ [key])) (peers c)
             ((replicate (nat (sint (cluster_size c))) 0)[0 := nodeId c])))"

definition startRaft :: "'cs cluster \<Rightarrow> (go_error, u64 list option \<times> 'cs cluster) outcome" where
  "startRaft c =
     (if raft_started c then Ok (None, c)
      else omap (\<lambda>ps. (Some ps, c\<lparr>raft_started := True\<rparr>)) (initPeers c))"

section \<open>Applying entries\<close>

text \<open>Decoding errors are logged; a panic of the decoder is a panic of the raft loop.\<close>

definition apply_op ::
  "'a reader \<Rightarrow> ('a \<Rightarrow> broker_state \<Rightarrow> broker_state) \<Rightarrow> bytes \<Rightarrow> 'cs cluster \<Rightarrow> (go_error, 'cs cluster) outcome" where
  "apply_op rd f data c =
     (case Unmarshal rd data of
        Ok op \<Rightarrow> Ok (c\<lparr>broker := f op (broker c)\<rparr>)
      | Err e \<Rightarrow> Ok c
      | Panic \<Rightarrow> Panic)"

definition applyRaftOp :: "bytes \<Rightarrow> 'cs cluster \<Rightarrow> (go_error, 'cs cluster) outcome" where
  "applyRaftOp data c =
     (case data of
        [] \<Rightarrow> Panic
      | o' # rest \<Rightarrow>
          if o' = optypeUserOpened then apply_op userOpened_ReadFrom broker_userOpened rest c
          else if o' = optypeUserClosed then apply_op userClosed_ReadFrom broker_userClosed rest c
          else if o' = optypeJoinChannel then apply_op joinChannel_ReadFrom broker_joinChannel rest c
          else if o' = optypeLeaveChannel then apply_op leaveChannel_ReadFrom broker_leaveChannel rest c
          else Ok c)"

definition applyRemoveNode :: "u64 \<Rightarrow> 'cs cluster \<Rightarrow> 'cs cluster" where
  "applyRemoveNode i c =
     (let c1 = c\<lparr>cluster_size := RMap_Len (peers c) + 1, broker := broker_removeNode i (broker c),
                 peers := snd (RMap_Delete i (peers c))\<rparr>
      in if nodeId c = i then c1\<lparr>leader := 0, ready := False, expelled := expelled c + 1\<rparr> else c1)"

definition applyConfChange :: "(conf_change \<Rightarrow> 'cs) \<Rightarrow> conf_change \<Rightarrow> 'cs cluster \<Rightarrow> 'cs cluster" where
  "applyConfChange apply_cc cc c =
     (let c1 = c\<lparr>confState := Some (apply_cc cc)\<rparr>
      in case cc_Type cc of
           ConfChangeAddNode \<Rightarrow> c1\<lparr>cluster_size := RMap_Len (peers c) + 1\<rparr>
         | ConfChangeRemoveNode \<Rightarrow> applyRemoveNode (cc_NodeID cc) c1
         | ConfChangeOther \<Rightarrow> c1)"

text \<open>
  The loop of \<open>applyEntries\<close>; a configuration change that does not decode ends the function before
  the index is set, which the flag says.
\<close>

fun applyEntries_loop ::
  "(bytes \<Rightarrow> conf_change option) \<Rightarrow> (conf_change \<Rightarrow> 'cs) \<Rightarrow> raft_entry list \<Rightarrow> 'cs cluster \<Rightarrow>
     (go_error, bool \<times> 'cs cluster) outcome" where
  "applyEntries_loop decode_cc apply_cc [] c = Ok (True, c)"
| "applyEntries_loop decode_cc apply_cc (e # es) c =
     (case entry_Type e of
        EntryNormal \<Rightarrow>
          obind (if entry_Data e \<noteq> [] then applyRaftOp (entry_Data e) c else Ok c)
            (applyEntries_loop decode_cc apply_cc es)
      | EntryConfChange \<Rightarrow>
          (case decode_cc (entry_Data e) of
             None \<Rightarrow> Ok (False, c)
           | Some cc \<Rightarrow> applyEntries_loop decode_cc apply_cc es (applyConfChange apply_cc cc c))
      | EntryOther \<Rightarrow> applyEntries_loop decode_cc apply_cc es c)"

definition applyEntries ::
  "(bytes \<Rightarrow> conf_change option) \<Rightarrow> (conf_change \<Rightarrow> 'cs) \<Rightarrow> raft_entry list \<Rightarrow> 'cs cluster \<Rightarrow>
     (go_error, 'cs cluster) outcome" where
  "applyEntries decode_cc apply_cc es c =
     obind (applyEntries_loop decode_cc apply_cc es c) (\<lambda>(finished, c1).
       if \<not> finished then Ok c1
       else if es = [] then Panic
       else Ok (c1\<lparr>appliedIndex := entry_Index (last es)\<rparr>))"

text \<open>The calls of the broker's \<open>onClusterReady\<close> are counted in \<open>ready_calls\<close>.\<close>

definition applySoftState :: "u64 \<Rightarrow> 'cs cluster \<Rightarrow> 'cs cluster" where
  "applySoftState newLeader c =
     (if newLeader = 0 then c
      else let c1 = c\<lparr>leader := newLeader\<rparr>
           in if ready c then c1 else c1\<lparr>ready := True, ready_calls := ready_calls c + 1\<rparr>)"

section \<open>JSON\<close>

text \<open>The length of the UTF-8 encoded rune a string starts with, 0 when it starts with none.\<close>

definition utf8_cont :: "byte \<Rightarrow> byte \<Rightarrow> byte \<Rightarrow> bool" where
  "utf8_cont lo hi b \<longleftrightarrow> lo \<le> b \<and> b \<le> hi"

definition rune_len :: "bytes \<Rightarrow> nat" where
  "rune_len bs =
     (case bs of
        [] \<Rightarrow> 0
      | b0 # r \<Rightarrow>
          if b0 < 0x80 then 1
          else if 0xC2 \<le> b0 \<and> b0 \<le> 0xDF then
            (case r of b1 # _ \<Rightarrow> if utf8_cont 0x80 0xBF b1 then 2 else 0 | _ \<Rightarrow> 0)
          else if 0xE0 \<le> b0 \<and> b0 \<le> 0xEF then
            (case r of b1 # b2 # _ \<Rightarrow>
               if utf8_cont (if b0 = 0xE0 then 0xA0 else 0x80) (if b0 = 0xED then 0x9F else 0xBF) b1
                  \<and> utf8_cont 0x80 0xBF b2 then 3 else 0
             | _ \<Rightarrow> 0)
          else if 0xF0 \<le> b0 \<and> b0 \<le> 0xF4 then
            (case r of b1 # b2 # b3 # _ \<Rightarrow>
               if utf8_cont (if b0 = 0xF0 then 0x90 else 0x80) (if b0 = 0xF4 then 0x8F else 0xBF) b1
                  \<and> utf8_cont 0x80 0xBF b2 \<and> utf8_cont 0x80 0xBF b3 then 4 else 0
             | _ \<Rightarrow> 0)
          else 0)"

text \<open>A string written and read as JSON: a byte that is not part of a rune becomes U+FFFD.\<close>

function json_string :: "bytes \<Rightarrow> bytes" where
  "json_string bs =
     (if bs = [] then []
      else if rune_len bs = 0 then [0xEF, 0xBF, 0xBD] @ json_string (tl bs)
      else take (rune_len bs) bs @ json_string (drop (rune_len bs) bs))"
  by pat_completeness auto
termination
  by (relation "measure length") auto

declare json_string.simps [simp del]

function valid_utf8 :: "bytes \<Rightarrow> bool" where
  "valid_utf8 bs =
     (if bs = [] then True
      else if rune_len bs = 0 then False
      else valid_utf8 (drop (rune_len bs) bs))"
  by pat_completeness auto
termination
  by (relation "measure length") auto

declare valid_utf8.simps [simp del]

text \<open>Objects: keys are written and read as strings; equal keys overwrite.\<close>

definition json_object :: "('k \<Rightarrow> 'k) \<Rightarrow> ('v \<Rightarrow> 'v) \<Rightarrow> ('k, 'v) gomap \<Rightarrow> ('k, 'v) gomap" where
  "json_object fk fv m = fold (\<lambda>(k, v). AList.update (fk k) (fv v)) m []"

definition json_tree :: "('v \<Rightarrow> 'v) \<Rightarrow> 'v node_tree \<Rightarrow> 'v node_tree" where
  "json_tree fv = json_object id (json_object json_string (json_object json_string fv))"

definition json_snapshot :: "snapshot \<Rightarrow> snapshot" where
  "json_snapshot s =
     \<lparr>UserClients = json_tree json_string (UserClients s),
      ChannelClients = json_tree json_string (ChannelClients s),
      ClientChannels = json_tree id (ClientChannels s)\<rparr>"

section \<open>Snapshots\<close>

text \<open>\<open>attemptSnapshot\<close>: the result of \<open>CreateSnapshot\<close>, and of \<open>Compact\<close> unless it is \<open>ErrCompacted\<close>.\<close>

definition attemptSnapshot ::
  "go_error option \<Rightarrow> go_error option \<Rightarrow> 'cs cluster \<Rightarrow> (go_error, u64 option \<times> 'cs cluster) outcome" where
  "attemptSnapshot create_err compact_err c =
     (if appliedIndex c - snapshotIndex c \<le> 1024 then Ok (None, c)
      else case create_err of
             Some _ \<Rightarrow> Panic
           | None \<Rightarrow>
               (let c1 = c\<lparr>stored_snapshot := Some (appliedIndex c, json_snapshot (makeSnapshot (broker c))),
                           snapshotIndex := appliedIndex c\<rparr>;
                    compactIndex = (if appliedIndex c > 1024 then appliedIndex c - 1024 else 1)
                in case compact_err of Some _ \<Rightarrow> Panic | None \<Rightarrow> Ok (Some compactIndex, c1)))"

definition applySnapshot :: "u64 \<Rightarrow> 'cs \<Rightarrow> snapshot option \<Rightarrow> 'cs cluster \<Rightarrow> (go_error, 'cs cluster) outcome" where
  "applySnapshot index cs data c =
     (if index \<le> appliedIndex c then Panic
      else case data of
             None \<Rightarrow> Panic
           | Some s \<Rightarrow>
               Ok (c\<lparr>broker := recoverFromSnapshot s, confState := Some cs, snapshotIndex := index,
                     appliedIndex := index\<rparr>))"

section \<open>Membership\<close>

definition IsLeader :: "'cs cluster \<Rightarrow> bool" where
  "IsLeader c \<longleftrightarrow> leader c = nodeId c"

definition IsIDRemoved :: "u64 \<Rightarrow> 'cs cluster \<Rightarrow> bool" where
  "IsIDRemoved i c \<longleftrightarrow> RMap_Get i (peers c) = None"

definition AddBroker ::
  "(gostring \<Rightarrow> go_error option) \<Rightarrow> go_error option \<Rightarrow> u64 \<Rightarrow> gostring \<Rightarrow> 'cs cluster \<Rightarrow>
     go_error option \<times> 'cs cluster" where
  "AddBroker dial propose_err i addr c =
     (if i = nodeId c then (None, c)
      else case RMap_Get i (peers c) of
             Some _ \<Rightarrow> (None, c\<lparr>peers := RMap_via i (\<lambda>p. fst (peer_updateAddr dial addr p)) (peers c)\<rparr>)
           | None \<Rightarrow>
               (let peer = fst (peer_connect dial (newPeerClient i addr));
                    c1 = c\<lparr>peers := snd (RMap_Set i peer (peers c))\<rparr>
                in if RMap_Len (peers c1) = cluster_size c1 - 1 then (None, c1)
                   else if \<not> IsLeader c1 then (None, c1)
                   else addNode propose_err i c1))"

definition KickBroker :: "go_error option \<Rightarrow> u64 \<Rightarrow> 'cs cluster \<Rightarrow> go_error option \<times> 'cs cluster" where
  "KickBroker propose_err i c =
     removeNode propose_err i (if i = nodeId c then c\<lparr>ready := False\<rparr> else c)"

definition OnNodeJoin ::
  "(gostring \<Rightarrow> go_error option) \<Rightarrow> go_error option \<Rightarrow> u64 \<Rightarrow> gostring \<Rightarrow> 'cs cluster \<Rightarrow>
     (go_error, u64 list option \<times> 'cs cluster) outcome" where
  "OnNodeJoin dial propose_err i addr c =
     (let c1 = snd (AddBroker dial propose_err i addr c)
      in if RMap_Len (peers c1) = cluster_size c1 - 1 then startRaft c1 else Ok (None, c1))"

definition OnNodeLeave :: "go_error option \<Rightarrow> u64 \<Rightarrow> 'cs cluster \<Rightarrow> 'cs cluster" where
  "OnNodeLeave propose_err i c = snd (KickBroker propose_err i c)"

end
