(* ===== verification/Raft_Safety.thy ===== *)
theory Raft_Safety
  imports Raft
begin

text \<open>
  What the log guarantees: an operation submitted is the operation applied, a node that starts from
  a snapshot ends where the others are, and what configuration changes do to a node's view of the
  cluster.
\<close>

section \<open>Operations survive the log\<close>

definition op_ok :: "opdata \<Rightarrow> bool" where
  "op_ok op \<longleftrightarrow>
     (case op of
        UserOpened x \<Rightarrow> str_map_ok (opened_channels x)
      | UserClosed x \<Rightarrow> True
      | JoinChannel x \<Rightarrow> str_map_ok (chan_channels x)
      | LeaveChannel x \<Rightarrow> str_map_ok (chan_channels x))"

definition userOpened_wire :: "userOpenedOp \<Rightarrow> bytes" where
  "userOpened_wire op = data_wire (opened_uid op) @ data_wire (opened_cid op) @ data_wire (opened_net op)
     @ be_bytes 8 (opened_nodeID op) @ str_map_wire (opened_channels op)"

definition userClosed_wire :: "userClosedOp \<Rightarrow> bytes" where
  "userClosed_wire op = data_wire (closed_uid op) @ data_wire (closed_cid op) @ be_bytes 8 (closed_nodeID op)"

definition channelOp_wire :: "channelOp \<Rightarrow> bytes" where
  "channelOp_wire op = data_wire (chan_uid op) @ str_map_wire (chan_channels op)"

lemmas op_writes = str.write_wire uint64.write_wire str_map.write_wire

interpretation opened: codec userOpened_wire userOpened_WriteTo userOpened_ReadFrom
  "\<lambda>x. str_map_ok (opened_channels x)"
proof
  show "ebuf (userOpened_WriteTo x e) = ebuf e @ userOpened_wire x" for x e
    by (simp add: userOpened_WriteTo_def userOpened_wire_def op_writes)
  show "userOpened_ReadFrom (dec_at pre (userOpened_wire x @ post)) =
      Ok (x, dec_at (pre @ userOpened_wire x) post)"
    if "str_map_ok (opened_channels x)" "room pre (userOpened_wire x @ post)" for pre x post
    using that
      str.read_wire [of pre "opened_uid x" "data_wire (opened_cid x) @ data_wire (opened_net x)
        @ be_bytes 8 (opened_nodeID x) @ str_map_wire (opened_channels x) @ post"]
      str.read_wire [of "pre @ data_wire (opened_uid x)" "opened_cid x" "data_wire (opened_net x)
        @ be_bytes 8 (opened_nodeID x) @ str_map_wire (opened_channels x) @ post"]
      str.read_wire [of "(pre @ data_wire (opened_uid x)) @ data_wire (opened_cid x)" "opened_net x"
        "be_bytes 8 (opened_nodeID x) @ str_map_wire (opened_channels x) @ post"]
      uint64.read_wire [of "((pre @ data_wire (opened_uid x)) @ data_wire (opened_cid x)) @ data_wire (opened_net x)"
        "opened_nodeID x" "str_map_wire (opened_channels x) @ post"]
      str_map.read_wire [of "opened_channels x" "(((pre @ data_wire (opened_uid x)) @ data_wire (opened_cid x))
        @ data_wire (opened_net x)) @ be_bytes 8 (opened_nodeID x)" post]
    by (simp add: userOpened_ReadFrom_def userOpened_wire_def room_def)
qed

interpretation closed_op: codec userClosed_wire userClosed_WriteTo userClosed_ReadFrom "\<lambda>_. True"
proof
  show "ebuf (userClosed_WriteTo x e) = ebuf e @ userClosed_wire x" for x e
    by (simp add: userClosed_WriteTo_def userClosed_wire_def op_writes)
  show "userClosed_ReadFrom (dec_at pre (userClosed_wire x @ post)) =
      Ok (x, dec_at (pre @ userClosed_wire x) post)"
    if "room pre (userClosed_wire x @ post)" for pre x post
    using that
      str.read_wire [of pre "closed_uid x" "data_wire (closed_cid x) @ be_bytes 8 (closed_nodeID x) @ post"]
      str.read_wire [of "pre @ data_wire (closed_uid x)" "closed_cid x" "be_bytes 8 (closed_nodeID x) @ post"]
      uint64.read_wire [of "(pre @ data_wire (closed_uid x)) @ data_wire (closed_cid x)" "closed_nodeID x" post]
    by (simp add: userClosed_ReadFrom_def userClosed_wire_def room_def)
qed

interpretation join_op: codec channelOp_wire joinChannel_WriteTo joinChannel_ReadFrom
  "\<lambda>x. str_map_ok (chan_channels x)"
proof
  show "ebuf (joinChannel_WriteTo x e) = ebuf e @ channelOp_wire x" for x e
    by (simp add: joinChannel_WriteTo_def channelOp_wire_def op_writes)
  show "joinChannel_ReadFrom (dec_at pre (channelOp_wire x @ post)) =
      Ok (x, dec_at (pre @ channelOp_wire x) post)"
    if "str_map_ok (chan_channels x)" "room pre (channelOp_wire x @ post)" for pre x post
    using that
      str.read_wire [of pre "chan_uid x" "str_map_wire (chan_channels x) @ post"]
      str_map.read_wire [of "chan_channels x" "pre @ data_wire (chan_uid x)" post]
    by (simp add: joinChannel_ReadFrom_def channelOp_wire_def room_def)
qed

lemma leave_join: "leaveChannel_WriteTo = joinChannel_WriteTo" "leaveChannel_ReadFrom = joinChannel_ReadFrom"
  by (simp_all add: fun_eq_iff leaveChannel_WriteTo_def leaveChannel_ReadFrom_def joinChannel_WriteTo_def
    joinChannel_ReadFrom_def)

interpretation leave_op: codec channelOp_wire leaveChannel_WriteTo leaveChannel_ReadFrom
  "\<lambda>x. str_map_ok (chan_channels x)"
  unfolding leave_join by (rule join_op.codec_axioms)

fun op_wire :: "opdata \<Rightarrow> bytes" where
  "op_wire (UserOpened x) = userOpened_wire x"
| "op_wire (UserClosed x) = userClosed_wire x"
| "op_wire (JoinChannel x) = channelOp_wire x"
| "op_wire (LeaveChannel x) = channelOp_wire x"

lemma op_WriteTo_wire: "ebuf (op_WriteTo op e) = ebuf e @ op_wire op"
  by (cases op) (simp_all add: opened.write_wire closed_op.write_wire join_op.write_wire leave_op.write_wire)

fun broker_op_of :: "opdata \<Rightarrow> broker_op" where
  "broker_op_of (UserOpened x) = OpUserOpened x"
| "broker_op_of (UserClosed x) = OpUserClosed x"
| "broker_op_of (JoinChannel x) = OpJoinChannel x"
| "broker_op_of (LeaveChannel x) = OpLeaveChannel x"

lemma applyRaftOp_wire:
  assumes "op_ok op" and "length (op_wire op) < 2 ^ 63"
  shows "applyRaftOp (opt op # op_wire op) c = Ok (c\<lparr>broker := broker_apply (broker_op_of op) (broker c)\<rparr>)"
  using assms
  by (cases op) (simp_all add: applyRaftOp_def apply_op_def optypes op_ok_def
    opened.roundtrip closed_op.roundtrip join_op.roundtrip leave_op.roundtrip)

section \<open>JSON keeps valid text\<close>

lemma json_string_valid: "valid_utf8 bs \<Longrightarrow> json_string bs = bs"
proof (induction bs rule: valid_utf8.induct)
  case (1 bs)
  show ?case
  proof (cases "bs = []")
    case False
    then have "rune_len bs \<noteq> 0" "valid_utf8 (drop (rune_len bs) bs)"
      using "1.prems" by (subst (asm) valid_utf8.simps, simp split: if_splits)+
    with "1.IH" False show ?thesis by (subst json_string.simps) simp
  qed (simp add: json_string.simps)
qed

lemma json_object_valid:
  assumes "go_map m" and "\<forall>(k, v) \<in> set m. fk k = k \<and> fv v = v"
  shows "json_object fk fv m = m"
proof -
  have "fold (\<lambda>(k, v). AList.update (fk k) (fv v)) m [] = fold (\<lambda>(k, v). AList.update k v) m []"
    using assms(2) by (intro fold_cong) auto
  also have "\<dots> = m" using fold_updates_fresh [of m "[]"] assms(1) by (simp add: go_map_def)
  finally show ?thesis by (simp add: json_object_def)
qed

definition node_valid :: "('v \<Rightarrow> 'v) \<Rightarrow> (gostring, (gostring, 'v) gomap) gomap \<Rightarrow> bool" where
  "node_valid fv um \<longleftrightarrow> go_map um \<and>
     (\<forall>(k, im) \<in> set um. valid_utf8 k \<and> go_map im \<and> (\<forall>(f, v) \<in> set im. valid_utf8 f \<and> fv v = v))"

definition tree_valid :: "('v \<Rightarrow> 'v) \<Rightarrow> 'v node_tree \<Rightarrow> bool" where
  "tree_valid fv t \<longleftrightarrow> go_map t \<and> (\<forall>(n, um) \<in> set t. node_valid fv um)"

lemma json_tree_valid: "tree_valid fv t \<Longrightarrow> json_tree fv t = t"
proof -
  assume t: "tree_valid fv t"
  have inner: "json_object json_string fv im = im"
    if "go_map im" "\<forall>(f, v) \<in> set im. valid_utf8 f \<and> fv v = v" for im
    using that by (intro json_object_valid) (auto simp: json_string_valid)
  have outer: "json_object json_string (json_object json_string fv) um = um"
    if "node_valid fv um" for um
    using that unfolding node_valid_def by (intro json_object_valid) (auto simp: json_string_valid inner)
  show ?thesis
    unfolding json_tree_def
    using t by (intro json_object_valid) (auto simp: tree_valid_def outer)
qed

text \<open>All names and networks of a broker's tables are UTF-8.\<close>

definition broker_utf8 :: "broker_state \<Rightarrow> bool" where
  "broker_utf8 b \<longleftrightarrow>
     (\<forall>n uid cid net. NGet n uid cid (userClients b) = Some net \<longrightarrow> valid_utf8 uid \<and> valid_utf8 cid \<and> valid_utf8 net) \<and>
     (\<forall>n ch cid net. NGet n ch cid (channelClients b) = Some net \<longrightarrow> valid_utf8 ch \<and> valid_utf8 cid \<and> valid_utf8 net) \<and>
     (\<forall>n cid ch. NGet n cid ch (clientChannels b) \<noteq> None \<longrightarrow> valid_utf8 cid \<and> valid_utf8 ch)"

lemma plain_table_valid:
  assumes "NMap_ok m" and "\<forall>n k f v. NGet n k f m = Some v \<longrightarrow> valid_utf8 k \<and> valid_utf8 f \<and> fv v = v"
  shows "tree_valid fv (plain_table (rmap_m m))"
proof -
  have get: "RMap_Get n m = Some k" if "(n, k) \<in> set (rmap_m m)" for n k
    using assms(1) that by (simp add: NMap_ok_def RMap_ok_def go_map_def RMap_Get_def)
  have km: "KeyMap_ok k" if "(n, k) \<in> set (rmap_m m)" for n k
    using assms(1) get [OF that] by (auto simp: NMap_ok_def)
  have "node_valid fv (rmap_m k)" if nk: "(n, k) \<in> set (rmap_m m)" for n k
    unfolding node_valid_def
  proof (intro conjI ballI)
    show go: "go_map (rmap_m k)" using km [OF nk] by (simp add: KeyMap_ok_def RMap_ok_def)
    fix x assume x: "x \<in> set (rmap_m k)"
    obtain u im where u: "x = (u, im)" by (cases x)
    have gu: "RMap_Get u k = Some im" using go x u by (simp add: RMap_Get_def go_map_def)
    then have im: "go_map im" "im \<noteq> []" using km [OF nk] by (auto simp: KeyMap_ok_iff inner_ok_def)
    have all: "valid_utf8 u \<and> valid_utf8 f \<and> fv v = v" if "(f, v) \<in> set im" for f v
    proof -
      have "map_of im f = Some v" using im(1) that by (simp add: go_map_def)
      then have "NGet n u f m = Some v" using get [OF nk] gu by (simp add: NGet_def GetKey_eq)
      then show ?thesis using assms(2) by blast
    qed
    obtain f v where "(f, v) \<in> set im" using im(2) by (cases im) auto
    with all im(1) show "case x of (u, im) \<Rightarrow> valid_utf8 u \<and> go_map im \<and>
      (\<forall>(f, v) \<in> set im. valid_utf8 f \<and> fv v = v)"
      by (auto simp: u)
  qed
  moreover have "go_map (plain_table (rmap_m m))"
    using assms(1) by (simp add: plain_table_def go_map_def NMap_ok_def RMap_ok_def comp_def split_beta')
  ultimately show ?thesis by (auto simp: tree_valid_def plain_table_def)
qed

lemma json_snapshot_id: "broker_ok b \<Longrightarrow> broker_utf8 b \<Longrightarrow> json_snapshot (makeSnapshot b) = makeSnapshot b"
proof -
  assume ok: "broker_ok b" and utf: "broker_utf8 b"
  have "tree_valid json_string (plain_table (rmap_m (userClients b)))"
    "tree_valid json_string (plain_table (rmap_m (channelClients b)))"
    "tree_valid id (plain_table (rmap_m (clientChannels b)))"
    using ok utf by (auto simp: broker_ok_def broker_utf8_def json_string_valid intro!: plain_table_valid)
  then show ?thesis
    using ok by (simp add: json_snapshot_def makeSnapshot_def snap_table_plain json_tree_valid broker_ok_def)
qed

section \<open>Equal brokers stay equal\<close>

lemma applyRaftOp_broker:
  "broker c = broker d \<Longrightarrow>
   (case (applyRaftOp data c, applyRaftOp data d) of
      (Ok c', Ok d') \<Rightarrow> broker c' = broker d' | (Panic, Panic) \<Rightarrow> True | _ \<Rightarrow> False)"
  by (cases data) (auto simp: applyRaftOp_def apply_op_def split: outcome.splits)

lemma applyConfChange_broker:
  "broker c = broker d \<Longrightarrow> broker (applyConfChange f cc c) = broker (applyConfChange g cc d)"
  by (simp add: applyConfChange_def applyRemoveNode_def Let_def split: cc_type.splits)

lemma applyEntries_loop_broker:
  "broker c = broker d \<Longrightarrow>
   (case (applyEntries_loop dec f es c, applyEntries_loop dec g es d) of
      (Ok (x, c'), Ok (y, d')) \<Rightarrow> x = y \<and> broker c' = broker d' | (Panic, Panic) \<Rightarrow> True | _ \<Rightarrow> False)"
proof (induction es arbitrary: c d)
  case (Cons e es)
  show ?case
  proof (cases "entry_Type e")
    case EntryNormal
    show ?thesis
    proof (cases "entry_Data e = []")
      case True
      then show ?thesis using Cons EntryNormal by simp
    next
      case False
      show ?thesis
        using applyRaftOp_broker [OF Cons.prems, of "entry_Data e"] Cons.IH EntryNormal False
        by (cases "applyRaftOp (entry_Data e) c"; cases "applyRaftOp (entry_Data e) d") simp_all
    qed
  next
    case EntryConfChange
    show ?thesis
    proof (cases "dec (entry_Data e)")
      case (Some cc)
      with Cons.IH [OF applyConfChange_broker [OF Cons.prems]] EntryConfChange show ?thesis by simp
    qed (use Cons.prems EntryConfChange in simp)
  next
    case EntryOther
    then show ?thesis using Cons by simp
  qed
qed simp

section \<open>Properties\<close>

text \<open>
  C8. What is submitted is what is applied: the bytes a node proposes for an operation, applied by
  any node, run exactly that operation on its tables and change nothing else.
\<close>

theorem submitted_operation_applied:
  assumes "op_ok op" and "length (op_wire op) < 2 ^ 63" and "SubmitOperation op c = Ok c'"
  shows "\<exists>data. proposals c' = proposals c @ [data] \<and>
    applyRaftOp data d = Ok (d\<lparr>broker := broker_apply (broker_op_of op) (broker d)\<rparr>)"
proof -
  have "proposals c' = proposals c @ [opt op # op_wire op]"
    using assms(3) by (auto simp: SubmitOperation_def Let_def Pick_def op_WriteTo_wire NewEncoder_def
      pool_get_def new_encoder_def uint8.write_wire split: if_splits)
  with applyRaftOp_wire [OF assms(1,2)] show ?thesis by blast
qed


text \<open>
  A snapshot of names that are not UTF-8 is not faithful: a follower that recovers from it
  knows the user under another name than the nodes that applied the log.
\<close>

theorem snapshot_changes_names:
  "\<exists>op b. b = broker_userOpened op empty_broker \<and> opened_uid op = [0xFF] \<and>
     NGet 1 [0xFF] (gs ''c'') (userClients b) = Some (gs ''tcp'') \<and>
     NGet 1 [0xFF] (gs ''c'') (userClients (recoverFromSnapshot (json_snapshot (makeSnapshot b)))) = None \<and>
     NGet 1 [0xEF, 0xBF, 0xBD] (gs ''c'') (userClients (recoverFromSnapshot (json_snapshot (makeSnapshot b)))) =
       Some (gs ''tcp'')"
proof -
  let ?op = "\<lparr>opened_uid = [0xFF], opened_cid = gs ''c'', opened_net = gs ''tcp'', opened_nodeID = 1,
    opened_channels = []\<rparr>"
  show ?thesis
  proof (intro exI [of _ ?op] exI conjI)
    show "broker_userOpened ?op empty_broker = broker_userOpened ?op empty_broker" ..
  qed code_simp+
qed

text \<open>
  Removing a node leaves the expected cluster size one too high, because the size is computed
  before the peer is deleted; so when a new broker then joins, the leader takes the cluster for
  complete and never proposes it to the raft group.
\<close>

theorem removed_node_blocks_join:
  assumes "RMap_ok (peers c)" and "i \<noteq> nodeId c" and "RMap_Get i (peers c) \<noteq> None"
    and "j \<noteq> nodeId c" and "j \<noteq> i" and "RMap_Get j (peers c) = None"
  shows "cluster_size (applyRemoveNode i c) = RMap_Len (peers (applyRemoveNode i c)) + 2 \<and>
    conf_proposals (snd (AddBroker dial perr j addr (applyRemoveNode i c))) = conf_proposals c"
proof -
  let ?c = "applyRemoveNode i c"
  have c: "peers ?c = snd (RMap_Delete i (peers c))" "cluster_size ?c = RMap_Len (peers c) + 1"
    "nodeId ?c = nodeId c" "conf_proposals ?c = conf_proposals c"
    using assms(2) by (simp_all add: applyRemoveNode_def Let_def)
  have ok: "RMap_ok (peers ?c)" using rmap.ok_del [OF assms(1)] by (simp add: c)
  have len: "RMap_Len (peers ?c) = RMap_Len (peers c) - 1"
    using rmap.len_del [OF assms(1), of i] rmap.del_fst [OF assms(1), of i] assms(3) by (simp add: c)
  have new: "RMap_Get j (peers ?c) = None"
    using rmap.get_del [OF assms(1), of j i] assms(6) by (simp add: c)
  have "RMap_Len (snd (RMap_Set j peer (peers ?c))) = cluster_size ?c - 1" for peer
    using rmap.len_put [OF ok, of j peer] new len by (simp add: c)
  with new assms(4) c len show ?thesis by (simp add: AddBroker_def Let_def)
qed

text \<open>
  The peers a node starts raft with: the slice is made with \<open>size\<close> elements and appended to, so
  besides this node and its peers it holds \<open>size - 1\<close> peers with the id 0.
\<close>

theorem initPeers_zeros:
  assumes "0 < sint (cluster_size c)"
  shows "initPeers c = Ok (nodeId c # replicate (nat (sint (cluster_size c)) - 1) 0 @ map fst (rmap_m (peers c)))"
proof -
  have fold: "fold (\<lambda>(k, v) acc. acc @ [k]) m acc = acc @ map fst m" for m :: "(u64 \<times> peer_client) list" and acc
    by (induction m arbitrary: acc) auto
  obtain k where "nat (sint (cluster_size c)) = Suc k" using assms by (cases "nat (sint (cluster_size c))") auto
  with assms show ?thesis
    by (simp add: initPeers_def RMap_Range_def Map_Range_fold fold)
qed

subsection \<open>Witnesses\<close>

definition demo_cluster :: "unit cluster" where
  "demo_cluster = (newCluster 1 3)\<lparr>raft_started := True, leader := 1, broker := demo_broker,
     appliedIndex := 2000, peers := \<lparr>rmap_m = [(2, newPeerClient 2 (gs ''a'')), (3, newPeerClient 3 (gs ''b''))], rmap_l = 2\<rparr>\<rparr>"

definition demo_closed :: opdata where
  "demo_closed = UserClosed \<lparr>closed_uid = gs ''u'', closed_cid = gs ''c'', closed_nodeID = 1\<rparr>"

theorem submitted_operation_applied_witness:
  "\<exists>data. proposals (get_Ok (SubmitOperation demo_closed demo_cluster)) = [data] \<and>
     is_Ok (applyRaftOp data demo_cluster)"
proof -
  have 1: "SubmitOperation demo_closed demo_cluster = Ok (get_Ok (SubmitOperation demo_closed demo_cluster))"
    by (rule get_Ok) code_simp
  have 2: "op_ok demo_closed" by (simp add: op_ok_def demo_closed_def)
  have 3: "length (op_wire demo_closed) < 2 ^ 63"
    by (simp add: demo_closed_def userClosed_wire_def data_wire_def gs_def uvarint_bytes.simps)
  have "proposals demo_cluster = []" by (simp add: demo_cluster_def newCluster_def)
  with submitted_operation_applied [OF 2 3 1, of demo_cluster] show ?thesis by (auto simp: is_Ok_def)
qed

lemma demo_utf8: "broker_utf8 demo_broker"
proof -
  have "valid_utf8 (gs ''u'')" "valid_utf8 (gs ''c'')" "valid_utf8 (gs ''tcp'')" "valid_utf8 (gs ''room'')"
    by code_simp+
  then show ?thesis
    by (auto simp: broker_utf8_def demo_broker_eq NGet_def RMap_Get_def KeyMap_GetKey_def Map_Get_def
      split: if_splits)
qed

definition demo_entry :: raft_entry where
  "demo_entry = \<lparr>entry_Type = EntryNormal, entry_Index = 2001,
     entry_Data = last (proposals (get_Ok (SubmitOperation demo_closed demo_cluster)))\<rparr>"


theorem removed_node_blocks_join_witness:
  "cluster_size (applyRemoveNode 2 demo_cluster) = 3 \<and>
   conf_proposals (snd (AddBroker (\<lambda>_. None) None 4 (gs ''c'') (applyRemoveNode 2 demo_cluster))) = []"
proof -
  have ok: "RMap_ok (peers demo_cluster)"
    by (simp add: demo_cluster_def RMap_ok_def go_map_def)
  have h: "(2 :: u64) \<noteq> nodeId demo_cluster" "RMap_Get 2 (peers demo_cluster) \<noteq> None"
    "(4 :: u64) \<noteq> nodeId demo_cluster" "(4 :: u64) \<noteq> 2" "RMap_Get 4 (peers demo_cluster) = None"
    by (simp_all add: demo_cluster_def newCluster_def RMap_Get_def)
  from removed_node_blocks_join [OF ok h, of "\<lambda>_. None" None "gs ''c''"] show ?thesis
    by (simp add: demo_cluster_def newCluster_def applyRemoveNode_def Let_def RMap_Len_def RMap_Delete_def)
qed

theorem initPeers_zeros_witness: "initPeers demo_cluster = Ok [1, 0, 0, 2, 3]"
proof -
  have "0 < sint (cluster_size demo_cluster)" by (simp add: demo_cluster_def newCluster_def)
  from initPeers_zeros [OF this] show ?thesis
    by (simp add: demo_cluster_def newCluster_def numeral_eq_Suc)
qed

end
