(* ===== verification/Discovery.thy ===== *)
theory Discovery
  imports Framing Raft_Safety
begin

text \<open>
  Discovery of the other nodes by multicast, src/discovery/discovery.go, and what it makes of a
  cluster (src/cluster/cluster.go).

  Each iteration of the loops \<open>listen\<close> and \<open>watch\<close> is a function of the datagram received and the time
  \<open>now\<close>; the calls of the handler are listed in the order they are made. Times are nanoseconds on one
  monotonic clock. A datagram longer than the buffer is cut. The sockets, the
  goroutines and the local address are in theory \<open>Discovery_Loops\<close>.
\<close>

section \<open>State\<close>

record disc_node =
  dn_id :: u64
  dn_addr :: gostring
  dn_updateTime :: int

record discovery =
  d_id :: u64
  d_ipaddr :: gostring
  d_allNodes :: "(u64, disc_node) gomap"

datatype disc_call = NodeJoin u64 gostring | NodeLeave u64

definition NewMuticast :: "u64 \<Rightarrow> gostring \<Rightarrow> discovery" where
  "NewMuticast i addr = \<lparr>d_id = i, d_ipaddr = addr, d_allNodes = []\<rparr>"

definition disc_expiry :: int where
  "disc_expiry = 30 * 1000000000"

section \<open>Operations\<close>

text \<open>The range visits every entry once and deletes the ones it finds too old.\<close>

definition updateNode :: "int \<Rightarrow> u64 \<Rightarrow> gostring \<Rightarrow> discovery \<Rightarrow> disc_call list \<times> discovery" where
  "updateNode now i addr d =
     (let m = AList.update i \<lparr>dn_id = i, dn_addr = addr, dn_updateTime = now\<rparr> (d_allNodes d);
          (calls, m') = foldl (\<lambda>(calls, m') (k, n).
             if now - dn_updateTime n > disc_expiry
             then (calls @ [NodeLeave (dn_id n)], AList.delete (dn_id n) m')
             else (calls, m')) ([], m) m
      in (calls @ [NodeJoin i addr], d\<lparr>d_allNodes := m'\<rparr>))"

text \<open>The announcement a node sends: its id and its address.\<close>

definition announcement :: "discovery \<Rightarrow> bytes" where
  "announcement d =
     fst (Pick (WriteString (d_ipaddr d) (WriteUInt64 (d_id d) (fst (NewEncoder None [])))) [])"

definition read_announcement :: "bytes \<Rightarrow> (coder_error, u64 \<times> gostring) outcome" where
  "read_announcement body =
     obind (ReadUInt64 (NewDecoder body)) (\<lambda>(i, dec1).
     obind (ReadString dec1) (\<lambda>(addr, dec2). Ok (i, addr)))"

text \<open>
  One datagram in \<open>listen\<close>: everything but a discovery request is logged and skipped; the reply is
  written to the sender. When the reply cannot be encoded an empty datagram is written.
\<close>

definition disc_listen ::
  "int \<Rightarrow> bytes \<Rightarrow> discovery \<Rightarrow> (go_error, disc_call list \<times> bytes option \<times> discovery) outcome" where
  "disc_listen now datagram d =
     (case packet_Unmarshal (take MAX_UDP datagram) of
        Panic \<Rightarrow> Panic
      | Err e \<Rightarrow> Ok ([], None, d)
      | Ok (PRequest req) \<Rightarrow>
          if Method req \<noteq> gs ''discovery'' then Ok ([], None, d)
          else (case read_announcement (request_Body req) of
                  Panic \<Rightarrow> Panic
                | Err e \<Rightarrow> Ok ([], None, d)
                | Ok (i, addr) \<Rightarrow>
                    (case updateNode now i addr d of (calls, d') \<Rightarrow>
                      (case packet_Marshal (PResponse (request_Response req StatusOK [announcement d'])) of
                         Panic \<Rightarrow> Panic
                       | Err e \<Rightarrow> Ok (calls, Some [], d')
                       | Ok data \<Rightarrow> Ok (calls, Some data, d'))))
      | Ok p \<Rightarrow> Ok ([], None, d))"

definition disc_watch :: "int \<Rightarrow> bytes \<Rightarrow> discovery \<Rightarrow> (go_error, disc_call list \<times> discovery) outcome" where
  "disc_watch now datagram d =
     (case packet_Unmarshal (take MAX_UDP datagram) of
        Panic \<Rightarrow> Panic
      | Err e \<Rightarrow> Ok ([], d)
      | Ok (PResponse resp) \<Rightarrow>
          (case read_announcement (response_Body resp) of
             Panic \<Rightarrow> Panic
           | Err e \<Rightarrow> Ok ([], d)
           | Ok (i, addr) \<Rightarrow> Ok (updateNode now i addr d))
      | Ok p \<Rightarrow> Ok ([], d))"

definition heartbeat :: "discovery \<Rightarrow> (go_error, bytes) outcome" where
  "heartbeat d = packet_Marshal (PRequest (NewRequest (gs ''discovery'') [announcement d]))"

section \<open>Announcements\<close>

lemma announcement_wire: "announcement d = be_bytes 8 (d_id d) @ data_wire (d_ipaddr d)"
  by (simp add: announcement_def Pick_def NewEncoder_def pool_get_def new_encoder_def op_writes)

lemma data_wire_length: "length (data_wire p) \<le> length p + 10"
proof -
  have "length (uvarint_bytes w) \<le> 9 + 1" for w
    by (rule uvarint_bytes_bounds(2)) (use unsigned_less [of w] in simp_all)
  then show ?thesis by (simp add: data_wire_def)
qed

lemma read_announcement_wire:
  assumes "length (d_ipaddr d) < 2 ^ 32"
  shows "read_announcement (announcement d) = Ok (d_id d, d_ipaddr d)"
proof -
  have w: "length (data_wire (d_ipaddr d)) < 2 ^ 33"
    using assms data_wire_length [of "d_ipaddr d"] by simp
  have "ReadUInt64 (dec_at [] (be_bytes 8 (d_id d) @ data_wire (d_ipaddr d))) =
      Ok (d_id d, dec_at ([] @ be_bytes 8 (d_id d)) (data_wire (d_ipaddr d)))"
    by (rule uint64.read_wire) (use w in \<open>simp_all add: room_def\<close>)
  moreover have "ReadString (dec_at (be_bytes 8 (d_id d)) (data_wire (d_ipaddr d) @ [])) =
      Ok (d_ipaddr d, dec_at (be_bytes 8 (d_id d) @ data_wire (d_ipaddr d)) [])"
    by (rule str.read_wire) (use w in \<open>simp_all add: room_def\<close>)
  ultimately show ?thesis by (simp add: read_announcement_def announcement_wire NewDecoder_at)
qed

section \<open>The table of nodes\<close>

definition disc_ok :: "discovery \<Rightarrow> bool" where
  "disc_ok d \<longleftrightarrow> go_map (d_allNodes d) \<and> list_all (\<lambda>(k, n). dn_id n = k) (d_allNodes d)"

definition fresh_at :: "int \<Rightarrow> disc_node \<Rightarrow> bool" where
  "fresh_at now n \<longleftrightarrow> now - dn_updateTime n \<le> disc_expiry"

lemma updateNode_range:
  assumes "list_all (\<lambda>(k, n). dn_id n = k) xs"
  shows "foldl (\<lambda>(calls, m') (k, n).
      if now - dn_updateTime n > disc_expiry then (calls @ [NodeLeave (dn_id n)], AList.delete (dn_id n) m')
      else (calls, m')) (calls, m) xs =
    (calls @ map (NodeLeave \<circ> fst) (filter (\<lambda>(k, n). \<not> fresh_at now n) xs),
     filter (\<lambda>(k, n). k \<notin> fst ` {(k, n) \<in> set xs. \<not> fresh_at now n}) m)"
  using assms
proof (induction xs arbitrary: calls m)
  case (Cons x xs)
  obtain k n where x: "x = (k, n)" and k: "dn_id n = k" using Cons.prems by (cases x) auto
  have del: "AList.delete k m = filter (\<lambda>(k', n). k \<noteq> k') m" by (simp add: AList.delete_eq)
  let ?S = "\<lambda>xs. fst ` {(k, n) \<in> set xs. \<not> fresh_at now n}"
  have S: "?S ((k, n) # xs) = (if fresh_at now n then ?S xs else insert k (?S xs))" by force
  show ?case
  proof (cases "fresh_at now n")
    case True
    with Cons S x k show ?thesis by (simp add: fresh_at_def)
  next
    case False
    have "filter (\<lambda>(k', n). k' \<notin> ?S xs) (filter (\<lambda>(k', n). k \<noteq> k') m) =
        filter (\<lambda>(k', n). k' \<notin> insert k (?S xs)) m"
      by (auto intro!: filter_cong)
    with Cons S x k del False show ?thesis by (simp add: fresh_at_def)
  qed
qed simp

lemma filter_own_keys:
  assumes "go_map m"
  shows "filter (\<lambda>(k, n). k \<notin> fst ` {(k, n) \<in> set m. \<not> P n}) m = filter (\<lambda>(k, n). P n) m"
  using assms by (intro filter_cong) (auto simp: go_map_def image_iff dest: eq_key_imp_eq_value)

lemma update_own_key:
  "list_all (\<lambda>(k, n). dn_id n = k) m \<Longrightarrow> dn_id v = i \<Longrightarrow>
     list_all (\<lambda>(k, n). dn_id n = k) (AList.update i v m)"
  by (induction m) auto

lemma updateNode_ok:
  "disc_ok d \<Longrightarrow> list_all (\<lambda>(k, n). dn_id n = k)
     (AList.update i \<lparr>dn_id = i, dn_addr = addr, dn_updateTime = now\<rparr> (d_allNodes d))"
  by (simp add: disc_ok_def update_own_key)

lemma updateNode_eq:
  fixes now :: int and i :: u64 and addr :: gostring
  assumes "disc_ok d"
  defines "m \<equiv> AList.update i \<lparr>dn_id = i, dn_addr = addr, dn_updateTime = now\<rparr> (d_allNodes d)"
  shows "updateNode now i addr d =
    (map (NodeLeave \<circ> fst) (filter (\<lambda>(k, n). \<not> fresh_at now n) m) @ [NodeJoin i addr],
     d\<lparr>d_allNodes := filter (\<lambda>(k, n). fresh_at now n) m\<rparr>)"
  using updateNode_range [OF updateNode_ok [OF assms(1), of i addr now], of now "[]" m]
    filter_own_keys [of m "fresh_at now"] assms
  by (simp add: updateNode_def Let_def disc_ok_def)

lemma map_of_filter_val:
  "go_map m \<Longrightarrow> map_of (filter (\<lambda>(k, n). P n) m) k =
     (case map_of m k of Some n \<Rightarrow> if P n then Some n else None | None \<Rightarrow> None)"
  by (induction m) (force simp: go_map_def split: option.splits dest: map_of_SomeD)+

lemma updateNode_heard:
  assumes "disc_ok d"
  obtains js d' where "updateNode now i addr d = (js @ [NodeJoin i addr], d')"
    and "map_of (d_allNodes d') i = Some \<lparr>dn_id = i, dn_addr = addr, dn_updateTime = now\<rparr>"
    and "d_ipaddr d' = d_ipaddr d" and "d_id d' = d_id d"
  using updateNode_eq [OF assms, of now i addr] assms
  by (auto simp: map_of_filter_val disc_ok_def update_conv' fresh_at_def disc_expiry_def)

section \<open>Datagrams\<close>

lemma take_frame:
  assumes "packet_ok p" and "length (packet_wire p) + 2 \<le> MAX_UDP"
  obtains data where "packet_Marshal p = Ok data" and "packet_Unmarshal (take MAX_UDP data) = Ok p"
proof -
  let ?n = "length (packet_wire p)"
  have n: "?n \<le> MAX_LEN" "extra_bytes ?n = 0"
    using assms(2) by (simp_all add: MAX_UDP_def MAX_LEN_def MID_LEN_1_def extra_bytes_def packet_lens)
  have "packet_Marshal p = Ok (frame_header (packet_Type p) ?n @ packet_wire p)"
    using Marshal_frame [OF assms(1)] n(1) by simp
  moreover have "length (frame_header (packet_Type p) ?n @ packet_wire p) \<le> MAX_UDP"
    using n(2) assms(2) by simp
  ultimately show thesis using that Unmarshal_frame [OF assms(1) n(1), of "[]"] by simp
qed

lemma announcement_length: "length (announcement d) \<le> 18 + length (d_ipaddr d)"
  using data_wire_length [of "d_ipaddr d"] by (simp add: announcement_wire)

lemma gs_length [simp]: "length (gs s) = length s"
  by (simp add: gs_def)

section \<open>Joining a cluster\<close>

text \<open>The cluster is the handler of the discovery.\<close>

fun disc_handle ::
  "(gostring \<Rightarrow> go_error option) \<Rightarrow> go_error option \<Rightarrow> disc_call \<Rightarrow> 'cs cluster \<Rightarrow> (go_error, 'cs cluster) outcome" where
  "disc_handle dial perr (NodeJoin i addr) c = omap snd (OnNodeJoin dial perr i addr c)"
| "disc_handle dial perr (NodeLeave i) c = Ok (OnNodeLeave perr i c)"

text \<open>What holds of a cluster of \<open>n\<close> nodes that has heard of the nodes in \<open>S\<close>.\<close>

definition forming :: "u64 \<Rightarrow> nat \<Rightarrow> u64 set \<Rightarrow> 'cs cluster \<Rightarrow> bool" where
  "forming me n S c \<longleftrightarrow> nodeId c = me \<and> cluster_size c = of_nat n \<and> leader c = 0 \<and>
     conf_proposals c = [] \<and> RMap_ok (peers c) \<and> {i. RMap_Get i (peers c) \<noteq> None} = S \<and>
     (raft_started c \<longleftrightarrow> card S = n - 1)"

lemma RMap_Len_card: "RMap_ok m \<Longrightarrow> RMap_Len m = of_nat (card {k. RMap_Get k m \<noteq> None})"
  using card_dom_go_map [of "rmap_m m"]
  by (simp add: RMap_ok_def RMap_Len_def RMap_Get_def dom_def)

lemma RMap_finite: "finite {k. RMap_Get k m \<noteq> None}"
  using finite_dom_map_of [of "rmap_m m"] by (simp add: RMap_Get_def dom_def)

lemma forming_start: "me \<noteq> 0 \<Longrightarrow> 2 \<le> n \<Longrightarrow> forming me n {} (newCluster me (of_nat n))"
  by (auto simp: forming_def newCluster_def RMap_ok_def empty_RMap_def RMap_Get_def)

lemma join_size:
  assumes "RMap_ok m" and "card {k. RMap_Get k m \<noteq> None} \<le> n - 1" and "2 \<le> n" and "n < 2 ^ 31"
  shows "RMap_Len m = of_nat n - 1 \<longleftrightarrow> card {k. RMap_Get k m \<noteq> None} = n - 1"
proof -
  have pred: "(of_nat n :: u32) - 1 = of_nat (n - 1)" using assms(3) by (simp add: of_nat_diff)
  have inj: "(of_nat a :: u32) = of_nat b \<longleftrightarrow> a = b" if "a < 2 ^ 31" "b < 2 ^ 31" for a b
    using that by (simp add: word_of_nat_eq_iff take_bit_nat_eq_self)
  show ?thesis unfolding RMap_Len_card [OF assms(1)] pred by (rule inj) (use assms in auto)
qed

lemma startRaft_starts:
  assumes "cluster_size c = of_nat n" and "2 \<le> n" and "n < 2 ^ 31"
  shows "\<exists>ps. startRaft c = Ok (ps, c\<lparr>raft_started := True\<rparr>)"
proof -
  have "sint (of_nat n :: u32) = int n"
    using assms(3) by (simp add: signed_of_nat signed_take_bit_int_eq_self)
  with assms show ?thesis by (auto simp: startRaft_def initPeers_def)
qed

text \<open>Hearing of one more node, of one already known, or of oneself.\<close>

lemma forming_join:
  assumes F: "forming me n S c" and me: "me \<noteq> 0" and n: "2 \<le> n" "n < 2 ^ 31"
    and card: "card (insert i S - {me}) \<le> n - 1" and S: "me \<notin> S"
  shows "\<exists>c'. disc_handle dial perr (NodeJoin i addr) c = Ok c' \<and> forming me n (insert i S - {me}) c'"
proof -
  let ?T = "insert i S - {me}" and ?c = "snd (AddBroker dial perr i addr c)"
  have c: "RMap_ok (peers c)" "{j. RMap_Get j (peers c) \<noteq> None} = S" "nodeId c = me" "leader c = 0"
    using F by (simp_all add: forming_def)
  obtain ps where C: "?c = c\<lparr>peers := ps\<rparr>" and ok: "RMap_ok ps" and T: "{j. RMap_Get j ps \<noteq> None} = ?T"
  proof (cases "i = me")
    case True
    with c S that [of "peers c"] show thesis by (auto simp: AddBroker_def)
  next
    case other: False
    show thesis
    proof (cases "RMap_Get i (peers c)")
      case None
      let ?ps = "snd (RMap_Set i (fst (peer_connect dial (newPeerClient i addr))) (peers c))"
      have "{j. RMap_Get j ?ps \<noteq> None} = ?T" using rmap.get_put [OF c(1)] c(2) S other by auto
      with None other c me that [of ?ps] rmap.ok_put [OF c(1)] show thesis
        by (simp add: AddBroker_def IsLeader_def Let_def)
    next
      case (Some p)
      let ?ps = "RMap_via i (\<lambda>p. fst (peer_updateAddr dial addr p)) (peers c)"
      have "{j. RMap_Get j ?ps \<noteq> None} = ?T" using c(2) S Some other by auto
      with Some other c that [of ?ps] show thesis by (simp add: AddBroker_def)
    qed
  qed
  have "RMap_Len ps = of_nat n - 1 \<longleftrightarrow> card ?T = n - 1"
    using join_size [OF ok _ n] card by (simp only: T)
  moreover have "card S \<le> card ?T"
    using RMap_finite [of ps] S by (intro card_mono) (simp_all only: T, auto)
  ultimately show ?thesis
    using F startRaft_starts [of ?c n] n C ok T card
    by (auto simp: OnNodeJoin_def forming_def Let_def)
qed

lemma joins_forming:
  assumes "me \<noteq> 0" and "2 \<le> n" and "n < 2 ^ 31" and "card (set (map fst joins) - {me}) \<le> n - 1"
  shows "\<exists>c :: 'cs cluster. fold (\<lambda>(i, addr) acc. obind acc (disc_handle dial perr (NodeJoin i addr))) joins
      (Ok (newCluster me (of_nat n))) = Ok c \<and> forming me n (set (map fst joins) - {me}) c"
  using assms(4)
proof (induction joins rule: rev_induct)
  case Nil
  then show ?case using forming_start [OF assms(1,2)] by simp
next
  case (snoc x joins)
  obtain i addr where x: "x = (i, addr)" by (cases x)
  let ?S = "set (map fst joins) - {me}"
  have e: "set (map fst (joins @ [x])) - {me} = insert i ?S - {me}" by (auto simp: x)
  have "card ?S \<le> card (insert i ?S - {me})" by (intro card_mono) auto
  then have "card ?S \<le> n - 1" using snoc.prems unfolding e by (rule order_trans)
  from snoc.IH [OF this] obtain c :: "'cs cluster" where c: "fold (\<lambda>(i, addr) acc. obind acc (disc_handle dial perr (NodeJoin i addr))) joins
    (Ok (newCluster me (of_nat n))) = Ok c" "forming me n ?S c" by blast
  from forming_join [OF c(2) assms(1-3), of i dial perr addr] snoc.prems
  show ?case unfolding e by (auto simp: x c(1) simp del: disc_handle.simps)
qed

section \<open>Properties\<close>

text \<open>
  Two nodes find each other by one heartbeat: the node that hears it joins the sender at the
  address it announces and answers with its own, and the sender joins the answering node; both tables
  then hold the other with the time it was heard.
\<close>

theorem discovery_mutual:
  assumes "length (d_ipaddr a) \<le> 900" and "length (d_ipaddr b) \<le> 900" and "disc_ok a" and "disc_ok b"
  shows "\<exists>hb reply ja jb a' b'. heartbeat a = Ok hb \<and>
    disc_listen t hb b = Ok (jb @ [NodeJoin (d_id a) (d_ipaddr a)], Some reply, b') \<and>
    disc_watch t' reply a = Ok (ja @ [NodeJoin (d_id b) (d_ipaddr b)], a') \<and>
    map_of (d_allNodes b') (d_id a) = Some \<lparr>dn_id = d_id a, dn_addr = d_ipaddr a, dn_updateTime = t\<rparr> \<and>
    map_of (d_allNodes a') (d_id b) = Some \<lparr>dn_id = d_id b, dn_addr = d_ipaddr b, dn_updateTime = t'\<rparr>"
proof -
  let ?req = "NewRequest (gs ''discovery'') [announcement a]"
  let ?resp = "request_Response ?req StatusOK [announcement b]"
  have ann: "read_announcement (announcement d) = Ok (d_id d, d_ipaddr d)"
    if "length (d_ipaddr d) \<le> 900" for d using read_announcement_wire [of d] that by simp
  have data: "length (data_wire (gs ''discovery'')) \<le> 19" using data_wire_length [of "gs ''discovery''"] by simp
  obtain hb where hb: "packet_Marshal (PRequest ?req) = Ok hb" "packet_Unmarshal (take MAX_UDP hb) = Ok (PRequest ?req)"
    by (rule take_frame [of "PRequest ?req"])
      (use announcement_length [of a] assms(1) data in
        \<open>simp_all add: NewRequest_def u8map_ok_def request_wire_def u8map_wire_def MAX_UDP_def MID_LEN_1_def\<close>)
  obtain rp where rp: "packet_Marshal (PResponse ?resp) = Ok rp"
      "packet_Unmarshal (take MAX_UDP rp) = Ok (PResponse ?resp)"
    by (rule take_frame [of "PResponse ?resp"])
      (use announcement_length [of b] assms(2) in
        \<open>simp_all add: request_Response_def u8map_ok_def response_wire_def u8map_wire_def MAX_UDP_def MID_LEN_1_def\<close>)
  obtain jb b' where b': "updateNode t (d_id a) (d_ipaddr a) b = (jb @ [NodeJoin (d_id a) (d_ipaddr a)], b')"
    "map_of (d_allNodes b') (d_id a) = Some \<lparr>dn_id = d_id a, dn_addr = d_ipaddr a, dn_updateTime = t\<rparr>"
    "d_ipaddr b' = d_ipaddr b" "d_id b' = d_id b" by (rule updateNode_heard [OF assms(4)])
  obtain ja a' where a': "updateNode t' (d_id b) (d_ipaddr b) a = (ja @ [NodeJoin (d_id b) (d_ipaddr b)], a')"
    "map_of (d_allNodes a') (d_id b) = Some \<lparr>dn_id = d_id b, dn_addr = d_ipaddr b, dn_updateTime = t'\<rparr>"
    by (rule updateNode_heard [OF assms(3)])
  have "announcement b' = announcement b" using b' by (simp add: announcement_wire)
  then have "disc_listen t hb b = Ok (jb @ [NodeJoin (d_id a) (d_ipaddr a)], Some rp, b')"
    using hb(2) rp(1) ann [OF assms(1)] b'(1) by (simp add: disc_listen_def NewRequest_def)
  moreover have "disc_watch t' rp a = Ok (ja @ [NodeJoin (d_id b) (d_ipaddr b)], a')"
    using rp(2) ann [OF assms(2)] a'(1) by (simp add: disc_watch_def request_Response_def)
  moreover have "heartbeat a = Ok hb" using hb(1) by (simp add: heartbeat_def)
  ultimately show ?thesis using a'(2) b'(2) by blast
qed

theorem discovery_mutual_witness:
  "\<exists>hb reply ja jb a' b'. heartbeat (NewMuticast 1 (gs ''10.0.0.1:4567'')) = Ok hb \<and>
     disc_listen 5 hb (NewMuticast 2 (gs ''10.0.0.2:4567'')) =
       Ok (jb @ [NodeJoin 1 (gs ''10.0.0.1:4567'')], Some reply, b') \<and>
     disc_watch 6 reply (NewMuticast 1 (gs ''10.0.0.1:4567'')) =
       Ok (ja @ [NodeJoin 2 (gs ''10.0.0.2:4567'')], a')"
  using discovery_mutual [of "NewMuticast 1 (gs ''10.0.0.1:4567'')" "NewMuticast 2 (gs ''10.0.0.2:4567'')" 5 6]
  by (simp add: NewMuticast_def disc_ok_def) blast

text \<open>
  A node stays known as long as it is heard of within thirty seconds: after each announcement the
  table holds the announcing node and the nodes heard of not longer ago than that; every other one is
  reported as gone, once, before the announcing node is reported as joined.
\<close>

theorem discovery_expiry:
  assumes "disc_ok d" and "updateNode now i addr d = (calls, d')"
  shows "disc_ok d' \<and> distinct calls \<and> last calls = NodeJoin i addr \<and>
    (\<forall>k n. map_of (d_allNodes d') k = Some n \<longleftrightarrow>
       (if k = i then n = \<lparr>dn_id = i, dn_addr = addr, dn_updateTime = now\<rparr>
        else map_of (d_allNodes d) k = Some n \<and> now - dn_updateTime n \<le> disc_expiry)) \<and>
    (\<forall>k. NodeLeave k \<in> set calls \<longleftrightarrow>
       k \<noteq> i \<and> (\<exists>n. map_of (d_allNodes d) k = Some n \<and> now - dn_updateTime n > disc_expiry))"
proof -
  let ?m = "AList.update i \<lparr>dn_id = i, dn_addr = addr, dn_updateTime = now\<rparr> (d_allNodes d)"
  have gm: "go_map ?m" using assms(1) by (simp add: disc_ok_def)
  have old: "(k, n) \<in> set ?m \<longleftrightarrow> map_of ?m k = Some n" for k n
    using gm by (simp add: go_map_def)
  have calls: "calls = map (NodeLeave \<circ> fst) (filter (\<lambda>(k, n). \<not> fresh_at now n) ?m) @ [NodeJoin i addr]"
    and d': "d_allNodes d' = filter (\<lambda>(k, n). fresh_at now n) ?m"
    using updateNode_eq [OF assms(1)] assms(2) by (auto split: prod.splits)
  have "disc_ok d'"
    using gm updateNode_ok [OF assms(1), of i addr now]
    by (auto simp: disc_ok_def d' go_map_def list_all_iff distinct_map_filter)
  moreover have "distinct calls"
    using gm by (auto simp: calls go_map_def distinct_map_filter distinct_map inj_on_def)
  moreover have "map_of (d_allNodes d') k = Some n \<longleftrightarrow>
       (if k = i then n = \<lparr>dn_id = i, dn_addr = addr, dn_updateTime = now\<rparr>
        else map_of (d_allNodes d) k = Some n \<and> now - dn_updateTime n \<le> disc_expiry)" for k n
    by (auto simp: d' map_of_filter_val [OF gm] update_conv' fresh_at_def disc_expiry_def split: option.splits)
  moreover have "NodeLeave k \<in> set calls \<longleftrightarrow>
       k \<noteq> i \<and> (\<exists>n. map_of (d_allNodes d) k = Some n \<and> now - dn_updateTime n > disc_expiry)" for k
    by (auto simp: calls image_iff old update_conv' fresh_at_def disc_expiry_def split: if_splits)
  ultimately show ?thesis by (simp add: calls)
qed

theorem discovery_expiry_witness:
  "\<exists>d. disc_ok d \<and> map_of (d_allNodes d) 7 = None \<and> map_of (d_allNodes d) 8 \<noteq> None \<and>
     updateNode (31 * 1000000000) 8 [] (snd (updateNode 0 7 [] (NewMuticast 1 []))) =
       ([NodeLeave 7, NodeJoin 8 []], d)"
proof -
  let ?d = "snd (updateNode 0 7 [] (NewMuticast 1 []))"
  let ?e = "snd (updateNode (31 * 1000000000) 8 [] ?d)"
  have d: "disc_ok ?d" by code_simp
  have u: "updateNode (31 * 1000000000) 8 [] ?d = ([NodeLeave 7, NodeJoin 8 []], ?e)" by code_simp
  from discovery_expiry [OF d u] have "disc_ok ?e" by blast
  moreover have "map_of (d_allNodes ?e) 7 = None" "map_of (d_allNodes ?e) 8 \<noteq> None" by code_simp+
  ultimately show ?thesis using u by blast
qed

text \<open>
  C16. A cluster of \<open>n\<close> nodes forms by discovery: whatever the order of the announcements and however often
  they are repeated, one's own included, a node has as peers exactly the other nodes it has heard of
  and starts raft as soon as these are \<open>n - 1\<close>, no earlier, without proposing any change.
\<close>

theorem cluster_forms:
  assumes "me \<noteq> 0" and "2 \<le> n" and "n < 2 ^ 31" and "card (set (map fst joins) - {me}) \<le> n - 1"
  shows "\<exists>c :: 'cs cluster. fold (\<lambda>(i, addr) acc. obind acc (disc_handle dial perr (NodeJoin i addr))) joins
      (Ok (newCluster me (of_nat n))) = Ok c \<and>
    {i. RMap_Get i (peers c) \<noteq> None} = set (map fst joins) - {me} \<and>
    (raft_started c \<longleftrightarrow> card (set (map fst joins) - {me}) = n - 1) \<and> conf_proposals c = []"
proof -
  from joins_forming [OF assms] obtain c :: "'cs cluster" where
    "fold (\<lambda>(i, addr) acc. obind acc (disc_handle dial perr (NodeJoin i addr))) joins (Ok (newCluster me (of_nat n))) = Ok c"
    "forming me n (set (map fst joins) - {me}) c" by blast
  then show ?thesis by (auto simp: forming_def)
qed

theorem cluster_forms_witness:
  "\<exists>c. fold (\<lambda>(i, addr) acc. obind acc (disc_handle (\<lambda>_. None) None (NodeJoin i addr)))
       [(2, gs ''b''), (1, gs ''a''), (2, gs ''b''), (3, gs ''c'')] (Ok (newCluster 1 (of_nat 3))) = Ok (c :: unit cluster) \<and>
     raft_started c"
proof -
  let ?js = "[(2, gs ''b''), (1, gs ''a''), (2, gs ''b''), (3, gs ''c'')] :: (u64 \<times> gostring) list"
  have s: "set (map fst ?js) - {1} = {2, 3}" by auto
  have c: "card {2, 3 :: u64} = 2" by simp
  have "\<exists>c. fold (\<lambda>(i, addr) acc. obind acc (disc_handle (\<lambda>_. None) None (NodeJoin i addr))) ?js
      (Ok (newCluster 1 (of_nat 3))) = Ok (c :: unit cluster) \<and>
    {i. RMap_Get i (peers c) \<noteq> None} = {2, 3} \<and> (raft_started c \<longleftrightarrow> card {2, 3 :: u64} = 3 - 1) \<and> conf_proposals c = []"
    by (rule cluster_forms [where me = 1 and n = 3 and joins = ?js, unfolded s]) (simp_all only: c, simp_all)
  then obtain c :: "unit cluster"
    where "fold (\<lambda>(i, addr) acc. obind acc (disc_handle (\<lambda>_. None) None (NodeJoin i addr))) ?js
      (Ok (newCluster 1 (of_nat 3))) = Ok c" and "raft_started c \<longleftrightarrow> card {2, 3 :: u64} = 3 - 1" by (elim exE conjE)
  moreover from this(2) have "raft_started c" by simp
  ultimately show ?thesis by (intro exI conjI)
qed

text \<open>
  One datagram to the multicast group takes every node down: a discovery request whose method name
  announces \<open>2^64 - 1\<close> bytes makes the decoder panic in the loop that listens.
\<close>

theorem discovery_datagram_panics:
  "disc_listen now [0x30, 0x0c, 0, 0, 0xff, 0xff, 0xff, 0xff, 0xff, 0xff, 0xff, 0xff, 0xff, 0x01] d = Panic"
proof -
  have "packet_Unmarshal (take MAX_UDP [0x30, 0x0c, 0, 0, 0xff, 0xff, 0xff, 0xff, 0xff, 0xff, 0xff, 0xff, 0xff, 0x01])
    = Panic" by code_simp
  then show ?thesis by (simp add: disc_listen_def)
qed

end
