(* ===== verification/Strconv.thy ===== *)
theory Strconv
  imports Errors
begin

text \<open>
  The text conversions of Go's standard library that the repository uses (\<open>strconv.ParseUint\<close>,
  \<open>strconv.ParseInt\<close> and \<open>strings.TrimSpace\<close>), and the functions built on them:
  \<open>ParseKind\<close> of src/packet/message.go and \<open>GetNodeId\<close> of src/cluster/options.go.

  A syntax error and a number out of range are the same error here; no caller tells them apart.
\<close>

section \<open>Numbers\<close>

definition digit :: "byte \<Rightarrow> nat option" where
  "digit b = (if 0x30 \<le> b \<and> b \<le> 0x39 then Some (unat b - 0x30) else None)"

fun parse_digits :: "gostring \<Rightarrow> nat \<Rightarrow> nat option" where
  "parse_digits [] n = Some n"
| "parse_digits (b # bs) n =
     (case digit b of None \<Rightarrow> None | Some k \<Rightarrow> parse_digits bs (10 * n + k))"

definition go_ParseUint :: "nat \<Rightarrow> gostring \<Rightarrow> nat option" where
  "go_ParseUint bits s =
     (if s = [] then None
      else case parse_digits s 0 of
             None \<Rightarrow> None
           | Some n \<Rightarrow> if n < 2 ^ bits then Some n else None)"

definition go_ParseInt :: "nat \<Rightarrow> gostring \<Rightarrow> int option" where
  "go_ParseInt bits s =
     (let (neg, u) = (case s of [] \<Rightarrow> (False, s)
                      | b # r \<Rightarrow> if b = 0x2B then (False, r) else if b = 0x2D then (True, r) else (False, s))
      in case go_ParseUint bits u of
           None \<Rightarrow> None
         | Some n \<Rightarrow>
             if \<not> neg \<and> n \<ge> 2 ^ (bits - 1) then None
             else if neg \<and> n > 2 ^ (bits - 1) then None
             else Some (if neg then - int n else int n))"

section \<open>Spaces\<close>

text \<open>The UTF-8 encodings of the runes that \<open>unicode.IsSpace\<close> accepts.\<close>

definition spaces :: "gostring list" where
  "spaces =
     [[0x09], [0x0A], [0x0B], [0x0C], [0x0D], [0x20], [0xC2, 0x85], [0xC2, 0xA0], [0xE1, 0x9A, 0x80],
      [0xE2, 0x80, 0x80], [0xE2, 0x80, 0x81], [0xE2, 0x80, 0x82], [0xE2, 0x80, 0x83], [0xE2, 0x80, 0x84],
      [0xE2, 0x80, 0x85], [0xE2, 0x80, 0x86], [0xE2, 0x80, 0x87], [0xE2, 0x80, 0x88], [0xE2, 0x80, 0x89],
      [0xE2, 0x80, 0x8A], [0xE2, 0x80, 0xA8], [0xE2, 0x80, 0xA9], [0xE2, 0x80, 0xAF], [0xE2, 0x81, 0x9F],
      [0xE3, 0x80, 0x80]]"

lemma spaces_nonempty: "[] \<notin> set spaces"
  by (simp add: spaces_def)

definition starts_with :: "gostring \<Rightarrow> gostring \<Rightarrow> bool" where
  "starts_with p s \<longleftrightarrow> take (length p) s = p"

text \<open>Drops what matches one of the patterns from the front, as often as one does.\<close>

function trim_left :: "gostring list \<Rightarrow> gostring \<Rightarrow> gostring" where
  "trim_left ps s =
     (case find (\<lambda>p. p \<noteq> [] \<and> starts_with p s) ps of
        None \<Rightarrow> s
      | Some p \<Rightarrow> trim_left ps (drop (length p) s))"
  by pat_completeness auto
termination
proof (relation "measure (\<lambda>(ps, s). length s)", goal_cases)
  case (2 ps s p)
  then have "p \<noteq> []" "take (length p) s = p" by (auto simp: find_Some_iff starts_with_def)
  then have "s \<noteq> []" by auto
  with \<open>p \<noteq> []\<close> show ?case by simp
qed simp

declare trim_left.simps [simp del]

definition go_TrimSpace :: "gostring \<Rightarrow> gostring" where
  "go_TrimSpace s = rev (trim_left (map rev spaces) (rev (trim_left spaces s)))"

section \<open>Message kinds and node ids\<close>

definition ParseKind :: "gostring \<Rightarrow> (go_error, byte) outcome" where
  "ParseKind k0 =
     (let k = go_TrimSpace k0
      in case go_ParseInt 32 k of
           None \<Rightarrow> Err (OtherError ''invalid message kind'')
         | Some i \<Rightarrow> if i < 0 \<or> i > 0xff then Err (OtherError ''invalid message kind'') else Ok (of_int i))"

text \<open>\<open>GetNodeId\<close>: \<open>hostname\<close> is what \<open>os.Hostname\<close> returns, \<open>rnd\<close> the random number drawn.\<close>

definition GetNodeId :: "gostring option \<Rightarrow> u64 \<Rightarrow> u64" where
  "GetNodeId hostname rnd =
     (case hostname of
        None \<Rightarrow> rnd
      | Some h \<Rightarrow>
          (let strs = go_Split (gs ''-'') h
           in if length strs > 1 then
                (case go_ParseUint 64 (last strs) of Some n \<Rightarrow> of_nat n + 10000 | None \<Rightarrow> rnd)
              else rnd))"

section \<open>Decimal numbers\<close>

text \<open>What \<open>%d\<close> prints for a number that is not negative.\<close>

function itoa :: "nat \<Rightarrow> gostring" where
  "itoa n = (if n < 10 then [0x30 + of_nat n] else itoa (n div 10) @ [0x30 + of_nat (n mod 10)])"
  by pat_completeness auto
termination
  by (relation "measure id") auto

declare itoa.simps [simp del]

lemma digit_of_nat: "k < 10 \<Longrightarrow> digit (0x30 + of_nat k) = Some k"
proof -
  assume "k < 10"
  then have "k \<in> set [0..<10]" by simp
  then show ?thesis by (auto simp: upt_rec digit_def)
qed

lemma parse_digits_append:
  "parse_digits (a @ b) n = (case parse_digits a n of None \<Rightarrow> None | Some m \<Rightarrow> parse_digits b m)"
  by (induction a arbitrary: n) (auto split: option.split)

lemma parse_itoa: "parse_digits (itoa n) 0 = Some n"
proof (induction n rule: itoa.induct)
  case (1 n)
  then show ?case
    by (subst itoa.simps) (simp add: digit_of_nat parse_digits_append)
qed

lemma itoa_digits: "b \<in> set (itoa n) \<Longrightarrow> 0x30 \<le> b \<and> b \<le> 0x39"
proof (induction n rule: itoa.induct)
  case (1 n)
  have d: "0x30 \<le> (0x30 + of_nat k :: byte) \<and> (0x30 + of_nat k :: byte) \<le> 0x39" if "k < 10" for k
    using digit_of_nat [OF that] by (auto simp: digit_def split: if_splits)
  from 1 show ?case by (subst (asm) (2) itoa.simps) (auto simp: d split: if_splits)
qed

lemma itoa_nonempty: "itoa n \<noteq> []"
  by (subst itoa.simps) simp

lemma ParseUint_itoa: "n < 2 ^ bits \<Longrightarrow> go_ParseUint bits (itoa n) = Some n"
  by (simp add: go_ParseUint_def itoa_nonempty parse_itoa)

text \<open>A string that does not begin like one of the patterns is not trimmed.\<close>

lemma trim_left_id:
  assumes "s \<noteq> []" and "\<forall>p \<in> set ps. p \<noteq> [] \<longrightarrow> hd p \<noteq> hd s"
  shows "trim_left ps s = s"
proof -
  have "find (\<lambda>p. p \<noteq> [] \<and> starts_with p s) ps = None"
    using assms by (auto simp: find_None_iff starts_with_def) (metis hd_append2 append_take_drop_id)
  then show ?thesis by (simp add: trim_left.simps [of ps s])
qed

lemma TrimSpace_itoa: "go_TrimSpace (itoa n) = itoa n"
proof -
  have "hd (itoa n) \<in> set (itoa n)" "hd (rev (itoa n)) \<in> set (itoa n)"
    using itoa_nonempty [of n] by (simp, metis hd_in_set rev_is_Nil_conv set_rev)
  then have "0x30 \<le> hd (itoa n) \<and> hd (itoa n) \<le> 0x39"
    "0x30 \<le> hd (rev (itoa n)) \<and> hd (rev (itoa n)) \<le> 0x39" by (blast dest: itoa_digits)+
  then have "trim_left spaces (itoa n) = itoa n" "trim_left (map rev spaces) (rev (itoa n)) = rev (itoa n)"
    using itoa_nonempty [of n] by (auto intro!: trim_left_id simp: spaces_def)
  then show ?thesis by (simp add: go_TrimSpace_def)
qed

text \<open>Splitting at a single byte: the last part is what follows the last of them.\<close>

lemma Cut_byte:
  "c \<notin> set s \<Longrightarrow> go_Cut [c] s = None" "c \<notin> set s \<Longrightarrow> go_Cut [c] (s @ c # t) = Some (s, t)"
  by (induction s) auto

lemma last_Split_byte: "c \<notin> set t \<Longrightarrow> last (go_Split [c] (p @ c # t)) = t \<and> 1 < length (go_Split [c] (p @ c # t))"
proof (induction "length p" arbitrary: p rule: less_induct)
  case less
  show ?case
  proof (cases "c \<in> set p")
    case False
    then have "go_Cut [c] (p @ c # t) = Some (p, t)" by (rule Cut_byte(2))
    moreover have "go_Split [c] t = [t]" using less.prems by (simp add: go_Split.simps [of _ t] Cut_byte)
    ultimately show ?thesis by (simp add: go_Split.simps [of _ "p @ c # t"])
  next
    case True
    then obtain a b where p: "p = a @ c # b" "c \<notin> set a" by (meson split_list_first)
    then have "go_Cut [c] (p @ c # t) = Some (a, b @ c # t)" using Cut_byte(2) [of c a "b @ c # t"] by simp
    moreover have "go_Split [c] (b @ c # t) \<noteq> []" by (subst go_Split.simps) (simp split: option.split)
    ultimately show ?thesis using less.hyps [of b] less.prems p
      by (simp add: go_Split.simps [of _ "a @ c # b @ c # t"])
  qed
qed

section \<open>Properties\<close>

text \<open>
  The pods of a stateful set get distinct node ids: the host \<open>name-k\<close> gets \<open>k + 10000\<close>, whatever the
  name in front of the last hyphen and whatever number is drawn at random.
\<close>

theorem GetNodeId_ordinal:
  assumes "k + 10000 < 2 ^ 64"
  shows "unat (GetNodeId (Some (name @ gs ''-'' @ itoa k)) rnd) = k + 10000"
proof -
  have h: "gs ''-'' = [0x2D]" by (simp add: gs_def)
  have "0x2D \<notin> set (itoa k)" using itoa_digits [of "0x2D" k] by auto
  then have "last (go_Split [0x2D] (name @ 0x2D # itoa k)) = itoa k"
    "1 < length (go_Split [0x2D] (name @ 0x2D # itoa k))" by (blast dest: last_Split_byte)+
  moreover have "go_ParseUint 64 (itoa k) = Some k" using assms by (intro ParseUint_itoa) simp
  ultimately have "GetNodeId (Some (name @ gs ''-'' @ itoa k)) rnd = of_nat (k + 10000)"
    by (simp add: GetNodeId_def h)
  then show ?thesis using assms by (simp only: unat_of_nat) (simp add: take_bit_nat_eq_self)
qed

theorem GetNodeId_ordinal_witness: "unat (GetNodeId (Some (gs ''cable-0'' @ gs ''-'' @ itoa 12)) 7) = 10012"
  using GetNodeId_ordinal [of 12 "gs ''cable-0''" 7] by simp

text \<open>
  A message kind is read back from the text it is printed as, for every value of the type; the
  comment that 63 is the largest kind is not enforced here.
\<close>

lemma ParseKind_itoa:
  assumes "n < 256"
  shows "ParseKind (itoa n) = Ok (of_nat n)"
proof -
  have "hd (itoa n) \<in> set (itoa n)" using itoa_nonempty [of n] by simp
  then have "0x30 \<le> hd (itoa n)" by (blast dest: itoa_digits)
  then have "hd (itoa n) \<noteq> 0x2B" "hd (itoa n) \<noteq> 0x2D" by auto
  then have "go_ParseInt 32 (itoa n) = Some (int n)"
    using assms ParseUint_itoa [of n 32] itoa_nonempty [of n]
    by (cases "itoa n") (simp_all add: go_ParseInt_def)
  with assms show ?thesis by (simp add: ParseKind_def TrimSpace_itoa)
qed

end
