(* ===== verification/Etcd.thy ===== *)
theory Etcd
  imports Discovery Strconv
begin

text \<open>
  Discovery of the other nodes through etcd, src/cmd/cable/discovery_etcd.go. The client of etcd is not part of
  the repository: its answers are arguments, and what the nodes ask of it is listed in order.

  The second half is a machine of several nodes and one store. It takes from etcd that a Get of a prefix
  returns the keys that are stored, that a watch reports every change made after it began, in order, and
  that a key goes with its lease. \<open>Start\<close> runs \<open>watchNodesLoop\<close> in a goroutine, so its watch and the Get of
  \<open>discoverExistingNodes\<close> begin in either order.
\<close>

section \<open>Keys\<close>

text \<open>The blanks that \<open>fmt.Sscanf\<close> skips before a number: every space but a newline.\<close>

definition scan_blanks :: "gostring list" where
  "scan_blanks = filter (\<lambda>p. p \<noteq> [0x0A]) spaces"

definition node_prefix :: gostring where
  "node_prefix = gs ''/cable/nodes/''"

definition nodeKey :: "u64 \<Rightarrow> gostring" where
  "nodeKey i = node_prefix @ itoa (unat i)"

definition extractNodeID :: "gostring \<Rightarrow> (go_error, u64) outcome" where
  "extractNodeID key =
     (if \<not> starts_with node_prefix key then Err (OtherError ''failed to parse node ID'')
      else case go_ParseUint 64 (takeWhile (\<lambda>b. digit b \<noteq> None) (trim_left scan_blanks (drop (length node_prefix) key))) of
             None \<Rightarrow> Err (OtherError ''failed to parse node ID'')
           | Some n \<Rightarrow> Ok (of_nat n))"

section \<open>One node\<close>

record etcdDiscovery =
  ed_id :: u64
  ed_ipaddr :: gostring
  ed_client :: bool
  ed_leaseID :: int
  ed_stopped :: bool
  ed_handler :: bool

text \<open>An interface with its addresses, when they can be read: the text of an IPv4 address, nothing for another.\<close>

record iface =
  if_up :: bool
  if_loopback :: bool
  if_addrs :: "gostring option list option"

fun getLocalIP :: "iface list \<Rightarrow> gostring option" where
  "getLocalIP [] = None"
| "getLocalIP (f # fs) =
     (if \<not> if_up f \<or> if_loopback f then getLocalIP fs
      else case if_addrs f of
             None \<Rightarrow> getLocalIP fs
           | Some as \<Rightarrow> (case find (\<lambda>a. a \<noteq> None) as of Some a \<Rightarrow> a | None \<Rightarrow> getLocalIP fs))"

definition newEtcdDiscovery :: "u64 \<Rightarrow> u16 \<Rightarrow> iface list option \<Rightarrow> (go_error, etcdDiscovery) outcome" where
  "newEtcdDiscovery i port ifaces =
     (case Option.bind ifaces getLocalIP of
        None \<Rightarrow> Panic
      | Some ip \<Rightarrow>
          Ok \<lparr>ed_id = i, ed_ipaddr = ip @ gs '':'' @ itoa (unat port), ed_client = False, ed_leaseID = 0,
              ed_stopped = False, ed_handler = False\<rparr>)"

definition SetHandler :: "bool \<Rightarrow> etcdDiscovery \<Rightarrow> etcdDiscovery" where
  "SetHandler h e = e\<lparr>ed_handler := h\<rparr>"

datatype etcd_op = OpGrant int | OpPut gostring gostring int | OpKeepAlive int | OpWatch gostring | OpGet gostring | OpRevoke int

definition discoverExistingNodes :: "(gostring \<times> gostring) list \<Rightarrow> etcdDiscovery \<Rightarrow> disc_call list" where
  "discoverExistingNodes kvs e =
     concat (map (\<lambda>(key, value).
       case extractNodeID key of
         Ok i \<Rightarrow> if i \<noteq> ed_id e \<and> ed_handler e then [NodeJoin i value] else []
       | _ \<Rightarrow> []) kvs)"

text \<open>
  \<open>Start\<close>: an error of the client is logged and ends it. The requests of the two goroutines are listed
  before the Get.
\<close>

record etcd_answers =
  ans_New :: "go_error option"
  ans_Grant :: "(go_error, int) outcome"
  ans_Put :: "go_error option"
  ans_Get :: "(go_error, (gostring \<times> gostring) list) outcome"

definition etcd_Start :: "etcd_answers \<Rightarrow> etcdDiscovery \<Rightarrow> etcd_op list \<times> disc_call list \<times> etcdDiscovery" where
  "etcd_Start ans e =
     (if ans_New ans \<noteq> None then ([], [], e)
      else let e1 = e\<lparr>ed_client := True\<rparr> in
        case ans_Grant ans of
          Ok lease \<Rightarrow>
            (let e2 = e1\<lparr>ed_leaseID := lease\<rparr>;
                 ops = [OpGrant 10, OpPut (nodeKey (ed_id e)) (ed_ipaddr e) lease]
             in if ans_Put ans \<noteq> None then (ops, [], e2)
                else (ops @ [OpKeepAlive lease, OpWatch node_prefix, OpGet node_prefix],
                      case ans_Get ans of Ok kvs \<Rightarrow> discoverExistingNodes kvs e2 | _ \<Rightarrow> [], e2))
        | _ \<Rightarrow> ([OpGrant 10], [], e1))"

datatype etcd_event = EventPut gostring gostring | EventDelete gostring

fun watch_event :: "etcd_event \<Rightarrow> etcdDiscovery \<Rightarrow> disc_call list" where
  "watch_event (EventPut key value) e =
     (case extractNodeID key of Ok i \<Rightarrow> if ed_handler e then [NodeJoin i value] else [] | _ \<Rightarrow> [])"
| "watch_event (EventDelete key) e =
     (case extractNodeID key of Ok i \<Rightarrow> if ed_handler e then [NodeLeave i] else [] | _ \<Rightarrow> [])"

text \<open>\<open>watchNodesLoop\<close> on the responses of the watch, up to the first error.\<close>

fun watchNodesLoop :: "(go_error, etcd_event list) outcome list \<Rightarrow> etcdDiscovery \<Rightarrow> disc_call list" where
  "watchNodesLoop (Ok evs # resps) e = concat (map (\<lambda>ev. watch_event ev e) evs) @ watchNodesLoop resps e"
| "watchNodesLoop _ e = []"

text \<open>\<open>Shutdown\<close>: the second call closes a closed channel.\<close>

definition etcd_Shutdown ::
  "go_error option \<Rightarrow> etcdDiscovery \<Rightarrow> (go_error, (etcd_op list \<times> go_error option) \<times> etcdDiscovery) outcome" where
  "etcd_Shutdown close_err e =
     (if ed_stopped e then Panic
      else let e1 = e\<lparr>ed_stopped := True\<rparr> in
        Ok (if ed_client e then ([OpRevoke (ed_leaseID e)], close_err) else ([], None), e1))"

section \<open>Keys and ids\<close>

lemma digit_range: "0x30 \<le> b \<Longrightarrow> b \<le> 0x39 \<Longrightarrow> digit b \<noteq> None"
  by (simp add: digit_def)

text \<open>The id of a node is read back from its key.\<close>

lemma extract_nodeKey [simp]: "extractNodeID (nodeKey i) = Ok i"
proof -
  let ?n = "itoa (unat i)"
  have d: "digit b \<noteq> None" if "b \<in> set ?n" for b using itoa_digits [OF that] digit_range by blast
  have hd: "0x30 \<le> hd ?n \<and> hd ?n \<le> 0x39"
    using itoa_nonempty [of "unat i"] itoa_digits [of "hd ?n" "unat i"] by simp
  have "trim_left scan_blanks ?n = ?n"
    by (rule trim_left_id) (use itoa_nonempty hd in \<open>auto simp: scan_blanks_def spaces_def\<close>)
  moreover have "takeWhile (\<lambda>b. digit b \<noteq> None) ?n = ?n" using d by (auto simp: takeWhile_eq_all_conv)
  moreover have "unat i < 2 ^ 64" using unsigned_less [of i] by simp
  ultimately show ?thesis
    by (simp add: extractNodeID_def nodeKey_def starts_with_def ParseUint_itoa takeWhile_eq_all_conv [THEN iffD2])
qed

lemma nodeKey_inj [simp]: "nodeKey i = nodeKey j \<longleftrightarrow> i = j"
  using extract_nodeKey [of i] extract_nodeKey [of j] by (metis outcome.inject(1))

section \<open>Several nodes and one store\<close>

datatype phase = Idle | Registered | Gone

record member =
  m_disc :: etcdDiscovery
  m_phase :: phase
  m_watching :: bool
  m_discovered :: bool
  m_late :: bool
  m_calls :: "disc_call list"

record etcd_world =
  ew_store :: "(gostring, gostring) gomap"
  ew_members :: "u64 \<Rightarrow> member option"

definition new_member :: "etcdDiscovery \<Rightarrow> member" where
  "new_member e = \<lparr>m_disc = e, m_phase = Idle, m_watching = False, m_discovered = False, m_late = False, m_calls = []\<rparr>"

definition etcd_init :: "(u64 \<Rightarrow> etcdDiscovery option) \<Rightarrow> etcd_world" where
  "etcd_init nodes = \<lparr>ew_store = [], ew_members = (\<lambda>i. map_option new_member (nodes i))\<rparr>"

definition deliver :: "etcd_event \<Rightarrow> member \<Rightarrow> member" where
  "deliver ev m = (if m_watching m then m\<lparr>m_calls := m_calls m @ watch_event ev (m_disc m)\<rparr> else m)"

definition broadcast :: "etcd_event \<Rightarrow> (u64 \<Rightarrow> member option) \<Rightarrow> u64 \<Rightarrow> member option" where
  "broadcast ev ms = (\<lambda>j. map_option (deliver ev) (ms j))"

text \<open>The field \<open>m_late\<close> says that the watch had not begun when the nodes were read.\<close>

inductive etcd_step :: "etcd_world \<Rightarrow> etcd_world \<Rightarrow> bool" where
  step_register:
    "ew_members w i = Some m \<Longrightarrow> m_phase m = Idle \<Longrightarrow> key = nodeKey (ed_id (m_disc m)) \<Longrightarrow> addr = ed_ipaddr (m_disc m) \<Longrightarrow>
     etcd_step w (w\<lparr>ew_store := AList.update key addr (ew_store w),
       ew_members := broadcast (EventPut key addr) ((ew_members w)(i \<mapsto> m\<lparr>m_phase := Registered\<rparr>))\<rparr>)"
| step_watch:
    "ew_members w i = Some m \<Longrightarrow> m_phase m \<noteq> Idle \<Longrightarrow>
     etcd_step w (w\<lparr>ew_members := (ew_members w)(i \<mapsto> m\<lparr>m_watching := True\<rparr>)\<rparr>)"
| step_discover:
    "ew_members w i = Some m \<Longrightarrow> m_phase m \<noteq> Idle \<Longrightarrow> \<not> m_discovered m \<Longrightarrow>
     etcd_step w (w\<lparr>ew_members := (ew_members w)(i \<mapsto> m\<lparr>m_discovered := True, m_late := \<not> m_watching m,
       m_calls := m_calls m @ discoverExistingNodes (ew_store w) (m_disc m)\<rparr>)\<rparr>)"
| step_expire:
    "ew_members w i = Some m \<Longrightarrow> m_phase m = Registered \<Longrightarrow> key = nodeKey (ed_id (m_disc m)) \<Longrightarrow>
     etcd_step w (w\<lparr>ew_store := AList.delete key (ew_store w),
       ew_members := broadcast (EventDelete key) ((ew_members w)(i \<mapsto> m\<lparr>m_phase := Gone\<rparr>))\<rparr>)"

section \<open>The invariant\<close>

text \<open>Who is stored, what a node has been told, and what it cannot have missed.\<close>

definition knows :: "member \<Rightarrow> member \<Rightarrow> bool" where
  "knows m other \<longleftrightarrow> NodeJoin (ed_id (m_disc other)) (ed_ipaddr (m_disc other)) \<in> set (m_calls m)"

fun stored_addr :: "member option \<Rightarrow> gostring option" where
  "stored_addr (Some m) = (if m_phase m = Registered then Some (ed_ipaddr (m_disc m)) else None)"
| "stored_addr None = None"

definition member_ok :: "u64 \<Rightarrow> member \<Rightarrow> bool" where
  "member_ok i m \<longleftrightarrow> ed_id (m_disc m) = i \<and> ed_handler (m_disc m) \<and>
     (m_phase m = Idle \<longrightarrow> \<not> m_watching m \<and> \<not> m_discovered m \<and> m_calls m = []) \<and>
     (m_discovered m \<longrightarrow> m_late m \<or> m_watching m)"

definition store_inv :: "etcd_world \<Rightarrow> bool" where
  "store_inv w \<longleftrightarrow> go_map (ew_store w) \<and> fst ` set (ew_store w) \<subseteq> range nodeKey \<and>
     (\<forall>i. map_of (ew_store w) (nodeKey i) = stored_addr (ew_members w i)) \<and>
     (\<forall>i m. ew_members w i = Some m \<longrightarrow> member_ok i m)"

fun call_ok :: "(u64 \<Rightarrow> member option) \<Rightarrow> u64 \<Rightarrow> disc_call \<Rightarrow> bool" where
  "call_ok ms i (NodeJoin k addr) \<longleftrightarrow> k \<noteq> i \<and> (\<exists>o'. ms k = Some o' \<and> addr = ed_ipaddr (m_disc o') \<and> m_phase o' \<noteq> Idle)"
| "call_ok ms i (NodeLeave k) \<longleftrightarrow> (\<exists>o'. ms k = Some o' \<and> m_phase o' = Gone)"

definition calls_inv :: "etcd_world \<Rightarrow> bool" where
  "calls_inv w \<longleftrightarrow> (\<forall>i m. ew_members w i = Some m \<longrightarrow> (\<forall>c \<in> set (m_calls m). call_ok (ew_members w) i c))"

definition known_inv :: "etcd_world \<Rightarrow> bool" where
  "known_inv w \<longleftrightarrow>
     (\<forall>i m j o'. ew_members w i = Some m \<longrightarrow> ew_members w j = Some o' \<longrightarrow> i \<noteq> j \<longrightarrow> m_phase o' = Registered \<longrightarrow>
        m_discovered m \<longrightarrow> (\<not> m_late m \<longrightarrow> knows m o') \<and>
        (m_phase m = Registered \<longrightarrow> m_discovered o' \<longrightarrow> knows m o' \<or> knows o' m))"

lemma deliver_fields [simp]:
  "m_disc (deliver ev m) = m_disc m" "m_phase (deliver ev m) = m_phase m" "m_watching (deliver ev m) = m_watching m"
  "m_discovered (deliver ev m) = m_discovered m" "m_late (deliver ev m) = m_late m"
  "m_calls (deliver ev m) = m_calls m @ (if m_watching m then watch_event ev (m_disc m) else [])"
  by (simp_all add: deliver_def)

lemma broadcast_Some: "broadcast ev ms j = Some m' \<longleftrightarrow> (\<exists>m. ms j = Some m \<and> m' = deliver ev m)"
  by (auto simp: broadcast_def)

lemma discover_joins:
  "NodeJoin k addr \<in> set (discoverExistingNodes kvs e) \<longleftrightarrow>
     ed_handler e \<and> k \<noteq> ed_id e \<and> (\<exists>key. (key, addr) \<in> set kvs \<and> extractNodeID key = Ok k)"
  by (force simp: discoverExistingNodes_def split: outcome.splits if_splits)

lemma discover_leaves: "NodeLeave k \<notin> set (discoverExistingNodes kvs e)"
  by (auto simp: discoverExistingNodes_def split: outcome.splits if_splits)

lemma watch_event_key:
  "ed_handler e \<Longrightarrow> watch_event (EventPut (nodeKey i) addr) e = [NodeJoin i addr]"
  "ed_handler e \<Longrightarrow> watch_event (EventDelete (nodeKey i)) e = [NodeLeave i]"
  by (simp_all add: extract_nodeKey)

lemma stored_broadcast [simp]: "stored_addr (broadcast ev ms j) = stored_addr (ms j)"
  by (cases "ms j") (simp_all add: broadcast_def)

lemma member_ok_deliver: "member_ok i m \<Longrightarrow> member_ok i (deliver ev m)"
  by (auto simp: member_ok_def)

lemma member_id: "store_inv w \<Longrightarrow> ew_members w i = Some m \<Longrightarrow> ed_id (m_disc m) = i \<and> ed_handler (m_disc m)"
  by (auto simp: store_inv_def member_ok_def)

lemma store_inv_step: "etcd_step w w' \<Longrightarrow> store_inv w \<Longrightarrow> store_inv w'"
proof (induction rule: etcd_step.induct)
  case (step_register w i m key addr)
  then have key: "key = nodeKey i" using member_id by blast
  have "member_ok i (m\<lparr>m_phase := Registered\<rparr>)"
    using step_register by (auto simp: store_inv_def member_ok_def)
  with step_register key show ?case
    by (auto simp: store_inv_def broadcast_Some update_conv' dom_update intro: member_ok_deliver)
next
  case (step_watch w i m)
  then have "member_ok i (m\<lparr>m_watching := True\<rparr>)" by (auto simp: store_inv_def member_ok_def)
  with step_watch show ?case by (auto simp: store_inv_def)
next
  case (step_discover w i m)
  then have "member_ok i (m\<lparr>m_discovered := True, m_late := \<not> m_watching m,
      m_calls := m_calls m @ discoverExistingNodes (ew_store w) (m_disc m)\<rparr>)"
    by (auto simp: store_inv_def member_ok_def)
  with step_discover show ?case by (auto simp: store_inv_def)
next
  case (step_expire w i m key)
  then have key: "key = nodeKey i" using member_id by blast
  have "member_ok i (m\<lparr>m_phase := Gone\<rparr>)"
    using step_expire by (auto simp: store_inv_def member_ok_def)
  moreover have "fst ` set (AList.delete key (ew_store w)) \<subseteq> range nodeKey"
    using step_expire(4) AList.dom_delete_subset [of key "ew_store w"] by (auto simp: store_inv_def)
  ultimately show ?case
    using step_expire key by (simp add: store_inv_def broadcast_Some delete_conv') (blast intro: member_ok_deliver)
qed

text \<open>What a node reads from the store.\<close>

lemma discover_stored:
  assumes "store_inv w" and "ew_members w i = Some m"
  shows "NodeJoin k addr \<in> set (discoverExistingNodes (ew_store w) (m_disc m)) \<longleftrightarrow>
    k \<noteq> i \<and> stored_addr (ew_members w k) = Some addr"
proof -
  have "(key, addr) \<in> set (ew_store w) \<and> extractNodeID key = Ok k \<longleftrightarrow>
      key = nodeKey k \<and> map_of (ew_store w) (nodeKey k) = Some addr" for key
  proof (cases "key \<in> range nodeKey")
    case True
    have "(key, addr) \<in> set (ew_store w) \<longleftrightarrow> map_of (ew_store w) key = Some addr"
      using assms(1) by (simp add: store_inv_def go_map_def)
    with True show ?thesis by auto
  next
    case False
    with assms(1) have "(key, addr) \<notin> set (ew_store w)" by (force simp: store_inv_def)
    with False show ?thesis by auto
  qed
  then show ?thesis
    using assms member_id [OF assms] by (auto simp: discover_joins store_inv_def)
qed

lemma stored_Some: "stored_addr x = Some addr \<longleftrightarrow> (\<exists>m. x = Some m \<and> m_phase m = Registered \<and> addr = ed_ipaddr (m_disc m))"
  by (cases x) auto

definition later :: "(u64 \<Rightarrow> member option) \<Rightarrow> (u64 \<Rightarrow> member option) \<Rightarrow> bool" where
  "later ms ms' \<longleftrightarrow> (\<forall>k o'. ms k = Some o' \<longrightarrow> (\<exists>o''. ms' k = Some o'' \<and> m_disc o'' = m_disc o' \<and>
     (m_phase o' \<noteq> Idle \<longrightarrow> m_phase o'' \<noteq> Idle) \<and> (m_phase o' = Gone \<longrightarrow> m_phase o'' = Gone)))"

lemma later_broadcast: "later ms ms' \<Longrightarrow> later ms (broadcast ev ms')"
  by (fastforce simp: later_def broadcast_def)

lemma later_update:
  "ms i = Some m \<Longrightarrow> m_disc m' = m_disc m \<Longrightarrow> (m_phase m \<noteq> Idle \<longrightarrow> m_phase m' \<noteq> Idle) \<Longrightarrow>
     (m_phase m = Gone \<longrightarrow> m_phase m' = Gone) \<Longrightarrow> later ms (ms(i \<mapsto> m'))"
  by (auto simp: later_def)

lemma call_ok_later: "call_ok ms i c \<Longrightarrow> later ms ms' \<Longrightarrow> call_ok ms' i c"
  by (cases c) (fastforce simp: later_def)+

lemma calls_inv_broadcast:
  assumes "calls_inv w" and "later (ew_members w) ms'" and "\<And>j m. ms' j = Some m \<Longrightarrow> \<exists>m0. ew_members w j = Some m0 \<and> m_calls m = m_calls m0"
    and "\<And>j m c. ms' j = Some m \<Longrightarrow> m_watching m \<Longrightarrow> c \<in> set (watch_event ev (m_disc m)) \<Longrightarrow> call_ok (broadcast ev ms') j c"
  shows "calls_inv (w\<lparr>ew_store := st, ew_members := broadcast ev ms'\<rparr>)"
  unfolding calls_inv_def
proof (intro allI impI ballI, simp add: broadcast_Some, elim exE conjE)
  fix j m m' c
  assume m': "ms' j = Some m" "m' = deliver ev m" and c: "c \<in> set (m_calls m')"
  obtain m0 where "ew_members w j = Some m0" "m_calls m = m_calls m0" using assms(3) [OF m'(1)] by blast
  then have "call_ok (ew_members w) j c" if "c \<in> set (m_calls m)" using that assms(1) by (auto simp: calls_inv_def)
  with assms(4) [OF m'(1)] c m'(2) later_broadcast [OF assms(2)] show "call_ok (broadcast ev ms') j c"
    by (auto intro: call_ok_later split: if_splits)
qed

lemma calls_inv_step: "etcd_step w w' \<Longrightarrow> store_inv w \<Longrightarrow> calls_inv w \<Longrightarrow> calls_inv w'"
proof (induction rule: etcd_step.induct)
  case (step_register w i m key addr)
  then have key: "key = nodeKey i" using member_id by blast
  from step_register have m: "\<not> m_watching m" by (simp add: store_inv_def member_ok_def)
  show ?case
    by (rule calls_inv_broadcast)
      (use step_register key m member_id [OF step_register(5)] in
        \<open>auto simp: watch_event_key broadcast_def intro!: later_update split: if_splits\<close>)
next
  case (step_watch w i m)
  then have "later (ew_members w) ((ew_members w)(i \<mapsto> m\<lparr>m_watching := True\<rparr>))" by (intro later_update) auto
  with step_watch show ?case by (auto simp: calls_inv_def intro: call_ok_later)
next
  case (step_discover w i m)
  let ?m = "m\<lparr>m_discovered := True, m_late := \<not> m_watching m,
      m_calls := m_calls m @ discoverExistingNodes (ew_store w) (m_disc m)\<rparr>"
  have later: "later (ew_members w) ((ew_members w)(i \<mapsto> ?m))" using step_discover by (intro later_update) auto
  have "call_ok (ew_members w) i c" if "c \<in> set (discoverExistingNodes (ew_store w) (m_disc m))" for c
  proof (cases c)
    case (NodeJoin k addr)
    with that discover_stored [OF step_discover(4,1), of k addr] show ?thesis by (auto simp: stored_Some)
  qed (use that discover_leaves in blast)
  with step_discover show ?case by (auto simp: calls_inv_def intro!: call_ok_later [OF _ later])
next
  case (step_expire w i m key)
  then have key: "key = nodeKey i" using member_id by blast
  show ?case
    by (rule calls_inv_broadcast)
      (use step_expire key member_id [OF step_expire(4)] in
        \<open>auto simp: watch_event_key broadcast_def intro!: later_update split: if_splits\<close>)
qed

lemma knows_deliver: "knows m o' \<Longrightarrow> m_disc o'' = m_disc o' \<Longrightarrow> knows (deliver ev m) o''"
  by (auto simp: knows_def)

lemma knows_put:
  assumes "m_watching m" and "ed_handler (m_disc m)" and "ed_id (m_disc o') = i"
  shows "knows (deliver (EventPut (nodeKey i) (ed_ipaddr (m_disc o'))) m) o'"
  using assms by (simp add: knows_def watch_event_key)

lemma known_inv_step: "etcd_step w w' \<Longrightarrow> store_inv w \<Longrightarrow> known_inv w \<Longrightarrow> known_inv w'"
proof (induction rule: etcd_step.induct)
  case (step_register w i m key addr)
  let ?w = "w\<lparr>ew_store := AList.update key addr (ew_store w),
    ew_members := broadcast (EventPut key addr) ((ew_members w)(i \<mapsto> m\<lparr>m_phase := Registered\<rparr>))\<rparr>"
  have key: "key = nodeKey i" using step_register member_id by blast
  have m: "\<not> m_discovered m" "ed_id (m_disc m) = i" using step_register by (simp_all add: store_inv_def member_ok_def)
  have old: "(\<not> m_late a \<longrightarrow> knows a b) \<and> (m_phase a = Registered \<longrightarrow> m_discovered b \<longrightarrow> knows a b \<or> knows b a)"
    if "ew_members w j = Some a" "ew_members w k = Some b" "j \<noteq> k" "m_phase b = Registered" "m_discovered a" for j k a b
    using that step_register(6) by (simp add: known_inv_def)
  have new: "knows (deliver (EventPut key addr) a) m" if "ew_members w j = Some a" "m_discovered a" "\<not> m_late a" for j a
  proof -
    have "member_ok j a" using that(1) step_register(5) by (simp add: store_inv_def)
    with that(2,3) have "m_watching a" "ed_handler (m_disc a)" by (auto simp: member_ok_def)
    from knows_put [OF this m(2)] show ?thesis by (simp add: key step_register(4))
  qed
  show ?case
    unfolding known_inv_def
  proof (intro allI impI)
    fix j k a' b'
    assume "ew_members ?w j = Some a'" "ew_members ?w k = Some b'" "j \<noteq> k" "m_phase b' = Registered" "m_discovered a'"
    then obtain a b where a: "ew_members w j = Some a" "a' = deliver (EventPut key addr) a" "j \<noteq> i" "m_discovered a"
      and b: "((ew_members w)(i \<mapsto> m\<lparr>m_phase := Registered\<rparr>)) k = Some b" "b' = deliver (EventPut key addr) b" "m_phase b = Registered"
      using m(1) by (auto simp: broadcast_Some split: if_splits)
    show "(\<not> m_late a' \<longrightarrow> knows a' b') \<and> (m_phase a' = Registered \<longrightarrow> m_discovered b' \<longrightarrow> knows a' b' \<or> knows b' a')"
    proof (cases "k = i")
      case True
      with new [OF a(1,4)] a(2) b m(1) show ?thesis by (auto simp: knows_def)
    next
      case False
      with old [OF a(1) _ \<open>j \<noteq> k\<close> b(3) a(4)] a(2) b show ?thesis by (auto intro: knows_deliver)
    qed
  qed
next
  case (step_watch w i m)
  then show ?case by (auto simp: known_inv_def knows_def)
next
  case (step_discover w i m)
  let ?m = "m\<lparr>m_discovered := True, m_late := \<not> m_watching m,
      m_calls := m_calls m @ discoverExistingNodes (ew_store w) (m_disc m)\<rparr>"
  have "knows ?m b" if "ew_members w k = Some b" "k \<noteq> i" "m_phase b = Registered" for k b
    using that discover_stored [OF step_discover(4,1)] member_id [OF step_discover(4) that(1)]
    by (simp add: knows_def stored_Some)
  moreover have "knows a ?m \<longleftrightarrow> knows a m" "knows m a \<Longrightarrow> knows ?m a" for a by (auto simp: knows_def)
  ultimately show ?case using step_discover(1-3,5) by (auto simp: known_inv_def)
next
  case (step_expire w i m key)
  then show ?case by (auto simp: known_inv_def broadcast_Some intro!: knows_deliver split: if_splits) (auto simp: knows_def)
qed

lemma etcd_inv_init:
  assumes "\<forall>i e. nodes i = Some e \<longrightarrow> ed_id e = i \<and> ed_handler e"
  shows "store_inv (etcd_init nodes) \<and> calls_inv (etcd_init nodes) \<and> known_inv (etcd_init nodes)"
proof -
  have "stored_addr (map_option new_member x) = None" for x by (cases x) (simp_all add: new_member_def)
  then have "store_inv (etcd_init nodes)"
    using assms by (auto simp: store_inv_def etcd_init_def member_ok_def new_member_def go_map_def)
  then show ?thesis by (auto simp: calls_inv_def known_inv_def etcd_init_def new_member_def)
qed

lemma etcd_inv_reachable:
  assumes "etcd_step\<^sup>*\<^sup>* (etcd_init nodes) w" and "\<forall>i e. nodes i = Some e \<longrightarrow> ed_id e = i \<and> ed_handler e"
  shows "store_inv w \<and> calls_inv w \<and> known_inv w"
  using assms(1) by induction (use etcd_inv_init [OF assms(2)] store_inv_step calls_inv_step known_inv_step in blast)+

section \<open>Properties\<close>

text \<open>
  C15. Whatever the order in which nodes register, read the store and begin to watch it, and whichever leases
  run out meanwhile: of two registered nodes that have read the store at least one has joined the other at its
  address, and a node that began to watch before it read the store has joined every registered node; no
  node is told to join itself or an address that its owner did not register.
\<close>

theorem etcd_discovery:
  assumes "\<forall>i e. nodes i = Some e \<longrightarrow> ed_id e = i \<and> ed_handler e" and "etcd_step\<^sup>*\<^sup>* (etcd_init nodes) w"
    and "ew_members w i = Some a" and "ew_members w j = Some b" and "i \<noteq> j"
    and "m_phase a = Registered" and "m_phase b = Registered" and "m_discovered a"
  shows "(m_discovered b \<longrightarrow> knows a b \<or> knows b a) \<and> (\<not> m_late a \<longrightarrow> knows a b) \<and>
    (\<forall>addr. NodeJoin i addr \<notin> set (m_calls a)) \<and>
    (\<forall>addr. NodeJoin j addr \<in> set (m_calls a) \<longrightarrow> addr = ed_ipaddr (m_disc b))"
proof -
  from etcd_inv_reachable [OF assms(2,1)] have inv: "calls_inv w" "known_inv w" by auto
  have ok: "call_ok (ew_members w) i c" if "c \<in> set (m_calls a)" for c
    using that inv(1) assms(3) by (auto simp: calls_inv_def)
  have "(\<not> m_late a \<longrightarrow> knows a b) \<and> (m_discovered b \<longrightarrow> knows a b \<or> knows b a)"
    using inv(2) assms(3-8) by (simp add: known_inv_def)
  moreover have "NodeJoin i addr \<notin> set (m_calls a)" for addr using ok [of "NodeJoin i addr"] by auto
  moreover have "addr = ed_ipaddr (m_disc b)" if "NodeJoin j addr \<in> set (m_calls a)" for addr
    using ok [OF that] assms(4) by simp
  ultimately show ?thesis by blast
qed

definition demo_etcd :: "u64 \<Rightarrow> etcdDiscovery" where
  "demo_etcd i = \<lparr>ed_id = i, ed_ipaddr = itoa (unat i), ed_client = False, ed_leaseID = 0, ed_stopped = False, ed_handler = True\<rparr>"

definition demo_pair :: "u64 \<Rightarrow> etcdDiscovery option" where
  "demo_pair i = (if i = 1 \<or> i = 2 then Some (demo_etcd i) else None)"

lemma demo_pair_ids: "\<forall>i e. demo_pair i = Some e \<longrightarrow> ed_id e = i \<and> ed_handler e"
  by (simp add: demo_pair_def demo_etcd_def)

text \<open>A step as a function, for runs.\<close>

datatype etcd_act = Register u64 | Watch u64 | Discover u64

fun etcd_do :: "etcd_act \<Rightarrow> etcd_world \<Rightarrow> etcd_world" where
  "etcd_do (Register i) w =
     (case ew_members w i of
        Some m \<Rightarrow>
          if m_phase m = Idle
          then w\<lparr>ew_store := AList.update (nodeKey (ed_id (m_disc m))) (ed_ipaddr (m_disc m)) (ew_store w),
            ew_members := broadcast (EventPut (nodeKey (ed_id (m_disc m))) (ed_ipaddr (m_disc m)))
              ((ew_members w)(i \<mapsto> m\<lparr>m_phase := Registered\<rparr>))\<rparr>
          else w
      | None \<Rightarrow> w)"
| "etcd_do (Watch i) w =
     (case ew_members w i of
        Some m \<Rightarrow>
          if m_phase m \<noteq> Idle then w\<lparr>ew_members := (ew_members w)(i \<mapsto> m\<lparr>m_watching := True\<rparr>)\<rparr> else w
      | None \<Rightarrow> w)"
| "etcd_do (Discover i) w =
     (case ew_members w i of
        Some m \<Rightarrow>
          if m_phase m \<noteq> Idle \<and> \<not> m_discovered m
          then w\<lparr>ew_members := (ew_members w)(i \<mapsto> m\<lparr>m_discovered := True, m_late := \<not> m_watching m,
            m_calls := m_calls m @ discoverExistingNodes (ew_store w) (m_disc m)\<rparr>)\<rparr>
          else w
      | None \<Rightarrow> w)"

lemma etcd_do_step: "etcd_step\<^sup>*\<^sup>* w (etcd_do act w)"
  by (cases act) (auto intro: r_into_rtranclp step_register step_watch step_discover split: option.splits)

lemma etcd_do_run: "etcd_step\<^sup>*\<^sup>* w (fold etcd_do acts w)"
  by (induction acts arbitrary: w) (auto intro: rtranclp_trans [OF etcd_do_step])

text \<open>Node 1 registers and reads the store, node 2 registers, and only then does node 1 begin to watch.\<close>

definition demo_gap :: etcd_world where
  "demo_gap = fold etcd_do [Register 1, Discover 1, Register 2, Watch 2, Discover 2, Watch 1] (etcd_init demo_pair)"

lemma demo_gap_reachable: "etcd_step\<^sup>*\<^sup>* (etcd_init demo_pair) demo_gap"
  unfolding demo_gap_def by (rule etcd_do_run)

lemma demo_init: "etcd_init demo_pair =
    \<lparr>ew_store = [], ew_members = [1 \<mapsto> new_member (demo_etcd 1), 2 \<mapsto> new_member (demo_etcd 2)]\<rparr>"
  by (auto simp: etcd_init_def demo_pair_def)

lemma broadcast_upd: "broadcast ev (ms(i \<mapsto> m)) = (broadcast ev ms)(i \<mapsto> deliver ev m)"
  "broadcast ev Map.empty = Map.empty"
  by (auto simp: broadcast_def)

definition demo_member :: "u64 \<Rightarrow> member" where
  "demo_member i = \<lparr>m_disc = demo_etcd i, m_phase = Registered, m_watching = True, m_discovered = True, m_late = (i = 1),
     m_calls = (if i = 1 then [] else [NodeJoin 1 (itoa 1)])\<rparr>"

lemma demo_gap_eq: "ew_members demo_gap = [1 \<mapsto> demo_member 1, 2 \<mapsto> demo_member 2]"
  by (simp add: demo_gap_def demo_init broadcast_upd deliver_def new_member_def demo_etcd_def demo_member_def
    discoverExistingNodes_def fun_upd_twist)

lemma demo_member:
  "ew_members demo_gap 1 = Some (demo_member 1)" "ew_members demo_gap 2 = Some (demo_member 2)"
  "m_phase (demo_member i) = Registered" "m_discovered (demo_member i)" "\<not> m_late (demo_member 2)"
  "m_calls (demo_member 1) = []" "m_watching (demo_member i)"
  by (simp_all add: demo_gap_eq) (simp_all add: demo_member_def)

theorem etcd_discovery_witness: "knows (demo_member 2) (demo_member 1)"
  using etcd_discovery [OF demo_pair_ids demo_gap_reachable demo_member(2,1)] demo_member by simp

text \<open>
  A node that registers between the other's read of the store and the beginning of its watch is never
  announced to it: the two are registered, have read the store and are watching, and one of them has not
  been told of the other.
\<close>

theorem etcd_missed_node:
  "\<exists>w a b. etcd_step\<^sup>*\<^sup>* (etcd_init demo_pair) w \<and> ew_members w 1 = Some a \<and> ew_members w 2 = Some b \<and>
     m_phase a = Registered \<and> m_phase b = Registered \<and> m_discovered a \<and> m_watching a \<and> \<not> knows a b"
  using demo_gap_reachable demo_member by (auto simp: knows_def intro!: exI [of _ demo_gap])

section \<open>The cluster\<close>

fun join_of :: "disc_call \<Rightarrow> u64 \<times> gostring" where
  "join_of (NodeJoin i addr) = (i, addr)"
| "join_of (NodeLeave i) = (i, [])"

lemma fold_joins:
  assumes "\<forall>c \<in> set calls. \<exists>i addr. c = NodeJoin i addr"
  shows "fold (\<lambda>c acc. obind acc (disc_handle dial perr c)) calls acc =
    fold (\<lambda>(i, addr) acc. obind acc (disc_handle dial perr (NodeJoin i addr))) (map join_of calls) acc"
  using assms by (induction calls arbitrary: acc) auto

text \<open>
  C14. A cluster of \<open>n\<close> nodes forms through etcd: when all of them are registered and no lease ran out, a node that
  began to watch before it read the store, and hands every report to its cluster, has exactly the other
  nodes as peers and has started raft.
\<close>

theorem etcd_cluster_forms:
  assumes "\<forall>i e. nodes i = Some e \<longrightarrow> ed_id e = i \<and> ed_handler e" and "etcd_step\<^sup>*\<^sup>* (etcd_init nodes) w"
    and "me \<noteq> 0" and "2 \<le> n" and "n < 2 ^ 31" and "card (dom (ew_members w)) = n"
    and "\<forall>i m. ew_members w i = Some m \<longrightarrow> m_phase m = Registered"
    and "ew_members w me = Some m" and "m_discovered m" and "\<not> m_late m"
  shows "\<exists>c :: 'cs cluster. fold (\<lambda>c acc. obind acc (disc_handle dial perr c)) (m_calls m) (Ok (newCluster me (of_nat n))) = Ok c \<and>
    {i. RMap_Get i (peers c) \<noteq> None} = dom (ew_members w) - {me} \<and> raft_started c"
proof -
  from etcd_inv_reachable [OF assms(2,1)] have inv: "store_inv w" "calls_inv w" "known_inv w" by auto
  have ok: "call_ok (ew_members w) me c" if "c \<in> set (m_calls m)" for c
    using that inv(2) assms(8) by (auto simp: calls_inv_def)
  have joins: "\<forall>c \<in> set (m_calls m). \<exists>i addr. c = NodeJoin i addr"
  proof
    fix c assume "c \<in> set (m_calls m)"
    from ok [OF this] assms(7) show "\<exists>i addr. c = NodeJoin i addr" by (cases c) auto
  qed
  have "knows m b" if "ew_members w j = Some b" "j \<noteq> me" for j b
    using that inv(3) assms(7-10) by (auto simp: known_inv_def)
  then have "j \<in> fst ` join_of ` set (m_calls m)" if "ew_members w j = Some b" "j \<noteq> me" for j b
    using that member_id [OF inv(1) that(1)] by (force simp: knows_def image_iff)
  moreover have "i \<in> dom (ew_members w) \<and> i \<noteq> me" if "NodeJoin i addr \<in> set (m_calls m)" for i addr using ok [OF that] by auto
  ultimately have heard: "set (map fst (map join_of (m_calls m))) - {me} = dom (ew_members w) - {me}"
    using joins by fastforce
  have card: "card (dom (ew_members w) - {me}) = n - 1"
    using assms(6,8) by (simp add: card_Diff_singleton_if domI)
  from joins_forming [OF assms(3-5), of "map join_of (m_calls m)" dial perr] obtain c :: "'cs cluster"
    where "fold (\<lambda>(i, addr) acc. obind acc (disc_handle dial perr (NodeJoin i addr))) (map join_of (m_calls m))
      (Ok (newCluster me (of_nat n))) = Ok c" "forming me n (dom (ew_members w) - {me}) c"
    unfolding heard using card by auto
  then show ?thesis unfolding fold_joins [OF joins] using card by (auto simp: forming_def)
qed

theorem etcd_cluster_forms_witness:
  "\<exists>c :: unit cluster. fold (\<lambda>c acc. obind acc (disc_handle (\<lambda>_. None) None c)) (m_calls (demo_member 2))
     (Ok (newCluster 2 (of_nat 2))) = Ok c \<and> {i. RMap_Get i (peers c) \<noteq> None} = {1} \<and> raft_started c"
proof -
  have dom: "dom (ew_members demo_gap) = {1, 2}" by (auto simp: demo_gap_eq)
  moreover have "\<forall>i m. ew_members demo_gap i = Some m \<longrightarrow> m_phase m = Registered"
    using demo_member(3) by (auto simp: demo_gap_eq split: if_splits)
  moreover have "{1, 2} - {2 :: u64} = {1}" by auto
  ultimately show ?thesis
    using etcd_cluster_forms [OF demo_pair_ids demo_gap_reachable _ _ _ _ _ demo_member(2,4,5), of 2 "\<lambda>_. None" None] by simp
qed

end
