(* ===== verification/Server.thy ===== *)
theory Server
  imports Conn_Safety Safe_Map
begin

text \<open>
  The server of src/server (server.go, options.go) over its connections: the table of connections
  by client id, the handlers it is configured with, and every operation of the \<open>Server\<close> interface
  and of the delegate interface that connections call back.

  A \<open>network.Conn\<close> is a reference, an index into \<open>heap\<close>; the table \<open>conns\<close> is an \<open>RMap\<close> from client id
  to reference. A method is one function on the server's state, connections included. The calls of
  the close handler are collected in \<open>closed_ids\<close>. Logging and the statistics handler are left out.
\<close>

section \<open>Options\<close>

definition NetworkWS :: string where "NetworkWS = ''ws''"
definition NetworkWSS :: string where "NetworkWSS = ''wss''"
definition NetworkTCP :: string where "NetworkTCP = ''tcp''"
definition NetworkTLS :: string where "NetworkTLS = ''tls''"
definition NetworkUDP :: string where "NetworkUDP = ''udp''"
definition NetworkQUIC :: string where "NetworkQUIC = ''quic''"

text \<open>Of a \<open>tls.Config\<close> only matters whether it can present a certificate.\<close>

record tls_config =
  has_cert :: bool

record options =
  network :: string
  tlsConfig :: "tls_config option"
  quicConfig :: "tls_config option option"
  connTimeout :: int
  queueCapacity :: int
  connectHandler :: "connect \<Rightarrow> byte"
  messageHandler :: "message \<Rightarrow> identity option \<Rightarrow> (go_error, unit) outcome"
  requestHandler :: "request \<Rightarrow> identity option \<Rightarrow> (go_error, bytes) outcome"

definition default_options :: options where
  "default_options =
     \<lparr>network = NetworkTCP, tlsConfig = None, quicConfig = None, connTimeout = 10,
      queueCapacity = 1024, connectHandler = (\<lambda>p. ConnectAccepted),
      messageHandler = (\<lambda>p ident. Err (OtherError ''MessageHandler not implemented'')),
      requestHandler = (\<lambda>p ident. Err (StatusCodeError StatusNotFound))\<rparr>"

definition newOptions :: "(options \<Rightarrow> options) list \<Rightarrow> options" where
  "newOptions opts = foldl (\<lambda>opt f. f opt) default_options opts"

definition WithNetwork :: "string \<Rightarrow> options \<Rightarrow> options" where
  "WithNetwork n opt = opt\<lparr>network := n\<rparr>"

definition WithTLSConfig :: "tls_config option \<Rightarrow> options \<Rightarrow> options" where
  "WithTLSConfig cfg opt = opt\<lparr>tlsConfig := cfg\<rparr>"

definition WithQUICConfig :: "tls_config option option \<Rightarrow> options \<Rightarrow> options" where
  "WithQUICConfig cfg opt = opt\<lparr>quicConfig := cfg\<rparr>"

definition WithConnect :: "(connect \<Rightarrow> byte) \<Rightarrow> options \<Rightarrow> options" where
  "WithConnect h opt = opt\<lparr>connectHandler := h\<rparr>"

definition WithMessage ::
  "(message \<Rightarrow> identity option \<Rightarrow> (go_error, unit) outcome) \<Rightarrow> options \<Rightarrow> options" where
  "WithMessage h opt = opt\<lparr>messageHandler := h\<rparr>"

definition WithRequest ::
  "(request \<Rightarrow> identity option \<Rightarrow> (go_error, bytes) outcome) \<Rightarrow> options \<Rightarrow> options" where
  "WithRequest h opt = opt\<lparr>requestHandler := h\<rparr>"

definition WithConnTimeout :: "int \<Rightarrow> options \<Rightarrow> options" where
  "WithConnTimeout t opt = opt\<lparr>connTimeout := t\<rparr>"

definition WithSendQueue :: "int \<Rightarrow> options \<Rightarrow> options" where
  "WithSendQueue n opt = opt\<lparr>queueCapacity := n\<rparr>"

section \<open>State\<close>

record server =
  opts :: options
  heap :: "conn list"
  conns :: "(gostring, nat) RMap"
  server_closed :: bool
  closed_ids :: "identity list"

definition assertTLS :: "tls_config option \<Rightarrow> (go_error, unit) outcome" where
  "assertTLS cfg = (case cfg of None \<Rightarrow> Panic | Some t \<Rightarrow> if has_cert t then Ok () else Panic)"

text \<open>\<open>New\<close>: the transport's constructor checks its configuration; an unknown network panics.\<close>

definition New_transport :: "options \<Rightarrow> (go_error, unit) outcome" where
  "New_transport opt =
     (if network opt = NetworkWS then Ok ()
      else if network opt = NetworkWSS then assertTLS (tlsConfig opt)
      else if network opt = NetworkTCP then Ok ()
      else if network opt = NetworkTLS then assertTLS (tlsConfig opt)
      else if network opt = NetworkUDP then Ok ()
      else if network opt = NetworkQUIC then
        (case quicConfig opt of None \<Rightarrow> Panic | Some t \<Rightarrow> assertTLS t)
      else Panic)"

definition server_New :: "(options \<Rightarrow> options) list \<Rightarrow> (go_error, server) outcome" where
  "server_New os =
     (let opt = newOptions os
      in obind (New_transport opt) (\<lambda>_.
           Ok \<lparr>opts = opt, heap = [], conns = empty_RMap, server_closed = False, closed_ids = []\<rparr>))"

definition conn_of :: "nat \<Rightarrow> server \<Rightarrow> conn" where
  "conn_of r s = heap s ! r"

definition put_conn :: "nat \<Rightarrow> conn \<Rightarrow> server \<Rightarrow> server" where
  "put_conn r c s = s\<lparr>heap := (heap s)[r := c]\<rparr>"

section \<open>Closing a connection\<close>

definition OnClose :: "nat \<Rightarrow> server \<Rightarrow> server" where
  "OnClose r s =
     (case raw_ID (conn_of r s) of
        None \<Rightarrow> s
      | Some ident \<Rightarrow>
          (case RMap_Delete (ClientID ident) (conns s) of (deleted, m) \<Rightarrow>
             if deleted then s\<lparr>conns := m, closed_ids := closed_ids s @ [ident]\<rparr> else s))"

text \<open>\<open>conn.Close\<close> and \<open>conn.CloseCode\<close> with the call of the delegate.\<close>

definition after_Close :: "nat \<Rightarrow> conn \<times> bool \<Rightarrow> server \<Rightarrow> server" where
  "after_Close r res s =
     (case res of (c, onclose) \<Rightarrow>
        let s1 = put_conn r c s in if onclose then OnClose r s1 else s1)"

definition do_Close :: "nat \<Rightarrow> server \<Rightarrow> server" where
  "do_Close r s = after_Close r (conn_Close (conn_of r s)) s"

definition do_CloseCode :: "byte \<Rightarrow> nat \<Rightarrow> server \<Rightarrow> (go_error, server) outcome" where
  "do_CloseCode code r s = omap (\<lambda>res. after_Close r res s) (conn_CloseCode code (conn_of r s))"

definition do_ConnackCode :: "byte \<Rightarrow> nat \<Rightarrow> server \<Rightarrow> (go_error, server) outcome" where
  "do_ConnackCode code r s =
     omap (\<lambda>c. put_conn r c s) (ignoring (conn_of r s) (ConnackCode code (conn_of r s)))"

section \<open>Accepting a connection\<close>

definition OnConnect :: "nat \<Rightarrow> connect \<Rightarrow> server \<Rightarrow> (go_error, byte \<times> server) outcome" where
  "OnConnect r p s =
     (let code = connectHandler (opts s) p
      in if code \<noteq> ConnectAccepted then
           obind (do_ConnackCode code r s) (\<lambda>s1. Ok (code, do_Close r s1))
         else
           (case Identity p of
              None \<Rightarrow> Panic
            | Some ident \<Rightarrow>
                (case RMap_Swap (ClientID ident) r (conns s) of (old, m) \<Rightarrow>
                   obind (case old of
                            Some o' \<Rightarrow> do_CloseCode CloseDuplicateLogin o' (s\<lparr>conns := m\<rparr>)
                          | None \<Rightarrow> Ok (s\<lparr>conns := m\<rparr>)) (\<lambda>s1.
                   obind (do_ConnackCode ConnectAccepted r s1) (\<lambda>s2. Ok (code, s2))))))"

text \<open>
  The transports' \<open>doConnecton\<close> after \<open>waitConnPacket\<close>: a new connection with the packet's
  identity, and \<open>OnConnect\<close>.
\<close>

definition doConnecton :: "gostring \<Rightarrow> bool \<Rightarrow> connect \<Rightarrow> server \<Rightarrow> (go_error, byte \<times> server) outcome" where
  "doConnecton ip udp p s =
     obind (newConn (Identity p) ip udp (queueCapacity (opts s))) (\<lambda>c.
       OnConnect (length (heap s)) p (s\<lparr>heap := heap s @ [c]\<rparr>))"

section \<open>The interface Server\<close>

definition IsActive :: "gostring \<Rightarrow> server \<Rightarrow> bool" where
  "IsActive cid s =
     (case RMap_Get cid (conns s) of Some r \<Rightarrow> \<not> conn_IsClosed (conn_of r s) | None \<Rightarrow> False)"

definition KickConn :: "gostring \<Rightarrow> server \<Rightarrow> (go_error, bool \<times> server) outcome" where
  "KickConn cid s =
     (case RMap_Get cid (conns s) of
        Some r \<Rightarrow> omap (\<lambda>s'. (True, s')) (do_CloseCode CloseKickedOut r s)
      | None \<Rightarrow> Ok (False, s))"

definition ConnCount :: "server \<Rightarrow> u32" where
  "ConnCount s = RMap_Len (conns s)"

record conn_info =
  info_IP :: gostring
  info_UID :: gostring
  info_CID :: gostring

definition ConnInfo :: "gostring \<Rightarrow> server \<Rightarrow> (go_error, conn_info option) outcome" where
  "ConnInfo cid s =
     (case RMap_Get cid (conns s) of
        Some r \<Rightarrow>
          (case raw_ID (conn_of r s) of
             None \<Rightarrow> Panic
           | Some ident \<Rightarrow>
               Ok (Some \<lparr>info_IP = raw_IP (conn_of r s), info_UID = UserID ident, info_CID = ClientID ident\<rparr>))
      | None \<Rightarrow> Ok None)"

text \<open>A \<open>Range\<close> over the table visits the keys that were there when it began.\<close>

definition ExpelAllConns :: "server \<Rightarrow> (go_error, server) outcome" where
  "ExpelAllConns s =
     omap (\<lambda>s'. s'\<lparr>conns := empty_RMap\<rparr>)
       (RMap_Range (\<lambda>key r st. (True, obind st (do_CloseCode CloseServerExpeled r))) (conns s) (Ok s))"

text \<open>One round of \<open>Shutdown\<close>: idle connections are closed, the others counted.\<close>

definition Shutdown_round :: "server \<Rightarrow> nat \<times> server" where
  "Shutdown_round s =
     RMap_Range (\<lambda>key r (active, st).
         (True, if conn_IsIdle (conn_of r st) then (active, do_Close r st) else (Suc active, st)))
       (conns s) (0, s)"

text \<open>
  The loop: after a round with active connections it waits; what happens meanwhile is the next
  element of \<open>waits\<close>, and when there is none the context is done first.
\<close>

fun Shutdown_loop ::
  "go_error option \<Rightarrow> go_error \<Rightarrow> (server \<Rightarrow> server) list \<Rightarrow> server \<Rightarrow> go_error option \<times> server" where
  "Shutdown_loop err ctx_e waits s =
     (case Shutdown_round s of (active, s1) \<Rightarrow>
        if active = 0 then (err, s1)
        else case waits of
               [] \<Rightarrow> (Some ctx_e, s1)
             | w # ws \<Rightarrow> Shutdown_loop err ctx_e ws (w s1))"

definition Shutdown ::
  "go_error option \<Rightarrow> go_error \<Rightarrow> (server \<Rightarrow> server) list \<Rightarrow> server \<Rightarrow> go_error option \<times> server" where
  "Shutdown transport_err ctx_e waits s =
     (if server_closed s then (Some (XError ServerAlreadyClosed), s)
      else Shutdown_loop transport_err ctx_e waits (s\<lparr>server_closed := True\<rparr>))"

definition Brodcast :: "ctx \<Rightarrow> message \<Rightarrow> server \<Rightarrow> (go_error, (u32 \<times> u32) \<times> server) outcome" where
  "Brodcast cx p s =
     (if server_closed s then Err (XError ServerIsClosed)
      else
        RMap_Range (\<lambda>cid r acc.
            (True, obind acc (\<lambda>((total, success), st).
               case conn_SendMessage cx p (conn_of r st) of
                 Ok c \<Rightarrow> Ok ((total + 1, success + 1), put_conn r c st)
               | Err e \<Rightarrow> Ok ((total + 1, success), st)
               | Panic \<Rightarrow> Panic)))
          (conns s) (Ok ((0, 0), s)))"

definition server_SendMessage :: "ctx \<Rightarrow> gostring \<Rightarrow> message \<Rightarrow> server \<Rightarrow> (go_error, server) outcome" where
  "server_SendMessage cx cid p s =
     (if server_closed s then Err (XError ServerIsClosed)
      else case RMap_Get cid (conns s) of
             None \<Rightarrow> Err (XError ConnectionNotFound)
           | Some r \<Rightarrow> omap (\<lambda>c. put_conn r c s) (conn_SendMessage cx p (conn_of r s)))"

text \<open>\<open>SendRequest\<close>: the connection's \<open>SendRequest\<close> up to the wait for the response.\<close>

definition server_SendRequest ::
  "ctx \<Rightarrow> gostring \<Rightarrow> request \<Rightarrow> server \<Rightarrow> (go_error, nat \<times> u16) outcome \<times> server" where
  "server_SendRequest cx cid p s =
     (if server_closed s then (Err (XError ServerIsClosed), s)
      else case RMap_Get cid (conns s) of
             None \<Rightarrow> (Err (XError ConnectionNotFound), s)
           | Some r \<Rightarrow>
               (case SendRequest_begin cx p (conn_of r s) of (res, c) \<Rightarrow> (res, put_conn r c s)))"

definition GetConn :: "gostring \<Rightarrow> server \<Rightarrow> nat option" where
  "GetConn cid s = RMap_Get cid (conns s)"

section \<open>Packets from clients\<close>

text \<open>
  A handler's error is logged with the identity's fields, so it panics when there is no identity.
\<close>

definition log_identity :: "nat \<Rightarrow> server \<Rightarrow> 'a \<Rightarrow> (go_error, 'a) outcome" where
  "log_identity r s x = (case raw_ID (conn_of r s) of None \<Rightarrow> Panic | Some _ \<Rightarrow> Ok x)"

definition OnMessage :: "nat \<Rightarrow> message \<Rightarrow> server \<Rightarrow> (go_error, unit) outcome" where
  "OnMessage r p s =
     (case messageHandler (opts s) p (raw_ID (conn_of r s)) of
        Ok u \<Rightarrow> Ok u
      | Err e \<Rightarrow> log_identity r s ()
      | Panic \<Rightarrow> Panic)"

definition OnRequest :: "ctx \<Rightarrow> nat \<Rightarrow> request \<Rightarrow> server \<Rightarrow> (go_error, server) outcome" where
  "OnRequest cx r p s =
     obind (case requestHandler (opts s) p (raw_ID (conn_of r s)) of
              Ok body \<Rightarrow> Ok (request_Response p StatusOK [body])
            | Err (StatusCodeError code) \<Rightarrow> log_identity r s (request_Response p code [])
            | Err e \<Rightarrow> log_identity r s (request_Response p StatusInternalError [])
            | Panic \<Rightarrow> Panic) (\<lambda>res.
       case conn_SendPacket cx (PResponse res) (conn_of r s) of
         Ok c \<Rightarrow> Ok (put_conn r c s)
       | Err e \<Rightarrow> log_identity r s s
       | Panic \<Rightarrow> Panic)"

text \<open>\<open>RecvPacket\<close> with the calls it makes.\<close>

definition do_recv_call :: "ctx \<Rightarrow> nat \<Rightarrow> recv_call \<Rightarrow> server \<Rightarrow> (go_error, server) outcome" where
  "do_recv_call cx r call s =
     (case call of
        CallOnMessage m \<Rightarrow> omap (\<lambda>_. s) (OnMessage r m s)
      | CallOnRequest q \<Rightarrow> OnRequest cx r q s
      | CallOnClose \<Rightarrow> Ok (OnClose r s)
      | _ \<Rightarrow> Ok s)"

definition server_RecvPacket :: "nat \<Rightarrow> packet \<Rightarrow> server \<Rightarrow> (go_error, server) outcome" where
  "server_RecvPacket r p s =
     obind (RecvPacket p (conn_of r s)) (\<lambda>(c, calls).
       foldl (\<lambda>st call. obind st (do_recv_call background r call)) (Ok (put_conn r c s)) calls)"

end
