(* ===== verification/Server_Safety.thy ===== *)
theory Server_Safety
  imports Server
begin

text \<open>
  What the server keeps of its table of connections under every sequence of events, what a login
  does to it, and what clients and callers observe.
\<close>

section \<open>What connection operations keep\<close>

definition same_conn :: "conn \<Rightarrow> conn \<Rightarrow> bool" where
  "same_conn c c' \<longleftrightarrow> raw_ID c' = raw_ID c \<and> raw_IP c' = raw_IP c \<and> raw_udp c' = raw_udp c \<and>
     conn_closed c' = conn_closed c"

lemma same_conn_refl [simp]: "same_conn c c"
  by (simp add: same_conn_def)

lemma same_conn_trans: "same_conn a b \<Longrightarrow> same_conn b c \<Longrightarrow> same_conn a c"
  by (simp add: same_conn_def)

lemma same_conn_work [keeps]: "same_conn c (conn_work c)"
  by (simp add: same_conn_def conn_work_def Let_def WriteData_def)

lemma same_conn_works [keeps]: "same_conn c (conn_works n c)"
  by (induction n arbitrary: c) (auto intro: same_conn_trans same_conn_work)

lemma same_conn_wait [keeps]: "same_conn c (wait_room jump c)"
  by (simp add: wait_room_def same_conn_work same_conn_works del: conn_works.simps)

lemma same_conn_queue: "same_conn c c' \<Longrightarrow> same_conn c (c'\<lparr>sendQueue := q\<rparr>)"
  by (simp add: same_conn_def)

lemma same_conn_push [keeps]: "conn_push cx jump data c = Ok c' \<Longrightarrow> same_conn c c'"
  by (auto simp: conn_push_def Let_def intro: same_conn_queue same_conn_wait
    split: if_splits option.splits)

lemma same_conn_SendPacket [keeps]: "conn_SendPacket cx p c = Ok c' \<Longrightarrow> same_conn c c'"
  by (auto simp: conn_SendPacket_def outcome_Ok_obind intro: same_conn_push split: if_splits)

lemma same_conn_jump [keeps]: "jumpPacket cx p c = Ok c' \<Longrightarrow> same_conn c c'"
  by (auto simp: jumpPacket_def outcome_Ok_obind intro: same_conn_push split: if_splits)

lemma same_conn_ignoring: "ignoring c m = Ok c' \<Longrightarrow> (m = Ok c' \<Longrightarrow> same_conn c c') \<Longrightarrow> same_conn c c'"
  by (cases m) auto

lemma same_conn_SendRequest [keeps]:
  "SendRequest_begin cx p c = (res, c') \<Longrightarrow> same_conn c c'"
  by (auto simp: SendRequest_begin_def SendRequest_end_def Let_def same_conn_def
    dest!: same_conn_SendPacket split: if_splits outcome.splits)

lemma CloseCode_closes:
  "conn_CloseCode code c = Ok (c', b) \<Longrightarrow>
     conn_closed c' \<and> raw_ID c' = raw_ID c \<and> b = (\<not> conn_closed c)"
  by (auto simp: conn_CloseCode_def omap_Ok conn_Close_def same_conn_def
    dest!: same_conn_ignoring [OF _ same_conn_jump] split: if_splits)

section \<open>The table\<close>

definition server_inv :: "server \<Rightarrow> bool" where
  "server_inv s \<longleftrightarrow> RMap_ok (conns s) \<and>
     (\<forall>cid r. RMap_Get cid (conns s) = Some r \<longrightarrow>
        r < length (heap s) \<and> \<not> conn_closed (heap s ! r) \<and>
        (\<exists>ident. raw_ID (heap s ! r) = Some ident \<and> ClientID ident = cid))"

lemma registered:
  assumes "server_inv s" and "RMap_Get cid (conns s) = Some r"
  obtains ident where "r < length (heap s)" "\<not> conn_closed (heap s ! r)"
    "raw_ID (heap s ! r) = Some ident" "ClientID ident = cid"
  using assms unfolding server_inv_def by blast

lemma server_inv_put:
  assumes "server_inv s" and "same_conn (conn_of r s) c"
  shows "server_inv (put_conn r c s)"
proof (cases "r < length (heap s)")
  case True
  with assms show ?thesis
    by (auto simp: server_inv_def put_conn_def same_conn_def conn_of_def nth_list_update)
next
  case False
  with assms(1) show ?thesis by (simp add: put_conn_def list_update_beyond)
qed

lemma heap_put [simp]: "length (heap (put_conn r c s)) = length (heap s)"
  by (simp add: put_conn_def)

lemma heap_OnClose [simp]: "heap (OnClose r s) = heap s"
  by (simp add: OnClose_def split: option.splits prod.splits)

text \<open>Closing an open connection takes whatever is registered under its client id out of the table.\<close>

lemma server_inv_close:
  assumes inv: "server_inv s" and r: "r < length (heap s)"
    and c: "conn_closed c" "raw_ID c = raw_ID (heap s ! r)" "b = (\<not> conn_closed (heap s ! r))"
  shows "server_inv (after_Close r (c, b) s)"
proof -
  let ?s1 = "put_conn r c s"
  have ok: "RMap_ok (conns s)" using inv by (simp add: server_inv_def)
  have reg: "\<exists>i. raw_ID (heap s ! r') = Some i \<and> ClientID i = cid" "r' < length (heap s)"
    "\<not> conn_closed (heap s ! r')" if "RMap_Get cid (conns s) = Some r'" for cid r'
    using inv that by (auto simp: server_inv_def)
  show ?thesis
  proof (cases "\<exists>ident. raw_ID (heap s ! r) = Some ident \<and> b")
    case False
    then have other: "RMap_Get cid (conns s) = Some r' \<Longrightarrow> heap ?s1 ! r' = heap s ! r'" for cid r'
      using reg(1,3) [of cid r'] c(3) by (cases "r' = r") (auto simp: put_conn_def)
    then have "server_inv ?s1"
      using inv other by (auto simp: server_inv_def) (auto simp: put_conn_def)
    moreover have "after_Close r (c, b) s = ?s1"
      using False r c(2) by (auto simp: after_Close_def OnClose_def conn_of_def put_conn_def Let_def)
    ultimately show ?thesis by simp
  next
    case True
    then obtain ident where ident: "raw_ID (heap s ! r) = Some ident" and "b" by blast
    let ?m = "snd (RMap_Delete (ClientID ident) (conns s))"
    have same: "\<not> fst (RMap_Delete (ClientID ident) (conns s)) \<Longrightarrow> ?m = conns s"
      by (auto simp: RMap_Delete_def split: option.splits)
    have conns: "conns (after_Close r (c, b) s) = ?m"
      and heap: "heap (after_Close r (c, b) s) = (heap s)[r := c]"
      using ident \<open>b\<close> r c(2) same
      by (auto simp: after_Close_def OnClose_def conn_of_def put_conn_def Let_def split: prod.splits)
    have "RMap_ok ?m" by (rule rmap.ok_del [OF ok])
    moreover have "r' < length (heap s) \<and> \<not> conn_closed ((heap s)[r := c] ! r') \<and>
        (\<exists>i. raw_ID ((heap s)[r := c] ! r') = Some i \<and> ClientID i = cid)"
      if "RMap_Get cid ?m = Some r'" for cid r'
    proof -
      have "cid \<noteq> ClientID ident" "RMap_Get cid (conns s) = Some r'"
        using that rmap.get_del [OF ok, of cid "ClientID ident"] by (auto split: if_splits)
      moreover from this have "r' \<noteq> r" using reg(1) [of cid r'] ident by auto
      ultimately show ?thesis using reg [of cid r'] by simp
    qed
    ultimately show ?thesis
      by (simp add: server_inv_def conns heap)
  qed
qed

lemma after_Close_heap: "length (heap (after_Close r res s)) = length (heap s)"
  by (simp add: after_Close_def Let_def split: prod.splits)

lemma do_Close_heap: "length (heap (do_Close r s)) = length (heap s)"
  by (simp add: do_Close_def after_Close_heap)

lemma server_inv_do_Close: "server_inv s \<Longrightarrow> r < length (heap s) \<Longrightarrow> server_inv (do_Close r s)"
  unfolding do_Close_def conn_Close_def conn_of_def
  by (auto intro: server_inv_close)

lemma server_inv_do_CloseCode:
  "do_CloseCode code r s = Ok s' \<Longrightarrow> server_inv s \<Longrightarrow> r < length (heap s) \<Longrightarrow>
    server_inv s' \<and> length (heap s') = length (heap s)"
  by (auto simp: do_CloseCode_def omap_Ok after_Close_heap conn_of_def
    intro!: server_inv_close dest!: CloseCode_closes)

lemma server_inv_do_ConnackCode:
  "do_ConnackCode code r s = Ok s' \<Longrightarrow> server_inv s \<Longrightarrow>
    server_inv s' \<and> length (heap s') = length (heap s)"
  by (auto simp: do_ConnackCode_def omap_Ok ConnackCode_def
    intro!: server_inv_put dest!: same_conn_ignoring [OF _ same_conn_jump])

lemma server_inv_doConnecton:
  assumes "doConnecton ip udp p s = Ok (code, s')" and inv: "server_inv s"
  shows "server_inv s'"
proof -
  obtain c where c: "newConn (Identity p) ip udp (queueCapacity (opts s)) = Ok c"
    and oc: "OnConnect (length (heap s)) p (s\<lparr>heap := heap s @ [c]\<rparr>) = Ok (code, s')"
    using assms(1) by (auto simp: doConnecton_def outcome_Ok_obind)
  let ?s1 = "s\<lparr>heap := heap s @ [c]\<rparr>" and ?r = "length (heap s)"
  have new: "raw_ID c = Identity p" "\<not> conn_closed c"
    using c by (auto simp: newConn_def outcome_Ok_obind)
  have inv1: "server_inv ?s1"
    using inv by (auto simp: server_inv_def nth_append intro: less_SucI)
  show ?thesis
  proof (cases "connectHandler (opts s) p = ConnectAccepted")
    case False
    then obtain s2 where "do_ConnackCode code ?r ?s1 = Ok s2" "s' = do_Close ?r s2"
      using oc by (auto simp: OnConnect_def Let_def outcome_Ok_obind)
    then show ?thesis
      using server_inv_do_ConnackCode [OF _ inv1] server_inv_do_Close by fastforce
  next
    case True
    then obtain ident where ident: "Identity p = Some ident"
      using oc by (auto simp: OnConnect_def Let_def split: option.splits)
    let ?m = "snd (RMap_Set (ClientID ident) ?r (conns s))"
    have ok: "RMap_ok (conns s)" using inv by (simp add: server_inv_def)
    have swap: "RMap_Swap (ClientID ident) ?r (conns s) = (RMap_Get (ClientID ident) (conns s), ?m)"
      using rmap.swap [OF ok] .
    have inv2: "server_inv (?s1\<lparr>conns := ?m\<rparr>)"
      using inv new ident rmap.ok_put [OF ok] rmap.get_put [OF ok]
      by (auto simp: server_inv_def nth_append intro: less_SucI)
    obtain s2 where s2: "(case RMap_Get (ClientID ident) (conns s) of
          Some o' \<Rightarrow> do_CloseCode CloseDuplicateLogin o' (?s1\<lparr>conns := ?m\<rparr>)
        | None \<Rightarrow> Ok (?s1\<lparr>conns := ?m\<rparr>)) = Ok s2" and "do_ConnackCode ConnectAccepted ?r s2 = Ok s'"
      using oc True by (auto simp: OnConnect_def Let_def ident swap outcome_Ok_obind)
    moreover have "server_inv s2"
    proof (cases "RMap_Get (ClientID ident) (conns s)")
      case None
      then show ?thesis using s2 inv2 by simp
    next
      case (Some old)
      then have "old < length (heap s)" using inv by (auto simp: server_inv_def)
      then show ?thesis
        using s2 Some server_inv_do_CloseCode [of CloseDuplicateLogin old "?s1\<lparr>conns := ?m\<rparr>" s2] inv2
        by simp
    qed
    ultimately show ?thesis using server_inv_do_ConnackCode by blast
  qed
qed

section \<open>Every other operation\<close>

lemma server_inv_KickConn: "KickConn cid s = Ok (b, s') \<Longrightarrow> server_inv s \<Longrightarrow> server_inv s'"
  by (auto simp: KickConn_def omap_Ok server_inv_def [of s] split: option.splits
    dest!: server_inv_do_CloseCode) (auto simp: server_inv_def)

lemma registered_bound: "server_inv s \<Longrightarrow> (cid, r) \<in> set (rmap_m (conns s)) \<Longrightarrow> r < length (heap s)"
  by (auto simp: server_inv_def RMap_ok_def RMap_Get_def go_map_def dest: map_of_is_SomeI)

lemma server_inv_Expel:
  assumes "ExpelAllConns s = Ok s'" and inv: "server_inv s"
  shows "server_inv s'"
proof -
  let ?f = "\<lambda>key r st. (True, obind st (do_CloseCode CloseServerExpeled r))"
  let ?P = "\<lambda>st. \<forall>t. st = Ok t \<longrightarrow> server_inv t \<and> length (heap t) = length (heap s)"
  have "?P (Map_Range ?f (rmap_m (conns s)) (Ok s))"
    by (rule Map_Range_keeps)
      (use inv in \<open>auto simp: outcome_Ok_obind dest!: registered_bound [OF inv] dest: server_inv_do_CloseCode\<close>)
  then show ?thesis
    using assms(1)
    by (auto simp: ExpelAllConns_def RMap_Range_def omap_Ok server_inv_def RMap_ok_def empty_RMap_def
      RMap_Get_def)
qed

lemma server_inv_Shutdown_round: "server_inv s \<Longrightarrow> server_inv (snd (Shutdown_round s))"
proof -
  assume inv: "server_inv s"
  let ?P = "\<lambda>(n :: nat, t). server_inv t \<and> length (heap t) = length (heap s)"
  have "?P (Map_Range (\<lambda>key r (active, st).
         (True, if conn_IsIdle (conn_of r st) then (active, do_Close r st) else (Suc active, st)))
       (rmap_m (conns s)) (0, s))"
    by (rule Map_Range_keeps)
      (use inv in \<open>auto simp: do_Close_heap dest!: registered_bound [OF inv]
        intro!: server_inv_do_Close split: if_splits\<close>)
  then show ?thesis by (auto simp: Shutdown_round_def RMap_Range_def)
qed

lemma server_inv_flag [simp]: "server_inv (s\<lparr>server_closed := b\<rparr>) = server_inv s"
  by (simp add: server_inv_def)

lemma server_inv_Brodcast:
  assumes "Brodcast cx p s = Ok (n, s')" and inv: "server_inv s"
  shows "server_inv s'"
proof -
  let ?f = "\<lambda>cid r acc. (True, obind acc (\<lambda>((total :: u32, success :: u32), st).
               case conn_SendMessage cx p (conn_of r st) of
                 Ok c \<Rightarrow> Ok ((total + 1, success + 1), put_conn r c st)
               | Err e \<Rightarrow> Ok ((total + 1, success), st)
               | Panic \<Rightarrow> Panic))"
  let ?P = "\<lambda>acc. \<forall>n t. acc = Ok (n, t) \<longrightarrow> server_inv t"
  have step: "server_inv t" if "server_inv st"
    and "(case conn_SendPacket cx (PMessage p) (conn_of r st) of
        Ok c \<Rightarrow> Ok ((total + 1, success + 1), put_conn r c st)
      | Err e \<Rightarrow> Ok ((total + 1, success), st) | Panic \<Rightarrow> Panic) = Ok (n, t)"
    for r total success st n t
    using that by (cases "conn_SendPacket cx (PMessage p) (conn_of r st)")
      (auto intro: server_inv_put same_conn_SendPacket)
  have "?P (Map_Range ?f (rmap_m (conns s)) (Ok ((0, 0), s)))"
    by (rule Map_Range_keeps)
      (use inv in \<open>auto simp: outcome_Ok_obind conn_SendMessage_def intro: step\<close>)
  then show ?thesis
    using assms(1) by (cases n) (auto simp: Brodcast_def RMap_Range_def split: if_splits)
qed

lemma server_inv_SendMessage: "server_SendMessage cx cid p s = Ok s' \<Longrightarrow> server_inv s \<Longrightarrow> server_inv s'"
  by (auto simp: server_SendMessage_def conn_SendMessage_def omap_Ok intro!: server_inv_put
    dest: same_conn_SendPacket split: if_splits option.splits)

lemma server_inv_SendRequest: "server_inv s \<Longrightarrow> server_inv (snd (server_SendRequest cx cid p s))"
  by (auto simp: server_SendRequest_def intro!: server_inv_put dest: same_conn_SendRequest
    split: option.splits prod.splits)

lemma server_inv_reply:
  assumes "(case conn_SendPacket cx k (conn_of r s) of Ok c \<Rightarrow> Ok (put_conn r c s)
     | Err e \<Rightarrow> log_identity r s s | Panic \<Rightarrow> Panic) = Ok s'" and "server_inv s"
  shows "server_inv s'"
  using assms
  by (cases "conn_SendPacket cx k (conn_of r s)")
    (auto simp: log_identity_def intro: server_inv_put same_conn_SendPacket split: option.splits)

lemma server_inv_OnRequest: "OnRequest cx r p s = Ok s' \<Longrightarrow> server_inv s \<Longrightarrow> server_inv s'"
  unfolding OnRequest_def outcome_Ok_obind by (auto intro: server_inv_reply)

lemma server_inv_RecvPacket:
  assumes "server_RecvPacket r p s = Ok s'" and inv: "server_inv s" and r: "r < length (heap s)"
  shows "server_inv s'"
proof -
  obtain c calls where c: "RecvPacket p (conn_of r s) = Ok (c, calls)"
    and s': "foldl (\<lambda>st call. obind st (do_recv_call background r call)) (Ok (put_conn r c s)) calls = Ok s'"
    using assms(1) by (auto simp: server_RecvPacket_def outcome_Ok_obind)
  show ?thesis
  proof (cases "\<exists>x. p = PClose x \<and> \<not> conn_closed (conn_of r s)")
    case True
    then have "s' = do_Close r s"
      using c s' by (auto simp: RecvPacket_def conn_Close_def do_recv_call_def do_Close_def
        after_Close_def Let_def)
    then show ?thesis using server_inv_do_Close [OF inv r] by simp
  next
    case False
    then have "same_conn (conn_of r s) c" "CallOnClose \<notin> set calls" "length calls \<le> 1"
      using c by (auto simp: RecvPacket_def SendPong_def omap_Ok conn_Close_def
        dest!: same_conn_ignoring [OF _ same_conn_jump] split: if_splits packet.splits option.splits)
    then show ?thesis
      using s' server_inv_put [OF inv, of r c]
      by (cases calls) (auto simp: do_recv_call_def omap_Ok split: recv_call.splits
        intro: server_inv_OnRequest)
  qed
qed

section \<open>Sequences of events\<close>

text \<open>What can happen to a server; \<open>EvWork\<close> is a connection's worker running a task.\<close>

datatype server_event =
  EvConnect gostring bool connect
| EvKick gostring
| EvExpel
| EvShutdown "go_error option" go_error
| EvBrodcast ctx message
| EvSend ctx gostring message
| EvRequest ctx gostring request
| EvPacket nat packet
| EvReadError nat byte
| EvWork nat

definition server_do :: "server_event \<Rightarrow> server \<Rightarrow> (go_error, server) outcome" where
  "server_do ev s = ignoring s
     (case ev of
        EvConnect ip udp p \<Rightarrow> omap snd (doConnecton ip udp p s)
      | EvKick cid \<Rightarrow> omap snd (KickConn cid s)
      | EvExpel \<Rightarrow> ExpelAllConns s
      | EvShutdown terr cerr \<Rightarrow> Ok (snd (Shutdown terr cerr [] s))
      | EvBrodcast cx m \<Rightarrow> omap snd (Brodcast cx m s)
      | EvSend cx cid m \<Rightarrow> server_SendMessage cx cid m s
      | EvRequest cx cid q \<Rightarrow> Ok (snd (server_SendRequest cx cid q s))
      | EvPacket r p \<Rightarrow> if r < length (heap s) then server_RecvPacket r p s else Ok s
      | EvReadError r code \<Rightarrow> if r < length (heap s) then do_CloseCode code r s else Ok s
      | EvWork r \<Rightarrow> Ok (put_conn r (conn_work (conn_of r s)) s))"

fun server_run :: "server_event list \<Rightarrow> server \<Rightarrow> (go_error, server) outcome" where
  "server_run [] s = Ok s"
| "server_run (ev # evs) s = obind (server_do ev s) (server_run evs)"

lemma ignoring_inv: "ignoring s m = Ok s' \<Longrightarrow> P s \<Longrightarrow> (m = Ok s' \<Longrightarrow> P s') \<Longrightarrow> P s'"
  by (cases m) auto

lemma server_inv_Shutdown: "server_inv s \<Longrightarrow> server_inv (snd (Shutdown terr cerr [] s))"
  using server_inv_Shutdown_round [of "s\<lparr>server_closed := True\<rparr>"]
  by (auto simp: Shutdown_def split: prod.splits)

lemma server_inv_do:
  assumes "server_do ev s = Ok s'" and inv: "server_inv s"
  shows "server_inv s'"
  using assms(1) unfolding server_do_def
proof (rule ignoring_inv [where P = server_inv, OF _ inv])
  assume "(case ev of
        EvConnect ip udp p \<Rightarrow> omap snd (doConnecton ip udp p s)
      | EvKick cid \<Rightarrow> omap snd (KickConn cid s)
      | EvExpel \<Rightarrow> ExpelAllConns s
      | EvShutdown terr cerr \<Rightarrow> Ok (snd (Shutdown terr cerr [] s))
      | EvBrodcast cx m \<Rightarrow> omap snd (Brodcast cx m s)
      | EvSend cx cid m \<Rightarrow> server_SendMessage cx cid m s
      | EvRequest cx cid q \<Rightarrow> Ok (snd (server_SendRequest cx cid q s))
      | EvPacket r p \<Rightarrow> if r < length (heap s) then server_RecvPacket r p s else Ok s
      | EvReadError r code \<Rightarrow> if r < length (heap s) then do_CloseCode code r s else Ok s
      | EvWork r \<Rightarrow> Ok (put_conn r (conn_work (conn_of r s)) s)) = Ok s'"
  then show ?thesis
    using inv
    by (cases ev) (auto simp: omap_Ok server_inv_put same_conn_work server_inv_Shutdown
      server_inv_SendRequest split: if_splits intro: server_inv_doConnecton server_inv_KickConn
      server_inv_Expel server_inv_Brodcast server_inv_SendMessage server_inv_RecvPacket
      dest: server_inv_do_CloseCode)
qed

lemma server_inv_run: "server_run evs s = Ok s' \<Longrightarrow> server_inv s \<Longrightarrow> server_inv s'"
  by (induction evs arbitrary: s) (auto simp: outcome_Ok_obind intro: server_inv_do)

lemma server_inv_New: "server_New os = Ok s \<Longrightarrow> server_inv s"
  by (auto simp: server_New_def Let_def outcome_Ok_obind server_inv_def RMap_ok_def empty_RMap_def
    RMap_Get_def)

section \<open>Properties\<close>

text \<open>What the invariant says of the interface.\<close>

lemma server_inv_table:
  assumes inv: "server_inv s"
  shows "(IsActive cid s \<longleftrightarrow> GetConn cid s \<noteq> None) \<and>
    (case ConnInfo cid s of
       Ok (Some info) \<Rightarrow> GetConn cid s \<noteq> None \<and> info_CID info = cid
     | Ok None \<Rightarrow> GetConn cid s = None
     | _ \<Rightarrow> False) \<and>
    ConnCount s = of_nat (card {k. GetConn k s \<noteq> None})"
proof -
  have "ConnCount s = of_nat (card {k. GetConn k s \<noteq> None})"
    using inv rmap.len [of "conns s"] by (simp add: ConnCount_def GetConn_def server_inv_def)
  moreover have "IsActive cid s \<longleftrightarrow> GetConn cid s \<noteq> None"
    using inv by (auto simp: IsActive_def GetConn_def server_inv_def conn_of_def conn_IsClosed_def
      split: option.splits)
  moreover have "case ConnInfo cid s of Ok (Some info) \<Rightarrow> GetConn cid s \<noteq> None \<and> info_CID info = cid
     | Ok None \<Rightarrow> GetConn cid s = None | _ \<Rightarrow> False"
  proof (cases "RMap_Get cid (conns s)")
    case (Some r)
    obtain ident where "raw_ID (heap s ! r) = Some ident" "ClientID ident = cid"
      using registered [OF inv Some] by blast
    with Some show ?thesis by (simp add: ConnInfo_def GetConn_def conn_of_def)
  qed (simp add: ConnInfo_def GetConn_def)
  ultimately show ?thesis by simp
qed

definition demo_connect :: "string \<Rightarrow> string \<Rightarrow> connect" where
  "demo_connect uid cid =
     NewConnect (Some \<lparr>UserID = gs uid, ClientID = gs cid, Password = []\<rparr>)"

definition demo_empty :: server where
  "demo_empty = get_Ok (server_New [WithSendQueue 8])"

definition demo_server :: server where
  "demo_server = get_Ok (server_run [EvConnect [] False (demo_connect ''u'' ''c'')] demo_empty)"

lemma demo_server_run:
  "server_New [WithSendQueue 8] = Ok demo_empty"
  "server_run [EvConnect [] False (demo_connect ''u'' ''c'')] demo_empty = Ok demo_server"
  unfolding demo_server_def demo_empty_def by (rule get_Ok, code_simp)+

lemma demo_server_conn: "GetConn (gs ''c'') demo_server = Some 0" "length (heap demo_server) = 1"
  by code_simp+

lemma demo_server_inv: "server_inv demo_server"
  using server_inv_run [OF demo_server_run(2) server_inv_New [OF demo_server_run(1)]] .

section \<open>Logins\<close>

lemma conns_ConnackCode: "do_ConnackCode code r s = Ok s' \<Longrightarrow> conns s' = conns s \<and>
    closed_ids s' = closed_ids s \<and> server_closed s' = server_closed s \<and>
    (\<forall>r'. conn_closed (heap s' ! r') = conn_closed (heap s ! r') \<and> raw_ID (heap s' ! r') = raw_ID (heap s ! r'))"
proof -
  assume "do_ConnackCode code r s = Ok s'"
  then obtain c where c: "ignoring (conn_of r s) (ConnackCode code (conn_of r s)) = Ok c"
    and s': "s' = put_conn r c s"
    by (auto simp: do_ConnackCode_def omap_Ok)
  have "same_conn (conn_of r s) c"
    using c unfolding ConnackCode_def by (rule same_conn_ignoring) (rule same_conn_jump)
  then show ?thesis
    by (cases "r < length (heap s)")
      (auto simp: s' put_conn_def same_conn_def conn_of_def nth_list_update list_update_beyond)
qed

text \<open>The effect of closing an open connection with an identity.\<close>

lemma after_Close_open:
  assumes "r < length (heap s)" and "raw_ID c = Some ident" and "RMap_ok (conns s)"
  shows "conns (after_Close r (c, True) s) = snd (RMap_Delete (ClientID ident) (conns s)) \<and>
    heap (after_Close r (c, True) s) = (heap s)[r := c] \<and>
    server_closed (after_Close r (c, True) s) = server_closed s \<and>
    closed_ids (after_Close r (c, True) s) =
      (if RMap_Get (ClientID ident) (conns s) = None then closed_ids s else closed_ids s @ [ident])"
  using assms
  by (auto simp: after_Close_def OnClose_def conn_of_def put_conn_def Let_def RMap_Delete_def
    RMap_Get_def split: prod.splits option.splits)

text \<open>The two outcomes of a login, up to the CONNACK that is queued.\<close>

lemma login_accepted:
  assumes "doConnecton ip udp p s = Ok (code, s')" and "connectHandler (opts s) p = ConnectAccepted"
    and "Identity p = Some ident" and inv: "server_inv s"
  obtains c s1 where "newConn (Some ident) ip udp (queueCapacity (opts s)) = Ok c"
    and "code = ConnectAccepted"
    and "(case GetConn (ClientID ident) s of
          Some o' \<Rightarrow> do_CloseCode CloseDuplicateLogin o'
            (s\<lparr>heap := heap s @ [c], conns := snd (RMap_Set (ClientID ident) (length (heap s)) (conns s))\<rparr>)
        | None \<Rightarrow> Ok (s\<lparr>heap := heap s @ [c],
            conns := snd (RMap_Set (ClientID ident) (length (heap s)) (conns s))\<rparr>)) = Ok s1"
    and "do_ConnackCode ConnectAccepted (length (heap s)) s1 = Ok s'"
proof -
  have ok: "RMap_ok (conns s)" using inv by (simp add: server_inv_def)
  note swap = rmap.swap [OF ok, of "ClientID ident" "length (heap s)"]
  from assms that show ?thesis
    by (auto simp: doConnecton_def OnConnect_def Let_def outcome_Ok_obind swap GetConn_def)
qed

lemma new_conn_fields:
  "newConn ident ip udp cap = Ok c \<Longrightarrow> raw_ID c = ident \<and> \<not> conn_closed c \<and> raw_out c = []"
  by (auto simp: newConn_def outcome_Ok_obind)

text \<open>
  A login with a client id that is not in the table succeeds: the new connection is registered
  under it and active, every other entry stays, and no connection is closed.
\<close>

theorem login_fresh:
  assumes "server_inv s" and "doConnecton ip udp p s = Ok (code, s')"
    and "connectHandler (opts s) p = ConnectAccepted" and "Identity p = Some ident"
    and "GetConn (ClientID ident) s = None"
  shows "code = ConnectAccepted \<and> IsActive (ClientID ident) s' \<and>
    GetConn (ClientID ident) s' = Some (length (heap s)) \<and>
    (\<forall>k. k \<noteq> ClientID ident \<longrightarrow> GetConn k s' = GetConn k s) \<and> closed_ids s' = closed_ids s"
proof -
  have ok: "RMap_ok (conns s)" using assms(1) by (simp add: server_inv_def)
  from login_accepted [OF assms(2-4,1)]
  obtain c s1 where c: "newConn (Some ident) ip udp (queueCapacity (opts s)) = Ok c" "code = ConnectAccepted"
    and s1: "(case GetConn (ClientID ident) s of
          Some o' \<Rightarrow> do_CloseCode CloseDuplicateLogin o'
            (s\<lparr>heap := heap s @ [c], conns := snd (RMap_Set (ClientID ident) (length (heap s)) (conns s))\<rparr>)
        | None \<Rightarrow> Ok (s\<lparr>heap := heap s @ [c],
            conns := snd (RMap_Set (ClientID ident) (length (heap s)) (conns s))\<rparr>)) = Ok s1"
    and s1': "do_ConnackCode ConnectAccepted (length (heap s)) s1 = Ok s'" .
  have s': "do_ConnackCode ConnectAccepted (length (heap s)) (s\<lparr>heap := heap s @ [c],
      conns := snd (RMap_Set (ClientID ident) (length (heap s)) (conns s))\<rparr>) = Ok s'"
    using s1 s1' assms(5) by simp
  from conns_ConnackCode [OF s'] c rmap.get_put [OF ok] new_conn_fields [OF c(1)] show ?thesis
    by (auto simp: GetConn_def IsActive_def conn_of_def conn_IsClosed_def nth_append)
qed

definition demo_login :: "connect \<Rightarrow> server \<Rightarrow> byte \<times> server" where
  "demo_login p s = get_Ok (doConnecton [] False p s)"

lemma demo_login:
  "is_Ok (doConnecton [] False p s) \<Longrightarrow>
     doConnecton [] False p s = Ok (fst (demo_login p s), snd (demo_login p s))"
  using get_Ok [of "doConnecton [] False p s"] by (simp add: demo_login_def)

lemma demo_server_accepts: "connectHandler (opts demo_server) p = ConnectAccepted"
  "server_closed demo_server = False"
  by code_simp+

theorem login_fresh_witness:
  "IsActive (gs ''d'') (snd (demo_login (demo_connect ''v'' ''d'') demo_server)) \<and>
   GetConn (gs ''c'') (snd (demo_login (demo_connect ''v'' ''d'') demo_server)) = Some 0"
proof -
  let ?p = "demo_connect ''v'' ''d''"
  have "is_Ok (doConnecton [] False ?p demo_server)" by code_simp
  note d = demo_login [OF this]
  have p: "Identity ?p = Some \<lparr>UserID = gs ''v'', ClientID = gs ''d'', Password = []\<rparr>"
    by (simp add: demo_connect_def NewConnect_def)
  have "GetConn (gs ''d'') demo_server = None" by code_simp
  with login_fresh [OF demo_server_inv d demo_server_accepts(1) p] demo_server_conn show ?thesis
    by (simp add: gs_def)
qed

lemma duplicate_login_effect:
  assumes inv: "server_inv s" and "doConnecton ip udp p s = Ok (code, s')"
    and "connectHandler (opts s) p = ConnectAccepted" and "Identity p = Some ident"
    and old: "GetConn (ClientID ident) s = Some old"
  obtains i where "code = ConnectAccepted" and "GetConn (ClientID ident) s' = None"
    and "\<not> conn_closed (conn_of (length (heap s)) s')" and "conn_closed (conn_of old s')"
    and "raw_ID (conn_of old s) = Some i" and "ClientID i = ClientID ident"
    and "closed_ids s' = closed_ids s @ [i]" and "server_closed s' = server_closed s"
proof -
  have ok: "RMap_ok (conns s)" using inv by (simp add: server_inv_def)
  let ?m = "snd (RMap_Set (ClientID ident) (length (heap s)) (conns s))"
  from login_accepted [OF assms(2-4) inv]
  obtain c s1 where c: "newConn (Some ident) ip udp (queueCapacity (opts s)) = Ok c" "code = ConnectAccepted"
    and s1_cases: "(case GetConn (ClientID ident) s of
          Some o' \<Rightarrow> do_CloseCode CloseDuplicateLogin o' (s\<lparr>heap := heap s @ [c], conns := ?m\<rparr>)
        | None \<Rightarrow> Ok (s\<lparr>heap := heap s @ [c], conns := ?m\<rparr>)) = Ok s1"
    and s': "do_ConnackCode ConnectAccepted (length (heap s)) s1 = Ok s'" .
  have s1: "do_CloseCode CloseDuplicateLogin old (s\<lparr>heap := heap s @ [c], conns := ?m\<rparr>) = Ok s1"
    using s1_cases old by simp
  obtain i where i: "old < length (heap s)" "\<not> conn_closed (heap s ! old)"
      "raw_ID (heap s ! old) = Some i" "ClientID i = ClientID ident"
    using registered [OF inv] old by (auto simp: GetConn_def)
  obtain c' where c': "conn_closed c'" "raw_ID c' = Some i"
    and s1': "s1 = after_Close old (c', True) (s\<lparr>heap := heap s @ [c], conns := ?m\<rparr>)"
    using s1 i by (auto simp: do_CloseCode_def omap_Ok conn_of_def nth_append dest!: CloseCode_closes)
  have m: "RMap_ok ?m" "RMap_Get (ClientID ident) ?m = Some (length (heap s))"
    using rmap.ok_put [OF ok] rmap.get_put [OF ok] by auto
  have s1f: "conns s1 = snd (RMap_Delete (ClientID ident) ?m)" "heap s1 = (heap s @ [c])[old := c']"
    "server_closed s1 = server_closed s" "closed_ids s1 = closed_ids s @ [i]"
    using after_Close_open [of old "s\<lparr>heap := heap s @ [c], conns := ?m\<rparr>" c' i] i c' m
    by (simp_all add: s1')
  have "RMap_Get (ClientID ident) (conns s1) = None"
    using rmap.get_del [OF m(1)] by (simp add: s1f)
  with conns_ConnackCode [OF s'] s1f c new_conn_fields [OF c(1)] c' i show ?thesis
    by (intro that) (simp_all add: GetConn_def conn_of_def nth_append nth_list_update)
qed

text \<open>
  A second login with a client id that is in the table throws the new connection out: closing
  the old connection deletes the entry that was just written, so afterwards the id is not in the
  table, messages to it fail with \<open>ConnectionNotFound\<close> although the new connection is open, and the
  close handler was told that the user is gone.
\<close>

theorem duplicate_login_unregisters:
  assumes inv: "server_inv s" and "doConnecton ip udp p s = Ok (code, s')"
    and "connectHandler (opts s) p = ConnectAccepted" and "Identity p = Some ident"
    and old: "GetConn (ClientID ident) s = Some old" and "\<not> server_closed s"
  shows "code = ConnectAccepted \<and> GetConn (ClientID ident) s' = None \<and>
    \<not> conn_closed (conn_of (length (heap s)) s') \<and> conn_closed (conn_of old s') \<and>
    server_SendMessage cx (ClientID ident) m s' = Err (XError ConnectionNotFound) \<and>
    map ClientID (closed_ids s') = map ClientID (closed_ids s) @ [ClientID ident]"
proof -
  from duplicate_login_effect [OF assms(1-5)] obtain i where
    "code = ConnectAccepted" "GetConn (ClientID ident) s' = None"
    "\<not> conn_closed (conn_of (length (heap s)) s')" "conn_closed (conn_of old s')"
    "ClientID i = ClientID ident" "closed_ids s' = closed_ids s @ [i]" "server_closed s' = server_closed s" .
  with assms(6) show ?thesis by (simp add: server_SendMessage_def GetConn_def)
qed

theorem duplicate_login_unregisters_witness:
  "GetConn (gs ''c'') (snd (demo_login (demo_connect ''u'' ''c'') demo_server)) = None"
proof -
  let ?p = "demo_connect ''u'' ''c''"
  have "is_Ok (doConnecton [] False ?p demo_server)" by code_simp
  note d = demo_login [OF this]
  have p: "Identity ?p = Some \<lparr>UserID = gs ''u'', ClientID = gs ''c'', Password = []\<rparr>"
    by (simp add: demo_connect_def NewConnect_def)
  from duplicate_login_unregisters [OF demo_server_inv d demo_server_accepts(1) p, of 0]
    demo_server_conn demo_server_accepts(2) show ?thesis by simp
qed

text \<open>
  A login that is refused still throws out the client it names: the refused connection's close
  deletes the entry of its claimed client id, so whoever knows a client id can take that client off
  the table, although its connection stays open, without passing the connect handler.
\<close>

theorem refused_login_evicts:
  assumes inv: "server_inv s" and "doConnecton ip udp p s = Ok (code, s')"
    and "connectHandler (opts s) p \<noteq> ConnectAccepted" and "Identity p = Some ident"
    and victim: "GetConn (ClientID ident) s = Some v"
  shows "code \<noteq> ConnectAccepted \<and> GetConn (ClientID ident) s' = None \<and>
    \<not> IsActive (ClientID ident) s' \<and> \<not> conn_closed (conn_of v s') \<and>
    closed_ids s' = closed_ids s @ [ident]"
proof -
  have ok: "RMap_ok (conns s)" using inv by (simp add: server_inv_def)
  obtain c s1 where c: "newConn (Some ident) ip udp (queueCapacity (opts s)) = Ok c"
    and code: "code = connectHandler (opts s) p"
    and s1: "do_ConnackCode code (length (heap s)) (s\<lparr>heap := heap s @ [c]\<rparr>) = Ok s1"
    and s': "s' = do_Close (length (heap s)) s1"
    using assms(2-4) by (auto simp: doConnecton_def OnConnect_def Let_def outcome_Ok_obind)
  note s1f = conns_ConnackCode [OF s1]
  have len: "length (heap s1) = Suc (length (heap s))"
    using s1 by (auto simp: do_ConnackCode_def omap_Ok)
  let ?c = "heap s1 ! length (heap s)"
  have new: "raw_ID ?c = Some ident" "\<not> conn_closed ?c"
    using s1f new_conn_fields [OF c] by (simp_all add: nth_append)
  have v: "v < length (heap s)" "\<not> conn_closed (heap s ! v)"
    using registered [OF inv] victim by (auto simp: GetConn_def)
  define c' where "c' = fst (conn_Close ?c)"
  have c': "conn_Close ?c = (c', True)" "raw_ID c' = Some ident"
    using new by (auto simp: conn_Close_def c'_def)
  have "s' = after_Close (length (heap s)) (c', True) s1"
    by (simp add: s' do_Close_def conn_of_def c')
  with after_Close_open [of "length (heap s)" s1 c' ident] c' len ok s1f
  have s'f: "conns s' = snd (RMap_Delete (ClientID ident) (conns s))"
    "heap s' = (heap s1)[length (heap s) := c']" "closed_ids s' = closed_ids s @ [ident]"
    using victim by (simp_all add: GetConn_def)
  have "RMap_Get (ClientID ident) (conns s') = None"
    using rmap.get_del [OF ok] by (simp add: s'f)
  moreover have "\<not> conn_closed (heap s' ! v)"
    using v s1f by (simp add: s'f nth_append)
  ultimately show ?thesis
    using assms(3) by (simp add: GetConn_def IsActive_def conn_of_def code s'f)
qed

definition demo_guarded :: server where
  "demo_guarded = demo_server\<lparr>opts := WithConnect (\<lambda>_. ConnectAuthfail) (opts demo_server)\<rparr>"

theorem refused_login_evicts_witness:
  "IsActive (gs ''c'') demo_guarded \<and>
   \<not> IsActive (gs ''c'') (snd (demo_login (demo_connect ''thief'' ''c'') demo_guarded))"
proof -
  let ?p = "demo_connect ''thief'' ''c''"
  have "is_Ok (doConnecton [] False ?p demo_guarded)" by code_simp
  note d = demo_login [OF this]
  have p: "Identity ?p = Some \<lparr>UserID = gs ''thief'', ClientID = gs ''c'', Password = []\<rparr>"
    by (simp add: demo_connect_def NewConnect_def)
  have inv: "server_inv demo_guarded"
    using demo_server_inv by (simp add: server_inv_def demo_guarded_def)
  have h: "connectHandler (opts demo_guarded) ?p \<noteq> ConnectAccepted"
    by (simp add: demo_guarded_def WithConnect_def ConnectAuthfail_def ConnectAccepted_def)
  have v: "GetConn (gs ''c'') demo_guarded = Some 0"
    using demo_server_conn(1) by (simp add: GetConn_def demo_guarded_def)
  have "IsActive (gs ''c'') demo_guarded" by code_simp
  with refused_login_evicts [OF inv d h p, of 0] v show ?thesis by simp
qed

section \<open>Messages and requests\<close>

lemma send_plain:
  assumes "conn_plain c" and "sendable p"
  obtains c' where "conn_SendPacket background p c = Ok c'" and "conn_plain c'"
    and "sent c' = sent c @ [frame p]"
proof -
  obtain c' where "send_all [p] c = Ok c'" "conn_plain c'" "sent c' = sent c @ map frame [p]"
    using send_all_plain [of c "[p]"] assms by auto
  then show ?thesis using that by (auto simp: outcome_Ok_obind)
qed

definition send_each :: "message \<Rightarrow> gostring \<Rightarrow> nat \<Rightarrow>
    (go_error, (u32 \<times> u32) \<times> server) outcome \<Rightarrow> (go_error, (u32 \<times> u32) \<times> server) outcome" where
  "send_each p cid r acc = obind acc (\<lambda>((total, success), st).
     case conn_SendMessage background p (conn_of r st) of
       Ok c \<Rightarrow> Ok ((total + 1, success + 1), put_conn r c st)
     | Err e \<Rightarrow> Ok ((total + 1, success), st)
     | Panic \<Rightarrow> Panic)"

lemma Brodcast_fold:
  "Brodcast background p s =
     (if server_closed s then Err (XError ServerIsClosed)
      else fold (\<lambda>(k, v). send_each p k v) (rmap_m (conns s)) (Ok ((0, 0), s)))"
  unfolding Brodcast_def RMap_Range_def Map_Range_fold send_each_def ..

lemma send_each_all:
  assumes "distinct (map snd m)" and "sendable (PMessage p)"
    and "\<forall>r \<in> snd ` set m. r < length (heap st) \<and> conn_plain (heap st ! r)"
  shows "\<exists>st'. fold (\<lambda>(k, v). send_each p k v) m (Ok ((t, u), st)) =
      Ok ((t + of_nat (length m), u + of_nat (length m)), st') \<and> conns st' = conns st \<and>
    (\<forall>r < length (heap st). sent (heap st' ! r) =
      sent (heap st ! r) @ (if r \<in> snd ` set m then [frame (PMessage p)] else []))"
  using assms
proof (induction m arbitrary: st t u)
  case (Cons a m)
  obtain cid r where a: "a = (cid, r)" by (cases a)
  have r: "r < length (heap st)" "conn_plain (heap st ! r)" using Cons.prems(3) a by auto
  obtain c where c: "conn_SendPacket background (PMessage p) (heap st ! r) = Ok c"
    "sent c = sent (heap st ! r) @ [frame (PMessage p)]"
    using send_plain [OF r(2) Cons.prems(2)] by blast
  let ?st = "put_conn r c st"
  have step: "send_each p cid r (Ok ((t, u), st)) = Ok ((t + 1, u + 1), ?st)"
    using c by (simp add: send_each_def conn_of_def conn_SendMessage_def)
  have "\<forall>r' \<in> snd ` set m. r' < length (heap ?st) \<and> conn_plain (heap ?st ! r')"
  proof
    fix r' assume "r' \<in> snd ` set m"
    moreover from this have "r' \<noteq> r" using Cons.prems(1) a by auto
    ultimately show "r' < length (heap ?st) \<and> conn_plain (heap ?st ! r')"
      using Cons.prems(3) by (auto simp: put_conn_def)
  qed
  with Cons.IH [of ?st "t + 1" "u + 1"] Cons.prems(1,2)
  obtain st' where st': "fold (\<lambda>(k, v). send_each p k v) m (Ok ((t + 1, u + 1), ?st)) =
      Ok ((t + 1 + of_nat (length m), u + 1 + of_nat (length m)), st')" "conns st' = conns st"
    "\<forall>r' < length (heap st). sent (heap st' ! r') =
      sent (heap ?st ! r') @ (if r' \<in> snd ` set m then [frame (PMessage p)] else [])"
    by (auto simp: put_conn_def)
  moreover have "sent (heap ?st ! r') @ (if r' \<in> snd ` set m then [frame (PMessage p)] else []) =
      sent (heap st ! r') @ (if r' \<in> snd ` set (a # m) then [frame (PMessage p)] else [])"
    if "r' < length (heap st)" for r'
    using that Cons.prems(1) a c r by (auto simp: put_conn_def nth_list_update)
  ultimately show ?case by (auto simp: a step ac_simps)
qed auto

lemma distinct_refs: "server_inv s \<Longrightarrow> distinct (map snd (rmap_m (conns s)))"
proof -
  assume inv: "server_inv s"
  let ?m = "rmap_m (conns s)"
  have get: "(k, r) \<in> set ?m \<Longrightarrow> RMap_Get k (conns s) = Some r" for k r
    using inv by (auto simp: server_inv_def RMap_ok_def go_map_def RMap_Get_def)
  have "k = k'" if "(k, r) \<in> set ?m" "(k', r) \<in> set ?m" for k k' r
    using registered [OF inv get [OF that(1)]] registered [OF inv get [OF that(2)]]
    by (metis option.inject)
  then have "inj_on snd (set ?m)" by (auto simp: inj_on_def)
  moreover have "distinct ?m"
    using inv by (auto simp: server_inv_def RMap_ok_def go_map_def distinct_map)
  ultimately show ?thesis by (simp add: distinct_map)
qed

text \<open>
  C27. A broadcast reaches every client of the table exactly once and counts them: with open
  connections the totals are both \<open>ConnCount\<close>, each registered connection has the frame added to
  what it sends, and no other connection is touched.
\<close>

theorem Brodcast_reaches_all:
  assumes inv: "server_inv s" and "\<not> server_closed s" and "sendable (PMessage p)"
    and "\<forall>r. (\<exists>cid. GetConn cid s = Some r) \<longrightarrow> conn_plain (conn_of r s)"
  shows "\<exists>s'. Brodcast background p s = Ok ((ConnCount s, ConnCount s), s') \<and>
    (\<forall>r < length (heap s). sent (conn_of r s') = sent (conn_of r s) @
       (if \<exists>cid. GetConn cid s = Some r then [frame (PMessage p)] else []))"
proof -
  let ?m = "rmap_m (conns s)"
  have go: "go_map ?m" and len: "ConnCount s = of_nat (length ?m)"
    using inv by (auto simp: server_inv_def RMap_ok_def ConnCount_def RMap_Len_def)
  have refs: "r \<in> snd ` set ?m \<longleftrightarrow> (\<exists>cid. GetConn cid s = Some r)" for r
    using go by (force simp: GetConn_def RMap_Get_def go_map_def dest: map_of_SomeD)
  have "\<forall>r \<in> snd ` set ?m. r < length (heap s) \<and> conn_plain (heap s ! r)"
    using refs assms(4) registered_bound [OF inv] by (auto simp: conn_of_def)
  from send_each_all [OF distinct_refs [OF inv] assms(3) this, of 0 0] show ?thesis
    using assms(2) refs by (auto simp: Brodcast_fold len conn_of_def)
qed

definition demo_idle :: server where
  "demo_idle = get_Ok (server_do (EvWork 0) demo_server)"

lemma demo_idle:
  "server_inv demo_idle" "conn_plain (conn_of 0 demo_idle)" "length (heap demo_idle) = 1"
  "GetConn (gs ''c'') demo_idle = Some 0" "server_closed demo_idle = False" "ConnCount demo_idle = 1"
proof -
  have "server_do (EvWork 0) demo_server = Ok demo_idle"
    unfolding demo_idle_def by (rule get_Ok) code_simp
  then show "server_inv demo_idle" using server_inv_do demo_server_inv by blast
qed code_simp+

theorem Brodcast_reaches_all_witness:
  "\<exists>s'. Brodcast background (NewMessage [1]) demo_idle = Ok ((1, 1), s') \<and>
     frame (PMessage (NewMessage [1])) \<in> set (sent (conn_of 0 s'))"
proof -
  have m: "sendable (PMessage (NewMessage [1]))"
    by (simp add: sendable_def NewMessage_def u8map_ok_def message_wire_def u8map_wire_def MAX_LEN_def)
  have "r = 0" if "GetConn cid demo_idle = Some r" for cid r
    using registered [OF demo_idle(1), of cid r] that demo_idle(3) by (auto simp: GetConn_def)
  then have "\<forall>r. (\<exists>cid. GetConn cid demo_idle = Some r) \<longrightarrow> conn_plain (conn_of r demo_idle)"
    using demo_idle(2) by auto
  from Brodcast_reaches_all [OF demo_idle(1) _ m this] demo_idle show ?thesis by fastforce
qed

text \<open>
  Every request gets exactly one response with the request's id: the handler's body with
  \<open>StatusOK\<close>, the handler's own status code when its error is one, \<open>StatusInternalError\<close> otherwise.
\<close>

theorem OnRequest_replies:
  assumes "r < length (heap s)" and "conn_plain (conn_of r s)" and "raw_ID (conn_of r s) = Some ident"
    and "requestHandler (opts s) p (Some ident) = res" and "res \<noteq> Panic"
    and "rsp = (case res of Ok body \<Rightarrow> request_Response p StatusOK [body]
           | Err (StatusCodeError code) \<Rightarrow> request_Response p code []
           | _ \<Rightarrow> request_Response p StatusInternalError [])"
    and "sendable (PResponse rsp)"
  shows "response_id rsp = request_ID p \<and>
    (\<exists>s'. OnRequest background r p s = Ok s' \<and>
       sent (conn_of r s') = sent (conn_of r s) @ [frame (PResponse rsp)])"
proof -
  obtain c where c: "conn_SendPacket background (PResponse rsp) (conn_of r s) = Ok c"
    "sent c = sent (conn_of r s) @ [frame (PResponse rsp)]"
    using send_plain [OF assms(2,7)] by blast
  have "OnRequest background r p s = Ok (put_conn r c s)"
    using assms(3-6) c(1)
    by (auto simp: OnRequest_def log_identity_def split: outcome.splits go_error.splits)
  then show ?thesis
    using c assms(1,6) by (auto simp: conn_of_def put_conn_def request_Response_def
      split: outcome.splits go_error.splits)
qed

theorem OnRequest_replies_witness:
  "\<exists>s'. OnRequest background 0 (NewRequest (gs ''m'') []) demo_idle = Ok s' \<and>
     frame (PResponse \<lparr>response_props = [], response_id = 0, response_Code = StatusNotFound,
       response_Body = []\<rparr>) \<in> set (sent (conn_of 0 s'))"
proof -
  let ?p = "NewRequest (gs ''m'') []"
  let ?rsp = "request_Response ?p StatusNotFound []"
  obtain ident where ident: "raw_ID (conn_of 0 demo_idle) = Some ident"
    using registered [OF demo_idle(1) demo_idle(4) [unfolded GetConn_def]] unfolding conn_of_def .
  have h: "requestHandler (opts demo_idle) ?p (Some ident) = Err (StatusCodeError StatusNotFound)"
    by code_simp
  have m: "sendable (PResponse ?rsp)"
    by (simp add: sendable_def NewRequest_def request_Response_def u8map_ok_def response_wire_def
      u8map_wire_def MAX_LEN_def)
  have rsp: "?rsp = \<lparr>response_props = [], response_id = 0, response_Code = StatusNotFound,
       response_Body = []\<rparr>"
    by (simp add: request_Response_def NewRequest_def)
  have z: "0 < length (heap demo_idle)" using demo_idle(3) by simp
  from OnRequest_replies [OF z demo_idle(2) ident h _ _ m] rsp show ?thesis by auto
qed

end
