(* ===== verification/Routing.thy ===== *)
theory Routing
  imports Server_Safety Raft_Safety
begin

text \<open>
  The broker of src/cluster/broker.go over its listeners (listener.go) and the other nodes
  (peer_client.go, peer_server.go): where a message for a user, a channel or everybody goes, who is
  asked whether a user is online, who is told to kick one, and what a login and a closed
  connection submit to the log.

  A \<open>node\<close> is one process: the state of its broker and cluster and its listeners, each with a server.
  A \<open>world\<close> is the processes by node id. A call to a peer goes through gRPC, which is not part of the
  repository: the argument \<open>grpc\<close> says for each node what becomes of the call, whether it is answered
  and how often the handler ran (a call may be retried), or fails, before or after it was handled.
  A panic of any process is a panic of the whole.

  The closures over the broker that \<open>NewBroker\<close> installs as handlers of the servers are rendered by
  running the broker's function at the point where the server calls its handler: \<open>login\<close> runs
  \<open>onUserConnect\<close> before the server's part of a login, \<open>on_server\<close> runs \<open>onUserClosed\<close> for every identity
  the server reports as closed. A \<open>range\<close> over the tables sees them as they are when the call begins;
  the goroutines of one call act on different nodes, so their order does not matter.
\<close>

section \<open>Listeners\<close>

record listener =
  l_started :: bool
  l_server :: "server option"
  l_network :: string
  l_port :: u16
  l_options :: "(options \<Rightarrow> options) list"
  autoStart :: bool

definition NewListener :: "string \<Rightarrow> u16 \<Rightarrow> bool \<Rightarrow> (options \<Rightarrow> options) list \<Rightarrow> listener" where
  "NewListener net port auto os =
     \<lparr>l_started = False, l_server = None, l_network = net, l_port = port,
      l_options = os @ [WithNetwork net], autoStart = auto\<rparr>"

definition AddOptions :: "(options \<Rightarrow> options) list \<Rightarrow> listener \<Rightarrow> listener" where
  "AddOptions os l = l\<lparr>l_options := l_options l @ os\<rparr>"

definition ISStarted :: "listener \<Rightarrow> bool" where
  "ISStarted l = l_started l"

definition Listener_Start :: "listener \<Rightarrow> (go_error, listener) outcome" where
  "Listener_Start l =
     (if l_started l then Ok l
      else obind (server_New (l_options l)) (\<lambda>s. Ok (l\<lparr>l_started := True, l_server := Some s\<rparr>)))"

text \<open>\<open>Shutdown\<close>: the error is nil when the first component is \<open>None\<close>.\<close>

definition Listener_Shutdown ::
  "go_error option \<Rightarrow> go_error \<Rightarrow> (server \<Rightarrow> server) list \<Rightarrow> listener \<Rightarrow>
     (go_error, go_error option \<times> listener) outcome" where
  "Listener_Shutdown transport_err ctx_e waits l =
     (if \<not> l_started l then Ok (None, l)
      else case l_server l of
             None \<Rightarrow> Panic
           | Some s \<Rightarrow>
               obind (ExpelAllConns s) (\<lambda>s1.
                 case Shutdown transport_err ctx_e waits s1 of
                   (err, s2) \<Rightarrow> Ok (err, l\<lparr>l_started := False, l_server := Some s2\<rparr>)))"

section \<open>Nodes\<close>

record 'cs node =
  node_cluster :: "'cs cluster"
  listeners :: "(gostring, listener) gomap"
  requstHandlers :: "(gostring, request \<Rightarrow> identity option \<Rightarrow> (go_error, bytes) outcome) RMap"
  userConnect :: "connect \<Rightarrow> byte"
  userMessage :: "message \<Rightarrow> identity option \<Rightarrow> (go_error, unit) outcome"
  userChannels :: "gostring \<Rightarrow> (gostring, gostring) gomap \<times> go_error option"
  user_closed :: "identity list"

abbreviation node_id :: "'cs node \<Rightarrow> u64" where
  "node_id nd \<equiv> nodeId (node_cluster nd)"

abbreviation node_broker :: "'cs node \<Rightarrow> broker_state" where
  "node_broker nd \<equiv> broker (node_cluster nd)"

definition put_listener :: "gostring \<Rightarrow> listener \<Rightarrow> 'cs node \<Rightarrow> 'cs node" where
  "put_listener net l nd = nd\<lparr>listeners := AList.update net l (listeners nd)\<rparr>"

definition put_server :: "gostring \<Rightarrow> server \<Rightarrow> 'cs node \<Rightarrow> 'cs node" where
  "put_server net s nd =
     (case map_of (listeners nd) net of
        None \<Rightarrow> nd
      | Some l \<Rightarrow> put_listener net (l\<lparr>l_server := Some s\<rparr>) nd)"

text \<open>
  \<open>l, ok := b.listeners[net]; ok && l.ISStarted()\<close>, and the server a call on \<open>l\<close> then reaches. A
  listener that is started without a server is a nil pointer.
\<close>

definition started_server :: "gostring \<Rightarrow> 'cs node \<Rightarrow> (go_error, server option) outcome" where
  "started_server net nd =
     (case map_of (listeners nd) net of
        None \<Rightarrow> Ok None
      | Some l \<Rightarrow>
          if ISStarted l then (case l_server l of None \<Rightarrow> Panic | Some s \<Rightarrow> Ok (Some s)) else Ok None)"

section \<open>Closed connections\<close>

definition onUserClosed :: "identity \<Rightarrow> 'cs node \<Rightarrow> 'cs node" where
  "onUserClosed ident nd =
     (let op = UserClosed \<lparr>closed_uid = UserID ident, closed_cid = ClientID ident, closed_nodeID = node_id nd\<rparr>;
          c = (case SubmitOperation op (node_cluster nd) of Ok c' \<Rightarrow> c' | _ \<Rightarrow> node_cluster nd)
      in nd\<lparr>node_cluster := c, user_closed := user_closed nd @ [ident]\<rparr>)"

definition on_server ::
  "gostring \<Rightarrow> server \<Rightarrow> (go_error, 'a \<times> server) outcome \<Rightarrow> 'cs node \<Rightarrow> (go_error, 'a \<times> 'cs node) outcome" where
  "on_server net s res nd =
     omap (\<lambda>(x, s'). (x, fold onUserClosed (drop (length (closed_ids s)) (closed_ids s')) (put_server net s' nd)))
       res"

section \<open>Local operations\<close>

fun isActive :: "(gostring, gostring) gomap \<Rightarrow> 'cs node \<Rightarrow> (go_error, bool) outcome" where
  "isActive [] nd = Ok False"
| "isActive ((cid, net) # targets) nd =
     obind (started_server net nd) (\<lambda>srv.
       case srv of
         Some s \<Rightarrow> if IsActive cid s then Ok True else isActive targets nd
       | None \<Rightarrow> isActive targets nd)"

definition kick_one :: "gostring \<Rightarrow> gostring \<Rightarrow> 'cs node \<Rightarrow> (go_error, 'cs node) outcome" where
  "kick_one cid net nd =
     obind (started_server net nd) (\<lambda>srv.
       case srv of
         Some s \<Rightarrow> omap snd (on_server net s (KickConn cid s) nd)
       | None \<Rightarrow> Ok nd)"

definition kickConn :: "(gostring, gostring) gomap \<Rightarrow> 'cs node \<Rightarrow> (go_error, 'cs node) outcome" where
  "kickConn targets nd = foldl (\<lambda>acc (cid, net). obind acc (kick_one cid net)) (Ok nd) targets"

text \<open>\<open>True\<close> when \<open>success\<close> is counted.\<close>

definition send_one :: "ctx \<Rightarrow> message \<Rightarrow> gostring \<Rightarrow> gostring \<Rightarrow> 'cs node \<Rightarrow> (go_error, bool \<times> 'cs node) outcome" where
  "send_one cx m cid net nd =
     obind (started_server net nd) (\<lambda>srv.
       case srv of
         None \<Rightarrow> Ok (False, nd)
       | Some s \<Rightarrow>
           (case server_SendMessage cx cid m s of
              Ok s' \<Rightarrow> Ok (True, put_server net s' nd)
            | Err e \<Rightarrow> Ok (False, nd)
            | Panic \<Rightarrow> Panic))"

definition sendToClients ::
  "ctx \<Rightarrow> message \<Rightarrow> (gostring, gostring) gomap \<Rightarrow> 'cs node \<Rightarrow> (go_error, (u32 \<times> u32) \<times> 'cs node) outcome" where
  "sendToClients cx m cids nd =
     foldl (\<lambda>acc (cid, net). obind acc (\<lambda>((total, success), st).
         omap (\<lambda>(ok, st'). ((total + 1, if ok then success + 1 else success), st')) (send_one cx m cid net st)))
       (Ok ((0, 0), nd)) cids"

definition sendToAll :: "ctx \<Rightarrow> message \<Rightarrow> 'cs node \<Rightarrow> (go_error, (u32 \<times> u32) \<times> 'cs node) outcome" where
  "sendToAll cx m nd =
     foldl (\<lambda>acc (net, _). obind acc (\<lambda>((total, success), st). obind (started_server net st) (\<lambda>srv.
         case srv of
           None \<Rightarrow> Ok ((total, success), st)
         | Some s \<Rightarrow>
             (case Brodcast cx m s of
                Ok ((t, n), s') \<Rightarrow> Ok ((total + t, success + n), put_server net s' st)
              | Err e \<Rightarrow> Ok ((total, success), st)
              | Panic \<Rightarrow> Panic))))
       (Ok ((0, 0), nd)) (listeners nd)"

definition startListener :: "gostring \<Rightarrow> 'cs node \<Rightarrow> (go_error, 'cs node) outcome" where
  "startListener net nd =
     (case map_of (listeners nd) net of
        None \<Rightarrow> Err (OtherError ''listener for network not found'')
      | Some l \<Rightarrow> omap (\<lambda>l'. put_listener net l' nd) (Listener_Start l))"

text \<open>
  \<open>stopListener\<close>: its context is never done, and after \<open>ExpelAllConns\<close> no connection is left to wait
  for. The connections closed on the way are reported to \<open>onUserClosed\<close>.
\<close>

definition stopListener ::
  "go_error option \<Rightarrow> gostring \<Rightarrow> 'cs node \<Rightarrow> (go_error, go_error option \<times> 'cs node) outcome" where
  "stopListener transport_err net nd =
     (case map_of (listeners nd) net of
        None \<Rightarrow> Err (OtherError ''listener for network not found'')
      | Some l \<Rightarrow>
          obind (Listener_Shutdown transport_err ContextCanceled [] l) (\<lambda>(err, l').
            let closed = (case (l_server l, l_server l') of
                            (Some s, Some s') \<Rightarrow> drop (length (closed_ids s)) (closed_ids s')
                          | _ \<Rightarrow> [])
            in Ok (err, fold onUserClosed closed (put_listener net l' nd))))"

definition node_ConnCount :: "'cs node \<Rightarrow> (gostring \<times> u32) list" where
  "node_ConnCount nd =
     concat (map (\<lambda>(net, l). if ISStarted l then (case l_server l of Some s \<Rightarrow> [(net, ConnCount s)] | None \<Rightarrow> [])
                             else []) (listeners nd))"

definition ListUsers :: "u64 \<Rightarrow> 'cs node \<Rightarrow> (go_error, (gostring, (gostring, gostring) gomap) gomap) outcome" where
  "ListUsers i nd =
     (case RMap_Get i (userClients (node_broker nd)) of
        None \<Rightarrow> Err (XError PeerNotReady)
      | Some uc \<Rightarrow> Ok (KeyMap_Range (\<lambda>uid m users. (True, users @ [(uid, Map_Load m)])) uc []))"

definition HandleRequest ::
  "gostring \<Rightarrow> (request \<Rightarrow> identity option \<Rightarrow> (go_error, bytes) outcome) \<Rightarrow> 'cs node \<Rightarrow> 'cs node" where
  "HandleRequest meth h nd = nd\<lparr>requstHandlers := snd (RMap_Set meth h (requstHandlers nd))\<rparr>"

definition onUserRequest :: "'cs node \<Rightarrow> request \<Rightarrow> identity option \<Rightarrow> (go_error, bytes) outcome" where
  "onUserRequest nd p ident =
     (case RMap_Get (Method p) (requstHandlers nd) of
        None \<Rightarrow> Err (StatusCodeError StatusNotFound)
      | Some h \<Rightarrow> h p ident)"

definition onUserMessage :: "'cs node \<Rightarrow> message \<Rightarrow> identity option \<Rightarrow> (go_error, unit) outcome" where
  "onUserMessage nd p ident = userMessage nd p ident"

section \<open>The peer service\<close>

type_synonym 'cs world = "u64 \<Rightarrow> 'cs node option"

datatype delivery = Answered nat | Failed nat go_error

text \<open>A handler that returns an error has not changed its node.\<close>

type_synonym ('cs, 'r) peer_handler = "'cs node \<Rightarrow> (go_error, 'r \<times> 'cs node) outcome"

fun handle_times ::
  "nat \<Rightarrow> ('s \<Rightarrow> (go_error, 'r \<times> 's) outcome) \<Rightarrow> 's \<Rightarrow> (go_error, ((go_error, 'r) outcome \<times> 's)) outcome" where
  "handle_times 0 h nd = Ok (Err (OtherError ''unavailable''), nd)"
| "handle_times (Suc n) h nd =
     (case h nd of
        Panic \<Rightarrow> Panic
      | Err e \<Rightarrow> if n = 0 then Ok (Err e, nd) else handle_times n h nd
      | Ok (r, nd') \<Rightarrow> if n = 0 then Ok (Ok r, nd') else handle_times n h nd')"

definition rpc ::
  "(u64 \<Rightarrow> delivery) \<Rightarrow> u64 \<Rightarrow> ('cs, 'r) peer_handler \<Rightarrow> 'cs world \<Rightarrow>
     (go_error, (go_error, 'r) outcome \<times> 'cs world) outcome" where
  "rpc grpc i h w =
     (case w i of
        None \<Rightarrow> Ok (Err (OtherError ''unavailable''), w)
      | Some nd \<Rightarrow>
          (case grpc i of
             Answered k \<Rightarrow> omap (\<lambda>(res, nd'). (res, w(i \<mapsto> nd'))) (handle_times (Suc k) h nd)
           | Failed k e \<Rightarrow> omap (\<lambda>(res, nd'). (Err e, w(i \<mapsto> nd'))) (handle_times k h nd)))"

text \<open>The guard that opens every method of \<open>peerClient\<close>.\<close>

definition peer_rpc ::
  "(u64 \<Rightarrow> delivery) \<Rightarrow> peer_client \<Rightarrow> ('cs, 'r) peer_handler \<Rightarrow> 'cs world \<Rightarrow>
     (go_error, (go_error, 'r) outcome \<times> 'cs world) outcome" where
  "peer_rpc grpc p h w =
     (if \<not> peer_isReady p then Ok (Err (XError PeerNotReady), w) else rpc grpc (peer_id p) h w)"

definition server_decode :: "bytes \<Rightarrow> (go_error, message) outcome" where
  "server_decode data =
     (case Coder.Unmarshal message_ReadFrom data of
        Ok m \<Rightarrow> Ok m | Err e \<Rightarrow> Err (XError InvalidPeerMessage) | Panic \<Rightarrow> Panic)"

definition server_SendToAll :: "ctx \<Rightarrow> bytes \<Rightarrow> ('cs, u32 \<times> u32) peer_handler" where
  "server_SendToAll cx data nd = obind (server_decode data) (\<lambda>m. sendToAll cx m nd)"

definition server_SendToUser :: "ctx \<Rightarrow> bytes \<Rightarrow> (gostring, gostring) gomap \<Rightarrow> ('cs, u32 \<times> u32) peer_handler" where
  "server_SendToUser cx data targets nd = obind (server_decode data) (\<lambda>m. sendToClients cx m targets nd)"

definition server_SendToChannel :: "ctx \<Rightarrow> bytes \<Rightarrow> (gostring, gostring) gomap \<Rightarrow> ('cs, u32 \<times> u32) peer_handler" where
  "server_SendToChannel cx data targets nd = obind (server_decode data) (\<lambda>m. sendToClients cx m targets nd)"

definition server_IsOnline :: "(gostring, gostring) gomap \<Rightarrow> ('cs, bool) peer_handler" where
  "server_IsOnline targets nd = omap (\<lambda>ok. (ok, nd)) (isActive targets nd)"

definition server_KickConn :: "(gostring, gostring) gomap \<Rightarrow> ('cs, unit) peer_handler" where
  "server_KickConn targets nd = omap (\<lambda>nd'. ((), nd')) (kickConn targets nd)"

definition server_StartListener :: "gostring \<Rightarrow> ('cs, unit) peer_handler" where
  "server_StartListener net nd = omap (\<lambda>nd'. ((), nd')) (startListener net nd)"

definition peer_sendToAll where
  "peer_sendToAll grpc cx p m w = peer_rpc grpc p (server_SendToAll cx (Coder.Marshal message_WriteTo m)) w"

definition peer_sendToUser where
  "peer_sendToUser grpc cx p m cids w =
     peer_rpc grpc p (server_SendToUser cx (Coder.Marshal message_WriteTo m) cids) w"

definition peer_sendToChannel where
  "peer_sendToChannel grpc cx p m cids w =
     peer_rpc grpc p (server_SendToChannel cx (Coder.Marshal message_WriteTo m) cids) w"

definition peer_isOnline where
  "peer_isOnline grpc p targets w = peer_rpc grpc p (server_IsOnline targets) w"

definition peer_kickConn where
  "peer_kickConn grpc p targets w = peer_rpc grpc p (server_KickConn targets) w"

definition peer_startListener where
  "peer_startListener grpc p net w = peer_rpc grpc p (server_StartListener net) w"

text \<open>\<open>StopListener\<close> returns the error of a shutdown that did change the node, so it is part of the answer.\<close>

definition server_StopListener :: "go_error option \<Rightarrow> gostring \<Rightarrow> ('cs, go_error option) peer_handler" where
  "server_StopListener transport_err net nd = stopListener transport_err net nd"

definition peer_stopListener where
  "peer_stopListener grpc transport_err p net w =
     omap (\<lambda>(res, w'). (case res of Ok None \<Rightarrow> Ok () | Ok (Some e) \<Rightarrow> Err e | Err e \<Rightarrow> Err e | Panic \<Rightarrow> Panic, w'))
       (peer_rpc grpc p (server_StopListener transport_err net) w)"

section \<open>Operations of the whole cluster\<close>

text \<open>\<open>GetPeer\<close> and \<open>RangePeers\<close> of src/cluster/cluster.go.\<close>

definition GetPeer :: "u64 \<Rightarrow> 'cs cluster \<Rightarrow> peer_client option" where
  "GetPeer i c = RMap_Get i (peers c)"

definition RangePeers :: "(u64 \<Rightarrow> peer_client \<Rightarrow> 's \<Rightarrow> bool \<times> 's) \<Rightarrow> 'cs cluster \<Rightarrow> 's \<Rightarrow> 's" where
  "RangePeers f c s = RMap_Range f (peers c) s"

text \<open>
  The loop that \<open>SendToUser\<close> and \<open>SendToChannel\<close> share: the clients listed for this node get the
  message here, those listed for a known peer there; an error of a peer is logged.
\<close>

definition fan_out ::
  "(peer_client \<Rightarrow> (gostring, gostring) gomap \<Rightarrow> 'cs world \<Rightarrow>
      (go_error, (go_error, u32 \<times> u32) outcome \<times> 'cs world) outcome) \<Rightarrow>
   ctx \<Rightarrow> message \<Rightarrow> gostring node_map \<Rightarrow> gostring \<Rightarrow> u64 \<Rightarrow> 'cs cluster \<Rightarrow> 'cs world \<Rightarrow>
     (go_error, (u32 \<times> u32) \<times> 'cs world) outcome" where
  "fan_out send cx m table key me c w =
     RMap_Range (\<lambda>i value acc. (True, obind acc (\<lambda>((total, success), st).
         if i = nodeId c then
           (case KeyMap_Get key value of
              None \<Rightarrow> Ok ((total, success), st)
            | Some cids \<Rightarrow>
                omap (\<lambda>((t, n), nd'). ((total + t, success + n), st(me \<mapsto> nd')))
                  (sendToClients cx m (Map_Load cids) (the (st me))))
         else
           (case GetPeer i c of
              None \<Rightarrow> Ok ((total, success), st)
            | Some p \<Rightarrow>
                (case KeyMap_Get key value of
                   None \<Rightarrow> Ok ((total, success), st)
                 | Some cids \<Rightarrow>
                     omap (\<lambda>(res, st'). case res of
                          Ok (t, n) \<Rightarrow> ((total + t, success + n), st')
                        | _ \<Rightarrow> ((total, success), st'))
                       (send p (Map_Load cids) st))))))
       table (Ok ((0, 0), w))"

definition SendToUser ::
  "(u64 \<Rightarrow> delivery) \<Rightarrow> ctx \<Rightarrow> u64 \<Rightarrow> gostring \<Rightarrow> message \<Rightarrow> 'cs world \<Rightarrow>
     (go_error, (u32 \<times> u32) \<times> 'cs world) outcome" where
  "SendToUser grpc cx me uid m w =
     (let nd = the (w me)
      in if uid = [] then Err (XError InvalidUserID)
         else fan_out (\<lambda>p cids. peer_sendToUser grpc cx p m cids) cx m
                (userClients (node_broker nd)) uid me (node_cluster nd) w)"

definition SendToChannel ::
  "(u64 \<Rightarrow> delivery) \<Rightarrow> ctx \<Rightarrow> u64 \<Rightarrow> gostring \<Rightarrow> message \<Rightarrow> 'cs world \<Rightarrow>
     (go_error, (u32 \<times> u32) \<times> 'cs world) outcome" where
  "SendToChannel grpc cx me ch m w =
     (let nd = the (w me)
      in if ch = [] then Err (XError InvalidChannel)
         else fan_out (\<lambda>p cids. peer_sendToChannel grpc cx p m cids) cx m
                (channelClients (node_broker nd)) ch me (node_cluster nd) w)"

definition SendToAll ::
  "(u64 \<Rightarrow> delivery) \<Rightarrow> ctx \<Rightarrow> u64 \<Rightarrow> message \<Rightarrow> 'cs world \<Rightarrow>
     (go_error, (u32 \<times> u32) \<times> 'cs world) outcome" where
  "SendToAll grpc cx me m w =
     (let nd = the (w me)
      in obind (sendToAll cx m nd) (\<lambda>((t, n), nd').
           RangePeers (\<lambda>i p acc. (True, obind acc (\<lambda>((total, success), st).
               omap (\<lambda>(res, st'). case res of
                   Ok (t', n') \<Rightarrow> ((total + t', success + n'), st')
                 | _ \<Rightarrow> ((total, success), st'))
                 (peer_sendToAll grpc cx p m st))))
             (node_cluster nd) (Ok ((t, n), w(me \<mapsto> nd')))))"

text \<open>\<open>IsOnline\<close>: the loop ends at the first node that says yes; nothing is changed anywhere.\<close>

definition IsOnline :: "(u64 \<Rightarrow> delivery) \<Rightarrow> u64 \<Rightarrow> gostring \<Rightarrow> 'cs world \<Rightarrow> (go_error, bool) outcome" where
  "IsOnline grpc me uid w =
     (let nd = the (w me); c = node_cluster nd
      in RMap_Range (\<lambda>i value acc.
             let acc' =
               (if i = nodeId c then
                  (case KeyMap_Get uid value of Some cids \<Rightarrow> isActive (Map_Load cids) nd | None \<Rightarrow> Ok False)
                else
                  (case GetPeer i c of
                     None \<Rightarrow> Ok False
                   | Some p \<Rightarrow>
                       (case KeyMap_Get uid value of
                          None \<Rightarrow> Ok False
                        | Some cids \<Rightarrow>
                            omap (\<lambda>(res, _). res = Ok True) (peer_isOnline grpc p (Map_Load cids) w))))
             in (acc' = Ok False, acc'))
           (userClients (node_broker nd)) (Ok False))"

definition KickUser :: "(u64 \<Rightarrow> delivery) \<Rightarrow> u64 \<Rightarrow> gostring \<Rightarrow> 'cs world \<Rightarrow> (go_error, 'cs world) outcome" where
  "KickUser grpc me uid w =
     (let c = node_cluster (the (w me))
      in RMap_Range (\<lambda>i value acc. (True, obind acc (\<lambda>st.
             if i = nodeId c then
               (case KeyMap_Get uid value of
                  Some cids \<Rightarrow> omap (\<lambda>nd'. st(me \<mapsto> nd')) (kickConn (Map_Load cids) (the (st me)))
                | None \<Rightarrow> Ok st)
             else
               (case GetPeer i c of
                  None \<Rightarrow> Ok st
                | Some p \<Rightarrow>
                    (case KeyMap_Get uid value of
                       Some cids \<Rightarrow> omap snd (peer_kickConn grpc p (Map_Load cids) st)
                     | None \<Rightarrow> Ok st)))))
           (userClients (broker c)) (Ok w))"

text \<open>\<open>StartListener\<close> and \<open>StopListener\<close>: here first, then the peers until one fails.\<close>

definition StartListener ::
  "(u64 \<Rightarrow> delivery) \<Rightarrow> u64 \<Rightarrow> gostring \<Rightarrow> 'cs world \<Rightarrow> (go_error, go_error option \<times> 'cs world) outcome" where
  "StartListener grpc me net w =
     (let nd = the (w me)
      in case startListener net nd of
           Panic \<Rightarrow> Panic
         | Err e \<Rightarrow> Ok (Some e, w)
         | Ok nd' \<Rightarrow>
             RangePeers (\<lambda>i p acc.
                 let acc' = obind acc (\<lambda>(_, st).
                       omap (\<lambda>(res, st'). (case res of Err e \<Rightarrow> Some e | _ \<Rightarrow> None, st'))
                         (peer_startListener grpc p net st))
                 in (case acc' of Ok (None, _) \<Rightarrow> True | _ \<Rightarrow> False, acc'))
               (node_cluster nd) (Ok (None, w(me \<mapsto> nd'))))"

definition StopListener ::
  "(u64 \<Rightarrow> delivery) \<Rightarrow> (u64 \<Rightarrow> go_error option) \<Rightarrow> u64 \<Rightarrow> gostring \<Rightarrow> 'cs world \<Rightarrow>
     (go_error, go_error option \<times> 'cs world) outcome" where
  "StopListener grpc transport_err me net w =
     (let nd = the (w me)
      in case stopListener (transport_err me) net nd of
           Panic \<Rightarrow> Panic
         | Err e \<Rightarrow> Ok (Some e, w)
         | Ok (Some e, nd') \<Rightarrow> Ok (Some e, w(me \<mapsto> nd'))
         | Ok (None, nd') \<Rightarrow>
             RangePeers (\<lambda>i p acc.
                 let acc' = obind acc (\<lambda>(_, st).
                       omap (\<lambda>(res, st'). (case res of Err e \<Rightarrow> Some e | _ \<Rightarrow> None, st'))
                         (peer_stopListener grpc (transport_err i) p net st))
                 in (case acc' of Ok (None, _) \<Rightarrow> True | _ \<Rightarrow> False, acc'))
               (node_cluster nd) (Ok (None, w(me \<mapsto> nd'))))"

definition broker_JoinChannel ::
  "gostring \<Rightarrow> (gostring, gostring) gomap \<Rightarrow> 'cs node \<Rightarrow> (go_error, 'cs node) outcome" where
  "broker_JoinChannel uid chs nd =
     omap (\<lambda>c. nd\<lparr>node_cluster := c\<rparr>)
       (SubmitOperation (JoinChannel \<lparr>chan_uid = uid, chan_channels = chs\<rparr>) (node_cluster nd))"

definition broker_LeaveChannel ::
  "gostring \<Rightarrow> (gostring, gostring) gomap \<Rightarrow> 'cs node \<Rightarrow> (go_error, 'cs node) outcome" where
  "broker_LeaveChannel uid chs nd =
     omap (\<lambda>c. nd\<lparr>node_cluster := c\<rparr>)
       (SubmitOperation (LeaveChannel \<lparr>chan_uid = uid, chan_channels = chs\<rparr>) (node_cluster nd))"

section \<open>Logins\<close>

text \<open>
  \<open>onUserConnect\<close>: other nodes that list the client are told to kick it, with the network of the new
  connection. The channels returned beside an error are used all the same.
\<close>

definition onUserConnect ::
  "(u64 \<Rightarrow> delivery) \<Rightarrow> u64 \<Rightarrow> connect \<Rightarrow> gostring \<Rightarrow> 'cs world \<Rightarrow> (go_error, byte \<times> 'cs world) outcome" where
  "onUserConnect grpc me p net w =
     (let nd = the (w me); c = node_cluster nd; code = userConnect nd p
      in if code \<noteq> ConnectAccepted then Ok (code, w)
         else case Identity p of
                None \<Rightarrow> Panic
              | Some ident \<Rightarrow>
                  obind (RMap_Range (\<lambda>i value acc. (True, obind acc (\<lambda>st.
                      if i = nodeId c then Ok st
                      else case KeyMap_GetKey (UserID ident) (ClientID ident) value of
                             None \<Rightarrow> Ok st
                           | Some cnet \<Rightarrow>
                               (case GetPeer i c of
                                  None \<Rightarrow> Ok st
                                | Some peer \<Rightarrow>
                                    omap snd (peer_kickConn grpc peer [(ClientID ident, net)] st)))))
                    (userClients (broker c)) (Ok w)) (\<lambda>w1.
                  let op = UserOpened \<lparr>opened_uid = UserID ident, opened_cid = ClientID ident, opened_net = net,
                             opened_nodeID = nodeId c, opened_channels = fst (userChannels nd (UserID ident))\<rparr>;
                      nd1 = the (w1 me)
                  in case SubmitOperation op (node_cluster nd1) of
                       Ok c' \<Rightarrow> Ok (ConnectAccepted, w1(me \<mapsto> nd1\<lparr>node_cluster := c'\<rparr>))
                     | _ \<Rightarrow> Ok (ConnectAuthfail, w1)))"

text \<open>
  A login on one of a node's listeners: the server's \<open>OnConnect\<close> with the broker's connect handler.
  A listener that is not started takes no connections.
\<close>

definition with_connect ::
  "byte \<Rightarrow> (server \<Rightarrow> (go_error, 'a \<times> server) outcome) \<Rightarrow> server \<Rightarrow> (go_error, 'a \<times> server) outcome" where
  "with_connect code f s =
     omap (\<lambda>(x, s'). (x, s'\<lparr>opts := opts s\<rparr>)) (f (s\<lparr>opts := (opts s)\<lparr>connectHandler := \<lambda>_. code\<rparr>\<rparr>))"

definition login ::
  "(u64 \<Rightarrow> delivery) \<Rightarrow> u64 \<Rightarrow> gostring \<Rightarrow> gostring \<Rightarrow> bool \<Rightarrow> connect \<Rightarrow> 'cs world \<Rightarrow>
     (go_error, byte \<times> 'cs world) outcome" where
  "login grpc me net ip udp p w =
     obind (onUserConnect grpc me p net w) (\<lambda>(code, w1).
     obind (started_server net (the (w1 me))) (\<lambda>srv.
       case srv of
         None \<Rightarrow> Err (OtherError ''connection refused'')
       | Some s \<Rightarrow>
           omap (\<lambda>(c, nd'). (c, w1(me \<mapsto> nd')))
             (on_server net s (with_connect code (doConnecton ip udp p) s) (the (w1 me)))))"

text \<open>A packet on connection \<open>r\<close> of a listener, with the broker's message and request handlers.\<close>

definition receive :: "gostring \<Rightarrow> nat \<Rightarrow> packet \<Rightarrow> 'cs node \<Rightarrow> (go_error, 'cs node) outcome" where
  "receive net r p nd =
     obind (started_server net nd) (\<lambda>srv.
       case srv of
         None \<Rightarrow> Err (OtherError ''connection refused'')
       | Some s \<Rightarrow>
           omap snd (on_server net s
             (omap (\<lambda>s'. ((), s'\<lparr>opts := opts s\<rparr>))
               (server_RecvPacket r p
                 (s\<lparr>opts := (opts s)\<lparr>messageHandler := onUserMessage nd, requestHandler := onUserRequest nd\<rparr>\<rparr>))) nd))"

end
