(* ===== verification/Routing_Safety.thy ===== *)
theory Routing_Safety
  imports Routing
begin

text \<open>
  Where messages go: what the broker of src/cluster/broker.go does with a message for a user or a
  channel, who is online, who is kicked, and what a second login of a client does to the log.

  The lemmas follow the calls inward out: one client (\<open>send_one\<close>), the clients of a node
  (\<open>sendToClients\<close>), a call to a peer (\<open>rpc\<close>), the range over the nodes (\<open>fan_out\<close>). The relations
  \<open>delivered\<close> and \<open>delivered_all\<close> say which connections got the frame, and that no other changed.
\<close>

section \<open>Connections of a node\<close>

text \<open>The open connection a message for client \<open>cid\<close> on network \<open>net\<close> is sent on.\<close>

definition conn_at :: "gostring \<Rightarrow> gostring \<Rightarrow> 'cs node \<Rightarrow> conn option" where
  "conn_at net cid nd =
     (case started_server net nd of
        Ok (Some s) \<Rightarrow> if server_closed s then None else map_option (\<lambda>r. conn_of r s) (GetConn cid s)
      | _ \<Rightarrow> None)"

definition node_inv :: "'cs node \<Rightarrow> bool" where
  "node_inv nd \<longleftrightarrow>
     (\<forall>net l. map_of (listeners nd) net = Some l \<longrightarrow>
        (ISStarted l \<longrightarrow> l_server l \<noteq> None) \<and> (\<forall>s. l_server l = Some s \<longrightarrow> server_inv s))"

lemma started_server_ok: "node_inv nd \<Longrightarrow> \<exists>srv. started_server net nd = Ok srv"
  unfolding started_server_def node_inv_def by (force split: option.splits)

lemma started_server_inv: "node_inv nd \<Longrightarrow> started_server net nd = Ok (Some s) \<Longrightarrow> server_inv s"
  by (auto simp: started_server_def node_inv_def split: option.splits if_splits)

lemma started_put_server [simp]:
  assumes "started_server net nd = Ok (Some s)"
  shows "started_server net' (put_server net s' nd) =
    (if net' = net then Ok (Some s') else started_server net' nd)"
  using assms
  by (auto simp: started_server_def put_server_def put_listener_def ISStarted_def map_of_update_iff
      split: option.splits if_splits)

lemma node_inv_put_server:
  "node_inv nd \<Longrightarrow> server_inv s \<Longrightarrow> node_inv (put_server net s nd)"
  by (auto simp: node_inv_def put_server_def put_listener_def ISStarted_def map_of_update_iff
      split: option.splits if_splits)

lemma put_server_fields [simp]:
  "node_cluster (put_server net s nd) = node_cluster nd"
  "user_closed (put_server net s nd) = user_closed nd"
  "userConnect (put_server net s nd) = userConnect nd"
  "userChannels (put_server net s nd) = userChannels nd"
  by (simp_all add: put_server_def put_listener_def split: option.split)

lemma GetConn_put_conn [simp]: "GetConn cid (put_conn r c s) = GetConn cid s"
  by (simp add: GetConn_def put_conn_def)

text \<open>The reference of a client belongs to no other client.\<close>

lemma GetConn_inj:
  "server_inv s \<Longrightarrow> GetConn cid s = Some r \<Longrightarrow> GetConn cid' s = Some r \<Longrightarrow> cid = cid'"
  unfolding GetConn_def by (metis registered option.inject)

lemma conn_of_put_conn: "r < length (heap s) \<Longrightarrow> conn_of r' (put_conn r c s) = (if r' = r then c else conn_of r' s)"
  by (simp add: conn_of_def put_conn_def nth_list_update)

lemma conn_at_put_server:
  assumes "started_server net nd = Ok (Some s)"
  shows "conn_at net' cid' (put_server net s' nd) =
    (if net' = net then if server_closed s' then None else map_option (\<lambda>r. conn_of r s') (GetConn cid' s')
     else conn_at net' cid' nd)"
  using assms by (simp add: conn_at_def)

lemma server_closed_put_conn [simp]: "server_closed (put_conn r c s) = server_closed s"
  by (simp add: put_conn_def)

section \<open>Delivery on a node\<close>

definition ready_for :: "(gostring \<times> gostring) set \<Rightarrow> 'cs node \<Rightarrow> bool" where
  "ready_for T nd \<longleftrightarrow> node_inv nd \<and>
     (\<forall>net cid. (net, cid) \<in> T \<longrightarrow> (\<exists>c. conn_at net cid nd = Some c \<and> conn_plain c))"

definition delivered :: "message \<Rightarrow> (gostring \<times> gostring) set \<Rightarrow> 'cs node \<Rightarrow> 'cs node \<Rightarrow> bool" where
  "delivered m T nd nd' \<longleftrightarrow> node_inv nd' \<and> node_cluster nd' = node_cluster nd \<and>
     (\<forall>net cid.
        if (net, cid) \<in> T
        then \<exists>c c'. conn_at net cid nd = Some c \<and> conn_at net cid nd' = Some c' \<and> conn_plain c' \<and>
               sent c' = sent c @ [frame (PMessage m)]
        else conn_at net cid nd' = conn_at net cid nd)"

lemma delivered_refl: "node_inv nd \<Longrightarrow> delivered m {} nd nd"
  by (simp add: delivered_def)

lemma delivered_trans:
  assumes "delivered m T nd nd1" and "delivered m U nd1 nd2" and "T \<inter> U = {}"
  shows "delivered m (T \<union> U) nd nd2"
  unfolding delivered_def
proof (intro conjI allI)
  fix net cid
  consider "(net, cid) \<in> T" "(net, cid) \<notin> U" | "(net, cid) \<notin> T" "(net, cid) \<in> U"
    | "(net, cid) \<notin> T" "(net, cid) \<notin> U"
    using assms(3) by blast
  then show "if (net, cid) \<in> T \<union> U
      then \<exists>c c'. conn_at net cid nd = Some c \<and> conn_at net cid nd2 = Some c' \<and> conn_plain c' \<and>
             sent c' = sent c @ [frame (PMessage m)]
      else conn_at net cid nd2 = conn_at net cid nd"
    using assms(1,2) unfolding delivered_def by cases (metis Un_iff)+
qed (use assms in \<open>auto simp: delivered_def\<close>)

lemma ready_after:
  "ready_for (T \<union> U) nd \<Longrightarrow> T \<inter> U = {} \<Longrightarrow> delivered m T nd nd' \<Longrightarrow> ready_for U nd'"
  unfolding ready_for_def delivered_def by (metis UnCI disjoint_iff)

lemma send_one_delivers:
  assumes "ready_for {(net, cid)} nd" and m: "sendable (PMessage m)"
  obtains nd' where "send_one background m cid net nd = Ok (True, nd')"
    and "delivered m {(net, cid)} nd nd'"
proof -
  have inv: "node_inv nd" using assms(1) by (simp add: ready_for_def)
  obtain c where c: "conn_at net cid nd = Some c" "conn_plain c" using assms(1) by (auto simp: ready_for_def)
  then obtain s r where s: "started_server net nd = Ok (Some s)" "\<not> server_closed s"
    and r: "GetConn cid s = Some r" "c = conn_of r s"
    by (auto simp: conn_at_def split: outcome.splits option.splits if_splits)
  have sinv: "server_inv s" by (rule started_server_inv [OF inv s(1)])
  have len: "r < length (heap s)" using r(1) sinv by (auto simp: GetConn_def elim: registered)
  obtain c' where c': "conn_SendPacket background (PMessage m) c = Ok c'" "conn_plain c'"
    "sent c' = sent c @ [frame (PMessage m)]"
    using send_plain [OF c(2) m] by blast
  let ?s = "put_conn r c' s" let ?nd = "put_server net ?s nd"
  have "server_SendMessage background cid m s = Ok ?s"
    using s(2) r c'(1) by (simp add: server_SendMessage_def conn_SendMessage_def GetConn_def)
  then have "send_one background m cid net nd = Ok (True, ?nd)" by (simp add: send_one_def s(1))
  moreover have "server_inv ?s"
    using server_inv_put [OF sinv same_conn_SendPacket] c'(1) r(2) by blast
  then have "node_inv ?nd" by (rule node_inv_put_server [OF inv])
  moreover have "conn_at net' cid' ?nd = (if (net', cid') = (net, cid) then Some c' else conn_at net' cid' nd)"
    for net' cid'
  proof (cases "net' = net")
    case True
    have "conn_of r' ?s = conn_of r' s" if "cid' \<noteq> cid" "GetConn cid' s = Some r'" for r'
      using that GetConn_inj [OF sinv r(1), of cid'] by (auto simp: conn_of_put_conn [OF len])
    then show ?thesis
      using True s r(1) by (auto simp: conn_at_put_server [OF s(1)] conn_at_def conn_of_put_conn [OF len]
        intro!: option.map_cong0)
  qed (simp add: conn_at_put_server [OF s(1)])
  ultimately show ?thesis using c c' by (intro that) (auto simp: delivered_def)
qed

definition targets_of :: "(gostring, gostring) gomap \<Rightarrow> (gostring \<times> gostring) set" where
  "targets_of cids = (\<lambda>(cid, net). (net, cid)) ` set cids"

lemma targets_of_simps [simp]:
  "targets_of [] = {}" "targets_of ((cid, net) # cids) = insert (net, cid) (targets_of cids)"
  by (simp_all add: targets_of_def)

lemma sendToClients_delivers:
  assumes "go_map cids" and "ready_for (targets_of cids) nd" and m: "sendable (PMessage m)"
  obtains nd' where "sendToClients background m cids nd = Ok ((of_nat (length cids), of_nat (length cids)), nd')"
    and "delivered m (targets_of cids) nd nd'"
proof -
  let ?f = "\<lambda>acc (cid, net). obind acc (\<lambda>((total, success), st).
      omap (\<lambda>(ok, st'). ((total + 1, if ok then success + 1 else success), st')) (send_one background m cid net st))"
  have "\<exists>nd'. foldl ?f (Ok ((t, u), nd)) cids =
      Ok ((t + of_nat (length cids), u + of_nat (length cids)), nd') \<and> delivered m (targets_of cids) nd nd'"
    for t u :: u32
    using assms(1,2)
  proof (induction cids arbitrary: nd t u)
    case Nil
    then show ?case by (auto simp: ready_for_def intro: delivered_refl)
  next
    case (Cons a cids)
    obtain cid net where a: "a = (cid, net)" by (cases a)
    have disj: "{(net, cid)} \<inter> targets_of cids = {}"
      using Cons.prems(1) a by (force simp: go_map_def targets_of_def)
    have "ready_for {(net, cid)} nd" using Cons.prems(2) a by (simp add: ready_for_def)
    then obtain nd1 where nd1: "send_one background m cid net nd = Ok (True, nd1)"
      "delivered m {(net, cid)} nd nd1"
      using send_one_delivers m by blast
    have "ready_for (targets_of cids) nd1"
      using ready_after [OF _ disj nd1(2)] Cons.prems(2) a by simp
    with Cons.IH [of nd1 "t + 1" "u + 1"] Cons.prems(1) a
    obtain nd' where nd': "foldl ?f (Ok ((t + 1, u + 1), nd1)) cids =
        Ok ((t + 1 + of_nat (length cids), u + 1 + of_nat (length cids)), nd')"
      "delivered m (targets_of cids) nd1 nd'"
      by (auto simp: go_map_def)
    have "delivered m (targets_of (a # cids)) nd nd'"
      using delivered_trans [OF nd1(2) nd'(2) disj] a by simp
    with nd' show ?case by (auto simp: a nd1(1) ac_simps)
  qed
  from this [of 0 0] show ?thesis using that by (auto simp: sendToClients_def)
qed

section \<open>Delivery in the cluster\<close>

definition delivered_all ::
  "message \<Rightarrow> (u64 \<Rightarrow> (gostring \<times> gostring) set) \<Rightarrow> 'cs world \<Rightarrow> 'cs world \<Rightarrow> bool" where
  "delivered_all m T w w' \<longleftrightarrow>
     (\<forall>n. case w n of
        None \<Rightarrow> w' n = None
      | Some nd \<Rightarrow> \<exists>nd'. w' n = Some nd' \<and> (if T n = {} then nd' = nd else delivered m (T n) nd nd'))"

lemma decode_marshal:
  assumes "sendable (PMessage m)"
  shows "server_decode (Coder.Marshal message_WriteTo m) = Ok m"
proof -
  have "u8map_ok (message_props m)" "length (message_wire m) < 2 ^ 63"
    using assms by (simp_all add: sendable_def MAX_LEN_def)
  then show ?thesis
    using message_body.body_roundtrip [of m]
    by (simp add: server_decode_def Coder.Marshal_def Pick_def NewEncoder_def pool_get_def
      message_body.body_wire new_encoder_def)
qed

text \<open>What the broker relies on when it hands the clients of another node to a peer.\<close>

locale peer_send =
  fixes send :: "peer_client \<Rightarrow> (gostring, gostring) gomap \<Rightarrow> 'cs world \<Rightarrow>
      (go_error, (go_error, u32 \<times> u32) outcome \<times> 'cs world) outcome"
    and grpc :: "u64 \<Rightarrow> delivery" and m :: message
  assumes send_delivers:
    "sendable (PMessage m) \<Longrightarrow> peer_ready p \<Longrightarrow> grpc (peer_id p) = Answered 0 \<Longrightarrow>
     st (peer_id p) = Some nd \<Longrightarrow> go_map cids \<Longrightarrow> ready_for (targets_of cids) nd \<Longrightarrow>
     \<exists>nd'. send p cids st = Ok (Ok (of_nat (length cids), of_nat (length cids)), st(peer_id p \<mapsto> nd')) \<and>
       delivered m (targets_of cids) nd nd'"

lemma rpc_answered:
  "peer_ready p \<Longrightarrow> grpc (peer_id p) = Answered 0 \<Longrightarrow> st (peer_id p) = Some nd \<Longrightarrow> h nd = Ok (r, nd') \<Longrightarrow>
   peer_rpc grpc p h st = Ok (Ok r, st(peer_id p \<mapsto> nd'))"
  by (simp add: peer_rpc_def peer_isReady_def rpc_def)

lemma handler_delivers:
  assumes "sendable (PMessage m)" and "go_map cids" and "ready_for (targets_of cids) nd"
  obtains nd' where "server_SendToUser background (Coder.Marshal message_WriteTo m) cids nd =
      Ok ((of_nat (length cids), of_nat (length cids)), nd')"
    and "server_SendToChannel background (Coder.Marshal message_WriteTo m) cids nd =
      Ok ((of_nat (length cids), of_nat (length cids)), nd')"
    and "delivered m (targets_of cids) nd nd'"
  using sendToClients_delivers [OF assms(2,3,1)]
  by (auto simp: server_SendToUser_def server_SendToChannel_def decode_marshal [OF assms(1)])

interpretation to_user: peer_send "\<lambda>p cids. peer_sendToUser grpc background p m cids" grpc m for grpc m
  by unfold_locales (metis handler_delivers rpc_answered peer_sendToUser_def)

interpretation to_channel: peer_send "\<lambda>p cids. peer_sendToChannel grpc background p m cids" grpc m for grpc m
  by unfold_locales (metis handler_delivers rpc_answered peer_sendToChannel_def)

text \<open>A node that is this one or a peer that is ready and answers.\<close>

definition reaches :: "(u64 \<Rightarrow> delivery) \<Rightarrow> 'cs cluster \<Rightarrow> u64 \<Rightarrow> bool" where
  "reaches grpc c i \<longleftrightarrow> i = nodeId c \<or>
     (\<exists>p. GetPeer i c = Some p \<and> peer_ready p \<and> peer_id p = i \<and> grpc i = Answered 0)"

lemma NGet_listed:
  assumes "NMap_ok table"
  shows "NGet n key cid table = Some net \<longleftrightarrow>
    (\<exists>v. (n, v) \<in> set (rmap_m table) \<and> (cid, net) \<in> set (user_pairs key v))"
proof -
  have xs: "distinct (map fst (rmap_m table))" "\<And>n v. (n, v) \<in> set (rmap_m table) \<Longrightarrow> KeyMap_ok v"
    using assms by (auto simp: NMap_ok_def RMap_ok_def go_map_def RMap_Get_def)
  have "KeyMap_GetKey key cid v = Some net \<longleftrightarrow> (cid, net) \<in> set (user_pairs key v)" if "KeyMap_ok v" for v
    using that by (auto simp: KeyMap_GetKey_def user_pairs_def KeyMap_ok_iff inner_ok_def Map_Get_def go_map_def
      split: option.splits)
  then show ?thesis
    using xs by (auto simp: NGet_def RMap_Get_def split: option.splits dest: map_of_SomeD)
      (metis map_of_is_SomeI option.inject)+
qed

definition listed :: "gostring \<Rightarrow> (u64 \<times> gostring KeyMap) list \<Rightarrow> u64 \<Rightarrow> (gostring \<times> gostring) set" where
  "listed key xs n = (case map_of xs n of None \<Rightarrow> {} | Some value \<Rightarrow> targets_of (user_pairs key value))"

lemma listed_NGet:
  assumes ok: "NMap_ok table"
  shows "listed key (rmap_m table) = (\<lambda>n. {(net, cid). NGet n key cid table = Some net})"
proof
  fix n
  have dist: "distinct (map fst (rmap_m table))" using ok by (simp add: NMap_ok_def RMap_ok_def go_map_def)
  show "listed key (rmap_m table) n = {(net, cid). NGet n key cid table = Some net}"
  proof (cases "map_of (rmap_m table) n")
    case None
    then have "(n, v) \<notin> set (rmap_m table)" for v by (force simp: map_of_eq_None_iff)
    with None show ?thesis by (simp add: listed_def NGet_listed [OF ok])
  next
    case (Some v)
    then have "(n, v') \<in> set (rmap_m table) \<longleftrightarrow> v' = v" for v'
      by (metis map_of_eq_Some_iff [OF dist] option.inject)
    with Some show ?thesis by (auto simp: listed_def NGet_listed [OF ok] targets_of_def)
  qed
qed

lemma listed_reached:
  assumes "NMap_ok table" and "(i, v) \<in> set (rmap_m table)" and "user_pairs key v \<noteq> []"
  shows "\<exists>cid net. NGet i key cid table = Some net"
  using assms(2,3) by (cases "user_pairs key v") (auto simp: NGet_listed [OF assms(1)], metis list.set_intros(1))

lemma targets_empty [simp]: "targets_of cids = {} \<longleftrightarrow> cids = []"
  by (simp add: targets_of_def)

text \<open>One node of the range over the table.\<close>

definition fan_step ::
  "(peer_client \<Rightarrow> (gostring, gostring) gomap \<Rightarrow> 'cs world \<Rightarrow>
      (go_error, (go_error, u32 \<times> u32) outcome \<times> 'cs world) outcome) \<Rightarrow>
   message \<Rightarrow> gostring \<Rightarrow> 'cs cluster \<Rightarrow> u64 \<Rightarrow> gostring KeyMap \<Rightarrow>
   (go_error, (u32 \<times> u32) \<times> 'cs world) outcome \<Rightarrow> (go_error, (u32 \<times> u32) \<times> 'cs world) outcome" where
  "fan_step send m key c i value acc = obind acc (\<lambda>((total, success), st).
     if i = nodeId c then
       (case KeyMap_Get key value of
          None \<Rightarrow> Ok ((total, success), st)
        | Some cids \<Rightarrow>
            omap (\<lambda>((t, n), nd'). ((total + t, success + n), st(nodeId c \<mapsto> nd')))
              (sendToClients background m (Map_Load cids) (the (st (nodeId c)))))
     else
       (case GetPeer i c of
          None \<Rightarrow> Ok ((total, success), st)
        | Some p \<Rightarrow>
            (case KeyMap_Get key value of
               None \<Rightarrow> Ok ((total, success), st)
             | Some cids \<Rightarrow>
                 omap (\<lambda>(res, st'). case res of
                      Ok (t, n) \<Rightarrow> ((total + t, success + n), st')
                    | _ \<Rightarrow> ((total, success), st'))
                   (send p (Map_Load cids) st))))"

lemma listed_card:
  assumes "distinct (map fst xs)" and "\<And>n v. (n, v) \<in> set xs \<Longrightarrow> KeyMap_ok v"
  shows "(\<Sum>(i, v) \<leftarrow> xs. length (user_pairs key v)) =
    card {(n, cid). \<exists>net v. (n, v) \<in> set xs \<and> (cid, net) \<in> set (user_pairs key v)}"
proof -
  define L where "L = concat (map (\<lambda>(i, v). map (\<lambda>(cid, net). (i, cid)) (user_pairs key v)) xs)"
  have go: "distinct (map fst (user_pairs key v))" if "(n, v) \<in> set xs" for n v
    using assms(2) [OF that] by (auto simp: user_pairs_def KeyMap_ok_iff inner_ok_def go_map_def split: option.splits)
  have "distinct L"
    using assms(1) go unfolding L_def
  proof (induction xs)
    case (Cons a xs)
    obtain i v where a: "a = (i, v)" by (cases a)
    have "distinct (map (\<lambda>(cid, net). (i, cid)) (user_pairs key v))"
      using Cons.prems(2) [of i v] a by (simp add: distinct_map inj_on_def split_beta)
    moreover have "(i, v') \<notin> set xs" for v' using Cons.prems(1) a by force
    moreover have "distinct (concat (map (\<lambda>(i, v). map (\<lambda>(cid, net). (i, cid)) (user_pairs key v)) xs))"
      using Cons.IH Cons.prems by (auto simp: a)
    ultimately show ?case by (auto simp: a)
  qed simp
  moreover have "length L = (\<Sum>(i, v) \<leftarrow> xs. length (user_pairs key v))"
    unfolding L_def by (induction xs) auto
  moreover have "set L = {(n, cid). \<exists>net v. (n, v) \<in> set xs \<and> (cid, net) \<in> set (user_pairs key v)}"
    by (force simp: L_def)
  ultimately show ?thesis using distinct_card [of L] by simp
qed

context peer_send
begin

lemma fan_out_fold:
  "fan_out send background m table key (nodeId c) c w =
     fold (\<lambda>(i, value). fan_step send m key c i value) (rmap_m table) (Ok ((0, 0), w))"
  unfolding fan_out_def RMap_Range_def Map_Range_fold fan_step_def ..

lemma step_delivers:
  assumes m: "sendable (PMessage m)" and "user_pairs key value \<noteq> [] \<longrightarrow> reaches grpc c i"
    and nd: "user_pairs key value \<noteq> [] \<longrightarrow> (\<exists>nd. st i = Some nd \<and> ready_for (targets_of (user_pairs key value)) nd)"
    and ok: "KeyMap_ok value"
  shows "\<exists>st'. fan_step send m key c i value (Ok ((t, u), st)) =
      Ok ((t + of_nat (length (user_pairs key value)), u + of_nat (length (user_pairs key value))), st') \<and>
    (case user_pairs key value of
       [] \<Rightarrow> st' = st
     | _ \<Rightarrow> \<exists>nd nd'. st i = Some nd \<and> st' = st(i \<mapsto> nd') \<and> delivered m (targets_of (user_pairs key value)) nd nd')"
proof (cases "KeyMap_Get key value")
  case None
  then show ?thesis by (auto simp: fan_step_def user_pairs_def KeyMap_Get_def split: option.split)
next
  case (Some cids)
  then have cids: "user_pairs key value = cids" "go_map cids" "cids \<noteq> []"
    using ok by (auto simp: user_pairs_def KeyMap_Get_def KeyMap_ok_iff inner_ok_def)
  from nd cids obtain nd1 where st: "st i = Some nd1" "ready_for (targets_of cids) nd1" by blast
  have cases: "(case cids of [] \<Rightarrow> P | _ \<Rightarrow> Q) \<longleftrightarrow> Q" for P Q using cids(3) by (cases cids) auto
  show ?thesis
  proof (cases "i = nodeId c")
    case True
    obtain nd' where "sendToClients background m cids nd1 = Ok ((of_nat (length cids), of_nat (length cids)), nd')"
      "delivered m (targets_of cids) nd1 nd'"
      using sendToClients_delivers [OF cids(2) st(2) m] by blast
    with True st(1) show ?thesis by (auto simp: fan_step_def Some cids(1) Map_Load_def cases)
  next
    case False
    then obtain p where p: "GetPeer i c = Some p" "peer_ready p" "peer_id p = i" "grpc i = Answered 0"
      using assms(2) cids by (auto simp: reaches_def)
    obtain nd' where "send p cids st = Ok (Ok (of_nat (length cids), of_nat (length cids)), st(i \<mapsto> nd'))"
      "delivered m (targets_of cids) nd1 nd'"
      using send_delivers [OF m p(2)] p(3,4) st cids(2) by blast
    with False st(1) p(1) show ?thesis by (auto simp: fan_step_def Some cids(1) Map_Load_def cases)
  qed
qed

text \<open>The effect of the first step and that of the others make the effect of all.\<close>

lemma delivered_all_Cons:
  assumes eff: "case user_pairs key val of
       [] \<Rightarrow> w1 = w
     | _ \<Rightarrow> \<exists>nd nd'. w i = Some nd \<and> w1 = w(i \<mapsto> nd') \<and> delivered m (targets_of (user_pairs key val)) nd nd'"
    and fresh: "map_of xs i = None" and rest: "delivered_all m (listed key xs) w1 w'"
  shows "delivered_all m (listed key ((i, val) # xs)) w w'"
  unfolding delivered_all_def
proof
  fix n
  have at: "case w1 n of None \<Rightarrow> w' n = None
      | Some nd \<Rightarrow> \<exists>nd'. w' n = Some nd' \<and>
          (if listed key xs n = {} then nd' = nd else delivered m (listed key xs n) nd nd')"
    using rest unfolding delivered_all_def by blast
  show "case w n of None \<Rightarrow> w' n = None
    | Some nd \<Rightarrow> \<exists>nd'. w' n = Some nd' \<and>
        (if listed key ((i, val) # xs) n = {} then nd' = nd else delivered m (listed key ((i, val) # xs) n) nd nd')"
  proof (cases "n = i")
    case True
    then have "w' i = w1 i" using at fresh by (auto simp: listed_def split: option.splits)
    then show ?thesis using True eff by (auto simp: listed_def split: list.splits option.splits)
  next
    case False
    then have "w1 n = w n" using eff by (auto split: list.splits)
    moreover have "listed key ((i, val) # xs) n = listed key xs n" using False by (simp add: listed_def)
    ultimately show ?thesis using at by (cases "w n") (auto split: if_splits)
  qed
qed

lemma steps_deliver:
  assumes m: "sendable (PMessage m)"
  shows "distinct (map fst xs) \<Longrightarrow>
    \<forall>(i, value) \<in> set xs. KeyMap_ok value \<and> (user_pairs key value \<noteq> [] \<longrightarrow>
       reaches grpc c i \<and> (\<exists>nd. w i = Some nd \<and> ready_for (targets_of (user_pairs key value)) nd)) \<Longrightarrow>
    \<exists>w'. fold (\<lambda>(i, value). fan_step send m key c i value) xs (Ok ((t, u), w)) =
      Ok ((t + of_nat (\<Sum>(i, value) \<leftarrow> xs. length (user_pairs key value)),
           u + of_nat (\<Sum>(i, value) \<leftarrow> xs. length (user_pairs key value))), w') \<and>
      delivered_all m (listed key xs) w w'"
proof (induction xs arbitrary: t u w)
  case Nil
  then show ?case by (auto simp: delivered_all_def listed_def split: option.splits)
next
  case (Cons a xs)
  obtain i val where a: "a = (i, val)" by (cases a)
  let ?n = "of_nat (length (user_pairs key val)) :: u32"
  have hyp: "KeyMap_ok val"
    "user_pairs key val \<noteq> [] \<longrightarrow> reaches grpc c i"
    "user_pairs key val \<noteq> [] \<longrightarrow> (\<exists>nd. w i = Some nd \<and> ready_for (targets_of (user_pairs key val)) nd)"
    using Cons.prems(2) a by auto
  obtain w1 where w1: "fan_step send m key c i val (Ok ((t, u), w)) = Ok ((t + ?n, u + ?n), w1)"
    and eff: "case user_pairs key val of
       [] \<Rightarrow> w1 = w
     | _ \<Rightarrow> \<exists>nd nd'. w i = Some nd \<and> w1 = w(i \<mapsto> nd') \<and> delivered m (targets_of (user_pairs key val)) nd nd'"
    using step_delivers [OF m, of key val c i w t u] hyp by blast
  have other: "w1 j = w j" if "j \<noteq> i" for j using eff that by (auto split: list.splits)
  have fresh: "map_of xs i = None" using Cons.prems(1) a by (force simp: map_of_eq_None_iff)
  have "\<forall>(j, v) \<in> set xs. KeyMap_ok v \<and> (user_pairs key v \<noteq> [] \<longrightarrow>
       reaches grpc c j \<and> (\<exists>nd. w1 j = Some nd \<and> ready_for (targets_of (user_pairs key v)) nd))"
    using Cons.prems a other by (force simp: case_prod_beta)
  with Cons.IH [of w1 "t + ?n" "u + ?n"] Cons.prems(1)
  obtain w' where w': "fold (\<lambda>(i, value). fan_step send m key c i value) xs (Ok ((t + ?n, u + ?n), w1)) =
      Ok ((t + ?n + of_nat (\<Sum>(i, value) \<leftarrow> xs. length (user_pairs key value)),
           u + ?n + of_nat (\<Sum>(i, value) \<leftarrow> xs. length (user_pairs key value))), w')"
    "delivered_all m (listed key xs) w1 w'"
    by auto
  have "delivered_all m (listed key (a # xs)) w w'"
    unfolding a by (rule delivered_all_Cons [OF eff fresh w'(2)])
  then show ?case using w'(1) by (auto simp: a w1 ac_simps)
qed

text \<open>The range over the whole table, in terms of what the table lists.\<close>

lemma fan_out_delivers:
  assumes m: "sendable (PMessage m)" and ok: "NMap_ok table" and "nodeId c = me"
    and reach: "\<And>n cid net. NGet n key cid table = Some net \<Longrightarrow> reaches grpc c n \<and> w n \<noteq> None"
    and ready: "\<And>n nd. w n = Some nd \<Longrightarrow> ready_for {(net, cid). NGet n key cid table = Some net} nd"
  shows "\<exists>w'. fan_out send background m table key me c w =
      Ok ((of_nat (card {(n, cid). NGet n key cid table \<noteq> None}),
           of_nat (card {(n, cid). NGet n key cid table \<noteq> None})), w') \<and>
    delivered_all m (\<lambda>n. {(net, cid). NGet n key cid table = Some net}) w w'"
proof -
  let ?xs = "rmap_m table"
  have xs: "distinct (map fst ?xs)" "\<And>n v. (n, v) \<in> set ?xs \<Longrightarrow> KeyMap_ok v"
    using ok by (auto simp: NMap_ok_def RMap_ok_def go_map_def RMap_Get_def)
  note get = NGet_listed [OF ok, of _ key]
  note T = listed_NGet [OF ok, of key]
  have "\<forall>(i, v) \<in> set ?xs. KeyMap_ok v \<and> (user_pairs key v \<noteq> [] \<longrightarrow>
      reaches grpc c i \<and> (\<exists>nd. w i = Some nd \<and> ready_for (targets_of (user_pairs key v)) nd))"
  proof (intro ballI, clarify, intro conjI impI)
    fix i v assume v: "(i, v) \<in> set ?xs"
    then show "KeyMap_ok v" by (rule xs(2))
    assume ne: "user_pairs key v \<noteq> []"
    have "listed key ?xs i = targets_of (user_pairs key v)" using v xs(1) by (simp add: listed_def)
    moreover obtain nd where "reaches grpc c i" "w i = Some nd"
      using listed_reached [OF ok v ne] reach by blast
    ultimately show "reaches grpc c i" "\<exists>nd. w i = Some nd \<and> ready_for (targets_of (user_pairs key v)) nd"
      using ready [of i nd] by (simp_all add: T)
  qed
  with steps_deliver [OF m xs(1), of key c w 0 0] obtain w' where
    w': "fan_out send background m table key me c w =
      Ok ((of_nat (\<Sum>(i, v) \<leftarrow> ?xs. length (user_pairs key v)),
           of_nat (\<Sum>(i, v) \<leftarrow> ?xs. length (user_pairs key v))), w')"
    "delivered_all m (listed key ?xs) w w'"
    using fan_out_fold [of table key c w] assms(3) by auto
  have "(\<Sum>(i, v) \<leftarrow> ?xs. length (user_pairs key v)) = card {(n, cid). NGet n key cid table \<noteq> None}"
    using listed_card [OF xs(1), of key] xs(2) by (auto simp: get KeyMap_ok_iff)
  with w' show ?thesis by (auto simp: T)
qed

end

text \<open>
  C3. A message for a user reaches every client of the user, wherever it is connected: when the nodes
  the registry lists for the user answer and the listed connections are open, both totals are the
  number of listed clients, each of these connections has the frame added to what it sends exactly
  once, and nothing else changes on any node.
\<close>

theorem SendToUser_delivers:
  assumes "w me = Some nd" and "node_id nd = me" and "uid \<noteq> []" and "sendable (PMessage m)"
    and "NMap_ok (userClients (node_broker nd))"
    and "\<forall>n cid net. NGet n uid cid (userClients (node_broker nd)) = Some net \<longrightarrow>
      reaches grpc (node_cluster nd) n \<and> w n \<noteq> None"
    and "\<forall>n nd'. w n = Some nd' \<longrightarrow>
      ready_for {(net, cid). NGet n uid cid (userClients (node_broker nd)) = Some net} nd'"
  shows "\<exists>w'. SendToUser grpc background me uid m w =
      Ok ((of_nat (card {(n, cid). NGet n uid cid (userClients (node_broker nd)) \<noteq> None}),
           of_nat (card {(n, cid). NGet n uid cid (userClients (node_broker nd)) \<noteq> None})), w') \<and>
    delivered_all m (\<lambda>n. {(net, cid). NGet n uid cid (userClients (node_broker nd)) = Some net}) w w'"
  using to_user.fan_out_delivers [OF assms(4,5,2), of uid grpc w] assms by (simp add: SendToUser_def)

text \<open>
  The same for a channel: every client the registry lists as a member gets the message exactly
  once, and nothing else changes.
\<close>

theorem SendToChannel_delivers:
  assumes "w me = Some nd" and "node_id nd = me" and "ch \<noteq> []" and "sendable (PMessage m)"
    and "NMap_ok (channelClients (node_broker nd))"
    and "\<forall>n cid net. NGet n ch cid (channelClients (node_broker nd)) = Some net \<longrightarrow>
      reaches grpc (node_cluster nd) n \<and> w n \<noteq> None"
    and "\<forall>n nd'. w n = Some nd' \<longrightarrow>
      ready_for {(net, cid). NGet n ch cid (channelClients (node_broker nd)) = Some net} nd'"
  shows "\<exists>w'. SendToChannel grpc background me ch m w =
      Ok ((of_nat (card {(n, cid). NGet n ch cid (channelClients (node_broker nd)) \<noteq> None}),
           of_nat (card {(n, cid). NGet n ch cid (channelClients (node_broker nd)) \<noteq> None})), w') \<and>
    delivered_all m (\<lambda>n. {(net, cid). NGet n ch cid (channelClients (node_broker nd)) = Some net}) w w'"
  using to_channel.fan_out_delivers [OF assms(4,5,2), of ch grpc w] assms by (simp add: SendToChannel_def)

section \<open>Who is online\<close>

definition active_at :: "gostring \<Rightarrow> gostring \<Rightarrow> 'cs node \<Rightarrow> bool" where
  "active_at net cid nd \<longleftrightarrow> (\<exists>s. started_server net nd = Ok (Some s) \<and> IsActive cid s)"

lemma isActive_iff:
  "node_inv nd \<Longrightarrow> isActive targets nd = Ok (\<exists>(cid, net) \<in> set targets. active_at net cid nd)"
proof (induction targets)
  case (Cons a targets)
  obtain cid net where a: "a = (cid, net)" by (cases a)
  obtain srv where "started_server net nd = Ok srv" using started_server_ok [OF Cons.prems] by blast
  with Cons show ?case by (auto simp: a active_at_def split: option.splits)
qed simp

text \<open>The first yes ends the range; what it gives is whether there is one.\<close>

lemma Map_Range_exists:
  assumes "\<And>k v. (k, v) \<in> set xs \<Longrightarrow> f k v (Ok False) = (\<not> P k v, Ok (P k v))"
  shows "Map_Range f xs (Ok False) = Ok (\<exists>(k, v) \<in> set xs. P k v)"
  using assms by (induction xs) (auto split: prod.splits)

definition online :: "gostring \<Rightarrow> gostring node_map \<Rightarrow> 'cs world \<Rightarrow> bool" where
  "online uid table w \<longleftrightarrow>
     (\<exists>n cid net nd. NGet n uid cid table = Some net \<and> w n = Some nd \<and> active_at net cid nd)"

lemma remote_online:
  assumes "peer_ready p" and "grpc (peer_id p) = Answered 0" and "w (peer_id p) = Some nd" and "node_inv nd"
  shows "peer_isOnline grpc p targets w =
    Ok (Ok (\<exists>(cid, net) \<in> set targets. active_at net cid nd), w(peer_id p \<mapsto> nd))"
  unfolding peer_isOnline_def
  using assms(1-3) by (rule rpc_answered) (simp add: server_IsOnline_def isActive_iff [OF assms(4)])

text \<open>The step of the range for one node, and what it answers.\<close>

definition online_step ::
  "(u64 \<Rightarrow> delivery) \<Rightarrow> gostring \<Rightarrow> 'cs node \<Rightarrow> 'cs world \<Rightarrow> u64 \<Rightarrow> gostring KeyMap \<Rightarrow>
     (go_error, bool) outcome \<Rightarrow> bool \<times> (go_error, bool) outcome" where
  "online_step grpc uid nd w i v acc =
     (let acc' =
        (if i = nodeId (node_cluster nd) then
           (case KeyMap_Get uid v of Some cids \<Rightarrow> isActive (Map_Load cids) nd | None \<Rightarrow> Ok False)
         else
           (case GetPeer i (node_cluster nd) of
              None \<Rightarrow> Ok False
            | Some p \<Rightarrow>
                (case KeyMap_Get uid v of
                   None \<Rightarrow> Ok False
                 | Some cids \<Rightarrow> omap (\<lambda>(res, _). res = Ok True) (peer_isOnline grpc p (Map_Load cids) w))))
      in (acc' = Ok False, acc'))"

definition online_at :: "gostring \<Rightarrow> 'cs world \<Rightarrow> u64 \<Rightarrow> gostring KeyMap \<Rightarrow> bool" where
  "online_at uid w i v \<longleftrightarrow> (\<exists>(cid, net) \<in> set (user_pairs uid v). \<exists>nd'. w i = Some nd' \<and> active_at net cid nd')"

lemma online_step_answer:
  assumes me: "w (node_id nd) = Some nd" and ok: "KeyMap_ok v"
    and reach: "user_pairs uid v \<noteq> [] \<Longrightarrow> reaches grpc (node_cluster nd) i \<and> (\<exists>nd'. w i = Some nd' \<and> node_inv nd')"
  shows "online_step grpc uid nd w i v (Ok False) = (\<not> online_at uid w i v, Ok (online_at uid w i v))"
proof (cases "user_pairs uid v")
  case Nil
  with ok have "KeyMap_Get uid v = None"
    by (auto simp: user_pairs_def KeyMap_Get_def KeyMap_ok_iff inner_ok_def split: option.splits)
  with Nil show ?thesis by (auto simp: online_step_def online_at_def Let_def split: option.split)
next
  case (Cons x xs)
  then have get: "KeyMap_Get uid v = Some (user_pairs uid v)"
    by (auto simp: user_pairs_def KeyMap_Get_def split: option.splits)
  obtain nd' where nd': "reaches grpc (node_cluster nd) i" "w i = Some nd'" "node_inv nd'"
    using reach Cons by auto
  show ?thesis
  proof (cases "i = nodeId (node_cluster nd)")
    case True
    then have "nd' = nd" using nd'(2) me by simp
    with True nd' show ?thesis
      by (simp add: online_step_def online_at_def get Map_Load_def isActive_iff Let_def)
  next
    case False
    then obtain p where p: "GetPeer i (node_cluster nd) = Some p" "peer_ready p" "peer_id p = i" "grpc i = Answered 0"
      using nd'(1) by (auto simp: reaches_def)
    have "peer_isOnline grpc p (user_pairs uid v) w =
        Ok (Ok (\<exists>(cid, net) \<in> set (user_pairs uid v). active_at net cid nd'), w(i \<mapsto> nd'))"
      using remote_online [of p grpc w nd'] p nd' by simp
    with False p(1) nd'(2) show ?thesis by (simp add: online_step_def online_at_def get Map_Load_def Let_def)
  qed
qed

lemma IsOnline_online:
  assumes me: "w me = Some nd" "node_id nd = me" and ok: "NMap_ok (userClients (node_broker nd))"
    and reach: "\<forall>n cid net. NGet n uid cid (userClients (node_broker nd)) = Some net \<longrightarrow>
      reaches grpc (node_cluster nd) n \<and> (\<exists>nd'. w n = Some nd' \<and> node_inv nd')"
  shows "IsOnline grpc me uid w = Ok (online uid (userClients (node_broker nd)) w)"
proof -
  let ?t = "userClients (node_broker nd)"
  have "IsOnline grpc me uid w = Map_Range (online_step grpc uid nd w) (rmap_m ?t) (Ok False)"
    unfolding IsOnline_def RMap_Range_def online_step_def me(1) option.sel Let_def ..
  also have "\<dots> = Ok (\<exists>(i, v) \<in> set (rmap_m ?t). online_at uid w i v)"
  proof (rule Map_Range_exists, rule online_step_answer)
    fix i v assume v: "(i, v) \<in> set (rmap_m ?t)"
    show "KeyMap_ok v" using v ok by (auto simp: NMap_ok_def RMap_ok_def go_map_def RMap_Get_def)
    assume "user_pairs uid v \<noteq> []"
    then have "\<exists>cid net. NGet i uid cid ?t = Some net"
      using v by (cases "user_pairs uid v") (auto simp: NGet_listed [OF ok], metis list.set_intros(1) surj_pair)
    then show "reaches grpc (node_cluster nd) i \<and> (\<exists>nd'. w i = Some nd' \<and> node_inv nd')" using reach by blast
  qed (use me in simp)
  also have "(\<exists>(i, v) \<in> set (rmap_m ?t). online_at uid w i v) = online uid ?t w"
    by (force simp: online_def online_at_def NGet_listed [OF ok])
  finally show ?thesis .
qed

text \<open>
  C31. \<open>IsOnline\<close> answers for the whole cluster: when the nodes listed for the user answer, the result is
  whether any of the listed clients has an open connection on the listed node and network.
\<close>

theorem IsOnline_correct:
  assumes me: "w me = Some nd" "node_id nd = me" and ok: "NMap_ok (userClients (node_broker nd))"
    and reach: "\<forall>n cid net. NGet n uid cid (userClients (node_broker nd)) = Some net \<longrightarrow>
      reaches grpc (node_cluster nd) n \<and> (\<exists>nd'. w n = Some nd' \<and> node_inv nd')"
  shows "IsOnline grpc me uid w = Ok (online uid (userClients (node_broker nd)) w)"
  by (rule IsOnline_online [OF assms])

section \<open>Kicking a user\<close>

text \<open>What a node's operations never change of its cluster state: only proposals are added.\<close>

definition same_node :: "'cs node \<Rightarrow> 'cs node \<Rightarrow> bool" where
  "same_node nd nd' \<longleftrightarrow> node_id nd' = node_id nd \<and> node_broker nd' = node_broker nd \<and>
     peers (node_cluster nd') = peers (node_cluster nd)"

lemma same_node_refl [simp]: "same_node nd nd"
  by (simp add: same_node_def)

lemma same_node_trans: "same_node a b \<Longrightarrow> same_node b c \<Longrightarrow> same_node a c"
  by (simp add: same_node_def)

lemma onUserClosed_fields [simp]:
  "listeners (onUserClosed ident nd) = listeners nd" "same_node nd (onUserClosed ident nd)"
  by (auto simp: onUserClosed_def same_node_def Let_def SubmitOperation_def split: outcome.split)

lemma onUserClosed_fold:
  "listeners (fold onUserClosed ids nd) = listeners nd \<and> same_node nd (fold onUserClosed ids nd)"
  by (induction ids arbitrary: nd) (auto intro: same_node_trans onUserClosed_fields(2))

lemma started_server_cong: "listeners nd' = listeners nd \<Longrightarrow> started_server net nd' = started_server net nd"
  by (simp add: started_server_def)

lemma node_inv_cong: "listeners nd' = listeners nd \<Longrightarrow> node_inv nd' = node_inv nd"
  by (simp add: node_inv_def)

text \<open>A kick always succeeds, takes the client out of the table and touches no other entry.\<close>

lemma CloseCode_total: "\<exists>c' b. conn_CloseCode code c = Ok (c', b)"
proof -
  have "jumpPacket background (PClose (NewClose code)) c \<noteq> Panic"
    using Marshal_sendable [of "PClose (NewClose code)"]
    by (auto simp: jumpPacket_def conn_push_def Let_def background_def sendable_def NewClose_def u8map_ok_def
      close_wire_def u8map_wire_def MAX_LEN_def outcome_Panic_obind)
  then obtain c1 where "ignoring c (jumpPacket background (PClose (NewClose code)) c) = Ok c1"
    by (cases "jumpPacket background (PClose (NewClose code)) c") auto
  then show ?thesis by (cases "conn_Close c1") (auto simp: conn_CloseCode_def)
qed

lemma KickConn_effect:
  assumes inv: "server_inv s"
  obtains b s' where "KickConn cid s = Ok (b, s')" and "server_inv s'"
    and "\<And>cid'. IsActive cid' s' \<longleftrightarrow> IsActive cid' s \<and> cid' \<noteq> cid"
proof (cases "RMap_Get cid (conns s)")
  case None
  then have "KickConn cid s = Ok (False, s)" "\<not> IsActive cid s" by (simp_all add: KickConn_def IsActive_def)
  with inv show ?thesis by (intro that) auto
next
  case (Some r)
  obtain ident where r: "r < length (heap s)" "\<not> conn_closed (heap s ! r)"
    "raw_ID (heap s ! r) = Some ident" "ClientID ident = cid"
    by (rule registered [OF inv Some])
  obtain c b where c: "conn_CloseCode CloseKickedOut (heap s ! r) = Ok (c, b)" using CloseCode_total by blast
  then have c': "conn_closed c" "raw_ID c = Some ident" "b" using CloseCode_closes [OF c] r by auto
  let ?s = "after_Close r (c, True) s"
  have kick: "KickConn cid s = Ok (True, ?s)"
    using Some c c' by (simp add: KickConn_def do_CloseCode_def conn_of_def)
  have ok: "RMap_ok (conns s)" using inv by (simp add: server_inv_def)
  have inv': "server_inv ?s" by (rule server_inv_KickConn [OF kick inv])
  have table: "conns ?s = snd (RMap_Delete cid (conns s))"
    using after_Close_open [OF r(1) c'(2) ok] r(4) by simp
  have act: "IsActive cid' t \<longleftrightarrow> RMap_Get cid' (conns t) \<noteq> None" if "server_inv t" for cid' t
    using that by (auto simp: IsActive_def conn_IsClosed_def conn_of_def server_inv_def split: option.splits)
  have "IsActive cid' ?s \<longleftrightarrow> IsActive cid' s \<and> cid' \<noteq> cid" for cid'
    by (simp add: act inv inv' table rmap.get_del [OF ok])
  with kick inv' show ?thesis by (rule that)
qed

definition kicked :: "(gostring \<times> gostring) set \<Rightarrow> 'cs node \<Rightarrow> 'cs node \<Rightarrow> bool" where
  "kicked T nd nd' \<longleftrightarrow> node_inv nd' \<and> same_node nd nd' \<and>
     (\<forall>net cid. active_at net cid nd' \<longleftrightarrow> active_at net cid nd \<and> (net, cid) \<notin> T)"

lemma kicked_refl: "node_inv nd \<Longrightarrow> kicked {} nd nd"
  by (simp add: kicked_def)

lemma kicked_trans: "kicked T a b \<Longrightarrow> kicked U b c \<Longrightarrow> kicked (T \<union> U) a c"
  unfolding kicked_def by (auto intro: same_node_trans)

lemma kick_one_effect:
  assumes inv: "node_inv nd"
  obtains nd' where "kick_one cid net nd = Ok nd'" and "kicked {(net, cid)} nd nd'"
proof -
  obtain srv where srv: "started_server net nd = Ok srv" using started_server_ok [OF inv] by blast
  show ?thesis
  proof (cases srv)
    case None
    with srv inv show ?thesis by (intro that [of nd]) (auto simp: kick_one_def kicked_def active_at_def)
  next
    case (Some s)
    with srv have s: "started_server net nd = Ok (Some s)" by simp
    obtain b s' where kick: "KickConn cid s = Ok (b, s')" and sinv: "server_inv s'"
      and act: "\<And>cid'. IsActive cid' s' \<longleftrightarrow> IsActive cid' s \<and> cid' \<noteq> cid"
      using KickConn_effect [OF started_server_inv [OF inv s]] by blast
    let ?nd1 = "put_server net s' nd"
    let ?nd = "fold onUserClosed (drop (length (closed_ids s)) (closed_ids s')) ?nd1"
    have nd: "listeners ?nd = listeners ?nd1" "same_node ?nd1 ?nd"
      using onUserClosed_fold by blast+
    have "kick_one cid net nd = Ok ?nd" by (simp add: kick_one_def s kick on_server_def)
    moreover have "node_inv ?nd" using node_inv_put_server [OF inv sinv] node_inv_cong [OF nd(1)] by blast
    moreover have "same_node nd ?nd"
      using nd(2) by (auto simp: same_node_def)
    moreover have "active_at net' cid' ?nd \<longleftrightarrow> active_at net' cid' nd \<and> (net', cid') \<noteq> (net, cid)" for net' cid'
      using act by (auto simp: active_at_def started_server_cong [OF nd(1)] started_put_server [OF s] s)
    ultimately show ?thesis by (intro that) (auto simp: kicked_def)
  qed
qed

lemma kickConn_effect:
  assumes "node_inv nd"
  obtains nd' where "kickConn targets nd = Ok nd'" and "kicked (targets_of targets) nd nd'"
proof -
  have "\<exists>nd'. foldl (\<lambda>acc (cid, net). obind acc (kick_one cid net)) (Ok nd) targets = Ok nd' \<and>
      kicked (targets_of targets) nd nd'"
    using assms
  proof (induction targets arbitrary: nd)
    case Nil
    then show ?case by (simp add: kicked_refl)
  next
    case (Cons a targets)
    obtain cid net where a: "a = (cid, net)" by (cases a)
    obtain nd1 where nd1: "kick_one cid net nd = Ok nd1" "kicked {(net, cid)} nd nd1"
      using kick_one_effect [OF Cons.prems] by blast
    then have "node_inv nd1" by (simp add: kicked_def)
    from Cons.IH [OF this] obtain nd' where nd':
      "foldl (\<lambda>acc (cid, net). obind acc (kick_one cid net)) (Ok nd1) targets = Ok nd'"
      "kicked (targets_of targets) nd1 nd'" by blast
    from kicked_trans [OF nd1(2) nd'(2)] nd' show ?case by (simp add: a nd1(1))
  qed
  then show ?thesis using that by (auto simp: kickConn_def)
qed

lemma remote_kick:
  assumes "peer_ready p" and "grpc (peer_id p) = Answered 0" and "w (peer_id p) = Some nd" and "node_inv nd"
  obtains nd' where "peer_kickConn grpc p targets w = Ok (Ok (), w(peer_id p \<mapsto> nd'))"
    and "kicked (targets_of targets) nd nd'"
proof -
  obtain nd' where nd': "kickConn targets nd = Ok nd'" "kicked (targets_of targets) nd nd'"
    using kickConn_effect [OF assms(4)] by blast
  have "peer_kickConn grpc p targets w = Ok (Ok (), w(peer_id p \<mapsto> nd'))"
    unfolding peer_kickConn_def
    using assms(1-3) by (rule rpc_answered) (simp add: server_KickConn_def nd'(1))
  then show ?thesis using nd'(2) by (rule that)
qed

text \<open>One node of the range of \<open>KickUser\<close>.\<close>

definition kick_step ::
  "(u64 \<Rightarrow> delivery) \<Rightarrow> gostring \<Rightarrow> u64 \<Rightarrow> 'cs cluster \<Rightarrow> u64 \<Rightarrow> gostring KeyMap \<Rightarrow>
     (go_error, 'cs world) outcome \<Rightarrow> (go_error, 'cs world) outcome" where
  "kick_step grpc uid me c i value acc = obind acc (\<lambda>st.
     if i = nodeId c then
       (case KeyMap_Get uid value of
          Some cids \<Rightarrow> omap (\<lambda>nd'. st(me \<mapsto> nd')) (kickConn (Map_Load cids) (the (st me)))
        | None \<Rightarrow> Ok st)
     else
       (case GetPeer i c of
          None \<Rightarrow> Ok st
        | Some p \<Rightarrow>
            (case KeyMap_Get uid value of
               Some cids \<Rightarrow> omap snd (peer_kickConn grpc p (Map_Load cids) st)
             | None \<Rightarrow> Ok st)))"

lemma KickUser_fold:
  "KickUser grpc me uid w =
     fold (\<lambda>(i, value). kick_step grpc uid me (node_cluster (the (w me))) i value)
       (rmap_m (userClients (node_broker (the (w me))))) (Ok w)"
  unfolding KickUser_def Let_def RMap_Range_def Map_Range_fold kick_step_def ..

definition kicks :: "(gostring \<times> gostring) set \<Rightarrow> 'cs node \<Rightarrow> 'cs node \<Rightarrow> bool" where
  "kicks T nd nd' \<longleftrightarrow> (if T = {} then nd' = nd else kicked T nd nd')"

lemma kicks_trans: "kicks T a b \<Longrightarrow> kicks U b c \<Longrightarrow> kicks (T \<union> U) a c"
  using kicked_trans [of T a b U c] by (auto simp: kicks_def split: if_splits)

definition kicked_all :: "(u64 \<Rightarrow> (gostring \<times> gostring) set) \<Rightarrow> 'cs world \<Rightarrow> 'cs world \<Rightarrow> bool" where
  "kicked_all T w w' \<longleftrightarrow>
     (\<forall>n. case w n of
        None \<Rightarrow> w' n = None
      | Some nd \<Rightarrow> \<exists>nd'. w' n = Some nd' \<and> kicks (T n) nd nd')"

lemma kicked_all_trans:
  assumes "kicked_all T w w1" and "kicked_all U w1 w2"
  shows "kicked_all (\<lambda>n. T n \<union> U n) w w2"
  unfolding kicked_all_def
proof
  fix n
  from assms have 1: "case w n of None \<Rightarrow> w1 n = None | Some nd \<Rightarrow> \<exists>nd'. w1 n = Some nd' \<and> kicks (T n) nd nd'"
    and 2: "case w1 n of None \<Rightarrow> w2 n = None | Some nd \<Rightarrow> \<exists>nd'. w2 n = Some nd' \<and> kicks (U n) nd nd'"
    unfolding kicked_all_def by blast+
  show "case w n of None \<Rightarrow> w2 n = None | Some nd \<Rightarrow> \<exists>nd'. w2 n = Some nd' \<and> kicks (T n \<union> U n) nd nd'"
    using 1 2 by (cases "w n") (auto, metis kicks_trans)
qed

lemma kick_step_effect:
  assumes "KeyMap_ok value"
    and "user_pairs uid value \<noteq> [] \<longrightarrow> reaches grpc c i \<and> (\<exists>nd. st i = Some nd \<and> node_inv nd)"
    and "nodeId c = me"
  shows "\<exists>st'. kick_step grpc uid me c i value (Ok st) = Ok st' \<and>
    kicked_all (\<lambda>n. if n = i then targets_of (user_pairs uid value) else {}) st st'"
proof (cases "KeyMap_Get uid value")
  case None
  then have "user_pairs uid value = []" by (simp add: user_pairs_def KeyMap_Get_def)
  with None show ?thesis by (auto simp: kick_step_def kicked_all_def kicks_def split: option.splits)
next
  case (Some cids)
  then have cids: "user_pairs uid value = cids" "cids \<noteq> []"
    using assms(1) by (auto simp: user_pairs_def KeyMap_Get_def KeyMap_ok_iff inner_ok_def)
  with assms(2) obtain nd where nd: "reaches grpc c i" "st i = Some nd" "node_inv nd" by blast
  have all: "kicked_all (\<lambda>n. if n = i then targets_of cids else {}) st (st(i \<mapsto> nd'))"
    if "kicked (targets_of cids) nd nd'" for nd'
    using that nd(2) cids(2) by (auto simp: kicked_all_def kicks_def split: option.splits)
  show ?thesis
  proof (cases "i = nodeId c")
    case True
    obtain nd' where "kickConn cids nd = Ok nd'" "kicked (targets_of cids) nd nd'"
      using kickConn_effect [OF nd(3)] by blast
    with True nd(2) assms(3) all [folded cids(1)] show ?thesis
      by (auto simp: kick_step_def Some cids(1) Map_Load_def)
  next
    case False
    then obtain p where p: "GetPeer i c = Some p" "peer_ready p" "peer_id p = i" "grpc i = Answered 0"
      using nd(1) by (auto simp: reaches_def)
    obtain nd' where "peer_kickConn grpc p cids st = Ok (Ok (), st(i \<mapsto> nd'))" "kicked (targets_of cids) nd nd'"
      using remote_kick [OF p(2), of grpc st nd cids] p(3,4) nd(2,3) by blast
    with False p(1) all [folded cids(1)] show ?thesis
      by (auto simp: kick_step_def Some cids(1) Map_Load_def)
  qed
qed

lemma kick_steps_effect:
  assumes "nodeId c = me"
  shows "distinct (map fst xs) \<Longrightarrow>
    \<forall>(i, v) \<in> set xs. KeyMap_ok v \<and>
      (user_pairs uid v \<noteq> [] \<longrightarrow> reaches grpc c i \<and> (\<exists>nd. w i = Some nd \<and> node_inv nd)) \<Longrightarrow>
    \<exists>w'. fold (\<lambda>(i, v). kick_step grpc uid me c i v) xs (Ok w) = Ok w' \<and> kicked_all (listed uid xs) w w'"
proof (induction xs arbitrary: w)
  case Nil
  then show ?case by (auto simp: kicked_all_def kicks_def listed_def split: option.splits)
next
  case (Cons a xs)
  obtain i v where a: "a = (i, v)" by (cases a)
  let ?T = "\<lambda>n. if n = i then targets_of (user_pairs uid v) else {}"
  obtain w1 where w1: "kick_step grpc uid me c i v (Ok w) = Ok w1" "kicked_all ?T w w1"
    using kick_step_effect [of v uid grpc c i w me] Cons.prems(2) assms a by auto
  have other: "w1 j = w j" if "j \<noteq> i" for j
    using w1(2) that by (auto simp: kicked_all_def kicks_def split: option.splits dest!: spec [of _ j])
  have fresh: "(i, v') \<notin> set xs" for v' using Cons.prems(1) a by force
  have "\<forall>(j, v) \<in> set xs. KeyMap_ok v \<and>
      (user_pairs uid v \<noteq> [] \<longrightarrow> reaches grpc c j \<and> (\<exists>nd. w1 j = Some nd \<and> node_inv nd))"
  proof (intro ballI, clarify)
    fix j v' assume "(j, v') \<in> set xs"
    moreover from this have "w1 j = w j" using fresh [of v'] other [of j] by (cases "j = i") auto
    ultimately show "KeyMap_ok v' \<and> (user_pairs uid v' \<noteq> [] \<longrightarrow> reaches grpc c j \<and> (\<exists>nd. w1 j = Some nd \<and> node_inv nd))"
      using Cons.prems(2) by auto
  qed
  with Cons.IH [of w1] Cons.prems(1) obtain w' where
    w': "fold (\<lambda>(i, v). kick_step grpc uid me c i v) xs (Ok w1) = Ok w'" "kicked_all (listed uid xs) w1 w'"
    by auto
  have "map_of xs i = None" using Cons.prems(1) a by (force simp: map_of_eq_None_iff)
  then have "(\<lambda>n. ?T n \<union> listed uid xs n) = listed uid (a # xs)"
    by (auto simp: listed_def a fun_eq_iff)
  with kicked_all_trans [OF w1(2) w'(2)] w' show ?case by (simp add: a w1(1))
qed

text \<open>\<open>KickUser\<close> kicks on every node the connections that the table lists for the user there.\<close>

lemma KickUser_effect:
  assumes me: "w me = Some nd" "node_id nd = me" and ok: "NMap_ok (userClients (node_broker nd))"
    and reach: "\<forall>n cid net. NGet n uid cid (userClients (node_broker nd)) = Some net \<longrightarrow>
      reaches grpc (node_cluster nd) n \<and> (\<exists>nd'. w n = Some nd' \<and> node_inv nd')"
  obtains w' where "KickUser grpc me uid w = Ok w'"
    and "\<And>n nd1. w n = Some nd1 \<Longrightarrow>
      \<exists>nd2. w' n = Some nd2 \<and> kicks (listed uid (rmap_m (userClients (node_broker nd))) n) nd1 nd2"
proof -
  let ?t = "userClients (node_broker nd)" let ?c = "node_cluster nd"
  have xs: "distinct (map fst (rmap_m ?t))" "\<And>n v. (n, v) \<in> set (rmap_m ?t) \<Longrightarrow> KeyMap_ok v"
    using ok by (auto simp: NMap_ok_def RMap_ok_def go_map_def RMap_Get_def)
  have "\<forall>(i, v) \<in> set (rmap_m ?t). KeyMap_ok v \<and>
      (user_pairs uid v \<noteq> [] \<longrightarrow> reaches grpc ?c i \<and> (\<exists>nd. w i = Some nd \<and> node_inv nd))"
    using xs(2) listed_reached [OF ok, of _ _ uid] reach by blast
  from kick_steps_effect [OF me(2) xs(1) this] obtain w' where
    fold: "fold (\<lambda>(i, v). kick_step grpc uid me ?c i v) (rmap_m ?t) (Ok w) = Ok w'" and
    all: "kicked_all (listed uid (rmap_m ?t)) w w'" by blast
  have "\<exists>nd2. w' n = Some nd2 \<and> kicks (listed uid (rmap_m ?t) n) nd1 nd2" if "w n = Some nd1" for n nd1
  proof -
    from all have "case w n of None \<Rightarrow> w' n = None
      | Some nd \<Rightarrow> \<exists>nd'. w' n = Some nd' \<and> kicks (listed uid (rmap_m ?t) n) nd nd'"
      unfolding kicked_all_def by (rule spec)
    with that show ?thesis by simp
  qed
  moreover have "KickUser grpc me uid w = Ok w'" using fold by (simp add: KickUser_fold me(1))
  ultimately show thesis using that by blast
qed

lemma kicks_active:
  assumes "NMap_ok t" and "kicks (listed uid (rmap_m t) n) nd1 nd2"
  shows "active_at net cid nd2 \<longleftrightarrow> active_at net cid nd1 \<and> NGet n uid cid t \<noteq> Some net"
  using assms(2) listed_NGet [OF assms(1), of uid] by (auto simp: kicks_def kicked_def split: if_splits)


subsection \<open>Witnesses\<close>

text \<open>Two nodes; the client \<open>c\<close> of user \<open>u\<close> is registered on node 1, and node 2 is asked.\<close>

definition demo_node :: "u64 \<Rightarrow> unit node" where
  "demo_node i =
     \<lparr>node_cluster = (newCluster i 2)\<lparr>raft_started := True, broker := demo_broker,
        peers := \<lparr>rmap_m = [(3 - i, (newPeerClient (3 - i) [])\<lparr>peer_ready := True\<rparr>)], rmap_l = 1\<rparr>\<rparr>,
      listeners = [(gs ''tcp'', \<lparr>l_started = True, l_server = Some demo_idle, l_network = ''tcp'',
        l_port = 0, l_options = [], autoStart = True\<rparr>)],
      requstHandlers = empty_RMap, userConnect = \<lambda>_. ConnectAccepted, userMessage = \<lambda>_ _. Ok (),
      userChannels = \<lambda>_. ([], None), user_closed = []\<rparr>"

definition demo_world :: "unit world" where
  "demo_world = [1 \<mapsto> demo_node 1, 2 \<mapsto> demo_node 2]"

lemma demo_NGet:
  "NGet n uid cid (userClients demo_broker) = (if n = 1 \<and> uid = gs ''u'' \<and> cid = gs ''c'' then Some (gs ''tcp'') else None)"
  "NGet n ch cid (channelClients demo_broker) = (if n = 1 \<and> ch = gs ''room'' \<and> cid = gs ''c'' then Some (gs ''tcp'') else None)"
  by (simp_all add: demo_broker_eq NGet_def RMap_Get_def KeyMap_GetKey_def Map_Get_def)

lemma demo_node_simps [simp]:
  "node_broker (demo_node i) = demo_broker" "node_id (demo_node i) = i"
  "started_server (gs ''tcp'') (demo_node i) = Ok (Some demo_idle)"
  by (simp_all add: demo_node_def newCluster_def started_server_def ISStarted_def)

lemma demo_node_inv: "node_inv (demo_node i)"
  by (simp add: node_inv_def demo_node_def demo_idle)

lemma demo_conn_at: "conn_at (gs ''tcp'') (gs ''c'') (demo_node i) = Some (conn_of 0 demo_idle)"
  by (simp add: conn_at_def demo_idle)

lemma demo_active: "active_at (gs ''tcp'') (gs ''c'') (demo_node i)"
  using demo_idle(2,4)
  by (simp add: active_at_def IsActive_def GetConn_def conn_IsClosed_def conn_plain_def Let_def)

lemma demo_reaches: "reaches (\<lambda>_. Answered 0) (node_cluster (demo_node 2)) 1"
  by (simp add: reaches_def GetPeer_def RMap_Get_def demo_node_def newPeerClient_def)

lemma demo_tables: "NMap_ok (userClients demo_broker)" "NMap_ok (channelClients demo_broker)"
  using demo_ok by (simp_all add: broker_ok_def)

lemma demo_sendable: "sendable (PMessage (NewMessage [1]))"
  by (simp add: sendable_def NewMessage_def u8map_ok_def message_wire_def u8map_wire_def MAX_LEN_def)

lemma demo_card: "{(n, cid). P n cid} = {(n, cid). n = (1 :: u64) \<and> cid = gs ''c''} \<Longrightarrow> card {(n, cid). P n cid} = 1"
proof -
  have "{(n, cid). n = (1 :: u64) \<and> cid = gs ''c''} = {(1, gs ''c'')}" by auto
  then show "{(n, cid). P n cid} = {(n, cid). n = (1 :: u64) \<and> cid = gs ''c''} \<Longrightarrow> card {(n, cid). P n cid} = 1" by simp
qed

theorem SendToUser_delivers_witness:
  "\<exists>w'. SendToUser (\<lambda>_. Answered 0) background 2 (gs ''u'') (NewMessage [1]) demo_world = Ok ((1, 1), w')"
proof -
  have me: "demo_world 2 = Some (demo_node 2)" by (simp add: demo_world_def)
  have reach: "\<forall>n cid net. NGet n (gs ''u'') cid (userClients (node_broker (demo_node 2))) = Some net \<longrightarrow>
      reaches (\<lambda>_. Answered 0) (node_cluster (demo_node 2)) n \<and> demo_world n \<noteq> None"
    using demo_reaches by (auto simp: demo_NGet demo_world_def split: if_splits)
  have ready: "\<forall>n nd'. demo_world n = Some nd' \<longrightarrow>
      ready_for {(net, cid). NGet n (gs ''u'') cid (userClients (node_broker (demo_node 2))) = Some net} nd'"
    using demo_node_inv demo_conn_at demo_idle(2)
    by (auto simp: demo_world_def ready_for_def demo_NGet split: if_splits)
  have "gs ''u'' \<noteq> []" by (simp add: gs_def)
  from SendToUser_delivers [OF me _ this demo_sendable _ reach ready]
  show ?thesis by (auto simp: demo_tables demo_NGet demo_card)
qed

theorem SendToChannel_delivers_witness:
  "\<exists>w'. SendToChannel (\<lambda>_. Answered 0) background 2 (gs ''room'') (NewMessage [1]) demo_world = Ok ((1, 1), w')"
proof -
  have me: "demo_world 2 = Some (demo_node 2)" by (simp add: demo_world_def)
  have reach: "\<forall>n cid net. NGet n (gs ''room'') cid (channelClients (node_broker (demo_node 2))) = Some net \<longrightarrow>
      reaches (\<lambda>_. Answered 0) (node_cluster (demo_node 2)) n \<and> demo_world n \<noteq> None"
    using demo_reaches by (auto simp: demo_NGet demo_world_def split: if_splits)
  have ready: "\<forall>n nd'. demo_world n = Some nd' \<longrightarrow>
      ready_for {(net, cid). NGet n (gs ''room'') cid (channelClients (node_broker (demo_node 2))) = Some net} nd'"
    using demo_node_inv demo_conn_at demo_idle(2)
    by (auto simp: demo_world_def ready_for_def demo_NGet split: if_splits)
  have "gs ''room'' \<noteq> []" by (simp add: gs_def)
  from SendToChannel_delivers [OF me _ this demo_sendable _ reach ready]
  show ?thesis by (auto simp: demo_tables demo_NGet demo_card)
qed

lemma demo_reach_inv:
  "\<forall>n cid net. NGet n (gs ''u'') cid (userClients (node_broker (demo_node 2))) = Some net \<longrightarrow>
   reaches (\<lambda>_. Answered 0) (node_cluster (demo_node 2)) n \<and> (\<exists>nd'. demo_world n = Some nd' \<and> node_inv nd')"
  using demo_reaches demo_node_inv by (auto simp: demo_NGet demo_world_def split: if_splits)

theorem IsOnline_correct_witness: "IsOnline (\<lambda>_. Answered 0) 2 (gs ''u'') demo_world = Ok True"
proof -
  have me: "demo_world 2 = Some (demo_node 2)" by (simp add: demo_world_def)
  have "online (gs ''u'') (userClients demo_broker) demo_world"
    using demo_active unfolding online_def by (auto simp: demo_NGet demo_world_def)
  with IsOnline_correct [OF me _ _ demo_reach_inv] show ?thesis by (simp add: demo_tables)
qed


end
