(* ===== verification/Node.thy ===== *)
theory Node
  imports Routing_Safety Strconv
begin

text \<open>
  A whole node of src/cluster: its options (options.go), its construction, start and shutdown
  (broker.go), its status, and the loop that drives raft (\<open>raftLoop\<close> and \<open>sendRaftMessags\<close> of
  cluster_raft.go).

  One iteration of \<open>raftLoop\<close> is a function of the batch that the raft library hands out. The calls
  the code makes back into the library and its storage are listed in order; their errors are only
  logged, apart from those of the two calls of \<open>attemptSnapshot\<close>, which are arguments. \<open>arrives\<close> says for
  each peer whether a raft message reaches it.
\<close>

section \<open>Options\<close>

text \<open>The methods of the \<open>Handler\<close> interface that have a result are the last three fields.\<close>

record cluster_options =
  co_nodeId :: u64
  co_peerPort :: u16
  co_discovery :: bool
  co_listeners :: "listener list"
  co_clusterSize :: u32
  co_userConnect :: "connect \<Rightarrow> byte"
  co_userMessage :: "message \<Rightarrow> identity option \<Rightarrow> (go_error, unit) outcome"
  co_userChannels :: "gostring \<Rightarrow> (gostring, gostring) gomap \<times> go_error option"

definition emptyHandler_OnUserConnect :: "connect \<Rightarrow> byte" where
  "emptyHandler_OnUserConnect p = ConnectAccepted"

definition emptyHandler_OnUserMessage :: "message \<Rightarrow> identity option \<Rightarrow> (go_error, unit) outcome" where
  "emptyHandler_OnUserMessage p ident = Ok ()"

definition emptyHandler_GetUserChannels :: "gostring \<Rightarrow> (gostring, gostring) gomap \<times> go_error option" where
  "emptyHandler_GetUserChannels uid = ([], None)"

definition cluster_newOptions :: "(cluster_options \<Rightarrow> cluster_options) list \<Rightarrow> cluster_options" where
  "cluster_newOptions os =
     foldl (\<lambda>o' f. f o')
       \<lparr>co_nodeId = 0, co_peerPort = 4567, co_discovery = False, co_listeners = [], co_clusterSize = 3,
        co_userConnect = emptyHandler_OnUserConnect, co_userMessage = emptyHandler_OnUserMessage,
        co_userChannels = emptyHandler_GetUserChannels\<rparr> os"

definition WithHandler ::
  "(connect \<Rightarrow> byte) \<Rightarrow> (message \<Rightarrow> identity option \<Rightarrow> (go_error, unit) outcome) \<Rightarrow>
   (gostring \<Rightarrow> (gostring, gostring) gomap \<times> go_error option) \<Rightarrow> cluster_options \<Rightarrow> cluster_options" where
  "WithHandler connect message channels o' =
     o'\<lparr>co_userConnect := connect, co_userMessage := message, co_userChannels := channels\<rparr>"

definition WithPeerPort :: "u16 \<Rightarrow> cluster_options \<Rightarrow> cluster_options" where
  "WithPeerPort port o' = o'\<lparr>co_peerPort := port\<rparr>"

definition WithDiscovery :: "bool \<Rightarrow> cluster_options \<Rightarrow> cluster_options" where
  "WithDiscovery given o' = o'\<lparr>co_discovery := given\<rparr>"

definition WithListeners :: "listener list \<Rightarrow> cluster_options \<Rightarrow> cluster_options" where
  "WithListeners ls o' = o'\<lparr>co_listeners := ls\<rparr>"

definition WithNodeId :: "u64 \<Rightarrow> cluster_options \<Rightarrow> cluster_options" where
  "WithNodeId i o' = o'\<lparr>co_nodeId := i\<rparr>"

definition WithClusterSize :: "u32 \<Rightarrow> cluster_options \<Rightarrow> cluster_options" where
  "WithClusterSize n o' = o'\<lparr>co_clusterSize := n\<rparr>"

section \<open>Construction\<close>

text \<open>
  \<open>NewBroker\<close>; \<open>newCluster\<close> calls a method of the discovery, which panics when none was given. The
  closures that the added server options install are run by \<open>login\<close>, \<open>receive\<close> and \<open>on_server\<close>
  (theory \<open>Routing\<close>), so nothing is added to the options here. Of two listeners of the same network the
  later one replaces the earlier.
\<close>

definition NewBroker ::
  "gostring option \<Rightarrow> u64 \<Rightarrow> (cluster_options \<Rightarrow> cluster_options) list \<Rightarrow> (go_error, 'cs node) outcome" where
  "NewBroker hostname rnd os =
     (let o' = cluster_newOptions os;
          i = (if co_nodeId o' > 0 then co_nodeId o' else GetNodeId hostname rnd)
      in if \<not> co_discovery o' then Panic
         else Ok \<lparr>node_cluster = newCluster i (co_clusterSize o'),
                  listeners = foldl (\<lambda>m l. AList.update (gs (l_network l)) (AddOptions [] l) m) [] (co_listeners o'),
                  requstHandlers = empty_RMap, userConnect = co_userConnect o',
                  userMessage = co_userMessage o', userChannels = co_userChannels o', user_closed = []\<rparr>)"

section \<open>Start and stop\<close>

text \<open>\<open>onClusterReady\<close> starts the listeners that start by themselves; the handler's own method is in theory \<open>Lifecycle\<close>.\<close>

definition onClusterReady :: "'cs node \<Rightarrow> (go_error, 'cs node) outcome" where
  "onClusterReady nd =
     foldl (\<lambda>acc (net, l). obind acc (\<lambda>st.
         if autoStart l then omap (\<lambda>l'. put_listener net l' st) (Listener_Start l) else Ok st))
       (Ok nd) (listeners nd)"

text \<open>
  \<open>ExpelAllConns\<close> calls the method of the server embedded in each listener; a listener that was never
  started has none, a nil pointer.
\<close>

definition broker_ExpelAllConns :: "'cs node \<Rightarrow> (go_error, 'cs node) outcome" where
  "broker_ExpelAllConns nd =
     foldl (\<lambda>acc (net, l). obind acc (\<lambda>st.
         case l_server l of
           None \<Rightarrow> Panic
         | Some s \<Rightarrow> omap snd (on_server net s (omap (\<lambda>s'. ((), s')) (ExpelAllConns s)) st)))
       (Ok nd) (listeners nd)"

text \<open>\<open>Shutdown\<close>: the error of the last call is returned, and the peer server's is always nil.\<close>

definition cluster_Stop :: "'cs cluster \<Rightarrow> 'cs cluster" where
  "cluster_Stop c = c\<lparr>ready := False\<rparr>"

definition broker_Shutdown ::
  "(gostring \<Rightarrow> go_error option) \<Rightarrow> 'cs node \<Rightarrow> (go_error, 'cs node) outcome" where
  "broker_Shutdown transport_err nd =
     omap (\<lambda>st. st\<lparr>node_cluster := cluster_Stop (node_cluster st)\<rparr>)
       (foldl (\<lambda>acc (net, _). obind acc (\<lambda>st. omap snd (stopListener (transport_err net) net st)))
          (Ok nd) (listeners nd))"

section \<open>Status\<close>

record node_status =
  st_Id :: u64
  st_UserCount :: "(u64 \<times> u32) list"
  st_ClientCount :: "(gostring \<times> u32) list"
  st_ChannelCount :: "(u64 \<times> u32) list"
  st_RaftNodeCount :: u32

definition key_counts :: "gostring node_map \<Rightarrow> (u64 \<times> u32) list" where
  "key_counts m = RMap_Range (\<lambda>key value acc. (True, AList.update key (KeyMap_Len value) acc)) m []"

text \<open>
  The fields taken from the raft library's status are left out. \<open>RaftLogSize\<close> calls methods of a storage
  that \<open>startRaft\<close> makes; before, it is a nil pointer.
\<close>

definition inspect :: "'cs node \<Rightarrow> (go_error, node_status) outcome" where
  "inspect nd =
     (if \<not> raft_started (node_cluster nd) then Panic
      else Ok \<lparr>st_Id = node_id nd, st_UserCount = key_counts (userClients (node_broker nd)),
        st_ClientCount = node_ConnCount nd, st_ChannelCount = key_counts (channelClients (node_broker nd)),
        st_RaftNodeCount = cluster_size (node_cluster nd)\<rparr>)"

definition server_Inspect :: "('cs, node_status) peer_handler" where
  "server_Inspect nd = omap (\<lambda>s. (s, nd)) (inspect nd)"

definition peer_inspect where
  "peer_inspect grpc p w = peer_rpc grpc p server_Inspect w"

text \<open>
  \<open>Inspects\<close>, when the goroutines append one after the other; a peer that fails is logged and
  missing from the result.
\<close>

definition Inspects :: "(u64 \<Rightarrow> delivery) \<Rightarrow> u64 \<Rightarrow> 'cs world \<Rightarrow> (go_error, node_status list) outcome" where
  "Inspects grpc me w =
     (let nd = the (w me)
      in RangePeers (\<lambda>i p acc. (True, obind acc (\<lambda>ss.
             omap (\<lambda>(res, _). case res of Ok s \<Rightarrow> ss @ [s] | _ \<Rightarrow> ss) (peer_inspect grpc p w))))
           (node_cluster nd) (omap (\<lambda>s. [s]) (inspect nd)))"

section \<open>The raft loop\<close>

record 'cs raft_message =
  msg_To :: u64
  msg_Snap :: bool
  msg_ConfState :: "'cs option"

record 'cs raft_batch =
  rd_HardState :: bool
  rd_Snapshot :: "(u64 \<times> 'cs \<times> snapshot option) option"
  rd_Entries :: "raft_entry list"
  rd_CommittedEntries :: "raft_entry list"
  rd_SoftState :: "u64 option"
  rd_Messages :: "'cs raft_message list"

datatype 'cs raft_call =
  StorageSetHardState | StorageApplySnapshot u64 | StorageAppend "raft_entry list"
| SendRaft "'cs raft_message" | ReportUnreachable u64 | ReportSnapshot u64 bool | StorageCompact u64 | Advance

definition sendRaftMessage ::
  "(u64 \<Rightarrow> bool) \<Rightarrow> peer_client \<Rightarrow> bool" where
  "sendRaftMessage arrives p \<longleftrightarrow> peer_isReady p \<and> arrives (peer_id p)"

text \<open>A snapshot is sent with the node's own configuration; without one the pointer is nil.\<close>

definition sendRaftMsg ::
  "(u64 \<Rightarrow> bool) \<Rightarrow> 'cs cluster \<Rightarrow> 'cs raft_message \<Rightarrow> (go_error, 'cs raft_call list) outcome" where
  "sendRaftMsg arrives c msg =
     (case GetPeer (msg_To msg) c of
        None \<Rightarrow> Ok []
      | Some p \<Rightarrow>
          if msg_Snap msg \<and> confState c = None then Panic
          else let m = (if msg_Snap msg then msg\<lparr>msg_ConfState := confState c\<rparr> else msg);
                   snap = (\<lambda>ok. if msg_Snap m then [ReportSnapshot (msg_To m) ok] else [])
               in Ok (if sendRaftMessage arrives p then SendRaft m # snap True
                      else ReportUnreachable (msg_To m) # snap False))"

definition sendRaftMessags ::
  "(u64 \<Rightarrow> bool) \<Rightarrow> 'cs cluster \<Rightarrow> 'cs raft_message list \<Rightarrow> (go_error, 'cs raft_call list) outcome" where
  "sendRaftMessags arrives c msgs =
     foldl (\<lambda>acc msg. obind acc (\<lambda>calls. omap (\<lambda>new. calls @ new) (sendRaftMsg arrives c msg))) (Ok []) msgs"

text \<open>
  The parts of an iteration on the whole node: when the cluster asks for it, the connections are
  expelled and the listeners are started.
\<close>

definition node_apply ::
  "(bytes \<Rightarrow> conf_change option) \<Rightarrow> (conf_change \<Rightarrow> 'cs) \<Rightarrow> raft_entry list \<Rightarrow> 'cs node \<Rightarrow> (go_error, 'cs node) outcome" where
  "node_apply decode_cc apply_cc es nd =
     obind (applyEntries decode_cc apply_cc es (node_cluster nd)) (\<lambda>c.
       let nd1 = nd\<lparr>node_cluster := c\<rparr>
       in if expelled c > expelled (node_cluster nd) then broker_ExpelAllConns nd1 else Ok nd1)"

definition node_softState :: "u64 \<Rightarrow> 'cs node \<Rightarrow> (go_error, 'cs node) outcome" where
  "node_softState lead nd =
     (let c = applySoftState lead (node_cluster nd); nd1 = nd\<lparr>node_cluster := c\<rparr>
      in if ready_calls c > ready_calls (node_cluster nd) then onClusterReady nd1 else Ok nd1)"

definition raft_ready ::
  "(bytes \<Rightarrow> conf_change option) \<Rightarrow> (conf_change \<Rightarrow> 'cs) \<Rightarrow> (u64 \<Rightarrow> bool) \<Rightarrow> go_error option \<Rightarrow> go_error option \<Rightarrow>
     'cs raft_batch \<Rightarrow> 'cs node \<Rightarrow> (go_error, 'cs raft_call list \<times> 'cs node) outcome" where
  "raft_ready decode_cc apply_cc arrives create_err compact_err rd nd =
     obind (case rd_Snapshot rd of
              None \<Rightarrow> Ok nd
            | Some (index, cs, data) \<Rightarrow>
                omap (\<lambda>c. nd\<lparr>node_cluster := c\<rparr>) (applySnapshot index cs data (node_cluster nd))) (\<lambda>nd1.
     obind (if rd_CommittedEntries rd \<noteq> []
            then node_apply decode_cc apply_cc (rd_CommittedEntries rd) nd1 else Ok nd1) (\<lambda>nd2.
     obind (case rd_SoftState rd of None \<Rightarrow> Ok nd2 | Some lead \<Rightarrow> node_softState lead nd2) (\<lambda>nd3.
     obind (sendRaftMessags arrives (node_cluster nd3) (rd_Messages rd)) (\<lambda>msgs.
     obind (attemptSnapshot create_err compact_err (node_cluster nd3)) (\<lambda>(compacted, c).
       Ok ((if rd_HardState rd then [StorageSetHardState] else []) @
           (case rd_Snapshot rd of None \<Rightarrow> [] | Some (index, _, _) \<Rightarrow> [StorageApplySnapshot index]) @
           (if rd_Entries rd \<noteq> [] then [StorageAppend (rd_Entries rd)] else []) @ msgs @
           (case compacted of None \<Rightarrow> [] | Some k \<Rightarrow> [StorageCompact k]) @ [Advance],
           nd3\<lparr>node_cluster := c\<rparr>))))))"

section \<open>Calls of the raft library\<close>

text \<open>
  The status and a step of the library are the arguments \<open>status\<close> and \<open>step\<close>. The storage, which \<open>startRaft\<close> makes,
  is given by its first and its last index; nil before.
\<close>

definition cluster_Status :: "'st \<Rightarrow> 'cs cluster \<Rightarrow> (go_error, 'st) outcome" where
  "cluster_Status status c = (if \<not> raft_started c then Err (XError RaftNodeNotReady) else Ok status)"

definition RaftLogSize :: "(u64 \<times> u64) option \<Rightarrow> (go_error, u64) outcome" where
  "RaftLogSize storage =
     (case storage of None \<Rightarrow> Panic | Some (firstIndex, lastIndex) \<Rightarrow> Ok (lastIndex - firstIndex + 1))"

definition cluster_Process :: "('m \<Rightarrow> go_error option) \<Rightarrow> 'm \<Rightarrow> 'cs cluster \<Rightarrow> go_error option" where
  "cluster_Process step m c = (if \<not> raft_started c then Some (XError RaftNodeNotReady) else step m)"

definition server_SendRaftMessage ::
  "(bytes \<Rightarrow> (go_error, 'm) outcome) \<Rightarrow> ('m \<Rightarrow> go_error option) \<Rightarrow> bytes \<Rightarrow> ('cs, unit) peer_handler" where
  "server_SendRaftMessage unmarshal step data nd =
     obind (unmarshal data) (\<lambda>m. case cluster_Process step m (node_cluster nd) of Some e \<Rightarrow> Err e | None \<Rightarrow> Ok ((), nd))"

text \<open>The size of a log of \<open>n\<close> entries, none included, whatever index it begins with.\<close>

lemma RaftLogSize_entries:
  assumes "n < 2 ^ 64"
  shows "omap unat (RaftLogSize (Some (firstIndex, firstIndex + of_nat n - 1))) = Ok n"
  using assms by (simp add: RaftLogSize_def unat_of_nat take_bit_nat_eq_self)

text \<open>
  A raft message that was sent with an encoding that its decoding undoes reaches the library of a node that
  has started raft, and is refused by any other node.
\<close>

lemma raft_message_received:
  assumes "unmarshal (marshal m) = Ok m"
  shows "server_SendRaftMessage unmarshal step (marshal m) nd =
    (if \<not> raft_started (node_cluster nd) then Err (XError RaftNodeNotReady)
     else case step m of None \<Rightarrow> Ok ((), nd) | Some e \<Rightarrow> Err e)"
  using assms by (auto simp: server_SendRaftMessage_def cluster_Process_def split: option.split)

end
