(* ===== verification/Node_Safety.thy ===== *)
theory Node_Safety
  imports Node
begin

text \<open>
  What the raft loop makes of a node: replicas that work through the same log agree, however the log
  is cut into batches; the first leader opens the listeners; and what becomes of a node that reads
  its own removal.
\<close>

section \<open>What the loop leaves alone\<close>

text \<open>Only proposals are added.\<close>

definition proposed :: "'cs cluster \<Rightarrow> 'cs cluster \<Rightarrow> bool" where
  "proposed c c' \<longleftrightarrow> (\<exists>ps. c' = c\<lparr>proposals := ps\<rparr>)"

lemma proposed_refl [simp]: "proposed c c"
  unfolding proposed_def by (rule exI [of _ "proposals c"]) simp

lemma proposed_trans: "proposed a b \<Longrightarrow> proposed b c \<Longrightarrow> proposed a c"
  by (auto simp: proposed_def)

lemma proposed_fields:
  "proposed c c' \<Longrightarrow> broker c' = broker c \<and> appliedIndex c' = appliedIndex c \<and> ready c' = ready c \<and>
     leader c' = leader c \<and> peers c' = peers c \<and> nodeId c' = nodeId c \<and> confState c' = confState c"
  by (auto simp: proposed_def)

lemma onUserClosed_proposed: "proposed (node_cluster nd) (node_cluster (onUserClosed ident nd))"
  by (cases "raft_started (node_cluster nd)")
    (simp_all add: onUserClosed_def SubmitOperation_def Let_def, auto simp: proposed_def)

lemma onUserClosed_fold_proposed: "proposed (node_cluster nd) (node_cluster (fold onUserClosed ids nd))"
  by (induction ids arbitrary: nd) (auto intro: proposed_trans onUserClosed_proposed)

lemma put_cluster [simp]:
  "node_cluster (put_server net s nd) = node_cluster nd" "node_cluster (put_listener net l nd) = node_cluster nd"
  by (simp_all add: put_server_def put_listener_def split: option.split)

lemma on_server_proposed: "on_server net s res nd = Ok (x, nd') \<Longrightarrow> proposed (node_cluster nd) (node_cluster nd')"
  using onUserClosed_fold_proposed [of "put_server net s' nd" for s']
  by (auto simp: on_server_def omap_Ok)

text \<open>A loop over the listeners that keeps a reflexive and transitive relation from step to step.\<close>

lemma listener_loop:
  assumes "foldl (\<lambda>acc (net, l). obind acc (\<lambda>st. f net l st)) (Ok nd) ls = Ok nd'"
    and "\<And>net l st st'. f net l st = Ok st' \<Longrightarrow> R st st'" and "\<And>a. R a a" and "\<And>a b c. R a b \<Longrightarrow> R b c \<Longrightarrow> R a c"
  shows "R nd nd'"
  using assms(1)
proof (induction ls arbitrary: nd' rule: rev_induct)
  case Nil
  then show ?case using assms(3) by simp
next
  case (snoc x ls)
  then obtain st where "foldl (\<lambda>acc (net, l). obind acc (\<lambda>st. f net l st)) (Ok nd) ls = Ok st"
    and "f (fst x) (snd x) st = Ok nd'" by (auto simp: outcome_Ok_obind case_prod_beta')
  with snoc.IH assms(2,4) show ?case by blast
qed

lemma Expel_proposed: "broker_ExpelAllConns nd = Ok nd' \<Longrightarrow> proposed (node_cluster nd) (node_cluster nd')"
  unfolding broker_ExpelAllConns_def
  by (erule listener_loop)
    (auto split: option.splits simp: omap_Ok intro: proposed_trans dest: on_server_proposed)

lemma onClusterReady_proposed: "onClusterReady nd = Ok nd' \<Longrightarrow> node_cluster nd' = node_cluster nd"
  unfolding onClusterReady_def by (erule listener_loop) (auto split: if_splits simp: omap_Ok)

section \<open>Loops over the listeners\<close>

text \<open>A loop whose body replaces the listener it visits replaces them all.\<close>

lemma listener_loop_each:
  assumes "\<And>net l st. (net, l) \<in> set ls \<Longrightarrow> map_of (listeners st) net = Some l \<Longrightarrow>
      \<exists>st'. f net l st = Ok st' \<and> map_of (listeners st') = (map_of (listeners st))(net \<mapsto> h net l)"
    and "distinct (map fst ls)" and "\<forall>(net, l) \<in> set ls. map_of (listeners nd) net = Some l"
  shows "\<exists>nd'. foldl (\<lambda>acc (net, l). obind acc (\<lambda>st. f net l st)) (Ok nd) ls = Ok nd' \<and>
    map_of (listeners nd') = (\<lambda>net. case map_of ls net of Some l \<Rightarrow> Some (h net l) | None \<Rightarrow> map_of (listeners nd) net)"
  using assms
proof (induction ls arbitrary: nd)
  case (Cons x ls)
  obtain net l where x: "x = (net, l)" by (cases x)
  have l: "map_of (listeners nd) net = Some l" and "(net, l) \<in> set (x # ls)" using Cons.prems(3) x by auto
  from Cons.prems(1) [OF this(2,1)] obtain st
    where st: "f net l nd = Ok st" "map_of (listeners st) = (map_of (listeners nd))(net \<mapsto> h net l)" by blast
  have "\<exists>nd'. foldl (\<lambda>acc (net, l). obind acc (\<lambda>st. f net l st)) (Ok st) ls = Ok nd' \<and>
      map_of (listeners nd') = (\<lambda>net. case map_of ls net of Some l \<Rightarrow> Some (h net l) | None \<Rightarrow> map_of (listeners st) net)"
    by (rule Cons.IH) (use Cons.prems st(2) x in \<open>force+\<close>)
  moreover have "map_of ls net = None" using Cons.prems(2) x by (auto simp: map_of_eq_None_iff)
  ultimately show ?case using st x by (fastforce split: option.splits)
qed (simp add: fun_eq_iff)

lemma own_listeners: "go_map (listeners nd) \<Longrightarrow> \<forall>(net, l) \<in> set (listeners nd). map_of (listeners nd) net = Some l"
  by (auto simp: go_map_def)

lemma listener_loop_panic:
  "(net, l) \<in> set ls \<Longrightarrow> (\<And>st. f net l st = Panic) \<Longrightarrow> (\<And>net l st e. f net l st \<noteq> Err e) \<Longrightarrow>
     foldl (\<lambda>acc (net, l). obind acc (\<lambda>st. f net l st)) (Ok nd) ls = Panic"
proof (induction ls arbitrary: nd)
  case (Cons x ls)
  obtain net' l' where x: "x = (net', l')" by (cases x)
  have P: "foldl (\<lambda>acc (net, l). obind acc (\<lambda>st. f net l st)) Panic ls = Panic" for ls by (induction ls) auto
  show ?case
  proof (cases "f net' l' nd")
    case (Ok st)
    with Cons x have "(net, l) \<in> set ls" by auto
    with Cons.IH [of st] Cons.prems(2,3) Ok x show ?thesis by simp
  qed (use Cons.prems(3) P x in simp_all)
qed simp

subsection \<open>Expelling\<close>

lemma ExpelAllConns_total: "\<exists>s'. ExpelAllConns s = Ok s' \<and> conns s' = empty_RMap"
proof -
  let ?f = "\<lambda>key r st. (True, obind st (do_CloseCode CloseServerExpeled r))"
  have "\<exists>t. do_CloseCode code r st = Ok t" for code r st
    using CloseCode_total [of code "conn_of r st"] by (auto simp: do_CloseCode_def)
  then have "\<exists>t. Map_Range ?f (rmap_m (conns s)) (Ok s) = Ok t"
    by (intro Map_Range_keeps [where P = "\<lambda>st. \<exists>t. st = Ok t"]) auto
  then show ?thesis by (auto simp: ExpelAllConns_def RMap_Range_def)
qed

lemma Expel_no_err:
  "(case l_server l of None \<Rightarrow> Panic
    | Some s \<Rightarrow> omap snd (on_server net s (omap (\<lambda>s'. ((), s')) (ExpelAllConns s)) st)) \<noteq> Err e"
proof (cases "l_server l")
  case (Some s)
  obtain s' where "ExpelAllConns s = Ok s'" using ExpelAllConns_total by blast
  with Some show ?thesis by (simp add: on_server_def)
qed simp

definition expelled_server :: "listener \<Rightarrow> listener" where
  "expelled_server l = l\<lparr>l_server := Some (get_Ok (ExpelAllConns (the (l_server l))))\<rparr>"

lemma Expel_total:
  assumes "go_map (listeners nd)" and "\<forall>net l. map_of (listeners nd) net = Some l \<longrightarrow> l_server l \<noteq> None"
  shows "\<exists>nd'. broker_ExpelAllConns nd = Ok nd' \<and>
    map_of (listeners nd') = (\<lambda>net. map_option expelled_server (map_of (listeners nd) net))"
proof -
  let ?f = "\<lambda>net l st. case l_server l of None \<Rightarrow> Panic
    | Some s \<Rightarrow> omap snd (on_server net s (omap (\<lambda>s'. ((), s')) (ExpelAllConns s)) st)"
  have each: "\<exists>st'. ?f net l st = Ok st' \<and>
     map_of (listeners st') = (map_of (listeners st))(net \<mapsto> expelled_server l)"
    if "(net, l) \<in> set (listeners nd)" "map_of (listeners st) net = Some l" for net l st
  proof -
    have "map_of (listeners nd) net = Some l" using that(1) assms(1) by (simp add: go_map_def)
    then obtain s where s: "l_server l = Some s" using assms(2) by blast
    obtain s' where "ExpelAllConns s = Ok s'" using ExpelAllConns_total by blast
    then show ?thesis
      using s that(2) onUserClosed_fold [of "drop (length (closed_ids s)) (closed_ids s')" "put_server net s' st"]
      by (simp add: on_server_def expelled_server_def get_Ok_def put_server_def put_listener_def update_conv')
  qed
  have "\<exists>nd'. foldl (\<lambda>acc (net, l). obind acc (\<lambda>st. ?f net l st)) (Ok nd) (listeners nd) = Ok nd' \<and>
    map_of (listeners nd') = (\<lambda>net. case map_of (listeners nd) net of Some l \<Rightarrow> Some (expelled_server l)
      | None \<Rightarrow> map_of (listeners nd) net)"
    by (rule listener_loop_each) (use each own_listeners [OF assms(1)] assms(1) in \<open>auto simp: go_map_def\<close>)
  moreover have "(\<lambda>net. case map_of (listeners nd) net of Some l \<Rightarrow> Some (expelled_server l)
      | None \<Rightarrow> map_of (listeners nd) net) = (\<lambda>net. map_option expelled_server (map_of (listeners nd) net))"
    by (rule ext) (simp split: option.split)
  ultimately show ?thesis by (simp add: broker_ExpelAllConns_def)
qed

subsection \<open>Starting\<close>

lemma softState_opens:
  assumes "go_map (listeners nd)" and "\<not> ready (node_cluster nd)" and "lead \<noteq> 0"
    and "\<forall>net l. map_of (listeners nd) net = Some l \<and> autoStart l \<and> \<not> ISStarted l \<longrightarrow>
      New_transport (newOptions (l_options l)) = Ok ()"
  shows "\<exists>nd'. node_softState lead nd = Ok nd' \<and> ready (node_cluster nd') \<and> leader (node_cluster nd') = lead \<and>
    (\<forall>net l. map_of (listeners nd) net = Some l \<longrightarrow> (\<exists>l'. map_of (listeners nd') net = Some l' \<and>
       (if autoStart l \<and> \<not> ISStarted l then ISStarted l' \<and> (\<exists>s. l_server l' = Some s \<and> conns s = empty_RMap)
        else l' = l))) \<and>
    (\<forall>lead' nd2. node_softState lead' nd' = Ok nd2 \<longrightarrow> listeners nd2 = listeners nd') \<and>
    dom (map_of (listeners nd')) = dom (map_of (listeners nd)) \<and> go_map (listeners nd')"
proof -
  let ?c = "applySoftState lead (node_cluster nd)" let ?nd = "nd\<lparr>node_cluster := ?c\<rparr>"
  let ?h = "\<lambda>l. if autoStart l then get_Ok (Listener_Start l) else l"
  let ?f = "\<lambda>net l st. if autoStart l then omap (\<lambda>l'. put_listener net l' st) (Listener_Start l) else Ok st"
  have c: "ready ?c" "leader ?c = lead" "ready_calls ?c > ready_calls (node_cluster nd)"
    using assms(2,3) by (simp_all add: applySoftState_def Let_def)
  have start: "\<exists>l'. Listener_Start l = Ok l' \<and> (if ISStarted l then l' = l
      else ISStarted l' \<and> (\<exists>s. l_server l' = Some s \<and> conns s = empty_RMap))"
    if "map_of (listeners nd) net = Some l" "autoStart l" for net l
    using assms(4) that by (auto simp: Listener_Start_def ISStarted_def server_New_def)
  have each: "\<exists>st'. ?f net l st = Ok st' \<and> map_of (listeners st') = (map_of (listeners st))(net \<mapsto> ?h l)"
    if "(net, l) \<in> set (listeners nd)" "map_of (listeners st) net = Some l" for net l st
    using that start [of net l] assms(1)
    by (auto simp: go_map_def put_listener_def update_conv' get_Ok_def map_upd_triv)
  have "\<exists>nd'. foldl (\<lambda>acc (net, l). obind acc (\<lambda>st. ?f net l st)) (Ok ?nd) (listeners nd) = Ok nd' \<and>
    map_of (listeners nd') = (\<lambda>net. case map_of (listeners nd) net of Some l \<Rightarrow> Some (?h l)
      | None \<Rightarrow> map_of (listeners ?nd) net)"
    by (rule listener_loop_each, erule (1) each)
      (use own_listeners [OF assms(1)] assms(1) in \<open>simp_all add: go_map_def\<close>)
  then obtain nd' where nd': "onClusterReady ?nd = Ok nd'"
    and ls: "map_of (listeners nd') = (\<lambda>net. case map_of (listeners nd) net of Some l \<Rightarrow> Some (?h l)
      | None \<Rightarrow> map_of (listeners nd) net)" by (auto simp: onClusterReady_def cong: option.case_cong)
  have s: "node_softState lead nd = Ok nd'" using nd' c(3) by (simp add: node_softState_def Let_def)
  have cl: "node_cluster nd' = ?c" using onClusterReady_proposed [OF nd'] by simp
  have again: "listeners nd2 = listeners nd'" if "node_softState lead' nd' = Ok nd2" for lead' nd2
    using that cl c(1) by (auto simp: node_softState_def applySoftState_def Let_def split: if_splits)
  have "\<exists>l'. map_of (listeners nd') net = Some l' \<and>
       (if autoStart l \<and> \<not> ISStarted l then ISStarted l' \<and> (\<exists>s. l_server l' = Some s \<and> conns s = empty_RMap)
        else l' = l)" if "map_of (listeners nd) net = Some l" for net l
    using that start [of net l] by (cases "autoStart l") (auto simp: ls get_Ok_def)
  moreover have "dom (map_of (listeners nd')) = dom (map_of (listeners nd))" using ls by (auto simp: dom_def split: option.splits)
  moreover have "go_map (listeners ?nd) \<longrightarrow> go_map (listeners nd')"
    using nd' unfolding onClusterReady_def
    by (rule listener_loop) (auto simp: omap_Ok put_listener_def split: if_splits)
  ultimately show ?thesis using s cl c again assms(1) by (intro exI [of _ nd'] conjI allI impI) simp_all
qed

section \<open>Batches\<close>

definition decodable :: "(bytes \<Rightarrow> conf_change option) \<Rightarrow> raft_entry list \<Rightarrow> bool" where
  "decodable decode_cc es \<longleftrightarrow>
     list_all (\<lambda>e. entry_Type e = EntryConfChange \<longrightarrow> decode_cc (entry_Data e) \<noteq> None) es"

lemma applyEntries_loop_decodable:
  "applyEntries_loop dec f es c = Ok (fin, c') \<Longrightarrow> decodable dec es \<Longrightarrow> fin"
  by (induction es arbitrary: c) (auto simp: decodable_def outcome_Ok_obind split: entry_type.splits option.splits)

lemma applyEntries_loop_append:
  "applyEntries_loop dec f (xs @ ys) c =
     obind (applyEntries_loop dec f xs c) (\<lambda>(fin, c'). if fin then applyEntries_loop dec f ys c' else Ok (False, c'))"
proof (induction xs arbitrary: c)
  case (Cons e xs)
  have "applyEntries_loop dec f (xs @ ys) = (\<lambda>c. obind (applyEntries_loop dec f xs c)
      (\<lambda>(fin, c'). if fin then applyEntries_loop dec f ys c' else Ok (False, c')))"
    by (rule ext) (rule Cons.IH)
  then show ?case by (simp add: obind_assoc split: entry_type.splits option.splits)
qed simp

text \<open>A node works through batches until one panics.\<close>

fun raft_run ::
  "(bytes \<Rightarrow> conf_change option) \<Rightarrow> (conf_change \<Rightarrow> 'cs) \<Rightarrow> (u64 \<Rightarrow> bool) \<Rightarrow> 'cs raft_batch list \<Rightarrow> 'cs node \<Rightarrow>
     (go_error, 'cs node) outcome" where
  "raft_run decode_cc apply_cc arrives [] nd = Ok nd"
| "raft_run decode_cc apply_cc arrives (rd # rds) nd =
     obind (raft_ready decode_cc apply_cc arrives None None rd nd) (\<lambda>(_, nd'). raft_run decode_cc apply_cc arrives rds nd')"

definition log_of :: "'cs raft_batch list \<Rightarrow> raft_entry list" where
  "log_of rds = concat (map rd_CommittedEntries rds)"

lemma node_apply_effect:
  assumes "node_apply dec f es nd = Ok nd'" and "decodable dec es"
  shows "\<exists>c'. applyEntries_loop dec f es (node_cluster nd) = Ok (True, c') \<and> node_broker nd' = broker c' \<and>
    appliedIndex (node_cluster nd') = entry_Index (last es)"
proof -
  obtain c where c: "applyEntries dec f es (node_cluster nd) = Ok c"
    and e: "node_cluster nd' = c \<or> proposed c (node_cluster nd')"
    using assms(1) by (auto simp: node_apply_def outcome_Ok_obind Let_def split: if_splits dest!: Expel_proposed)
  from c obtain fin c' where l: "applyEntries_loop dec f es (node_cluster nd) = Ok (fin, c')"
    and r: "fin \<longrightarrow> c = c'\<lparr>appliedIndex := entry_Index (last es)\<rparr>"
    by (auto simp: applyEntries_def outcome_Ok_obind split: if_splits)
  with e l applyEntries_loop_decodable [OF l assms(2)] show ?thesis by (auto dest: proposed_fields)
qed

lemma node_softState_effect:
  "node_softState lead nd = Ok nd' \<Longrightarrow>
     node_broker nd' = node_broker nd \<and> appliedIndex (node_cluster nd') = appliedIndex (node_cluster nd)"
  by (auto simp: node_softState_def applySoftState_def Let_def split: if_splits dest!: onClusterReady_proposed)

lemma attemptSnapshot_effect:
  "attemptSnapshot create_err compact_err c = Ok (k, c') \<Longrightarrow> broker c' = broker c \<and> appliedIndex c' = appliedIndex c"
  by (auto simp: attemptSnapshot_def Let_def split: if_splits option.splits)

lemma raft_ready_effect:
  assumes "raft_ready dec f arrives create_err compact_err rd nd = Ok (calls, nd')"
    and "rd_Snapshot rd = None" and "decodable dec (rd_CommittedEntries rd)"
  shows "\<exists>c'. applyEntries_loop dec f (rd_CommittedEntries rd) (node_cluster nd) = Ok (True, c') \<and>
    node_broker nd' = broker c' \<and>
    appliedIndex (node_cluster nd') = (if rd_CommittedEntries rd = [] then appliedIndex (node_cluster nd)
      else entry_Index (last (rd_CommittedEntries rd)))"
proof -
  obtain nd2 nd3 k c where
    2: "(if rd_CommittedEntries rd \<noteq> [] then node_apply dec f (rd_CommittedEntries rd) nd else Ok nd) = Ok nd2" and
    3: "(case rd_SoftState rd of None \<Rightarrow> Ok nd2 | Some lead \<Rightarrow> node_softState lead nd2) = Ok nd3" and
    4: "attemptSnapshot create_err compact_err (node_cluster nd3) = Ok (k, c)" and
    5: "nd' = nd3\<lparr>node_cluster := c\<rparr>"
    using assms(1,2) by (auto simp: raft_ready_def outcome_Ok_obind)
  have "node_broker nd3 = node_broker nd2" "appliedIndex (node_cluster nd3) = appliedIndex (node_cluster nd2)"
    using 3 by (auto split: option.splits dest: node_softState_effect)
  with 4 5 have "node_broker nd' = node_broker nd2" "appliedIndex (node_cluster nd') = appliedIndex (node_cluster nd2)"
    by (auto dest!: attemptSnapshot_effect)
  with 2 assms(3) show ?thesis by (auto split: if_splits dest: node_apply_effect)
qed

lemma raft_run_effect:
  assumes "raft_run dec f arrives rds nd = Ok nd'" and "list_all (\<lambda>rd. rd_Snapshot rd = None) rds"
    and "decodable dec (log_of rds)"
  shows "\<exists>c'. applyEntries_loop dec f (log_of rds) (node_cluster nd) = Ok (True, c') \<and> node_broker nd' = broker c' \<and>
    appliedIndex (node_cluster nd') =
      (if log_of rds = [] then appliedIndex (node_cluster nd) else entry_Index (last (log_of rds)))"
  using assms
proof (induction rds arbitrary: nd)
  case Nil
  then show ?case by (simp add: log_of_def)
next
  case (Cons rd rds)
  let ?es = "rd_CommittedEntries rd"
  obtain calls nd1 where r: "raft_ready dec f arrives None None rd nd = Ok (calls, nd1)"
    and rest: "raft_run dec f arrives rds nd1 = Ok nd'" using Cons.prems(1) by (auto simp: outcome_Ok_obind)
  have d: "decodable dec ?es" "decodable dec (log_of rds)" and l: "log_of (rd # rds) = ?es @ log_of rds"
    using Cons.prems(3) by (auto simp: decodable_def log_of_def)
  obtain c1 where c1: "applyEntries_loop dec f ?es (node_cluster nd) = Ok (True, c1)" "node_broker nd1 = broker c1"
    "appliedIndex (node_cluster nd1) =
      (if ?es = [] then appliedIndex (node_cluster nd) else entry_Index (last ?es))"
    using raft_ready_effect [OF r _ d(1)] Cons.prems(2) by auto
  obtain c2 where c2: "applyEntries_loop dec f (log_of rds) (node_cluster nd1) = Ok (True, c2)"
    "node_broker nd' = broker c2" "appliedIndex (node_cluster nd') =
      (if log_of rds = [] then appliedIndex (node_cluster nd1) else entry_Index (last (log_of rds)))"
    using Cons.IH [OF rest _ d(2)] Cons.prems(2) by auto
  from applyEntries_loop_broker [OF c1(2), of dec f "log_of rds" f] c2(1)
  obtain c3 where "applyEntries_loop dec f (log_of rds) c1 = Ok (True, c3)" "broker c3 = broker c2"
    by (auto split: outcome.splits prod.splits)
  with c1 c2 show ?case by (auto simp: l applyEntries_loop_append)
qed

section \<open>Properties\<close>

text \<open>
  C12. Replicas agree: two nodes with the same tables that work through the same committed entries have
  the same tables again and stand at the same index, however the raft library cuts the log into
  batches for each, whoever leads, and whatever messages, peers and listeners each of them has.
\<close>

theorem replicas_agree_batched:
  assumes "raft_run dec f arrives rds nd = Ok nd'" and "raft_run dec f2 arrives2 rds2 nd2 = Ok nd2'"
    and "node_broker nd = node_broker nd2" and "log_of rds = log_of rds2" and "log_of rds \<noteq> []"
    and "list_all (\<lambda>rd. rd_Snapshot rd = None) rds" and "list_all (\<lambda>rd. rd_Snapshot rd = None) rds2"
    and "decodable dec (log_of rds)"
  shows "node_broker nd' = node_broker nd2' \<and>
    appliedIndex (node_cluster nd') = appliedIndex (node_cluster nd2')"
proof -
  from raft_run_effect [OF assms(1,6,8)] obtain c1
    where 1: "applyEntries_loop dec f (log_of rds) (node_cluster nd) = Ok (True, c1)" "node_broker nd' = broker c1"
      "appliedIndex (node_cluster nd') = entry_Index (last (log_of rds))" using assms(5) by auto
  from raft_run_effect [OF assms(2,7)] obtain c2
    where 2: "applyEntries_loop dec f2 (log_of rds) (node_cluster nd2) = Ok (True, c2)" "node_broker nd2' = broker c2"
      "appliedIndex (node_cluster nd2') = entry_Index (last (log_of rds))" using assms(4,5,8) by auto
  from applyEntries_loop_broker [OF assms(3), of dec f "log_of rds" f2] 1 2 show ?thesis by simp
qed

definition demo_batch :: "raft_entry list \<Rightarrow> unit raft_batch" where
  "demo_batch es = \<lparr>rd_HardState = True, rd_Snapshot = None, rd_Entries = es, rd_CommittedEntries = es,
     rd_SoftState = None, rd_Messages = []\<rparr>"

theorem replicas_agree_batched_witness:
  "\<exists>nd' nd2'. raft_run (\<lambda>_. None) (\<lambda>_. ()) (\<lambda>_. True) [demo_batch [demo_entry, demo_entry]] (demo_node 1) = Ok nd' \<and>
     raft_run (\<lambda>_. None) (\<lambda>_. ()) (\<lambda>_. False) [demo_batch [demo_entry], demo_batch [demo_entry]] (demo_node 2) = Ok nd2' \<and>
     node_broker nd' = node_broker nd2'"
proof -
  let ?r1 = "raft_run (\<lambda>_. None) (\<lambda>_. ()) (\<lambda>_. True) [demo_batch [demo_entry, demo_entry]] (demo_node 1)"
  let ?r2 = "raft_run (\<lambda>_. None) (\<lambda>_. ()) (\<lambda>_. False) [demo_batch [demo_entry], demo_batch [demo_entry]] (demo_node 2)"
  have "is_Ok ?r1" "is_Ok ?r2" by code_simp+
  then have r: "?r1 = Ok (get_Ok ?r1)" "?r2 = Ok (get_Ok ?r2)" by (blast intro: get_Ok)+
  have b: "node_broker (demo_node 1) = node_broker (demo_node 2)" by (simp add: demo_tables)
  have "node_broker (get_Ok ?r1) = node_broker (get_Ok ?r2) \<and>
      appliedIndex (node_cluster (get_Ok ?r1)) = appliedIndex (node_cluster (get_Ok ?r2))"
    by (rule replicas_agree_batched [OF r b])
      (simp_all add: log_of_def demo_batch_def decodable_def demo_entry_def)
  with r show ?thesis by blast
qed

text \<open>
  A node that reads its own removal gives up its clients: it is no longer ready and has no leader,
  and none of its listeners has an active client; but when one of its listeners was never started,
  as one without \<open>autoStart\<close> is not, it panics instead.
\<close>

theorem removed_node_quits:
  assumes "go_map (listeners nd)" and "entry_Type e = EntryConfChange"
    and "dec (entry_Data e) = Some \<lparr>cc_Type = ConfChangeRemoveNode, cc_NodeID = node_id nd, cc_ID = k\<rparr>"
  shows "if \<forall>net l. map_of (listeners nd) net = Some l \<longrightarrow> l_server l \<noteq> None
    then \<exists>nd'. node_apply dec f [e] nd = Ok nd' \<and> \<not> ready (node_cluster nd') \<and> leader (node_cluster nd') = 0 \<and>
      (\<forall>net cid. \<not> active_at net cid nd')
    else node_apply dec f [e] nd = Panic"
proof -
  let ?c = "(applyConfChange f \<lparr>cc_Type = ConfChangeRemoveNode, cc_NodeID = node_id nd, cc_ID = k\<rparr> (node_cluster nd))
    \<lparr>appliedIndex := entry_Index e\<rparr>"
  let ?nd = "nd\<lparr>node_cluster := ?c\<rparr>"
  have c: "\<not> ready ?c" "leader ?c = 0" "expelled ?c = expelled (node_cluster nd) + 1"
    by (simp_all add: applyConfChange_def applyRemoveNode_def Let_def)
  have ap: "node_apply dec f [e] nd = broker_ExpelAllConns ?nd"
    using assms(2,3) c(3) by (simp add: node_apply_def applyEntries_def)
  show ?thesis
  proof (cases "\<forall>net l. map_of (listeners nd) net = Some l \<longrightarrow> l_server l \<noteq> None")
    case True
    from Expel_total [of ?nd] assms(1) True obtain nd'
      where nd': "broker_ExpelAllConns ?nd = Ok nd'"
        "map_of (listeners nd') = (\<lambda>net. map_option expelled_server (map_of (listeners nd) net))" by auto
    have "\<not> active_at net cid nd'" for net cid
    proof -
      have "conns (get_Ok (ExpelAllConns s)) = empty_RMap" for s
        using ExpelAllConns_total [of s] by (auto simp: get_Ok_def)
      then show ?thesis
        by (auto simp: active_at_def started_server_def nd'(2) expelled_server_def IsActive_def empty_RMap_def
          RMap_Get_def split: option.splits if_splits)
    qed
    with True nd'(1) ap c Expel_proposed [OF nd'(1)] show ?thesis by (auto dest: proposed_fields)
  next
    case False
    then obtain net l where "(net, l) \<in> set (listeners nd)" "l_server l = None" by (auto dest: map_of_SomeD)
    then have "broker_ExpelAllConns ?nd = Panic"
      unfolding broker_ExpelAllConns_def
      by (intro listener_loop_panic [of net l]) (auto simp: Expel_no_err)
    with ap False show ?thesis by simp
  qed
qed

definition demo_removal :: raft_entry where
  "demo_removal = \<lparr>entry_Type = EntryConfChange, entry_Index = 9, entry_Data = []\<rparr>"

theorem removed_node_quits_witness:
  "\<exists>nd'. node_apply (\<lambda>_. Some \<lparr>cc_Type = ConfChangeRemoveNode, cc_NodeID = 1, cc_ID = 4\<rparr>) (\<lambda>_. ()) [demo_removal]
       (demo_node 1) = Ok nd' \<and> \<not> active_at (gs ''tcp'') (gs ''c'') nd'"
proof -
  have g: "go_map (listeners (demo_node 1))" and i: "node_id (demo_node 1) = 1" by code_simp+
  have s: "\<forall>net l. map_of (listeners (demo_node 1)) net = Some l \<longrightarrow> l_server l \<noteq> None"
    by (simp add: demo_node_def)
  from removed_node_quits [OF g, of demo_removal
      "\<lambda>_. Some \<lparr>cc_Type = ConfChangeRemoveNode, cc_NodeID = 1, cc_ID = 4\<rparr>" 4 "\<lambda>_. ()"] s i
  show ?thesis by (auto simp: demo_removal_def)
qed

text \<open>
  The first leader opens the node: it becomes ready, every listener that starts by itself has an
  empty server and takes connections, every other one is left alone, and no later change of the
  leader starts anything again.
\<close>

theorem leader_opens_listeners:
  assumes "go_map (listeners nd)" and "\<not> ready (node_cluster nd)" and "lead \<noteq> 0"
    and "\<forall>net l. map_of (listeners nd) net = Some l \<and> autoStart l \<and> \<not> ISStarted l \<longrightarrow>
      New_transport (newOptions (l_options l)) = Ok ()"
  shows "\<exists>nd'. node_softState lead nd = Ok nd' \<and> ready (node_cluster nd') \<and> leader (node_cluster nd') = lead \<and>
    (\<forall>net l. map_of (listeners nd) net = Some l \<longrightarrow> (\<exists>l'. map_of (listeners nd') net = Some l' \<and>
       (if autoStart l \<and> \<not> ISStarted l then ISStarted l' \<and> (\<exists>s. l_server l' = Some s \<and> conns s = empty_RMap)
        else l' = l))) \<and>
    (\<forall>lead' nd2. node_softState lead' nd' = Ok nd2 \<longrightarrow> listeners nd2 = listeners nd')"
  using softState_opens [OF assms] by blast

theorem leader_opens_listeners_witness:
  "\<exists>nd nd' l. NewBroker (Some (gs ''cable-1'')) 0
       [WithDiscovery True, WithListeners [NewListener ''tcp'' 8080 True []]] = Ok (nd :: unit node) \<and>
     node_softState 10001 nd = Ok nd' \<and> map_of (listeners nd') (gs ''tcp'') = Some l \<and> ISStarted l"
proof -
  let ?r = "NewBroker (Some (gs ''cable-1'')) 0
    [WithDiscovery True, WithListeners [NewListener ''tcp'' 8080 True []]] :: (go_error, unit node) outcome"
  let ?l = "NewListener ''tcp'' 8080 True []"
  obtain nd :: "unit node" where nd: "?r = Ok nd" "listeners nd = [(gs ''tcp'', ?l)]" "\<not> ready (node_cluster nd)"
    by (simp add: NewBroker_def cluster_newOptions_def WithDiscovery_def WithListeners_def AddOptions_def Let_def
      newCluster_def NewListener_def)
  have t: "New_transport (newOptions (l_options ?l)) = Ok ()" by code_simp
  have "autoStart ?l" "\<not> ISStarted ?l" by (simp_all add: NewListener_def ISStarted_def)
  note l = this
  have h: "\<forall>net l. map_of (listeners nd) net = Some l \<and> autoStart l \<and> \<not> ISStarted l \<longrightarrow>
      New_transport (newOptions (l_options l)) = Ok ()" using nd(2) t by simp
  have g: "go_map (listeners nd)" and tcp: "map_of (listeners nd) (gs ''tcp'') = Some ?l"
    using nd(2) by (simp_all add: go_map_def)
  have "(10001 :: u64) \<noteq> 0" by simp
  from leader_opens_listeners [OF g nd(3) this h] tcp l
  have "\<exists>nd'. node_softState 10001 nd = Ok nd' \<and> (\<exists>l'. map_of (listeners nd') (gs ''tcp'') = Some l' \<and> ISStarted l')"
    by metis
  with nd(1) show ?thesis by blast
qed

section \<open>Status\<close>

lemma handle_times_no_Err: "handle_times k h st \<noteq> Err e"
  by (induction k h st rule: handle_times.induct) (auto split: outcome.splits)

lemma omap_eq_Err: "omap f m = Err e \<longleftrightarrow> m = Err e"
  by (cases m) simp_all

lemma peer_rpc_no_Err: "peer_rpc grpc p h w \<noteq> Err e"
  by (simp add: peer_rpc_def rpc_def omap_eq_Err handle_times_no_Err del: handle_times.simps split: option.splits delivery.splits)

text \<open>One peer of the range of \<open>Inspects\<close>.\<close>

definition inspect_step ::
  "(u64 \<Rightarrow> delivery) \<Rightarrow> 'cs world \<Rightarrow> peer_client \<Rightarrow> (go_error, node_status list) outcome \<Rightarrow> (go_error, node_status list) outcome" where
  "inspect_step grpc w p acc = obind acc (\<lambda>ss.
     omap (\<lambda>(res, _). case res of Ok s \<Rightarrow> ss @ [s] | _ \<Rightarrow> ss) (peer_inspect grpc p w))"

lemma inspect_step_no_Err: "(\<And>e. acc \<noteq> Err e) \<Longrightarrow> inspect_step grpc w p acc \<noteq> Err e"
  using peer_rpc_no_Err [of grpc p server_Inspect w]
  by (cases acc) (auto simp: inspect_step_def peer_inspect_def omap_eq_Err)

lemma inspect_steps_Panic: "fold (\<lambda>(i, p). inspect_step grpc w p) ps Panic = Panic"
  by (induction ps) (auto simp: inspect_step_def)

lemma inspect_steps_crash:
  assumes "(i, p) \<in> set ps" and "peer_inspect grpc p w = Panic" and "\<And>e. acc \<noteq> Err e"
  shows "fold (\<lambda>(i, p). inspect_step grpc w p) ps acc = Panic"
  using assms(1,3)
proof (induction ps arbitrary: acc)
  case (Cons a ps)
  obtain j q where a: "a = (j, q)" by fastforce
  show ?case
  proof (cases "a = (i, p)")
    case True
    have "inspect_step grpc w p acc = Panic" using assms(2) Cons.prems(2) by (cases acc) (auto simp: inspect_step_def)
    with True show ?thesis by (simp add: inspect_steps_Panic)
  next
    case False
    with Cons.prems(1) have "(i, p) \<in> set ps" by auto
    then have "fold (\<lambda>(i, p). inspect_step grpc w p) ps (inspect_step grpc w q acc) = Panic"
      by (rule Cons.IH) (rule inspect_step_no_Err [OF Cons.prems(2)])
    then show ?thesis by (simp add: a)
  qed
qed simp

text \<open>
  A node that has not started raft yet does not survive an inspection of the cluster: when it is a
  peer that is ready to take calls, \<open>Inspects\<close> on another node makes its process panic.
\<close>

theorem inspect_crashes_starting_peer:
  assumes "w me = Some nd" and "(i, p) \<in> set (rmap_m (peers (node_cluster nd)))" and "peer_isReady p"
    and "grpc (peer_id p) = Answered k" and "w (peer_id p) = Some nd'" and "\<not> raft_started (node_cluster nd')"
  shows "Inspects grpc me w = Panic"
proof -
  have "handle_times (Suc k) server_Inspect nd' = Panic"
    using assms(6) by (simp add: server_Inspect_def inspect_def)
  then have "peer_inspect grpc p w = Panic"
    using assms(3-5) by (simp add: peer_inspect_def peer_rpc_def rpc_def del: handle_times.simps)
  then have "fold (\<lambda>(i, p). inspect_step grpc w p) (rmap_m (peers (node_cluster nd))) (omap (\<lambda>s. [s]) (inspect nd)) = Panic"
    by (rule inspect_steps_crash [OF assms(2)]) (simp add: inspect_def)
  then show ?thesis
    using assms(1) by (simp add: Inspects_def RangePeers_def RMap_Range_def Map_Range_fold inspect_step_def [abs_def])
qed

theorem inspect_crashes_starting_peer_witness:
  "Inspects (\<lambda>_. Answered 0) 2
     [2 :: u64 \<mapsto> demo_node 2, 1 \<mapsto> (demo_node 1)\<lparr>node_cluster := (node_cluster (demo_node 1))\<lparr>raft_started := False\<rparr>\<rparr>] = Panic"
proof -
  let ?nd' = "(demo_node 1)\<lparr>node_cluster := (node_cluster (demo_node 1))\<lparr>raft_started := False\<rparr>\<rparr>"
  let ?w = "[2 :: u64 \<mapsto> demo_node 2, 1 \<mapsto> ?nd']"
  let ?p = "(newPeerClient 1 [])\<lparr>peer_ready := True\<rparr>"
  have h: "?w 2 = Some (demo_node 2)" "(1, ?p) \<in> set (rmap_m (peers (node_cluster (demo_node 2))))" "peer_isReady ?p"
    "?w (peer_id ?p) = Some ?nd'" "\<not> raft_started (node_cluster ?nd')"
    by (simp_all add: demo_node_def peer_isReady_def newPeerClient_def)
  show ?thesis by (rule inspect_crashes_starting_peer [where grpc = "\<lambda>_. Answered 0", OF h(1-3) refl h(4,5)])
qed

end
