(* ===== verification/Config.thy ===== *)
theory Config
  imports Node_Safety
begin

text \<open>
  The configuration of the server program, src/cmd/cable/config.go: its fields, \<open>validate\<close>, and what
  \<open>newBooter\<close> (booter.go) makes of it: the listeners and the options of the broker.

  Reading the file and parsing YAML are outside the repository; \<open>readConfig\<close> takes their result. A nil
  map of message routes is \<open>None\<close>. The text of an error that prints a value is cut before the value.
  Loading a certificate is the argument \<open>load\<close>. Loggers, traces and metrics are not built.
\<close>

section \<open>Fields\<close>

record tls_files =
  CertFile :: gostring
  KeyFile :: gostring

record cfg_listener =
  cl_Port :: u16
  cl_Network :: string
  cl_QueueSize :: int
  cl_AutoStart :: bool
  cl_TLS :: "tls_files option"

record kafka_config =
  kafka_Enabled :: bool
  kafka_Brokers :: "gostring list"

record redis_config =
  redis_DB :: int
  redis_Enabled :: bool
  redis_Password :: gostring
  redis_Addresses :: "gostring list"
  redis_AuthPrefix :: gostring
  redis_JoinPrefix :: gostring

definition resendNone :: gostring where "resendNone = gs ''none''"
definition resendToAll :: gostring where "resendToAll = gs ''all''"
definition resendToUser :: gostring where "resendToUser = gs ''user''"
definition resendToChannel :: gostring where "resendToChannel = gs ''channel''"

record route =
  route_Enabled :: bool
  route_ResendType :: gostring
  route_KafkaTopic :: gostring

record logger_config =
  logger_Level :: gostring
  logger_Format :: gostring
  logger_OTLPEndpoint :: gostring

record trace_config =
  trace_Enabled :: bool
  trace_OTLPEndpoint :: gostring

record metrics_config =
  metrics_Enabled :: bool
  metrics_TenantID :: gostring
  metrics_Interval :: int
  metrics_OTLPEndpoint :: gostring

record auth_config =
  auth_Method :: gostring
  auth_Secret :: gostring
  auth_URL :: gostring

record discovery_config =
  disc_Type :: gostring
  disc_Endpoints :: "gostring list"

record config =
  cfg_Auth :: auth_config
  cfg_Pprof :: bool
  cfg_NodeId :: u64
  cfg_GrpcPort :: u16
  cfg_HTTPPort :: u16
  cfg_PeerPort :: u16
  cfg_ClusterSize :: int
  cfg_Trace :: trace_config
  cfg_Logger :: logger_config
  cfg_Metrics :: metrics_config
  cfg_Kafka :: kafka_config
  cfg_Redis :: redis_config
  cfg_Discovery :: discovery_config
  cfg_MessageRoute :: "(byte, route) gomap option"
  cfg_Listeners :: "cfg_listener list"

section \<open>Validation\<close>

text \<open>The first check that fails gives the error.\<close>

fun first_error :: "(bool \<times> string) list \<Rightarrow> go_error option" where
  "first_error [] = None"
| "first_error ((bad, msg) # checks) = (if bad then Some (OtherError msg) else first_error checks)"

definition one_of :: "string list \<Rightarrow> gostring \<Rightarrow> bool" where
  "one_of names s \<longleftrightarrow> s \<in> set (map gs names)"

definition route_checks :: "(byte, route) gomap \<Rightarrow> (bool \<times> string) list" where
  "route_checks m =
     concat (map (\<lambda>(k, v).
       [(k > 63, ''invalid message kind''),
        (route_ResendType v \<noteq> resendNone \<and> route_ResendType v \<noteq> resendToAll \<and>
           route_ResendType v \<noteq> resendToUser \<and> route_ResendType v \<noteq> resendToChannel, ''invalid resend type'')]) m)"

definition listener_checks :: "cfg_listener \<Rightarrow> (bool \<times> string) list" where
  "listener_checks l =
     [(cl_Port l = 0, ''listener port is 0''),
      (cl_Network l \<notin> set [''tcp'', ''tls'', ''ws'', ''wss'', ''udp'', ''quic''], ''invalid listener network''),
      (cl_QueueSize l < 0, ''invalid listener queue size'')] @
     (case cl_TLS l of
        None \<Rightarrow> []
      | Some t \<Rightarrow> [(CertFile t = [], ''listener tls cert file is empty''),
                   (KeyFile t = [], ''listener tls key file is empty'')])"

definition validate :: "config \<Rightarrow> go_error option" where
  "validate c =
     first_error
       ([(cfg_GrpcPort c = 0, ''grpc port is 0''),
         (cfg_HTTPPort c = 0, ''http port is 0''),
         (cfg_PeerPort c = 0, ''peer port is 0''),
         (cfg_ClusterSize c < 0, ''invalid cluster size''),
         (trace_Enabled (cfg_Trace c) \<and> trace_OTLPEndpoint (cfg_Trace c) = [],
            ''trace enabled but service name is empty''),
         (\<not> one_of [''info'', ''debug'', ''warn'', ''error'', ''fatal''] (logger_Level (cfg_Logger c)),
            ''logger enabled but level is invalid''),
         (\<not> one_of [''json'', ''console''] (logger_Format (cfg_Logger c)), ''logger enabled but format is invalid'')] @
        (if metrics_Enabled (cfg_Metrics c) then
           [(metrics_Interval (cfg_Metrics c) < 1, ''metrics interval is less than 1''),
            (metrics_OTLPEndpoint (cfg_Metrics c) = [], ''metrics enabled but OTLP endpoint is empty''),
            (metrics_TenantID (cfg_Metrics c) = [], ''metrics enabled but tenant ID is empty'')] else []) @
        (if kafka_Enabled (cfg_Kafka c) then
           [(kafka_Brokers (cfg_Kafka c) = [], ''kafka enabled but brokers are empty''),
            (hd (kafka_Brokers (cfg_Kafka c)) = [], ''kafka enabled but first broker is empty'')] else []) @
        (if redis_Enabled (cfg_Redis c) then
           [(redis_Addresses (cfg_Redis c) = [], ''redis enabled but address is empty''),
            (redis_JoinPrefix (cfg_Redis c) = [], ''redis enabled but user prefix is empty'')] else []) @
        [(\<not> one_of [''multicast'', ''etcd''] (disc_Type (cfg_Discovery c)), ''invalid discovery type''),
         (\<not> one_of [''pass'', ''jwt'', ''static'', ''redis'', ''remote''] (auth_Method (cfg_Auth c)),
            ''invalid auth method''),
         (auth_Method (cfg_Auth c) = gs ''remote'' \<and> auth_URL (cfg_Auth c) = [],
            ''auth method is remote but auth URL is empty''),
         (cfg_MessageRoute c = None, ''message route is nil'')] @
        (case cfg_MessageRoute c of None \<Rightarrow> [] | Some m \<Rightarrow> route_checks m) @
        [(cfg_Listeners c = [], ''no listeners defined'')] @
        concat (map listener_checks (cfg_Listeners c)))"

text \<open>\<open>readConfig\<close>: \<open>parsed\<close> is what reading and parsing the file gives.\<close>

definition readConfig :: "gostring option \<Rightarrow> u64 \<Rightarrow> (go_error, config) outcome \<Rightarrow> (go_error, config) outcome" where
  "readConfig hostname rnd parsed =
     obind parsed (\<lambda>c.
       case validate c of
         Some e \<Rightarrow> Err e
       | None \<Rightarrow> Ok (if cfg_NodeId c = 0 then c\<lparr>cfg_NodeId := GetNodeId hostname rnd\<rparr> else c))"

datatype discovery_kind = Multicast u64 u16 | Etcd u64 u16 "gostring list"

definition GetDiscovery :: "config \<Rightarrow> discovery_kind option" where
  "GetDiscovery c =
     (if disc_Type (cfg_Discovery c) = gs ''multicast'' then Some (Multicast (cfg_NodeId c) (cfg_PeerPort c))
      else if disc_Type (cfg_Discovery c) = gs ''etcd''
      then Some (Etcd (cfg_NodeId c) (cfg_PeerPort c) (disc_Endpoints (cfg_Discovery c)))
      else None)"

section \<open>Listeners and broker options\<close>

text \<open>A certificate that does not load is logged and left out.\<close>

definition boot_tls :: "(gostring \<Rightarrow> gostring \<Rightarrow> bool) \<Rightarrow> cfg_listener \<Rightarrow> tls_config option" where
  "boot_tls load l =
     (case cl_TLS l of
        None \<Rightarrow> None
      | Some t \<Rightarrow> if load (CertFile t) (KeyFile t) then Some \<lparr>has_cert = True\<rparr> else None)"

definition boot_listener :: "(gostring \<Rightarrow> gostring \<Rightarrow> bool) \<Rightarrow> cfg_listener \<Rightarrow> listener" where
  "boot_listener load l =
     NewListener (cl_Network l) (cl_Port l) (cl_AutoStart l)
       [WithSendQueue (cl_QueueSize l), WithTLSConfig (boot_tls load l),
        WithQUICConfig (map_option Some (boot_tls load l))]"

definition boot_options ::
  "(gostring \<Rightarrow> gostring \<Rightarrow> bool) \<Rightarrow> (connect \<Rightarrow> byte) \<Rightarrow>
   (message \<Rightarrow> identity option \<Rightarrow> (go_error, unit) outcome) \<Rightarrow>
   (gostring \<Rightarrow> (gostring, gostring) gomap \<times> go_error option) \<Rightarrow> config \<Rightarrow> (cluster_options \<Rightarrow> cluster_options) list" where
  "boot_options load connect message channels c =
     [WithNodeId (cfg_NodeId c), WithHandler connect message channels, WithClusterSize (of_int (cfg_ClusterSize c)),
      WithDiscovery (GetDiscovery c \<noteq> None), WithListeners (map (boot_listener load) (cfg_Listeners c))]"

section \<open>What validation gives\<close>

lemma first_error_append: "first_error (xs @ ys) = None \<longleftrightarrow> first_error xs = None \<and> first_error ys = None"
  by (induction xs rule: first_error.induct) auto

lemma first_error_concat: "first_error (concat (map f xs)) = None \<longleftrightarrow> (\<forall>x \<in> set xs. first_error (f x) = None)"
  by (induction xs) (auto simp: first_error_append)

lemmas first_errors = first_error_append first_error_concat

lemma validate_None:
  assumes "validate c = None"
  shows "GetDiscovery c \<noteq> None" and "0 \<le> cfg_ClusterSize c" and "cfg_MessageRoute c \<noteq> None"
    and "one_of [''pass'', ''jwt'', ''static'', ''redis'', ''remote''] (auth_Method (cfg_Auth c))"
    and "l \<in> set (cfg_Listeners c) \<Longrightarrow> cl_Network l \<in> set [''tcp'', ''tls'', ''ws'', ''wss'', ''udp'', ''quic'']"
    and "cfg_MessageRoute c = Some m \<Longrightarrow> (k, r) \<in> set m \<Longrightarrow>
      k \<le> 63 \<and> route_ResendType r \<in> {resendNone, resendToAll, resendToUser, resendToChannel}"
proof -
  have v: "\<not> cfg_ClusterSize c < 0" "cfg_MessageRoute c \<noteq> None"
    "one_of [''multicast'', ''etcd''] (disc_Type (cfg_Discovery c))"
    "one_of [''pass'', ''jwt'', ''static'', ''redis'', ''remote''] (auth_Method (cfg_Auth c))"
    "first_error (case cfg_MessageRoute c of None \<Rightarrow> [] | Some m \<Rightarrow> route_checks m) = None"
    "\<forall>l \<in> set (cfg_Listeners c). first_error (listener_checks l) = None"
    using assms unfolding validate_def first_errors by (auto split: if_splits)
  from v(3) show "GetDiscovery c \<noteq> None" by (auto simp: GetDiscovery_def one_of_def)
  from v show "0 \<le> cfg_ClusterSize c" "cfg_MessageRoute c \<noteq> None"
    "one_of [''pass'', ''jwt'', ''static'', ''redis'', ''remote''] (auth_Method (cfg_Auth c))" by simp_all
  show "cl_Network l \<in> set [''tcp'', ''tls'', ''ws'', ''wss'', ''udp'', ''quic'']" if "l \<in> set (cfg_Listeners c)"
    using bspec [OF v(6) that] unfolding listener_checks_def first_errors by (auto split: if_splits)
  show "k \<le> 63 \<and> route_ResendType r \<in> {resendNone, resendToAll, resendToUser, resendToChannel}"
    if "cfg_MessageRoute c = Some m" "(k, r) \<in> set m"
    using v(5) that unfolding route_checks_def
    by (fastforce simp: first_errors not_less split: if_splits)
qed

text \<open>A network that needs a certificate has one that loads.\<close>

definition tls_given :: "(gostring \<Rightarrow> gostring \<Rightarrow> bool) \<Rightarrow> cfg_listener \<Rightarrow> bool" where
  "tls_given load l \<longleftrightarrow> cl_Network l \<in> set [''tls'', ''wss'', ''quic''] \<longrightarrow> boot_tls load l \<noteq> None"

lemma boot_tls_cert: "boot_tls load l = Some t \<Longrightarrow> has_cert t"
  by (auto simp: boot_tls_def split: option.splits if_splits)

lemma boot_listener_transport:
  assumes "cl_Network l \<in> set [''tcp'', ''tls'', ''ws'', ''wss'', ''udp'', ''quic'']" and "tls_given load l"
  shows "New_transport (newOptions (l_options (boot_listener load l))) = Ok ()"
  using assms boot_tls_cert [of load l]
  by (auto simp: boot_listener_def NewListener_def newOptions_def New_transport_def WithNetwork_def WithSendQueue_def
    WithTLSConfig_def WithQUICConfig_def tls_given_def assertTLS_def NetworkWS_def NetworkWSS_def NetworkTCP_def
    NetworkTLS_def NetworkUDP_def NetworkQUIC_def)

lemma gs_inj: "gs a = gs b \<longleftrightarrow> a = b"
proof -
  have "inj (of_char :: char \<Rightarrow> byte)"
  proof (rule injI)
    fix x y assume "(of_char x :: byte) = of_char y"
    then have "(of_nat (of_char x) :: byte) = of_nat (of_char y)" by (simp only: of_nat_of_char)
    then have "(of_char x :: nat) = of_char y" by (simp only: word_of_nat_eq_iff) (simp add: take_bit_nat_eq_self)
    then show "x = y" by simp
  qed
  then show ?thesis by (simp add: gs_def inj_map_eq_map)
qed

lemma boot_listeners:
  fixes ls :: "cfg_listener list" and m :: "(gostring, listener) gomap" and load :: "gostring \<Rightarrow> gostring \<Rightarrow> bool"
  defines "r \<equiv> foldl (\<lambda>m l. AList.update (gs (l_network l)) (AddOptions [] l) m) m (map (boot_listener load) ls)"
  assumes "go_map m"
  shows "go_map r" and "map_of r net = Some x \<Longrightarrow> map_of m net = Some x \<or> (\<exists>l \<in> set ls. x = boot_listener load l)"
    and "l \<in> set ls \<Longrightarrow> \<exists>l' \<in> set ls. cl_Network l' = cl_Network l \<and> map_of r (gs (cl_Network l)) = Some (boot_listener load l')"
proof -
  show "go_map r"
    using assms(2) unfolding r_def by (induction ls arbitrary: m) auto
  show "map_of r net = Some x \<Longrightarrow> map_of m net = Some x \<or> (\<exists>l \<in> set ls. x = boot_listener load l)"
    unfolding r_def
    by (induction ls arbitrary: m) (fastforce simp: update_conv' AddOptions_def split: if_splits)+
  show "l \<in> set ls \<Longrightarrow> \<exists>l' \<in> set ls. cl_Network l' = cl_Network l \<and> map_of r (gs (cl_Network l)) = Some (boot_listener load l')"
    unfolding r_def
    by (induction ls rule: rev_induct)
      (auto simp: update_conv' AddOptions_def gs_inj boot_listener_def NewListener_def)
qed

text \<open>The table of listeners that a configuration gives, and a node with it that sees its first leader.\<close>

definition boot_table :: "(gostring \<Rightarrow> gostring \<Rightarrow> bool) \<Rightarrow> config \<Rightarrow> (gostring, listener) gomap" where
  "boot_table load c =
     foldl (\<lambda>m l. AList.update (gs (l_network l)) (AddOptions [] l) m) [] (map (boot_listener load) (cfg_Listeners c))"

lemma boot_transports:
  assumes "validate c = None" and "\<forall>l \<in> set (cfg_Listeners c). tls_given load l" and "map_of (boot_table load c) net = Some l"
  shows "New_transport (newOptions (l_options l)) = Ok ()"
proof -
  obtain l0 where "l0 \<in> set (cfg_Listeners c)" "l = boot_listener load l0"
    using boot_listeners(2) [of "[]" load "cfg_Listeners c" net l] assms(3) by (auto simp: boot_table_def)
  then show ?thesis using boot_listener_transport [of l0 load] assms(2) validate_None(5) [OF assms(1)] by blast
qed

lemma boot_table_entry:
  assumes "distinct (map cl_Network (cfg_Listeners c))" and "l \<in> set (cfg_Listeners c)"
  shows "map_of (boot_table load c) (gs (cl_Network l)) = Some (boot_listener load l)"
proof -
  obtain l2 where "l2 \<in> set (cfg_Listeners c)" "cl_Network l2 = cl_Network l"
    and m: "map_of (boot_table load c) (gs (cl_Network l)) = Some (boot_listener load l2)"
    using boot_listeners(3) [of "[]" l "cfg_Listeners c" load] assms(2) by (auto simp: boot_table_def)
  then have "l2 = l" using assms by (auto simp: distinct_map inj_on_def)
  with m show ?thesis by simp
qed

lemma boot_opens:
  assumes "validate c = None" and "\<forall>l \<in> set (cfg_Listeners c). tls_given load l" and "lead \<noteq> 0"
    and "distinct (map cl_Network (cfg_Listeners c))" and "listeners nd = boot_table load c" and "\<not> ready (node_cluster nd)"
  shows "\<exists>nd'. node_softState lead nd = Ok nd' \<and> ready (node_cluster nd') \<and>
    (\<forall>l \<in> set (cfg_Listeners c). cl_AutoStart l \<longrightarrow>
       (\<exists>l' s. map_of (listeners nd') (gs (cl_Network l)) = Some l' \<and> ISStarted l' \<and> l_server l' = Some s)) \<and>
    go_map (listeners nd') \<and> (\<forall>net l. map_of (listeners nd') net = Some l \<longrightarrow> ISStarted l \<longrightarrow> l_server l \<noteq> None)"
proof -
  have g: "go_map (listeners nd)" using boot_listeners(1) [of "[]" load "cfg_Listeners c"] assms(5) by (simp add: boot_table_def)
  have t: "\<forall>net l. map_of (listeners nd) net = Some l \<and> autoStart l \<and> \<not> ISStarted l \<longrightarrow>
      New_transport (newOptions (l_options l)) = Ok ()"
    using boot_transports [OF assms(1,2)] assms(5) by auto
  from softState_opens [OF g assms(6,3) t] obtain nd' where nd': "node_softState lead nd = Ok nd'"
      "ready (node_cluster nd')" and
    each: "\<And>net l. map_of (listeners nd) net = Some l \<Longrightarrow> \<exists>l'. map_of (listeners nd') net = Some l' \<and>
       (if autoStart l \<and> \<not> ISStarted l then ISStarted l' \<and> (\<exists>s. l_server l' = Some s \<and> conns s = empty_RMap)
        else l' = l)"
      and ls: "dom (map_of (listeners nd')) = dom (map_of (listeners nd))" "go_map (listeners nd')" by blast
  have "l_server l' \<noteq> None" if l': "map_of (listeners nd') net = Some l'" "ISStarted l'" for net l'
  proof -
    obtain l where l: "map_of (boot_table load c) net = Some l" using l'(1) ls(1) assms(5) by auto
    then have "\<not> ISStarted l" using boot_listeners(2) [of "[]" load "cfg_Listeners c" net l]
      by (auto simp: boot_table_def boot_listener_def NewListener_def ISStarted_def)
    then show ?thesis using each [of net l] l l' assms(5) by (auto split: if_splits)
  qed
  moreover have "\<exists>l' s. map_of (listeners nd') (gs (cl_Network l)) = Some l' \<and> ISStarted l' \<and> l_server l' = Some s"
    if "l \<in> set (cfg_Listeners c)" "cl_AutoStart l" for l
    using each [of "gs (cl_Network l)" "boot_listener load l"] boot_table_entry [OF assms(4) that(1), of load] assms(5) that(2)
    by (auto simp: boot_listener_def NewListener_def ISStarted_def)
  ultimately show ?thesis using nd' ls(2) by blast
qed

lemma boot_broker:
  assumes "GetDiscovery c \<noteq> None"
  obtains nd :: "'cs node" where "NewBroker hostname rnd (boot_options load connect message channels c) = Ok nd"
    "listeners nd = boot_table load c" "\<not> ready (node_cluster nd)" "\<not> raft_started (node_cluster nd)"
  using assms that
  by (simp add: NewBroker_def boot_options_def cluster_newOptions_def WithNodeId_def WithHandler_def WithClusterSize_def
    WithDiscovery_def WithListeners_def newCluster_def Let_def boot_table_def)

section \<open>Properties\<close>

text \<open>
  A configuration that passes \<open>validate\<close> gives a node that opens: a broker is built, and with the first
  leader it becomes ready and every configured network whose listener starts by itself takes
  connections, provided that the listeners of the networks with TLS have a certificate that loads, and
  that no network is configured twice.
\<close>

theorem validated_config_opens:
  assumes "validate c = None" and "\<forall>l \<in> set (cfg_Listeners c). tls_given load l" and "lead \<noteq> 0"
    and "distinct (map cl_Network (cfg_Listeners c))"
  shows "\<exists>nd nd'. NewBroker hostname rnd (boot_options load connect message channels c) = Ok (nd :: 'cs node) \<and>
    node_softState lead nd = Ok nd' \<and> ready (node_cluster nd') \<and>
    (\<forall>l \<in> set (cfg_Listeners c). cl_AutoStart l \<longrightarrow>
       (\<exists>l' s. map_of (listeners nd') (gs (cl_Network l)) = Some l' \<and> ISStarted l' \<and> l_server l' = Some s))"
proof -
  obtain nd :: "'cs node" where nd: "NewBroker hostname rnd (boot_options load connect message channels c) = Ok nd"
    "listeners nd = boot_table load c" "\<not> ready (node_cluster nd)" "\<not> raft_started (node_cluster nd)"
    by (rule boot_broker [OF validate_None(1) [OF assms(1)]])
  show ?thesis using nd(1) boot_opens [OF assms nd(2,3)] by blast
qed

definition demo_config :: "cfg_listener list \<Rightarrow> gostring \<Rightarrow> config" where
  "demo_config ls auth =
     \<lparr>cfg_Auth = \<lparr>auth_Method = auth, auth_Secret = [], auth_URL = []\<rparr>, cfg_Pprof = False, cfg_NodeId = 7,
      cfg_GrpcPort = 1883, cfg_HTTPPort = 8080, cfg_PeerPort = 5000, cfg_ClusterSize = 1,
      cfg_Trace = \<lparr>trace_Enabled = False, trace_OTLPEndpoint = []\<rparr>,
      cfg_Logger = \<lparr>logger_Level = gs ''info'', logger_Format = gs ''json'', logger_OTLPEndpoint = []\<rparr>,
      cfg_Metrics = \<lparr>metrics_Enabled = False, metrics_TenantID = [], metrics_Interval = 0, metrics_OTLPEndpoint = []\<rparr>,
      cfg_Kafka = \<lparr>kafka_Enabled = False, kafka_Brokers = []\<rparr>,
      cfg_Redis = \<lparr>redis_DB = 0, redis_Enabled = False, redis_Password = [], redis_Addresses = [],
        redis_AuthPrefix = [], redis_JoinPrefix = []\<rparr>,
      cfg_Discovery = \<lparr>disc_Type = gs ''multicast'', disc_Endpoints = []\<rparr>,
      cfg_MessageRoute = Some [(1, \<lparr>route_Enabled = True, route_ResendType = resendToUser, route_KafkaTopic = []\<rparr>)],
      cfg_Listeners = ls\<rparr>"

definition demo_listener :: "string \<Rightarrow> cfg_listener" where
  "demo_listener net = \<lparr>cl_Port = 9000, cl_Network = net, cl_QueueSize = 16, cl_AutoStart = True, cl_TLS = None\<rparr>"

definition boot_demo :: "config \<Rightarrow> (go_error, unit node) outcome" where
  "boot_demo c = NewBroker None 0 (boot_options (\<lambda>_ _. False) (\<lambda>_. ConnectAccepted) (\<lambda>_ _. Ok ()) (\<lambda>_. ([], None)) c)"

theorem validated_config_opens_witness:
  "\<exists>nd nd' l'. boot_demo (demo_config [demo_listener ''tcp''] (gs ''pass'')) = Ok nd \<and> node_softState 7 nd = Ok nd' \<and>
     map_of (listeners nd') (gs ''tcp'') = Some l' \<and> ISStarted l'"
proof -
  let ?c = "demo_config [demo_listener ''tcp''] (gs ''pass'')"
  have v: "validate ?c = None" by code_simp
  have ls: "cfg_Listeners ?c = [demo_listener ''tcp'']" by (simp add: demo_config_def)
  have t: "\<forall>l \<in> set (cfg_Listeners ?c). tls_given (\<lambda>_ _. False) l"
    unfolding ls by (simp add: tls_given_def demo_listener_def)
  have d: "distinct (map cl_Network (cfg_Listeners ?c))" "(7 :: u64) \<noteq> 0" by (simp_all add: ls)
  have "cl_AutoStart (demo_listener ''tcp'')" "cl_Network (demo_listener ''tcp'') = ''tcp''"
    by (simp_all add: demo_listener_def)
  with validated_config_opens [OF v t d(2,1), of None 0 "\<lambda>_. ConnectAccepted" "\<lambda>_ _. Ok ()" "\<lambda>_. ([], None)"] ls
  show ?thesis unfolding boot_demo_def by fastforce
qed

text \<open>
  \<open>validate\<close> does not ask for a certificate: a configuration with a TLS listener and no certificate
  passes it, and the node panics when the first leader is elected.
\<close>

theorem validated_tls_panics:
  "validate (demo_config [demo_listener ''tls''] (gs ''pass'')) = None \<and>
   panics (obind (boot_demo (demo_config [demo_listener ''tls''] (gs ''pass''))) (node_softState 7))"
  by (intro conjI) code_simp+

text \<open>
  The configured peer port is announced to the other nodes but not given to the broker, which serves
  its peers on port 4567 whatever the configuration says.
\<close>

theorem peer_port_ignored:
  assumes "disc_Type (cfg_Discovery c) = gs ''multicast''"
  shows "GetDiscovery c = Some (Multicast (cfg_NodeId c) (cfg_PeerPort c)) \<and>
    co_peerPort (cluster_newOptions (boot_options load connect message channels c)) = 4567"
  using assms
  by (simp add: GetDiscovery_def boot_options_def cluster_newOptions_def WithNodeId_def WithHandler_def
    WithClusterSize_def WithDiscovery_def WithListeners_def)

theorem peer_port_ignored_witness:
  "GetDiscovery (demo_config [] []) = Some (Multicast 7 5000) \<and>
   co_peerPort (cluster_newOptions (boot_options (\<lambda>_ _. False) (\<lambda>_. 0) (\<lambda>_ _. Ok ()) (\<lambda>_. ([], None)) (demo_config [] []))) = 4567"
  using peer_port_ignored [of "demo_config [] []"] by (simp add: demo_config_def)

end
