(* ===== verification/Booter.thy ===== *)
theory Booter
  imports Config
begin

text \<open>
  The server program around the broker, src/cmd/cable: the handler methods of booter.go, the Redis
  client of cable_redis.go and the Kafka messages of cable_kafka.go.

  Redis, Kafka, the JWT library and the HTTP client are outside the repository. \<open>services\<close> collects what
  they answer: Redis as operations on a store of some type, the subject of a token that is accepted
  (when it is a string), and the status of an HTTP request. Traces, statistics and logging are left
  out, and so is the method \<open>Set\<close> of the Redis client, which nothing calls.
\<close>

section \<open>Services\<close>

record 'r services =
  redis_Get :: "gostring \<Rightarrow> 'r \<Rightarrow> (go_error, gostring) outcome"
  redis_HSet :: "gostring \<Rightarrow> (gostring, gostring) gomap \<Rightarrow> 'r \<Rightarrow> (go_error, 'r) outcome"
  redis_HDel :: "gostring \<Rightarrow> gostring list \<Rightarrow> 'r \<Rightarrow> (go_error, 'r) outcome"
  redis_HGetAll :: "gostring \<Rightarrow> 'r \<Rightarrow> (go_error, (gostring, gostring) gomap) outcome"
  jwt_subject :: "gostring \<Rightarrow> gostring \<Rightarrow> (go_error, gostring option) outcome"
  http_Get :: "gostring \<Rightarrow> (go_error, int) outcome"

text \<open>A nil Redis client is \<open>None\<close>.\<close>

record 'r booter =
  bt_config :: config
  bt_redis :: "'r option"
  bt_producer :: bool

definition startRedis :: "'r \<Rightarrow> 'r booter \<Rightarrow> 'r booter" where
  "startRedis store b = (if redis_Enabled (cfg_Redis (bt_config b)) then b\<lparr>bt_redis := Some store\<rparr> else b)"

text \<open>\<open>startKafka\<close>: whether the client and the producer could be made.\<close>

definition startKafka :: "bool \<Rightarrow> bool \<Rightarrow> 'r booter \<Rightarrow> 'r booter" where
  "startKafka client producer b =
     (if \<not> kafka_Enabled (cfg_Kafka (bt_config b)) then b
      else if client \<and> producer then b\<lparr>bt_producer := True\<rparr> else b)"

definition JoinKey :: "'r booter \<Rightarrow> gostring \<Rightarrow> gostring" where
  "JoinKey b uid = redis_JoinPrefix (cfg_Redis (bt_config b)) @ gs '':'' @ uid"

definition AuthKey :: "'r booter \<Rightarrow> gostring \<Rightarrow> gostring" where
  "AuthKey b uid = redis_AuthPrefix (cfg_Redis (bt_config b)) @ gs '':'' @ uid"

section \<open>Authentication\<close>

definition auth_url :: "gostring \<Rightarrow> identity \<Rightarrow> gostring" where
  "auth_url url ident = url @ gs ''?uid='' @ UserID ident @ gs ''&pwd='' @ Password ident"

text \<open>
  \<open>OnUserConnect\<close>; the key of the password in Redis is the prefix and the user id. Without a Redis
  client its method dereferences a nil pointer, and so does an absent identity.
\<close>

definition OnUserConnect :: "'r services \<Rightarrow> 'r booter \<Rightarrow> connect \<Rightarrow> (go_error, byte) outcome" where
  "OnUserConnect sv b p =
     (let auth = cfg_Auth (bt_config b); verdict = (\<lambda>ok. Ok (if ok then ConnectAccepted else ConnectAuthfail))
      in if auth_Method auth = gs ''pass'' then verdict True
         else if auth_Method auth = gs ''jwt'' then
           (case Identity p of None \<Rightarrow> Panic
            | Some ident \<Rightarrow>
                (case jwt_subject sv (Password ident) (auth_Secret auth) of
                   Panic \<Rightarrow> Panic
                 | Err e \<Rightarrow> verdict False
                 | Ok sub \<Rightarrow> verdict (sub = Some (UserID ident))))
         else if auth_Method auth = gs ''static'' then
           (case Identity p of None \<Rightarrow> Panic | Some ident \<Rightarrow> verdict (Password ident = auth_Secret auth))
         else if auth_Method auth = gs ''redis'' then
           (case Identity p of None \<Rightarrow> Panic
            | Some ident \<Rightarrow>
                (case bt_redis b of None \<Rightarrow> Panic
                 | Some r \<Rightarrow>
                     (case redis_Get sv (redis_AuthPrefix (cfg_Redis (bt_config b)) @ UserID ident) r of
                        Panic \<Rightarrow> Panic
                      | Err e \<Rightarrow> verdict False
                      | Ok pwd \<Rightarrow> verdict (pwd = Password ident))))
         else if auth_Method auth = gs ''remote'' then
           (case Identity p of None \<Rightarrow> Panic
            | Some ident \<Rightarrow>
                (case http_Get sv (auth_url (auth_URL auth) ident) of
                   Panic \<Rightarrow> Panic
                 | Err e \<Rightarrow> verdict False
                 | Ok status \<Rightarrow> verdict (status = 200)))
         else verdict False)"

section \<open>Kafka\<close>

type_synonym kafka_header = "(gostring \<times> bytes) list"

definition KafkaHeader_Set :: "gostring \<Rightarrow> gostring \<Rightarrow> kafka_header \<Rightarrow> kafka_header" where
  "KafkaHeader_Set key v k = k @ [(key, v)]"

fun KafkaHeader_Get :: "gostring \<Rightarrow> kafka_header \<Rightarrow> gostring" where
  "KafkaHeader_Get key [] = []"
| "KafkaHeader_Get key ((k, v) # hs) = (if k = key then v else KafkaHeader_Get key hs)"

definition KafkaHeader_Keys :: "kafka_header \<Rightarrow> gostring list" where
  "KafkaHeader_Keys k = map fst k"

record kafka_message =
  km_Topic :: gostring
  km_Value :: bytes
  km_Headers :: kafka_header

definition SendToKafka :: "gostring \<Rightarrow> gostring \<Rightarrow> gostring \<Rightarrow> identity option \<Rightarrow> message \<Rightarrow> kafka_message" where
  "SendToKafka topic toUserID toChannel ident m =
     (let h0 = [(gs ''messageKind'', [Kind m])];
          h1 = (if toUserID \<noteq> [] then KafkaHeader_Set (gs ''toUser'') toUserID h0 else h0);
          h2 = (if toChannel \<noteq> [] then KafkaHeader_Set (gs ''toChannel'') toChannel h1 else h1);
          h3 = (case ident of
                  None \<Rightarrow> h2
                | Some i \<Rightarrow> KafkaHeader_Set (gs ''fromClient'') (ClientID i) (KafkaHeader_Set (gs ''fromUser'') (UserID i) h2))
      in \<lparr>km_Topic = topic, km_Value = Payload m, km_Headers = h3\<rparr>)"

section \<open>Messages\<close>

text \<open>The three sends of the booter are the broker's, with a trace and a log entry.\<close>

definition booter_SendToAll where
  "booter_SendToAll grpc cx me m w = SendToAll grpc cx me m w"

definition booter_SendToUser where
  "booter_SendToUser grpc cx me uid m w = SendToUser grpc cx me uid m w"

definition booter_SendToChannel where
  "booter_SendToChannel grpc cx me ch m w = SendToChannel grpc cx me ch m w"

lemmas booter_sends = booter_SendToAll_def booter_SendToUser_def booter_SendToChannel_def

text \<open>An error of a send is logged; what the send did stays.\<close>

definition logged :: "'cs world \<Rightarrow> (go_error, 'a \<times> 'cs world) outcome \<Rightarrow> (go_error, 'cs world) outcome" where
  "logged w res = (case res of Ok (_, w') \<Rightarrow> Ok w' | Err e \<Rightarrow> Ok w | Panic \<Rightarrow> Panic)"

text \<open>
  \<open>OnUserMessage\<close>: the message given to the Kafka producer, if any, and the cluster after the message
  was sent on. The send and the Kafka message are independent of each other.
\<close>

definition OnUserMessage ::
  "(u64 \<Rightarrow> delivery) \<Rightarrow> ctx \<Rightarrow> u64 \<Rightarrow> 'r booter \<Rightarrow> message \<Rightarrow> identity option \<Rightarrow> 'cs world \<Rightarrow>
     (go_error, kafka_message option \<times> 'cs world) outcome" where
  "OnUserMessage grpc cx me b m ident w =
     (case map_option (\<lambda>rs. map_of rs (Kind m)) (cfg_MessageRoute (bt_config b)) of
        Some (Some route) \<Rightarrow>
          if \<not> route_Enabled route then Ok (None, w)
          else
            (let kafka = (\<lambda>toUser toChannel.
                   if route_KafkaTopic route \<noteq> [] \<and> bt_producer b
                   then Some (SendToKafka (route_KafkaTopic route) toUser toChannel ident m) else None)
             in if route_ResendType route = resendToAll then
                  omap (\<lambda>w'. (kafka [] [], w')) (logged w (booter_SendToAll grpc cx me m w))
                else if route_ResendType route = resendToUser then
                  (case props_Get PropertyUserID (message_props m) of
                     None \<Rightarrow> Ok (None, w)
                   | Some uid \<Rightarrow> omap (\<lambda>w'. (kafka uid [], w')) (logged w (booter_SendToUser grpc cx me uid m w)))
                else if route_ResendType route = resendToChannel then
                  (case props_Get PropertyChannel (message_props m) of
                     None \<Rightarrow> Ok (None, w)
                   | Some ch \<Rightarrow> omap (\<lambda>w'. (kafka [] ch, w')) (logged w (booter_SendToChannel grpc cx me ch m w)))
                else Ok (kafka [] [], w))
      | _ \<Rightarrow> Ok (None, w))"

section \<open>Channels\<close>

definition ListChannels :: "'r services \<Rightarrow> gostring \<Rightarrow> 'r booter \<Rightarrow> (go_error, (gostring, gostring) gomap) outcome" where
  "ListChannels sv uid b =
     (case bt_redis b of None \<Rightarrow> Ok [] | Some r \<Rightarrow> redis_HGetAll sv (JoinKey b uid) r)"

text \<open>The result as the broker uses it: a map, nil with an error, and the error.\<close>

definition GetUserChannels ::
  "'r services \<Rightarrow> 'r booter \<Rightarrow> gostring \<Rightarrow> (gostring, gostring) gomap \<times> go_error option" where
  "GetUserChannels sv b uid =
     (case ListChannels sv uid b of Ok m \<Rightarrow> (m, None) | Err e \<Rightarrow> ([], Some e) | Panic \<Rightarrow> ([], None))"

text \<open>The error returned, and the state: what Redis has taken stays when the broker then fails.\<close>

definition booter_JoinChannel ::
  "'r services \<Rightarrow> gostring \<Rightarrow> (gostring, gostring) gomap \<Rightarrow> 'r booter \<times> 'cs node \<Rightarrow>
     (go_error, go_error option \<times> 'r booter \<times> 'cs node) outcome" where
  "booter_JoinChannel sv uid channels st =
     (case st of (b, nd) \<Rightarrow>
        (case bt_redis b of
           None \<Rightarrow> Ok (None, b, nd)
         | Some r \<Rightarrow>
             (case redis_HSet sv (JoinKey b uid) channels r of
                Panic \<Rightarrow> Panic
              | Err e \<Rightarrow> Ok (Some e, b, nd)
              | Ok r' \<Rightarrow>
                  (case broker_JoinChannel uid channels nd of
                     Panic \<Rightarrow> Panic
                   | Err e \<Rightarrow> Ok (Some e, b\<lparr>bt_redis := Some r'\<rparr>, nd)
                   | Ok nd' \<Rightarrow> Ok (None, b\<lparr>bt_redis := Some r'\<rparr>, nd')))))"

definition booter_LeaveChannel ::
  "'r services \<Rightarrow> gostring \<Rightarrow> (gostring, gostring) gomap \<Rightarrow> 'r booter \<times> 'cs node \<Rightarrow>
     (go_error, go_error option \<times> 'r booter \<times> 'cs node) outcome" where
  "booter_LeaveChannel sv uid channels st =
     (case st of (b, nd) \<Rightarrow>
        (case bt_redis b of
           None \<Rightarrow> Ok (None, b, nd)
         | Some r \<Rightarrow>
             (case redis_HDel sv (JoinKey b uid) (map fst channels) r of
                Panic \<Rightarrow> Panic
              | Err e \<Rightarrow> Ok (Some e, b, nd)
              | Ok r' \<Rightarrow>
                  (case broker_LeaveChannel uid channels nd of
                     Panic \<Rightarrow> Panic
                   | Err e \<Rightarrow> Ok (Some e, b\<lparr>bt_redis := Some r'\<rparr>, nd)
                   | Ok nd' \<Rightarrow> Ok (None, b\<lparr>bt_redis := Some r'\<rparr>, nd')))))"

end
