(* ===== verification/Login_Safety.thy ===== *)
theory Login_Safety
  imports Routing_Safety
begin

text \<open>
  Logins of a client that is connected already: what \<open>onUserConnect\<close> of src/cluster/broker.go and the
  server's \<open>OnConnect\<close> do together, on the node of the old connection and on another one, and what the
  log makes of it.
\<close>

section \<open>What a login submits\<close>

lemma SubmitOperation_eq:
  "raft_started c \<Longrightarrow> SubmitOperation op c = Ok (c\<lparr>proposals := proposals c @ [opt op # op_wire op]\<rparr>)"
  by (simp add: SubmitOperation_def Let_def Pick_def op_WriteTo_wire NewEncoder_def
    pool_get_def new_encoder_def uint8.write_wire)

definition opened_op :: "'cs node \<Rightarrow> gostring \<Rightarrow> identity \<Rightarrow> opdata" where
  "opened_op nd net ident =
     UserOpened \<lparr>opened_uid = UserID ident, opened_cid = ClientID ident, opened_net = net,
       opened_nodeID = node_id nd, opened_channels = fst (userChannels nd (UserID ident))\<rparr>"

definition closed_op :: "'cs node \<Rightarrow> identity \<Rightarrow> opdata" where
  "closed_op nd ident =
     UserClosed \<lparr>closed_uid = UserID ident, closed_cid = ClientID ident, closed_nodeID = node_id nd\<rparr>"

text \<open>One node of the range of \<open>onUserConnect\<close>.\<close>

definition connect_step ::
  "(u64 \<Rightarrow> delivery) \<Rightarrow> identity \<Rightarrow> gostring \<Rightarrow> 'cs cluster \<Rightarrow> u64 \<Rightarrow> gostring KeyMap \<Rightarrow>
     (go_error, 'cs world) outcome \<Rightarrow> (go_error, 'cs world) outcome" where
  "connect_step grpc ident net c i value acc = obind acc (\<lambda>st.
     if i = nodeId c then Ok st
     else case KeyMap_GetKey (UserID ident) (ClientID ident) value of
            None \<Rightarrow> Ok st
          | Some cnet \<Rightarrow>
              (case GetPeer i c of
                 None \<Rightarrow> Ok st
               | Some peer \<Rightarrow> omap snd (peer_kickConn grpc peer [(ClientID ident, net)] st)))"

lemma onUserConnect_accepted:
  assumes "w me = Some nd" and "userConnect nd p = ConnectAccepted" and "Identity p = Some ident"
  shows "onUserConnect grpc me p net w =
    obind (fold (\<lambda>(i, value). connect_step grpc ident net (node_cluster nd) i value)
        (rmap_m (userClients (node_broker nd))) (Ok w)) (\<lambda>w1.
      case SubmitOperation (opened_op nd net ident) (node_cluster (the (w1 me))) of
        Ok c' \<Rightarrow> Ok (ConnectAccepted, w1(me \<mapsto> (the (w1 me))\<lparr>node_cluster := c'\<rparr>))
      | _ \<Rightarrow> Ok (ConnectAuthfail, w1))"
  unfolding onUserConnect_def connect_step_def [abs_def] RMap_Range_def Map_Range_fold opened_op_def
  using assms by (simp add: Let_def)

text \<open>Where no other node lists the client, nobody is kicked.\<close>

lemma connect_steps_alone:
  assumes "NMap_ok table" and "\<And>n. n \<noteq> nodeId c \<Longrightarrow> NGet n (UserID ident) (ClientID ident) table = None"
  shows "fold (\<lambda>(i, value). connect_step grpc ident net c i value) (rmap_m table) (Ok w) = Ok w"
proof -
  have "connect_step grpc ident net c i v (Ok w) = Ok w" if "(i, v) \<in> set (rmap_m table)" for i v
  proof (cases "i = nodeId c")
    case False
    have "RMap_Get i table = Some v" using assms(1) that
      by (simp add: NMap_ok_def RMap_ok_def go_map_def RMap_Get_def)
    then have "KeyMap_GetKey (UserID ident) (ClientID ident) v = None"
      using assms(2) [OF False] by (simp add: NGet_def)
    then show ?thesis by (simp add: connect_step_def)
  qed (simp add: connect_step_def)
  then have "fold (\<lambda>(i, value). connect_step grpc ident net c i value) xs (Ok w) = Ok w"
    if "set xs \<subseteq> set (rmap_m table)" for xs
    using that by (induction xs) auto
  then show ?thesis by simp
qed

lemma onUserClosed_submits:
  assumes "raft_started (node_cluster nd)"
  shows "onUserClosed ident nd = nd\<lparr>node_cluster := (node_cluster nd)\<lparr>proposals :=
      proposals (node_cluster nd) @ [opt (closed_op nd ident) # op_wire (closed_op nd ident)]\<rparr>,
    user_closed := user_closed nd @ [ident]\<rparr>"
  using assms by (simp add: onUserClosed_def Let_def SubmitOperation_eq closed_op_def)

text \<open>The steps of an accepted login of a client that no other node lists.\<close>

definition submitted_op :: "opdata \<Rightarrow> 'cs node \<Rightarrow> 'cs node" where
  "submitted_op op nd = nd\<lparr>node_cluster := (node_cluster nd)\<lparr>proposals := proposals (node_cluster nd) @ [opt op # op_wire op]\<rparr>\<rparr>"

lemma submitted_fields [simp]:
  "listeners (submitted_op op nd) = listeners nd" "node_id (submitted_op op nd) = node_id nd"
  "node_broker (submitted_op op nd) = node_broker nd" "peers (node_cluster (submitted_op op nd)) = peers (node_cluster nd)"
  by (simp_all add: submitted_op_def)

lemma login_steps:
  assumes me: "w me = Some nd" and raft: "raft_started (node_cluster nd)"
    and acc: "userConnect nd p = ConnectAccepted" "Identity p = Some ident"
    and s: "started_server net nd = Ok (Some s)"
    and alone: "NMap_ok (userClients (node_broker nd))"
      "\<And>n. n \<noteq> node_id nd \<Longrightarrow> NGet n (UserID ident) (ClientID ident) (userClients (node_broker nd)) = None"
    and login: "login grpc me net ip udp p w = Ok (code, w')"
  obtains s' where "doConnecton ip udp p (s\<lparr>opts := (opts s)\<lparr>connectHandler := \<lambda>_. ConnectAccepted\<rparr>\<rparr>) = Ok (code, s')"
    and "started_server net (submitted_op (opened_op nd net ident) nd) = Ok (Some s)"
    and "w' = w(me \<mapsto> fold onUserClosed (drop (length (closed_ids s)) (closed_ids s'))
      (put_server net (s'\<lparr>opts := opts s\<rparr>) (submitted_op (opened_op nd net ident) nd)))"
proof -
  let ?nd1 = "submitted_op (opened_op nd net ident) nd"
  have "onUserConnect grpc me p net w = Ok (ConnectAccepted, w(me \<mapsto> ?nd1))"
    using alone me
    by (simp add: onUserConnect_accepted [where w = w, OF me acc] connect_steps_alone SubmitOperation_eq [OF raft] submitted_op_def)
  moreover have s1: "started_server net ?nd1 = Ok (Some s)"
    using s started_server_cong [of ?nd1 nd net] by simp
  ultimately obtain nd' where w': "w' = w(me \<mapsto> ?nd1, me \<mapsto> nd')"
    and on: "on_server net s (with_connect ConnectAccepted (doConnecton ip udp p) s) ?nd1 = Ok (code, nd')"
    using login by (auto simp: login_def omap_Ok)
  with s1 that show thesis by (auto simp: on_server_def with_connect_def omap_Ok)
qed

section \<open>Opened, then closed\<close>

lemma opened_closed_gone:
  assumes "broker_ok b" and "run_fits [broker_op_of (opened_op nd net ident), broker_op_of (closed_op nd i)] b"
    and "ClientID i = ClientID ident"
  shows "NGet (node_id nd) (UserID i) (ClientID ident)
    (userClients (broker_run [broker_op_of (opened_op nd net ident), broker_op_of (closed_op nd i)] b)) = None"
proof -
  have "users (abs_broker (broker_run [broker_op_of (opened_op nd net ident), broker_op_of (closed_op nd i)] b))
      (node_id nd) (UserID i) (ClientID ident) = None"
    using broker_run_refines [OF assms(1,2)] assms(3)
    by (simp add: closed_op_def opened_op_def reg_closed_def Let_def)
  then show ?thesis by (simp add: abs_broker_def)
qed

text \<open>
  C36. A client that logs in again on the node and network where it is connected disappears from the
  cluster: the login is accepted and the new connection is open, but the node proposes the login
  first and the close of the old connection second, with the same client id, so every replica that
  applies the two in that order ends without an entry for the client, and the node itself has no
  connection for it in its table.
\<close>

theorem relogin_disappears:
  assumes me: "w me = Some nd" and raft: "raft_started (node_cluster nd)"
    and acc: "userConnect nd p = ConnectAccepted" "Identity p = Some ident"
    and s: "started_server net nd = Ok (Some s)" "server_inv s"
    and old: "GetConn (ClientID ident) s = Some old" "raw_ID (conn_of old s) = Some i"
    and alone: "NMap_ok (userClients (node_broker nd))"
      "\<And>n. n \<noteq> node_id nd \<Longrightarrow> NGet n (UserID ident) (ClientID ident) (userClients (node_broker nd)) = None"
    and login: "login grpc me net ip udp p w = Ok (code, w')"
  shows "code = ConnectAccepted \<and> (\<exists>nd' s'. w' me = Some nd' \<and>
    started_server net nd' = Ok (Some s') \<and> \<not> conn_closed (conn_of (length (heap s)) s') \<and>
    conn_at net (ClientID ident) nd' = None \<and>
    proposals (node_cluster nd') = proposals (node_cluster nd) @
      [opt (opened_op nd net ident) # op_wire (opened_op nd net ident),
       opt (closed_op nd i) # op_wire (closed_op nd i)] \<and>
    (\<forall>b. broker_ok b \<and> run_fits [broker_op_of (opened_op nd net ident), broker_op_of (closed_op nd i)] b \<longrightarrow>
       NGet (node_id nd) (UserID i) (ClientID ident)
         (userClients (broker_run [broker_op_of (opened_op nd net ident), broker_op_of (closed_op nd i)] b)) = None))"
proof -
  let ?d1 = "opt (opened_op nd net ident) # op_wire (opened_op nd net ident)"
  let ?s0 = "s\<lparr>opts := (opts s)\<lparr>connectHandler := \<lambda>_. ConnectAccepted\<rparr>\<rparr>"
  define nd1 where "nd1 = submitted_op (opened_op nd net ident) nd"
  obtain s' where conn: "doConnecton ip udp p ?s0 = Ok (code, s')" and s1: "started_server net nd1 = Ok (Some s)"
    and w'_eq: "w' = w(me \<mapsto> fold onUserClosed (drop (length (closed_ids s)) (closed_ids s'))
      (put_server net (s'\<lparr>opts := opts s\<rparr>) nd1))"
    unfolding nd1_def by (rule login_steps [OF me raft acc s(1) alone login])
  define nd' where "nd' = fold onUserClosed (drop (length (closed_ids s)) (closed_ids s')) (put_server net (s'\<lparr>opts := opts s\<rparr>) nd1)"
  have w': "w' = w(me \<mapsto> nd')" by (simp add: w'_eq nd'_def)
  have "server_inv ?s0" using s(2) by (simp add: server_inv_def)
  moreover have "connectHandler (opts ?s0) p = ConnectAccepted" "GetConn (ClientID ident) ?s0 = Some old"
    using old(1) by (simp_all add: GetConn_def)
  ultimately obtain i' where eff: "code = ConnectAccepted" "GetConn (ClientID ident) s' = None"
    "\<not> conn_closed (conn_of (length (heap s)) s')" "raw_ID (conn_of old s) = Some i'"
    "ClientID i' = ClientID ident" "closed_ids s' = closed_ids s @ [i']"
    using duplicate_login_effect [OF _ conn _ acc(2)] by (auto simp: conn_of_def)
  have i: "i' = i" using eff(4) old(2) by simp
  let ?nd2 = "put_server net (s'\<lparr>opts := opts s\<rparr>) nd1"
  have nd'_eq: "nd' = onUserClosed i ?nd2" using eff(6) i by (simp add: nd'_def)
  have cl: "closed_op ?nd2 i = closed_op nd i" by (simp add: closed_op_def nd1_def)
  have props: "proposals (node_cluster nd') = proposals (node_cluster nd) @ [?d1, opt (closed_op nd i) # op_wire (closed_op nd i)]"
    using onUserClosed_submits [of ?nd2 i, unfolded cl] raft by (simp add: nd'_eq nd1_def submitted_op_def)
  have srv: "started_server net nd' = Ok (Some (s'\<lparr>opts := opts s\<rparr>))"
    using started_server_cong [of nd' ?nd2 net] by (simp add: nd'_eq started_put_server [OF s1])
  then have "conn_at net (ClientID ident) nd' = None" using eff(2) by (simp add: conn_at_def GetConn_def)
  with srv props eff w' show ?thesis
    using opened_closed_gone [of _ nd net ident i] i by (auto simp: conn_of_def)
qed

section \<open>The old connection on another node\<close>

text \<open>
  What kicking clients of network \<open>net\<close> may do to the nodes of a world, however often the handler
  runs: no connection becomes active and the other networks are as they were.
\<close>

definition thinner :: "gostring \<Rightarrow> 'cs node \<Rightarrow> 'cs node \<Rightarrow> bool" where
  "thinner net a b \<longleftrightarrow> node_inv b \<and>
     (\<forall>net' cid. (active_at net' cid b \<longrightarrow> active_at net' cid a) \<and>
        (net' \<noteq> net \<longrightarrow> active_at net' cid b = active_at net' cid a))"

definition thinner_all :: "gostring \<Rightarrow> 'cs world \<Rightarrow> 'cs world \<Rightarrow> bool" where
  "thinner_all net w w' \<longleftrightarrow>
     (\<forall>n nd. w n = Some nd \<longrightarrow> (\<exists>nd'. w' n = Some nd' \<and> thinner net nd nd'))"

lemma thinner_refl: "node_inv a \<Longrightarrow> thinner net a a"
  by (simp add: thinner_def)

lemma thinner_trans: "thinner net a b \<Longrightarrow> thinner net b c \<Longrightarrow> thinner net a c"
  by (auto simp: thinner_def)

lemma thinner_all_trans: "thinner_all net w w1 \<Longrightarrow> thinner_all net w1 w2 \<Longrightarrow> thinner_all net w w2"
  unfolding thinner_all_def by (meson thinner_trans)

lemma thinner_all_refl: "(\<And>n nd. w n = Some nd \<Longrightarrow> node_inv nd) \<Longrightarrow> thinner_all net w w"
  by (auto simp: thinner_all_def intro: thinner_refl)

lemma handle_times_thinner:
  assumes "node_inv nd" and "handle_times k (server_KickConn [(cid, net)]) nd = Ok (res, nd')"
  shows "thinner net nd nd'"
  using assms
proof (induction k arbitrary: nd)
  case 0
  then show ?case by (simp add: thinner_refl)
next
  case (Suc k)
  obtain nd1 where nd1: "kickConn [(cid, net)] nd = Ok nd1" "kicked {(net, cid)} nd nd1"
    using kickConn_effect [OF Suc.prems(1), of "[(cid, net)]"] by auto
  then have "thinner net nd nd1" "node_inv nd1" by (auto simp: kicked_def thinner_def)
  moreover have "nd' = nd1 \<or> handle_times k (server_KickConn [(cid, net)]) nd1 = Ok (res, nd')"
    using Suc.prems(2) nd1(1) by (auto simp: server_KickConn_def [of _ nd] split: if_splits)
  ultimately show ?case using Suc.IH thinner_trans by blast
qed

lemma peer_kick_thinner:
  assumes inv: "\<And>n nd. st n = Some nd \<Longrightarrow> node_inv nd"
    and kick: "peer_kickConn grpc p [(cid, net)] st = Ok (res, st')"
  shows "thinner_all net st st'"
proof (cases "st' = st")
  case False
  then obtain nd nd' k res' where nd: "st (peer_id p) = Some nd"
    "handle_times k (server_KickConn [(cid, net)]) nd = Ok (res', nd')" "st' = st(peer_id p \<mapsto> nd')"
    using kick by (auto simp: peer_kickConn_def peer_rpc_def rpc_def omap_Ok simp del: handle_times.simps
      split: if_splits option.splits delivery.splits)
  then have "thinner net nd nd'" using handle_times_thinner inv by blast
  with nd inv show ?thesis by (auto simp: thinner_all_def intro: thinner_refl)
qed (use inv in \<open>simp add: thinner_all_refl\<close>)

lemma thinner_all_inv: "thinner_all net w w' \<Longrightarrow> dom w' = dom w \<Longrightarrow> w' n = Some nd \<Longrightarrow> node_inv nd"
  unfolding thinner_all_def thinner_def by (metis domIff option.exhaust option.inject)

lemma peer_kick_dom: "peer_kickConn grpc p ts st = Ok (res, st') \<Longrightarrow> dom st' = dom st"
  by (auto simp: peer_kickConn_def peer_rpc_def rpc_def omap_Ok split: if_splits option.splits delivery.splits)

lemma connect_steps_thinner:
  "(\<And>n nd. w n = Some nd \<Longrightarrow> node_inv nd) \<Longrightarrow>
   fold (\<lambda>(i, value). connect_step grpc ident net c i value) xs (Ok w) = Ok w' \<Longrightarrow>
   thinner_all net w w' \<and> dom w' = dom w"
proof (induction xs arbitrary: w)
  case Nil
  then show ?case by (simp add: thinner_all_refl)
next
  case (Cons a xs)
  obtain i v where a: "a = (i, v)" by (cases a)
  have stuck: "fold (\<lambda>(i, value). connect_step grpc ident net c i value) xs r = Ok w' \<Longrightarrow> \<exists>w1. r = Ok w1" for r
    by (induction xs arbitrary: r) (fastforce simp: connect_step_def outcome_Ok_obind)+
  obtain w1 where w1: "connect_step grpc ident net c i v (Ok w) = Ok w1"
    "fold (\<lambda>(i, value). connect_step grpc ident net c i value) xs (Ok w1) = Ok w'"
    using Cons.prems(2) stuck a by fastforce
  have "w1 = w \<or> (\<exists>peer res. peer_kickConn grpc peer [(ClientID ident, net)] w = Ok (res, w1))"
    using w1(1) by (auto simp: connect_step_def omap_Ok split: if_splits option.splits)
  then have step: "thinner_all net w w1 \<and> dom w1 = dom w"
  proof
    assume "w1 = w"
    then show ?thesis using Cons.prems(1) by (simp add: thinner_all_refl)
  next
    assume "\<exists>peer res. peer_kickConn grpc peer [(ClientID ident, net)] w = Ok (res, w1)"
    then obtain peer res where "peer_kickConn grpc peer [(ClientID ident, net)] w = Ok (res, w1)" by blast
    from peer_kick_thinner [OF _ this] peer_kick_dom [OF this] Cons.prems(1) show ?thesis by blast
  qed
  then have "\<And>n nd. w1 n = Some nd \<Longrightarrow> node_inv nd" using thinner_all_inv by blast
  from Cons.IH [OF this w1(2)] step show ?case using thinner_all_trans [of net w w1 w'] by simp
qed

lemma connect_fold_Ok:
  "fold (\<lambda>(i, value). connect_step grpc ident net c i value) xs r = Ok u \<Longrightarrow> \<exists>w1. r = Ok w1"
  by (induction xs arbitrary: r) (fastforce simp: connect_step_def outcome_Ok_obind)+

text \<open>Submitting the operation changes the own node only.\<close>

lemma onUserConnect_others:
  assumes "w me = Some nd" and "userConnect nd p = ConnectAccepted" and "Identity p = Some ident"
    and "onUserConnect grpc me p net w = Ok (code, w')"
  obtains w1 where "fold (\<lambda>(i, value). connect_step grpc ident net (node_cluster nd) i value)
      (rmap_m (userClients (node_broker nd))) (Ok w) = Ok w1" and "\<And>n. n \<noteq> me \<Longrightarrow> w' n = w1 n"
proof -
  let ?r = "fold (\<lambda>(i, value). connect_step grpc ident net (node_cluster nd) i value)
      (rmap_m (userClients (node_broker nd))) (Ok w)"
  let ?g = "\<lambda>w1. (case SubmitOperation (opened_op nd net ident) (node_cluster (the (w1 me))) of
        Ok c' \<Rightarrow> Ok (ConnectAccepted, w1(me \<mapsto> (the (w1 me))\<lparr>node_cluster := c'\<rparr>))
      | _ \<Rightarrow> (Ok (ConnectAuthfail, w1) :: (go_error, _) outcome))"
  have "obind ?r ?g = Ok (code, w')"
    using assms(4) onUserConnect_accepted [where w = w, OF assms(1-3), of grpc net] by simp
  then obtain w1 where "?r = Ok w1" "?g w1 = Ok (code, w')" unfolding outcome_Ok_obind by blast
  then show thesis
    by (cases "SubmitOperation (opened_op nd net ident) (node_cluster (the (w1 me)))") (auto intro: that)
qed

text \<open>
  A client that logs in on another node is only thrown off its old connection when both use the
  same network: the peer is asked to kick the client on the network of the new connection. So when
  the node that is listed answers, the old connection is gone if it was on that network, and stays
  active beside the new one if it was on another.
\<close>

theorem relogin_elsewhere:
  assumes me: "w me = Some nd" "node_id nd = me"
    and acc: "userConnect nd p = ConnectAccepted" "Identity p = Some ident"
    and ok: "NMap_ok (userClients (node_broker nd))" "\<And>n nd. w n = Some nd \<Longrightarrow> node_inv nd"
    and old: "NGet n (UserID ident) (ClientID ident) (userClients (node_broker nd)) = Some cnet"
      "n \<noteq> me" "w n = Some old" "active_at cnet (ClientID ident) old"
    and reach: "reaches grpc (node_cluster nd) n"
    and conn: "onUserConnect grpc me p net w = Ok (code, w')"
  shows "\<exists>old'. w' n = Some old' \<and> (active_at cnet (ClientID ident) old' \<longleftrightarrow> cnet \<noteq> net)"
proof -
  let ?c = "node_cluster nd" let ?xs = "rmap_m (userClients (node_broker nd))"
  let ?f = "\<lambda>(i, value). connect_step grpc ident net ?c i value"
  obtain w1 where w1: "fold ?f ?xs (Ok w) = Ok w1" and w1n: "w' n = w1 n"
    using onUserConnect_others [where w = w, OF me(1) acc conn] old(2) by blast
  obtain v where v: "(n, v) \<in> set ?xs" "KeyMap_GetKey (UserID ident) (ClientID ident) v = Some cnet"
    using old(1) by (auto simp: NGet_def RMap_Get_def split: option.splits dest: map_of_SomeD)
  then obtain ys zs where xs: "?xs = ys @ (n, v) # zs" by (meson split_list)
  obtain wa where wa: "fold ?f ys (Ok w) = Ok wa" "fold ?f zs (?f (n, v) (Ok wa)) = Ok w1"
    using w1 connect_fold_Ok [of grpc ident net ?c "(n, v) # zs" "fold ?f ys (Ok w)" w1] by (auto simp: xs)
  obtain wb where wb: "?f (n, v) (Ok wa) = Ok wb" "fold ?f zs (Ok wb) = Ok w1"
    using wa(2) connect_fold_Ok [of grpc ident net ?c zs "?f (n, v) (Ok wa)" w1] by auto
  have a: "thinner_all net w wa" "dom wa = dom w" using connect_steps_thinner [OF ok(2) wa(1)] by auto
  then have inva: "\<And>n nd. wa n = Some nd \<Longrightarrow> node_inv nd" using thinner_all_inv by blast
  obtain na where na: "wa n = Some na" "thinner net old na" using a(1) old(3) by (auto simp: thinner_all_def)
  obtain q where q: "GetPeer n ?c = Some q" "peer_ready q" "peer_id q = n" "grpc n = Answered 0"
    using reach old(2) me(2) by (auto simp: reaches_def)
  obtain nb where nb: "peer_kickConn grpc q [(ClientID ident, net)] wa = Ok (Ok (), wa(n \<mapsto> nb))"
    "kicked {(net, ClientID ident)} na nb"
    using remote_kick [OF q(2), of grpc wa na "[(ClientID ident, net)]"] q na(1) inva by auto
  have wb': "wb = wa(n \<mapsto> nb)" using wb(1) old(2) me(2) v(2) q(1) nb(1) by (simp add: connect_step_def)
  have "\<And>k nd. wb k = Some nd \<Longrightarrow> node_inv nd"
    using inva nb(2) by (auto simp: wb' kicked_def split: if_splits)
  then have "thinner_all net wb w1" using connect_steps_thinner [OF _ wb(2)] by blast
  moreover have "wb n = Some nb" by (simp add: wb')
  ultimately obtain nc where nc: "w1 n = Some nc" "thinner net nb nc" unfolding thinner_all_def by blast
  have nb_act: "active_at cnet (ClientID ident) nb \<longleftrightarrow> active_at cnet (ClientID ident) na \<and> cnet \<noteq> net"
    using nb(2) by (simp add: kicked_def)
  have thin: "(active_at cnet (ClientID ident) b \<longrightarrow> active_at cnet (ClientID ident) a) \<and>
      (cnet \<noteq> net \<longrightarrow> active_at cnet (ClientID ident) b = active_at cnet (ClientID ident) a)"
    if "thinner net a b" for a b
    using that unfolding thinner_def by blast
  have "active_at cnet (ClientID ident) nc \<longleftrightarrow> cnet \<noteq> net"
    using thin [OF nc(2)] nb_act thin [OF na(2)] old(4) by blast
  with nc(1) w1n show ?thesis by simp
qed

subsection \<open>Witnesses\<close>

definition demo_w1 :: "byte \<times> unit world" where
  "demo_w1 = get_Ok (login (\<lambda>_. Answered 0) 1 (gs ''tcp'') [] False (demo_connect ''u'' ''c'') demo_world)"

theorem relogin_disappears_witness:
  "fst demo_w1 = ConnectAccepted \<and>
   (\<exists>nd'. snd demo_w1 1 = Some nd' \<and> conn_at (gs ''tcp'') (gs ''c'') nd' = None)"
proof -
  let ?p = "demo_connect ''u'' ''c''" let ?i = "\<lparr>UserID = gs ''u'', ClientID = gs ''c'', Password = []\<rparr>"
  have me: "demo_world 1 = Some (demo_node 1)" by (simp add: demo_world_def)
  have raft: "raft_started (node_cluster (demo_node 1))" "userConnect (demo_node 1) ?p = ConnectAccepted"
    by (simp_all add: demo_node_def)
  have p: "Identity ?p = Some ?i" by (simp add: demo_connect_def NewConnect_def)
  have old: "GetConn (ClientID ?i) demo_idle = Some 0" "raw_ID (conn_of 0 demo_idle) = Some ?i"
    using demo_idle(4) by (simp, code_simp)
  have "is_Ok (login (\<lambda>_. Answered 0) 1 (gs ''tcp'') [] False ?p demo_world)" by code_simp
  then have "login (\<lambda>_. Answered 0) 1 (gs ''tcp'') [] False ?p demo_world = Ok demo_w1"
    unfolding demo_w1_def by (rule get_Ok)
  then have l: "login (\<lambda>_. Answered 0) 1 (gs ''tcp'') [] False ?p demo_world = Ok (fst demo_w1, snd demo_w1)" by simp
  have alone: "NMap_ok (userClients (node_broker (demo_node 1)))"
    "\<And>n. n \<noteq> node_id (demo_node 1) \<Longrightarrow>
      NGet n (UserID ?i) (ClientID ?i) (userClients (node_broker (demo_node 1))) = None"
    by (simp_all add: demo_tables demo_NGet)
  from relogin_disappears [OF me raft p demo_node_simps(3) demo_idle(1) old alone l] show ?thesis by auto
qed

theorem relogin_elsewhere_witness:
  "\<exists>w' old'. onUserConnect (\<lambda>_. Answered 0) 2 (demo_connect ''u'' ''c'') (gs ''udp'') demo_world =
       Ok (ConnectAccepted, w') \<and> w' 1 = Some old' \<and> active_at (gs ''tcp'') (gs ''c'') old'"
proof -
  let ?p = "demo_connect ''u'' ''c''" let ?i = "\<lparr>UserID = gs ''u'', ClientID = gs ''c'', Password = []\<rparr>"
  let ?r = "onUserConnect (\<lambda>_. Answered 0) 2 ?p (gs ''udp'') demo_world"
  have me: "demo_world 2 = Some (demo_node 2)" "node_id (demo_node 2) = 2" by (simp_all add: demo_world_def)
  have acc: "userConnect (demo_node 2) ?p = ConnectAccepted" "Identity ?p = Some ?i"
    by (simp_all add: demo_node_def demo_connect_def NewConnect_def)
  have inv: "\<And>n nd. demo_world n = Some nd \<Longrightarrow> node_inv nd"
    using demo_node_inv by (auto simp: demo_world_def split: if_splits)
  have old: "NGet 1 (UserID ?i) (ClientID ?i) (userClients (node_broker (demo_node 2))) = Some (gs ''tcp'')"
    "(1 :: u64) \<noteq> 2" "demo_world 1 = Some (demo_node 1)" "active_at (gs ''tcp'') (ClientID ?i) (demo_node 1)"
    using demo_active by (simp_all add: demo_NGet demo_world_def)
  have "omap fst ?r = Ok ConnectAccepted" by code_simp
  then obtain w' where w': "?r = Ok (ConnectAccepted, w')" by (auto simp: omap_Ok)
  have "gs ''tcp'' \<noteq> gs ''udp''" by (simp add: gs_def)
  with relogin_elsewhere [OF me acc _ inv old demo_reaches w'] w' show ?thesis by (auto simp: demo_tables)
qed

end
