(* ===== verification/Booter_Safety.thy ===== *)
theory Booter_Safety
  imports Booter Login_Safety
begin

text \<open>
  What the server program promises: where a routed message goes, who is let in, and that channels
  joined through Redis come back with the next login.
\<close>

section \<open>Relayed messages\<close>

text \<open>
  C17. A message of a kind that is routed to users is relayed: every client of the user it names gets it
  exactly once, wherever it is connected, nothing else changes on any node, and the Kafka producer, when
  the route has a topic, gets the payload with the kind, the user it goes to and the sender.
\<close>

theorem message_relayed:
  assumes route: "cfg_MessageRoute (bt_config b) = Some rs" "map_of rs (Kind m) = Some r" "route_Enabled r"
      "route_ResendType r = resendToUser" "props_Get PropertyUserID (message_props m) = Some uid" "uid \<noteq> []"
    and w: "w me = Some nd" "node_id nd = me" "sendable (PMessage m)" "NMap_ok (userClients (node_broker nd))"
    and reach: "\<forall>n cid net. NGet n uid cid (userClients (node_broker nd)) = Some net \<longrightarrow>
      reaches grpc (node_cluster nd) n \<and> w n \<noteq> None"
    and ready: "\<forall>n nd'. w n = Some nd' \<longrightarrow>
      ready_for {(net, cid). NGet n uid cid (userClients (node_broker nd)) = Some net} nd'"
  shows "\<exists>k w'. OnUserMessage grpc background me b m (Some ident) w = Ok (k, w') \<and>
    delivered_all m (\<lambda>n. {(net, cid). NGet n uid cid (userClients (node_broker nd)) = Some net}) w w' \<and>
    (case k of
       None \<Rightarrow> route_KafkaTopic r = [] \<or> \<not> bt_producer b
     | Some km \<Rightarrow> km_Topic km = route_KafkaTopic r \<and> km_Value km = Payload m \<and>
         KafkaHeader_Get (gs ''messageKind'') (km_Headers km) = [Kind m] \<and>
         KafkaHeader_Get (gs ''toUser'') (km_Headers km) = uid \<and>
         KafkaHeader_Get (gs ''fromUser'') (km_Headers km) = UserID ident \<and>
         KafkaHeader_Get (gs ''fromClient'') (km_Headers km) = ClientID ident)"
proof -
  obtain w' n where s: "SendToUser grpc background me uid m w = Ok (n, w')"
    and d: "delivered_all m (\<lambda>n. {(net, cid). NGet n uid cid (userClients (node_broker nd)) = Some net}) w w'"
    using to_user.fan_out_delivers [OF w(3,4,2), of uid grpc w] w reach ready route(6)
    by (auto simp: SendToUser_def)
  have ne: "resendToUser \<noteq> resendToAll" by code_simp
  have h: "gs ''messageKind'' \<noteq> gs ''toUser''" "gs ''messageKind'' \<noteq> gs ''fromUser''"
    "gs ''messageKind'' \<noteq> gs ''fromClient''" "gs ''toUser'' \<noteq> gs ''fromUser''" "gs ''toUser'' \<noteq> gs ''fromClient''"
    "gs ''fromUser'' \<noteq> gs ''fromClient''" by (simp_all add: gs_inj)
  let ?k = "if route_KafkaTopic r \<noteq> [] \<and> bt_producer b
    then Some (SendToKafka (route_KafkaTopic r) uid [] (Some ident) m) else None"
  have "OnUserMessage grpc background me b m (Some ident) w = Ok (?k, w')"
    using route s ne by (simp add: OnUserMessage_def logged_def booter_sends)
  moreover have "km_Topic (SendToKafka t uid [] (Some ident) m) = t" "km_Value (SendToKafka t uid [] (Some ident) m) = Payload m"
    "km_Headers (SendToKafka t uid [] (Some ident) m) =
      [(gs ''messageKind'', [Kind m]), (gs ''toUser'', uid), (gs ''fromUser'', UserID ident), (gs ''fromClient'', ClientID ident)]"
    for t using route(6) by (simp_all add: SendToKafka_def KafkaHeader_Set_def)
  ultimately show ?thesis using d h by (intro exI [of _ ?k] exI [of _ w']) auto
qed

definition demo_booter :: "unit booter" where
  "demo_booter = \<lparr>bt_config = demo_config [] (gs ''pass''), bt_redis = None, bt_producer = False\<rparr>"

definition demo_message :: message where
  "demo_message = \<lparr>message_props = [(PropertyUserID, gs ''u'')], Kind = 1, Payload = [5]\<rparr>"

theorem message_relayed_witness:
  "\<exists>w'. OnUserMessage (\<lambda>_. Answered 0) background 2 demo_booter demo_message
       (Some \<lparr>UserID = gs ''v'', ClientID = gs ''d'', Password = []\<rparr>) demo_world = Ok (None, w') \<and>
     delivered_all demo_message (\<lambda>n. {(net, cid). NGet n (gs ''u'') cid (userClients demo_broker) = Some net}) demo_world w'"
proof -
  let ?r = "\<lparr>route_Enabled = True, route_ResendType = resendToUser, route_KafkaTopic = []\<rparr>"
  have me: "demo_world 2 = Some (demo_node 2)" by (simp add: demo_world_def)
  have reach: "\<forall>n cid net. NGet n (gs ''u'') cid (userClients (node_broker (demo_node 2))) = Some net \<longrightarrow>
      reaches (\<lambda>_. Answered 0) (node_cluster (demo_node 2)) n \<and> demo_world n \<noteq> None"
    using demo_reaches by (auto simp: demo_NGet demo_world_def split: if_splits)
  have ready: "\<forall>n nd'. demo_world n = Some nd' \<longrightarrow>
      ready_for {(net, cid). NGet n (gs ''u'') cid (userClients (node_broker (demo_node 2))) = Some net} nd'"
    using demo_node_inv demo_conn_at demo_idle(2)
    by (auto simp: demo_world_def ready_for_def demo_NGet split: if_splits)
  have s: "sendable (PMessage demo_message)"
    by (simp add: sendable_def demo_message_def u8map_ok_def go_map_def message_wire_def u8map_wire_def data_wire_def
      uvarint_bytes.simps gs_def MAX_LEN_def)
  have route: "cfg_MessageRoute (bt_config demo_booter) = Some [(1, ?r)]" "map_of [(1, ?r)] (Kind demo_message) = Some ?r"
    "route_Enabled ?r" "route_ResendType ?r = resendToUser"
    "props_Get PropertyUserID (message_props demo_message) = Some (gs ''u'')" "gs ''u'' \<noteq> []"
    by (simp_all add: demo_booter_def demo_config_def demo_message_def props_Get_def gs_def)
  obtain k w' where kw: "OnUserMessage (\<lambda>_. Answered 0) background 2 demo_booter demo_message
       (Some \<lparr>UserID = gs ''v'', ClientID = gs ''d'', Password = []\<rparr>) demo_world = Ok (k, w')"
    "delivered_all demo_message (\<lambda>n. {(net, cid). NGet n (gs ''u'') cid (userClients (node_broker (demo_node 2))) = Some net}) demo_world w'"
    "case k of None \<Rightarrow> True | Some km \<Rightarrow> km_Topic km = []"
    using message_relayed [OF route me _ s _ reach ready, of "\<lparr>UserID = gs ''v'', ClientID = gs ''d'', Password = []\<rparr>"]
    by (auto simp: demo_tables split: option.splits)
  have "k = None"
    using kw(1) route by (auto simp: OnUserMessage_def demo_booter_def logged_def omap_Ok split: outcome.splits if_splits)
  with kw show ?thesis by auto
qed

section \<open>Authentication\<close>


definition no_services :: "unit services" where
  "no_services = \<lparr>redis_Get = \<lambda>_ _. Err (OtherError ''nil''), redis_HSet = \<lambda>_ _ r. Ok r, redis_HDel = \<lambda>_ _ r. Ok r,
     redis_HGetAll = \<lambda>_ _. Ok [], jwt_subject = \<lambda>_ _. Err (OtherError ''token''), http_Get = \<lambda>_. Ok 200\<rparr>"


text \<open>
  The remote check cannot tell all logins apart: the request is built without escaping, so two
  different pairs of user id and password can ask the same question.
\<close>

theorem remote_auth_ambiguous:
  "\<exists>i j. UserID i \<noteq> UserID j \<and> Password i \<noteq> Password j \<and> auth_url url i = auth_url url j"
proof -
  let ?i = "\<lparr>UserID = gs ''a&pwd=b'', ClientID = [], Password = gs ''c''\<rparr>"
  let ?j = "\<lparr>UserID = gs ''a'', ClientID = [], Password = gs ''b&pwd=c''\<rparr>"
  have "UserID ?i \<noteq> UserID ?j" "Password ?i \<noteq> Password ?j" by (simp_all add: gs_inj)
  moreover have "auth_url url ?i = auth_url url ?j" by (simp add: auth_url_def gs_def)
  ultimately show ?thesis by blast
qed

section \<open>Channels\<close>

text \<open>
  C32. Channels come back with the next login: after a join through the API has succeeded, a login of the
  user proposes an operation that has all the channels joined, besides those Redis already had. Of
  Redis this uses that \<open>HGETALL\<close> returns what \<open>HSET\<close> has written over what was there.
\<close>

theorem channels_restored:
  assumes join: "booter_JoinChannel sv uid channels (b, nd) = Ok (None, b', nd')" "bt_redis b \<noteq> None"
      "distinct (map fst channels)" "redis_HGetAll sv (JoinKey b uid) (the (bt_redis b)) = Ok old"
    and redis: "\<forall>k fs r r' old. distinct (map fst fs) \<and> redis_HSet sv k fs r = Ok r' \<and> redis_HGetAll sv k r = Ok old \<longrightarrow>
      (\<exists>m. redis_HGetAll sv k r' = Ok m \<and> map_of m = map_of old ++ map_of fs)"
    and me: "w me = Some node" "raft_started (node_cluster node)" "userChannels node = GetUserChannels sv b'"
    and login: "userConnect node p = ConnectAccepted" "Identity p = Some ident" "UserID ident = uid"
    and alone: "NMap_ok (userClients (node_broker node))"
      "\<And>n. n \<noteq> node_id node \<Longrightarrow> NGet n (UserID ident) (ClientID ident) (userClients (node_broker node)) = None"
  shows "\<exists>op w'. onUserConnect grpc me p net w = Ok (ConnectAccepted, w') \<and>
    proposals (node_cluster (the (w' me))) =
      proposals (node_cluster node) @ [opt (UserOpened op) # op_wire (UserOpened op)] \<and>
    opened_uid op = uid \<and> map_of (opened_channels op) = map_of old ++ map_of channels"
proof -
  obtain r where r: "bt_redis b = Some r" using join(2) by blast
  with join(1) obtain r' where r': "redis_HSet sv (JoinKey b uid) channels r = Ok r'" "b' = b\<lparr>bt_redis := Some r'\<rparr>"
    by (auto simp: booter_JoinChannel_def split: outcome.splits)
  obtain m where m: "redis_HGetAll sv (JoinKey b uid) r' = Ok m" "map_of m = map_of old ++ map_of channels"
    using redis join(3,4) r r'(1) by fastforce
  have "JoinKey b' uid = JoinKey b uid" by (simp add: JoinKey_def r'(2))
  with m(1) r'(2) have "GetUserChannels sv b' uid = (m, None)" by (simp add: GetUserChannels_def ListChannels_def)
  with m(2) me(3) login(3) obtain op where op: "opened_op node net ident = UserOpened op" "opened_uid op = uid"
    "map_of (opened_channels op) = map_of old ++ map_of channels"
    by (simp add: opened_op_def)
  have "onUserConnect grpc me p net w = Ok (ConnectAccepted, w(me \<mapsto> node\<lparr>node_cluster := (node_cluster node)\<lparr>proposals :=
      proposals (node_cluster node) @ [opt (UserOpened op) # op_wire (UserOpened op)]\<rparr>\<rparr>))"
    using alone me(1)
    by (simp add: onUserConnect_accepted [where w = w, OF me(1) login(1,2)] connect_steps_alone SubmitOperation_eq [OF me(2)] op(1))
  with op(2,3) show ?thesis by auto
qed

text \<open>One hash per key, later fields over earlier ones: a store that behaves so.\<close>

definition map_services :: "(gostring \<Rightarrow> (gostring, gostring) gomap) services" where
  "map_services = \<lparr>redis_Get = \<lambda>_ _. Err (OtherError ''nil''),
     redis_HSet = \<lambda>k fs r. Ok (r(k := fold (\<lambda>(f, v). AList.update f v) fs (r k))),
     redis_HDel = \<lambda>k fs r. Ok (r(k := fold AList.delete fs (r k))), redis_HGetAll = \<lambda>k r. Ok (r k),
     jwt_subject = \<lambda>_ _. Err (OtherError ''token''), http_Get = \<lambda>_. Ok 200\<rparr>"

lemma map_of_fold_update:
  "distinct (map fst fs) \<Longrightarrow> map_of (fold (\<lambda>(f, v). AList.update f v) fs m) = map_of m ++ map_of fs"
proof (induction fs arbitrary: m)
  case (Cons a fs)
  obtain k v where a: "a = (k, v)" by fastforce
  with Cons.prems have "map_of fs k = None" by (simp add: map_of_eq_None_iff)
  with Cons a show ?case
    by (auto simp: AList.update_conv' map_add_def fun_eq_iff split: option.splits)
qed simp

lemma map_services_hash:
  "\<forall>k fs r r' old. distinct (map fst fs) \<and> redis_HSet map_services k fs r = Ok r' \<and> redis_HGetAll map_services k r = Ok old \<longrightarrow>
    (\<exists>m. redis_HGetAll map_services k r' = Ok m \<and> map_of m = map_of old ++ map_of fs)"
  by (auto simp: map_services_def map_of_fold_update)

definition demo_store :: "(gostring \<Rightarrow> (gostring, gostring) gomap) booter" where
  "demo_store = \<lparr>bt_config = demo_config [] (gs ''pass''), bt_redis = Some (\<lambda>_. [(gs ''old'', gs ''r'')]), bt_producer = False\<rparr>"

definition demo_joined :: "(gostring \<Rightarrow> (gostring, gostring) gomap) booter \<times> unit node" where
  "demo_joined = snd (get_Ok (booter_JoinChannel map_services (gs ''u'') [(gs ''new'', gs ''q'')] (demo_store, demo_node 1)))"

theorem channels_restored_witness:
  "\<exists>op w'. onUserConnect (\<lambda>_. Answered 0) 1 (demo_connect ''u'' ''c'') (gs ''tcp'')
       [1 \<mapsto> (demo_node 1)\<lparr>userChannels := GetUserChannels map_services (fst demo_joined)\<rparr>] = Ok (ConnectAccepted, w') \<and>
     proposals (node_cluster (the (w' 1))) = proposals (node_cluster (demo_node 1)) @ [opt (UserOpened op) # op_wire (UserOpened op)] \<and>
     opened_uid op = gs ''u'' \<and>
     map_of (opened_channels op) = [gs ''old'' \<mapsto> gs ''r''] ++ [gs ''new'' \<mapsto> gs ''q'']"
proof -
  let ?p = "demo_connect ''u'' ''c''" let ?i = "\<lparr>UserID = gs ''u'', ClientID = gs ''c'', Password = []\<rparr>"
  let ?nd = "(demo_node 1)\<lparr>userChannels := GetUserChannels map_services (fst demo_joined)\<rparr>"
  have join: "booter_JoinChannel map_services (gs ''u'') [(gs ''new'', gs ''q'')] (demo_store, demo_node 1) =
      Ok (None, fst demo_joined, snd demo_joined)"
    by (simp add: demo_joined_def get_Ok_def booter_JoinChannel_def demo_store_def map_services_def broker_JoinChannel_def
      SubmitOperation_eq demo_node_def)
  have b: "bt_redis demo_store \<noteq> None"
    "redis_HGetAll map_services (JoinKey demo_store (gs ''u'')) (the (bt_redis demo_store)) = Ok [(gs ''old'', gs ''r'')]"
    by (simp_all add: demo_store_def map_services_def)
  have p: "Identity ?p = Some ?i" "UserID ?i = gs ''u''" by (simp_all add: demo_connect_def NewConnect_def)
  have nd: "raft_started (node_cluster ?nd)" "userConnect ?nd ?p = ConnectAccepted"
    "node_broker ?nd = node_broker (demo_node 1)" "node_id ?nd = node_id (demo_node 1)"
    by (simp_all add: demo_node_def)
  have alone: "NMap_ok (userClients (node_broker ?nd))"
    "\<And>n. n \<noteq> node_id ?nd \<Longrightarrow> NGet n (UserID ?i) (ClientID ?i) (userClients (node_broker ?nd)) = None"
    by (simp_all only: nd) (simp_all add: demo_tables demo_NGet)
  have me: "[1 \<mapsto> ?nd] 1 = Some ?nd" "userChannels ?nd = GetUserChannels map_services (fst demo_joined)"
    "distinct (map fst [(gs ''new'', gs ''q'')])" by simp_all
  have "\<exists>op w'. onUserConnect (\<lambda>_. Answered 0) 1 ?p (gs ''tcp'') [1 \<mapsto> ?nd] = Ok (ConnectAccepted, w') \<and>
      proposals (node_cluster (the (w' 1))) = proposals (node_cluster ?nd) @ [opt (UserOpened op) # op_wire (UserOpened op)] \<and>
      opened_uid op = gs ''u'' \<and>
      map_of (opened_channels op) = map_of [(gs ''old'', gs ''r'')] ++ map_of [(gs ''new'', gs ''q'')]"
    by (rule channels_restored [where w = "[1 \<mapsto> ?nd]" and grpc = "\<lambda>_. Answered 0" and net = "gs ''tcp''",
      OF join b(1) me(3) b(2) map_services_hash me(1) nd(1) me(2) nd(2) p alone])
  then show ?thesis by simp
qed

end
