(* ===== verification/Api.thy ===== *)
theory Api
  imports Booter_Safety
begin

text \<open>
  The interfaces through which other programs use a node: the HTTP handlers of src/cmd/cable/api_http.go,
  the gRPC service of src/cmd/cable/api_grpc.go, and the client of that service, src/api/client.go.

  A request carries its method, its query and its header as lists of names and values, and what
  reading its body gives: the bytes, and the two structures that \<open>encoding/json\<close> decodes. A reply is the
  status code and the value that is printed or encoded into the body; the encodings themselves cannot
  fail. The handlers run on the node \<open>me\<close> of a world, with the booter's own state. The server that
  calls the handlers, its routes and the documentation pages are left out.

  The gRPC transport between the client and the service is not part of the repository: \<open>call\<close> says
  whether a call arrives and what comes back.
\<close>

section \<open>HTTP requests and replies\<close>

type_synonym http_values = "(gostring \<times> gostring) list"

record http_request =
  rq_Method :: gostring
  rq_Query :: http_values
  rq_Header :: http_values
  rq_Body :: "(go_error, bytes) outcome"
  rq_Kick :: "(go_error, u64) outcome"
  rq_Join :: "(go_error, gostring \<times> (gostring, gostring) gomap) outcome"

datatype http_body =
  TextBody string | ErrorBody go_error | OnlineBody bool | ResultBody u32 u32
| ChannelsBody "(gostring, gostring) gomap" | UsersBody "(gostring, (gostring, gostring) gomap) gomap"
| StatusBody "node_status list"

record http_reply =
  reply_Code :: nat
  reply_Body :: http_body

text \<open>\<open>Get\<close> of \<open>url.Values\<close> and \<open>http.Header\<close>: the first value, or the empty string.\<close>

definition values_Get :: "string \<Rightarrow> http_values \<Rightarrow> gostring" where
  "values_Get key vs = (case map_of vs (gs key) of Some v \<Rightarrow> v | None \<Rightarrow> [])"

definition parseMessage :: "http_request \<Rightarrow> (go_error, message) outcome" where
  "parseMessage rq =
     obind (ParseKind (values_Get ''message-kind'' (rq_Header rq))) (\<lambda>kind.
     omap (\<lambda>payload. \<lparr>message_props = [], Kind = kind, Payload = payload\<rparr>) (rq_Body rq))"

section \<open>HTTP handlers\<close>

type_synonym ('r, 'cs) api_state = "'r booter \<times> 'cs world"
type_synonym ('r, 'cs) http_result = "(go_error, http_reply \<times> ('r, 'cs) api_state) outcome"

definition reply :: "nat \<Rightarrow> http_body \<Rightarrow> ('r, 'cs) api_state \<Rightarrow> ('r, 'cs) http_result" where
  "reply code b st = Ok (\<lparr>reply_Code = code, reply_Body = b\<rparr>, st)"

definition MethodGet :: gostring where "MethodGet = gs ''GET''"
definition MethodPost :: gostring where "MethodPost = gs ''POST''"

definition http_ready :: "u64 \<Rightarrow> 'cs world \<Rightarrow> bool" where
  "http_ready me w \<longleftrightarrow> ready (node_cluster (the (w me)))"

text \<open>The two checks with which the handlers open.\<close>

definition guards ::
  "u64 \<Rightarrow> gostring \<Rightarrow> http_request \<Rightarrow> ('r, 'cs) api_state \<Rightarrow> ('r, 'cs) http_result \<Rightarrow> ('r, 'cs) http_result" where
  "guards me meth rq st rest =
     (if \<not> http_ready me (snd st) then reply 500 (TextBody ''broker is not ready'') st
      else if rq_Method rq \<noteq> meth then reply 405 (TextBody ''method not allowed'') st
      else rest)"

text \<open>A value that a handler needs: an error is answered with the code given.\<close>

definition need ::
  "nat \<Rightarrow> ('r, 'cs) api_state \<Rightarrow> (go_error, 'a) outcome \<Rightarrow> ('a \<Rightarrow> ('r, 'cs) http_result) \<Rightarrow> ('r, 'cs) http_result" where
  "need code st v rest = (case v of Ok x \<Rightarrow> rest x | Err e \<Rightarrow> reply code (ErrorBody e) st | Panic \<Rightarrow> Panic)"

definition handleHealth :: "u64 \<Rightarrow> http_request \<Rightarrow> ('r, 'cs) api_state \<Rightarrow> ('r, 'cs) http_result" where
  "handleHealth me rq st =
     (if \<not> http_ready me (snd st) then reply 500 (TextBody ''broker is not ready'') st
      else reply 200 (TextBody ''ok'') st)"

definition handleInspect :: "(u64 \<Rightarrow> delivery) \<Rightarrow> u64 \<Rightarrow> http_request \<Rightarrow> ('r, 'cs) api_state \<Rightarrow> ('r, 'cs) http_result" where
  "handleInspect grpc me rq st =
     need 500 st (Inspects grpc me (snd st)) (\<lambda>ss. reply 200 (StatusBody ss) st)"

definition handleIsOnline :: "(u64 \<Rightarrow> delivery) \<Rightarrow> u64 \<Rightarrow> http_request \<Rightarrow> ('r, 'cs) api_state \<Rightarrow> ('r, 'cs) http_result" where
  "handleIsOnline grpc me rq st =
     guards me MethodGet rq st
       (let uid = values_Get ''uid'' (rq_Query rq)
        in if uid = [] then reply 400 (TextBody ''uid is required'') st
           else obind (IsOnline grpc me uid (snd st)) (\<lambda>online. reply 200 (OnlineBody online) st))"

definition handleKickUser :: "(u64 \<Rightarrow> delivery) \<Rightarrow> u64 \<Rightarrow> http_request \<Rightarrow> ('r, 'cs) api_state \<Rightarrow> ('r, 'cs) http_result" where
  "handleKickUser grpc me rq st =
     guards me MethodGet rq st
       (let uid = values_Get ''uid'' (rq_Query rq)
        in if uid = [] then reply 400 (TextBody ''uid is required'') st
           else obind (KickUser grpc me uid (snd st)) (\<lambda>w'. reply 200 (TextBody ''ok'') (fst st, w')))"

definition handleKickNode ::
  "go_error option \<Rightarrow> u64 \<Rightarrow> http_request \<Rightarrow> ('r, 'cs) api_state \<Rightarrow> ('r, 'cs) http_result" where
  "handleKickNode propose_err me rq st =
     guards me MethodPost rq st
       (need 400 st (rq_Kick rq) (\<lambda>i.
          if i = 0 then reply 400 (TextBody ''id is required'') st
          else let nd = the (snd st me);
                   (err, c) = KickBroker propose_err i (node_cluster nd);
                   st' = (fst st, (snd st)(me \<mapsto> nd\<lparr>node_cluster := c\<rparr>))
               in case err of
                    Some e \<Rightarrow> reply 500 (ErrorBody e) st'
                  | None \<Rightarrow> reply 200 (TextBody ''ok'') st'))"

definition send_reply ::
  "('r, 'cs) api_state \<Rightarrow> (go_error, (u32 \<times> u32) \<times> 'cs world) outcome \<Rightarrow> ('r, 'cs) http_result" where
  "send_reply st res =
     need 500 st res (\<lambda>((total, success), w'). reply 200 (ResultBody total success) (fst st, w'))"

definition handleSendToAll ::
  "(u64 \<Rightarrow> delivery) \<Rightarrow> ctx \<Rightarrow> u64 \<Rightarrow> http_request \<Rightarrow> ('r, 'cs) api_state \<Rightarrow> ('r, 'cs) http_result" where
  "handleSendToAll grpc cx me rq st =
     guards me MethodPost rq st
       (need 400 st (parseMessage rq) (\<lambda>msg. send_reply st (booter_SendToAll grpc cx me msg (snd st))))"

definition handleSendToUser ::
  "(u64 \<Rightarrow> delivery) \<Rightarrow> ctx \<Rightarrow> u64 \<Rightarrow> http_request \<Rightarrow> ('r, 'cs) api_state \<Rightarrow> ('r, 'cs) http_result" where
  "handleSendToUser grpc cx me rq st =
     guards me MethodPost rq st
       (let uid = values_Get ''message-uid'' (rq_Header rq)
        in if uid = [] then reply 400 (TextBody ''uid is required'') st
           else need 400 st (parseMessage rq) (\<lambda>msg. send_reply st (booter_SendToUser grpc cx me uid msg (snd st))))"

definition handleSendToChannel ::
  "(u64 \<Rightarrow> delivery) \<Rightarrow> ctx \<Rightarrow> u64 \<Rightarrow> http_request \<Rightarrow> ('r, 'cs) api_state \<Rightarrow> ('r, 'cs) http_result" where
  "handleSendToChannel grpc cx me rq st =
     guards me MethodPost rq st
       (let channel = values_Get ''message-channel'' (rq_Header rq)
        in if channel = [] then reply 400 (TextBody ''channel is required'') st
           else need 400 st (parseMessage rq) (\<lambda>msg. send_reply st (booter_SendToChannel grpc cx me channel msg (snd st))))"

text \<open>
  The end that \<open>handleJoinChannel\<close> and \<open>handleLeaveChannel\<close> share: what the operation changed before it
  failed stays.
\<close>

definition channel_reply ::
  "u64 \<Rightarrow> ('r booter \<times> 'cs node \<Rightarrow> (go_error, go_error option \<times> 'r booter \<times> 'cs node) outcome) \<Rightarrow>
     ('r, 'cs) api_state \<Rightarrow> ('r, 'cs) http_result" where
  "channel_reply me f st =
     need 500 st (f (fst st, the (snd st me))) (\<lambda>(err, b', nd').
       let st' = (b', (snd st)(me \<mapsto> nd'))
       in case err of Some e \<Rightarrow> reply 500 (ErrorBody e) st' | None \<Rightarrow> reply 200 (TextBody ''ok'') st')"

definition handleJoinChannel ::
  "'r services \<Rightarrow> u64 \<Rightarrow> http_request \<Rightarrow> ('r, 'cs) api_state \<Rightarrow> ('r, 'cs) http_result" where
  "handleJoinChannel sv me rq st =
     guards me MethodPost rq st
       (need 400 st (rq_Join rq) (\<lambda>(uid, channels).
          if uid = [] then reply 400 (TextBody ''uid is required'') st
          else if channels = [] then reply 400 (TextBody ''channels is required'') st
          else channel_reply me (booter_JoinChannel sv uid channels) st))"

definition handleLeaveChannel ::
  "'r services \<Rightarrow> u64 \<Rightarrow> http_request \<Rightarrow> ('r, 'cs) api_state \<Rightarrow> ('r, 'cs) http_result" where
  "handleLeaveChannel sv me rq st =
     guards me MethodPost rq st
       (need 400 st (rq_Join rq) (\<lambda>(uid, channels).
          if uid = [] then reply 400 (TextBody ''uid is required'') st
          else if channels = [] then reply 400 (TextBody ''channels is required'') st
          else channel_reply me (booter_LeaveChannel sv uid channels) st))"

definition handleListChannels ::
  "'r services \<Rightarrow> u64 \<Rightarrow> http_request \<Rightarrow> ('r, 'cs) api_state \<Rightarrow> ('r, 'cs) http_result" where
  "handleListChannels sv me rq st =
     guards me MethodGet rq st
       (let uid = values_Get ''uid'' (rq_Query rq)
        in if uid = [] then reply 400 (TextBody ''uid is required'') st
           else need 500 st (ListChannels sv uid (fst st)) (\<lambda>channels. reply 200 (ChannelsBody channels) st))"

definition handleListUsers :: "u64 \<Rightarrow> http_request \<Rightarrow> ('r, 'cs) api_state \<Rightarrow> ('r, 'cs) http_result" where
  "handleListUsers me rq st =
     guards me MethodGet rq st
       (case go_ParseUint 64 (values_Get ''nodeId'' (rq_Query rq)) of
          None \<Rightarrow> reply 400 (ErrorBody (OtherError ''invalid syntax'')) st
        | Some n \<Rightarrow> need 500 st (ListUsers (of_nat n) (the (snd st me))) (\<lambda>users. reply 200 (UsersBody users) st))"

text \<open>The routes of \<open>newHTTP\<close>, without the pages of the documentation; any other path is not found.\<close>

definition serveHTTP ::
  "'r services \<Rightarrow> (u64 \<Rightarrow> delivery) \<Rightarrow> ctx \<Rightarrow> go_error option \<Rightarrow> u64 \<Rightarrow> string \<Rightarrow> http_request \<Rightarrow>
     ('r, 'cs) api_state \<Rightarrow> ('r, 'cs) http_result" where
  "serveHTTP sv grpc cx propose_err me path rq st =
     (if path = ''/health'' then handleHealth me rq st
      else if path = ''/inspect'' then handleInspect grpc me rq st
      else if path = ''/isOnline'' then handleIsOnline grpc me rq st
      else if path = ''/kickUser'' then handleKickUser grpc me rq st
      else if path = ''/kickNode'' then handleKickNode propose_err me rq st
      else if path = ''/sendToAll'' then handleSendToAll grpc cx me rq st
      else if path = ''/sendToUser'' then handleSendToUser grpc cx me rq st
      else if path = ''/sendToChannel'' then handleSendToChannel grpc cx me rq st
      else if path = ''/joinChannel'' then handleJoinChannel sv me rq st
      else if path = ''/leaveChannel'' then handleLeaveChannel sv me rq st
      else if path = ''/listChannels'' then handleListChannels sv me rq st
      else if path = ''/listUsers'' then handleListUsers me rq st
      else reply 404 (TextBody ''404 page not found'') st)"

section \<open>The gRPC service\<close>

text \<open>
  A method that returns an error has not changed anything, apart from those whose operation can fail
  half way: their error is part of the answer. \<open>packet.MessageKind(req.Kind)\<close> keeps the low byte.
\<close>

type_synonym ('r, 'cs, 'a) service = "('r, 'cs) api_state \<Rightarrow> (go_error, 'a \<times> ('r, 'cs) api_state) outcome"

definition grpc_IsOnline :: "(u64 \<Rightarrow> delivery) \<Rightarrow> u64 \<Rightarrow> gostring \<Rightarrow> ('r, 'cs, bool) service" where
  "grpc_IsOnline grpc me uid st = omap (\<lambda>ok. (ok, st)) (IsOnline grpc me uid (snd st))"

definition grpc_KickUser :: "(u64 \<Rightarrow> delivery) \<Rightarrow> u64 \<Rightarrow> gostring \<Rightarrow> ('r, 'cs, unit) service" where
  "grpc_KickUser grpc me uid st = omap (\<lambda>w'. ((), fst st, w')) (KickUser grpc me uid (snd st))"

text \<open>The error of \<open>KickBroker\<close> is dropped.\<close>

definition grpc_KickNode :: "go_error option \<Rightarrow> u64 \<Rightarrow> u64 \<Rightarrow> ('r, 'cs, unit) service" where
  "grpc_KickNode propose_err me i st =
     (let nd = the (snd st me)
      in Ok ((), fst st, (snd st)(me \<mapsto> nd\<lparr>node_cluster := snd (KickBroker propose_err i (node_cluster nd))\<rparr>)))"

definition req_message :: "u32 \<Rightarrow> bytes \<Rightarrow> message" where
  "req_message kind payload = \<lparr>message_props = [], Kind = ucast kind, Payload = payload\<rparr>"

definition grpc_SendToAll :: "(u64 \<Rightarrow> delivery) \<Rightarrow> ctx \<Rightarrow> u64 \<Rightarrow> u32 \<Rightarrow> bytes \<Rightarrow> ('r, 'cs, u32 \<times> u32) service" where
  "grpc_SendToAll grpc cx me kind payload st =
     omap (\<lambda>(n, w'). (n, fst st, w')) (booter_SendToAll grpc cx me (req_message kind payload) (snd st))"

definition grpc_SendToUser ::
  "(u64 \<Rightarrow> delivery) \<Rightarrow> ctx \<Rightarrow> u64 \<Rightarrow> gostring \<Rightarrow> u32 \<Rightarrow> bytes \<Rightarrow> ('r, 'cs, u32 \<times> u32) service" where
  "grpc_SendToUser grpc cx me uid kind payload st =
     omap (\<lambda>(n, w'). (n, fst st, w')) (booter_SendToUser grpc cx me uid (req_message kind payload) (snd st))"

definition grpc_SendToChannel ::
  "(u64 \<Rightarrow> delivery) \<Rightarrow> ctx \<Rightarrow> u64 \<Rightarrow> gostring \<Rightarrow> u32 \<Rightarrow> bytes \<Rightarrow> ('r, 'cs, u32 \<times> u32) service" where
  "grpc_SendToChannel grpc cx me channel kind payload st =
     omap (\<lambda>(n, w'). (n, fst st, w')) (booter_SendToChannel grpc cx me channel (req_message kind payload) (snd st))"

definition grpc_JoinChannel ::
  "'r services \<Rightarrow> u64 \<Rightarrow> gostring \<Rightarrow> (gostring, gostring) gomap \<Rightarrow> ('r, 'cs, go_error option) service" where
  "grpc_JoinChannel sv me uid channels st =
     omap (\<lambda>(err, b', nd'). (err, b', (snd st)(me \<mapsto> nd'))) (booter_JoinChannel sv uid channels (fst st, the (snd st me)))"

definition grpc_LeaveChannel ::
  "'r services \<Rightarrow> u64 \<Rightarrow> gostring \<Rightarrow> (gostring, gostring) gomap \<Rightarrow> ('r, 'cs, go_error option) service" where
  "grpc_LeaveChannel sv me uid channels st =
     omap (\<lambda>(err, b', nd'). (err, b', (snd st)(me \<mapsto> nd'))) (booter_LeaveChannel sv uid channels (fst st, the (snd st me)))"

definition grpc_ListChannels ::
  "'r services \<Rightarrow> gostring \<Rightarrow> ('r, 'cs, (gostring, gostring) gomap) service" where
  "grpc_ListChannels sv uid st = omap (\<lambda>channels. (channels, st)) (ListChannels sv uid (fst st))"

definition grpc_StartListener :: "(u64 \<Rightarrow> delivery) \<Rightarrow> u64 \<Rightarrow> gostring \<Rightarrow> ('r, 'cs, go_error option) service" where
  "grpc_StartListener grpc me net st = omap (\<lambda>(err, w'). (err, fst st, w')) (StartListener grpc me net (snd st))"

definition grpc_StopListener ::
  "(u64 \<Rightarrow> delivery) \<Rightarrow> (u64 \<Rightarrow> go_error option) \<Rightarrow> u64 \<Rightarrow> gostring \<Rightarrow> ('r, 'cs, go_error option) service" where
  "grpc_StopListener grpc transport_err me net st =
     omap (\<lambda>(err, w'). (err, fst st, w')) (StopListener grpc transport_err me net (snd st))"

section \<open>The client of the service\<close>

record api_client =
  api_addr :: gostring
  api_ready :: bool
  api_conn :: bool

definition NewClient :: "gostring \<Rightarrow> api_client" where
  "NewClient addr = \<lparr>api_addr = addr, api_ready = False, api_conn = False\<rparr>"

text \<open>\<open>Connect\<close>; \<open>fails\<close> is the error of \<open>grpc.NewClient\<close>. The result says whether a new attempt is set.\<close>

definition api_Connect :: "go_error option \<Rightarrow> api_client \<Rightarrow> bool \<times> api_client" where
  "api_Connect fails c =
     (if api_ready c then (False, c)
      else case fails of
             Some e \<Rightarrow> (True, c)
           | None \<Rightarrow> (False, c\<lparr>api_conn := True, api_ready := True\<rparr>))"

definition api_Close :: "api_client \<Rightarrow> api_client" where
  "api_Close c = (if api_ready c then c\<lparr>api_ready := False, api_conn := False\<rparr> else c)"

definition ErrClientNotReady :: go_error where
  "ErrClientNotReady = OtherError ''client not ready''"

text \<open>What every method does with its request.\<close>

definition api_rpc ::
  "delivery \<Rightarrow> api_client \<Rightarrow> ('r, 'cs, 'a) service \<Rightarrow> ('r, 'cs) api_state \<Rightarrow>
     (go_error, (go_error, 'a) outcome \<times> ('r, 'cs) api_state) outcome" where
  "api_rpc call c h st =
     (if \<not> api_ready c then Ok (Err ErrClientNotReady, st)
      else case call of
             Answered k \<Rightarrow> handle_times (Suc k) h st
           | Failed k e \<Rightarrow> omap (\<lambda>(_, st'). (Err e, st')) (handle_times k h st))"

definition error_result ::
  "(go_error, (go_error, go_error option) outcome \<times> 's) outcome \<Rightarrow> (go_error, (go_error, unit) outcome \<times> 's) outcome" where
  "error_result res =
     omap (\<lambda>(r, st). (case r of Ok None \<Rightarrow> Ok () | Ok (Some e) \<Rightarrow> Err e | Err e \<Rightarrow> Err e | Panic \<Rightarrow> Panic, st)) res"

definition api_IsOnline where
  "api_IsOnline call c grpc me uid st = api_rpc call c (grpc_IsOnline grpc me uid) st"

definition api_KickUser where
  "api_KickUser call c grpc me uid st = api_rpc call c (grpc_KickUser grpc me uid) st"

definition api_KickNode where
  "api_KickNode call c propose_err me i st = api_rpc call c (grpc_KickNode propose_err me i) st"

definition api_SendToAll where
  "api_SendToAll call c grpc cx me kind payload st =
     api_rpc call c (grpc_SendToAll grpc cx me (ucast (kind :: byte)) payload) st"

definition api_SendToUser where
  "api_SendToUser call c grpc cx me uid kind payload st =
     api_rpc call c (grpc_SendToUser grpc cx me uid (ucast (kind :: byte)) payload) st"

definition api_SendToChannel where
  "api_SendToChannel call c grpc cx me channel kind payload st =
     api_rpc call c (grpc_SendToChannel grpc cx me channel (ucast (kind :: byte)) payload) st"

definition api_JoinChannel where
  "api_JoinChannel call c sv me uid channels st = error_result (api_rpc call c (grpc_JoinChannel sv me uid channels) st)"

definition api_LeaveChannel where
  "api_LeaveChannel call c sv me uid channels st = error_result (api_rpc call c (grpc_LeaveChannel sv me uid channels) st)"

definition api_ListChannels where
  "api_ListChannels call c sv uid st = api_rpc call c (grpc_ListChannels sv uid) st"

definition api_StartListener where
  "api_StartListener call c grpc me net st = error_result (api_rpc call c (grpc_StartListener grpc me net) st)"

definition api_StopListener where
  "api_StopListener call c grpc transport_err me net st =
     error_result (api_rpc call c (grpc_StopListener grpc transport_err me net) st)"

end
