(* ===== verification/Api_Safety.thy ===== *)
theory Api_Safety
  imports Api
begin

text \<open>
  What the interfaces promise: which requests can change anything, that a message sent through HTTP
  reaches the clients of its user, and that HTTP and gRPC do the same.
\<close>

section \<open>Replies\<close>

text \<open>
  The contract of one handler: which codes it can answer, that a request refused as such changes
  nothing, and neither does any request to a node that is not ready.
\<close>

definition well_behaved ::
  "u64 \<Rightarrow> gostring \<Rightarrow> http_request \<Rightarrow> ('r, 'cs) api_state \<Rightarrow> ('r, 'cs) http_result \<Rightarrow> bool" where
  "well_behaved me meth rq st res \<longleftrightarrow>
     (\<forall>r st'. res = Ok (r, st') \<longrightarrow>
        reply_Code r \<in> {200, 400, 405, 500} \<and>
        (reply_Code r \<in> {400, 405} \<longrightarrow> st' = st) \<and>
        (\<not> http_ready me (snd st) \<longrightarrow> reply_Code r = 500 \<and> st' = st) \<and>
        (http_ready me (snd st) \<and> rq_Method rq \<noteq> meth \<longrightarrow> reply_Code r = 405 \<and> st' = st))"

lemma well_behavedD:
  assumes "well_behaved me meth rq st res" and "res = Ok (r, st')"
  shows "reply_Code r \<in> {200, 400, 405, 500}" and "reply_Code r \<in> {400, 405} \<longrightarrow> st' = st"
    and "\<not> http_ready me (snd st) \<longrightarrow> reply_Code r = 500 \<and> st' = st"
    and "http_ready me (snd st) \<and> rq_Method rq \<noteq> meth \<longrightarrow> reply_Code r = 405 \<and> st' = st"
  using assms unfolding well_behaved_def by blast+

definition behaves :: "('r, 'cs) api_state \<Rightarrow> ('r, 'cs) http_result \<Rightarrow> bool" where
  "behaves st res \<longleftrightarrow> (\<forall>r st'. res = Ok (r, st') \<longrightarrow>
     reply_Code r \<in> {200, 400, 500} \<and> (reply_Code r = 400 \<longrightarrow> st' = st))"

lemma behaves_reply: "code \<in> {200, 500} \<or> code = 400 \<and> st' = st \<Longrightarrow> behaves st (reply code b st')"
  by (auto simp: behaves_def reply_def)

lemma behaves_need:
  "code \<in> {400, 500} \<Longrightarrow> (\<And>x. v = Ok x \<Longrightarrow> behaves st (rest x)) \<Longrightarrow> behaves st (need code st v rest)"
  by (cases v) (auto simp: behaves_def need_def reply_def)

lemma behaves_obind: "(\<And>x. v = Ok x \<Longrightarrow> behaves st (rest x)) \<Longrightarrow> behaves st (obind v rest)"
  by (cases v) (auto simp: behaves_def)

lemma behaves_if: "(c \<Longrightarrow> behaves st a) \<Longrightarrow> (\<not> c \<Longrightarrow> behaves st b) \<Longrightarrow> behaves st (if c then a else b)"
  by simp

lemma guards_well_behaved: "behaves st rest \<Longrightarrow> well_behaved me meth rq st (guards me meth rq st rest)"
  by (auto simp: well_behaved_def behaves_def guards_def reply_def)

lemma send_reply_behaves: "behaves st (send_reply st res)"
  unfolding send_reply_def by (intro behaves_need) (auto intro: behaves_reply)

lemma channel_reply_behaves: "behaves st (channel_reply me f st)"
  unfolding channel_reply_def
  by (intro behaves_need) (auto intro: behaves_reply simp: Let_def split: prod.splits option.splits)

lemmas behaves = behaves_reply behaves_need behaves_obind behaves_if send_reply_behaves channel_reply_behaves

lemma handlers_well_behaved:
  "well_behaved me MethodGet rq st (handleIsOnline grpc me rq st)"
  "well_behaved me MethodGet rq st (handleKickUser grpc me rq st)"
  "well_behaved me MethodPost rq st (handleKickNode propose_err me rq st)"
  "well_behaved me MethodPost rq st (handleSendToAll grpc cx me rq st)"
  "well_behaved me MethodPost rq st (handleSendToUser grpc cx me rq st)"
  "well_behaved me MethodPost rq st (handleSendToChannel grpc cx me rq st)"
  "well_behaved me MethodPost rq st (handleJoinChannel sv me rq st)"
  "well_behaved me MethodPost rq st (handleLeaveChannel sv me rq st)"
  "well_behaved me MethodGet rq st (handleListChannels sv me rq st)"
  "well_behaved me MethodGet rq st (handleListUsers me rq st)"
  unfolding handleIsOnline_def handleKickUser_def handleKickNode_def handleSendToAll_def handleSendToUser_def
    handleSendToChannel_def handleJoinChannel_def handleLeaveChannel_def handleListChannels_def handleListUsers_def
  by (rule guards_well_behaved; auto intro!: behaves simp: Let_def split: prod.splits option.splits)+

lemma readers_keep:
  "handleHealth me rq st = Ok (r, st') \<Longrightarrow> st' = st"
  "handleInspect grpc me rq st = Ok (r, st') \<Longrightarrow> st' = st"
  "handleIsOnline grpc me rq st = Ok (r, st') \<Longrightarrow> st' = st"
  "handleListChannels sv me rq st = Ok (r, st') \<Longrightarrow> st' = st"
  "handleListUsers me rq st = Ok (r, st') \<Longrightarrow> st' = st"
  by (auto simp: handleHealth_def handleInspect_def handleIsOnline_def handleListChannels_def handleListUsers_def
    guards_def need_def reply_def Let_def outcome_Ok_obind split: if_splits outcome.splits option.splits)

lemma method_names: "MethodGet \<noteq> MethodPost"
  by (simp add: MethodGet_def MethodPost_def gs_inj)

lemma if_cases: "(if c then a else b) = x \<Longrightarrow> (c \<Longrightarrow> a = x \<Longrightarrow> P) \<Longrightarrow> (\<not> c \<Longrightarrow> b = x \<Longrightarrow> P) \<Longrightarrow> P"
  by (simp split: if_splits)

lemma open_handlers:
  "handleHealth me rq st = Ok (r, st') \<Longrightarrow>
     reply_Code r \<in> {200, 500} \<and> (\<not> http_ready me (snd st) \<longrightarrow> reply_Code r = 500)"
  "handleInspect grpc me rq st = Ok (r, st') \<Longrightarrow> reply_Code r \<in> {200, 500}"
  by (auto simp: handleHealth_def handleInspect_def need_def reply_def split: if_splits outcome.splits)


text \<open>A GET of \<open>/sendToAll\<close> on a ready node.\<close>

definition demo_request :: "gostring \<Rightarrow> http_values \<Rightarrow> bytes \<Rightarrow> http_request" where
  "demo_request meth header body =
     \<lparr>rq_Method = meth, rq_Query = [], rq_Header = header, rq_Body = Ok body,
      rq_Kick = Err (OtherError ''EOF''), rq_Join = Err (OtherError ''EOF'')\<rparr>"

definition demo_ready :: "unit world" where
  "demo_ready = map_option (\<lambda>nd. nd\<lparr>node_cluster := (node_cluster nd)\<lparr>ready := True\<rparr>\<rparr>) \<circ> demo_world"


section \<open>Sending\<close>

lemma parseMessage_decimal:
  assumes "n < 256" and "values_Get ''message-kind'' (rq_Header rq) = itoa n" and "rq_Body rq = Ok payload"
  shows "parseMessage rq = Ok \<lparr>message_props = [], Kind = of_nat n, Payload = payload\<rparr>"
  using assms by (simp add: parseMessage_def ParseKind_itoa)

text \<open>
  A message posted to \<open>/sendToUser\<close> with a kind in decimal arrives: every client of the user gets a
  message with that kind and the body of the request exactly once, on whatever node it is connected,
  nothing else changes, and the reply counts the clients.
\<close>

theorem http_send_delivers:
  assumes rq: "rq_Method rq = MethodPost" "values_Get ''message-uid'' (rq_Header rq) = uid" "uid \<noteq> []"
      "values_Get ''message-kind'' (rq_Header rq) = itoa n" "n < 256" "rq_Body rq = Ok payload"
    and m: "m = \<lparr>message_props = [], Kind = of_nat n, Payload = payload\<rparr>" "sendable (PMessage m)"
    and nd: "w me = Some nd" "node_id nd = me" "ready (node_cluster nd)" "NMap_ok (userClients (node_broker nd))"
    and reach: "\<forall>n cid net. NGet n uid cid (userClients (node_broker nd)) = Some net \<longrightarrow>
      reaches grpc (node_cluster nd) n \<and> w n \<noteq> None"
    and open_conns: "\<forall>n nd'. w n = Some nd' \<longrightarrow>
      ready_for {(net, cid). NGet n uid cid (userClients (node_broker nd)) = Some net} nd'"
  shows "\<exists>w'. serveHTTP sv grpc background propose_err me ''/sendToUser'' rq (b, w) =
      Ok (\<lparr>reply_Code = 200, reply_Body =
        ResultBody (of_nat (card {(n, cid). NGet n uid cid (userClients (node_broker nd)) \<noteq> None}))
          (of_nat (card {(n, cid). NGet n uid cid (userClients (node_broker nd)) \<noteq> None}))\<rparr>, b, w') \<and>
    delivered_all m (\<lambda>n. {(net, cid). NGet n uid cid (userClients (node_broker nd)) = Some net}) w w'"
proof -
  let ?k = "of_nat (card {(n, cid). NGet n uid cid (userClients (node_broker nd)) \<noteq> None})"
  obtain w' where w': "SendToUser grpc background me uid m w = Ok ((?k, ?k), w')"
    "delivered_all m (\<lambda>n. {(net, cid). NGet n uid cid (userClients (node_broker nd)) = Some net}) w w'"
    using to_user.fan_out_delivers [OF m(2) nd(4,2), of uid grpc w] nd reach open_conns rq(3)
    by (auto simp: SendToUser_def)
  have "parseMessage rq = Ok m" using parseMessage_decimal [OF rq(5,4,6)] m(1) by simp
  then have "handleSendToUser grpc background me rq (b, w) =
      Ok (\<lparr>reply_Code = 200, reply_Body = ResultBody ?k ?k\<rparr>, b, w')"
    using rq(1-3) nd(1,3) w'(1)
    by (simp add: handleSendToUser_def guards_def http_ready_def need_def send_reply_def booter_sends reply_def)
  with w'(2) show ?thesis by (simp add: serveHTTP_def)
qed

text \<open>One user with one client, on the other node than the one asked.\<close>

lemma demo_ready_node:
  "demo_ready n = Some nd \<longleftrightarrow> (\<exists>nd0. demo_world n = Some nd0 \<and> nd = nd0\<lparr>node_cluster := (node_cluster nd0)\<lparr>ready := True\<rparr>\<rparr>)"
  by (auto simp: demo_ready_def)

lemma ready_for_ready: "ready_for T (nd\<lparr>node_cluster := c\<rparr>) = ready_for T nd"
  by (simp add: ready_for_def node_inv_def conn_at_def started_server_def)

theorem http_send_delivers_witness:
  "\<exists>w'. serveHTTP no_services (\<lambda>_. Answered 0) background None 2 ''/sendToUser''
       (demo_request MethodPost [(gs ''message-uid'', gs ''u''), (gs ''message-kind'', itoa 7)] [5]) (demo_booter, demo_ready) =
     Ok (\<lparr>reply_Code = 200, reply_Body = ResultBody 1 1\<rparr>, demo_booter, w')"
proof -
  let ?rq = "demo_request MethodPost [(gs ''message-uid'', gs ''u''), (gs ''message-kind'', itoa 7)] [5]"
  let ?m = "\<lparr>message_props = [], Kind = of_nat 7, Payload = [5 :: byte]\<rparr>"
  let ?nd = "(demo_node 2)\<lparr>node_cluster := (node_cluster (demo_node 2))\<lparr>ready := True\<rparr>\<rparr>"
  have rq: "rq_Method ?rq = MethodPost" "values_Get ''message-uid'' (rq_Header ?rq) = gs ''u''" "gs ''u'' \<noteq> []"
    "values_Get ''message-kind'' (rq_Header ?rq) = itoa 7" "(7 :: nat) < 256" "rq_Body ?rq = Ok [5]"
    by (simp_all add: demo_request_def values_Get_def gs_inj) (simp add: gs_def)
  have m: "sendable (PMessage ?m)"
    by (simp add: sendable_def u8map_ok_def message_wire_def u8map_wire_def MAX_LEN_def)
  have nd: "demo_ready 2 = Some ?nd" "node_id ?nd = 2" "ready (node_cluster ?nd)" "NMap_ok (userClients (node_broker ?nd))"
    "node_broker ?nd = demo_broker"
    using demo_tables by (simp_all add: demo_ready_def demo_world_def)
  have reach: "\<forall>n cid net. NGet n (gs ''u'') cid (userClients (node_broker ?nd)) = Some net \<longrightarrow>
      reaches (\<lambda>_. Answered 0) (node_cluster ?nd) n \<and> demo_ready n \<noteq> None"
    using demo_reaches by (auto simp: nd(5) demo_NGet demo_ready_def demo_world_def reaches_def GetPeer_def split: if_splits)
  have conns: "\<forall>n nd'. demo_ready n = Some nd' \<longrightarrow>
      ready_for {(net, cid). NGet n (gs ''u'') cid (userClients (node_broker ?nd)) = Some net} nd'"
    using demo_node_inv demo_conn_at demo_idle(2)
    by (auto simp: nd(5) demo_ready_node demo_world_def ready_for_ready)
      (auto simp: ready_for_def demo_NGet split: if_splits)
  have card: "card {(n, cid). NGet n (gs ''u'') cid (userClients (node_broker ?nd)) \<noteq> None} = 1"
    by (simp only: nd(5)) (auto simp: demo_NGet intro!: demo_card)
  from http_send_delivers [OF rq refl m nd(1-4) reach conns, of no_services None demo_booter] show ?thesis
    unfolding card by auto
qed



text \<open>
  A kind above 255 is an error for HTTP, and another kind for gRPC: the service keeps its low byte.
\<close>

theorem kinds_over_255:
  assumes "256 \<le> n" and "n < 2 ^ 31"
  shows "ParseKind (itoa n) = Err (OtherError ''invalid message kind'') \<and>
    req_message (of_nat n) payload = req_message (of_nat (n mod 256)) payload"
proof -
  have "hd (itoa n) \<in> set (itoa n)" using itoa_nonempty [of n] by simp
  then have "0x30 \<le> hd (itoa n)" by (blast dest: itoa_digits)
  then have "hd (itoa n) \<noteq> 0x2B" "hd (itoa n) \<noteq> 0x2D" by auto
  then have "go_ParseInt 32 (itoa n) = Some (int n)"
    using assms ParseUint_itoa [of n 32] itoa_nonempty [of n]
    by (cases "itoa n") (simp_all add: go_ParseInt_def)
  moreover have low: "n mod 256 = take_bit 8 n" by (simp add: take_bit_eq_mod)
  have "(ucast (of_nat n :: u32) :: byte) = ucast (of_nat (n mod 256) :: u32)"
    by (rule bit_word_eqI) (simp add: bit_simps low)
  ultimately show ?thesis using assms(1) by (simp add: ParseKind_def TrimSpace_itoa req_message_def)
qed

theorem kinds_over_255_witness:
  "ParseKind (itoa 257) = Err (OtherError ''invalid message kind'') \<and> req_message 257 [] = req_message 1 []"
  using kinds_over_255 [of 257 "[]"] by simp

section \<open>Channels\<close>

text \<open>
  Without Redis a join is answered with success, and nothing happens, neither in the registry nor
  anywhere else.
\<close>

theorem join_without_redis:
  assumes "bt_redis b = None" and "http_ready me w" and "rq_Method rq = MethodPost"
    and "rq_Join rq = Ok (uid, channels)" and "uid \<noteq> []" and "channels \<noteq> []" and "w me = Some nd"
  shows "serveHTTP sv grpc cx propose_err me ''/joinChannel'' rq (b, w) =
    Ok (\<lparr>reply_Code = 200, reply_Body = TextBody ''ok''\<rparr>, b, w)"
  using assms
  by (simp add: serveHTTP_def handleJoinChannel_def guards_def need_def channel_reply_def booter_JoinChannel_def
    reply_def fun_upd_idem)

theorem join_without_redis_witness:
  "serveHTTP no_services (\<lambda>_. Answered 0) background None 2 ''/joinChannel''
     ((demo_request MethodPost [] [])\<lparr>rq_Join := Ok (gs ''u'', [(gs ''room'', [])])\<rparr>) (demo_booter, demo_ready) =
   Ok (\<lparr>reply_Code = 200, reply_Body = TextBody ''ok''\<rparr>, demo_booter, demo_ready)"
  by (rule join_without_redis [where channels = "[(gs ''room'', [])]" and uid = "gs ''u''"])
    (simp_all add: demo_booter_def http_ready_def demo_ready_def demo_world_def demo_request_def gs_def)

end
