(* ===== verification/Transport.thy ===== *)
theory Transport
  imports Server_Safety
begin

text \<open>
  The transports of src/internal/network over the server: transport_tcp.go, transport_ws.go,
  transport_quic.go and transport_udp.go, with \<open>getRealIP\<close> of conn.go.

  An incoming connection carries the bytes on the wire in the chunks in which they can be read, and what
  the layer above delivers of them (TLS, the payload of WebSocket frames, a QUIC stream). A session is
  what \<open>handleConn\<close> does with one connection. It hands every packet to a goroutine of its own, so the
  order in which the packets are handled, and the close of the connection among them, is up to the
  scheduler: it is the argument \<open>sched\<close>. A panic in the session of a WebSocket is caught by \<open>net/http\<close>,
  which runs it and drops the connection; one in the goroutine of a packet is not.
\<close>

section \<open>Constructors\<close>

text \<open>The flag says whether the field \<open>delegate\<close> is set.\<close>

datatype transport =
  transportTCP "tls_config option" bool
| transportWebSocket "tls_config option" bool
| transportQUIC "tls_config option" bool
| transportUDP bool

definition NewTCP :: transport where
  "NewTCP = transportTCP None True"

definition NewTLS :: "tls_config option \<Rightarrow> (go_error, transport) outcome" where
  "NewTLS cfg = omap (\<lambda>_. transportTCP cfg True) (assertTLS cfg)"

definition NewWS :: transport where
  "NewWS = transportWebSocket None True"

definition NewWSS :: "tls_config option \<Rightarrow> (go_error, transport) outcome" where
  "NewWSS cfg = omap (\<lambda>_. transportWebSocket cfg True) (assertTLS cfg)"

definition NewUDP :: transport where
  "NewUDP = transportUDP True"

text \<open>\<open>NewQUIC\<close> stores the configuration and a logger, and not the delegate.\<close>

definition NewQUIC :: "tls_config option option \<Rightarrow> (go_error, transport) outcome" where
  "NewQUIC cfg =
     (case cfg of None \<Rightarrow> Panic | Some t \<Rightarrow> omap (\<lambda>_. transportQUIC t False) (assertTLS t))"

text \<open>The switch of \<open>server.New\<close>.\<close>

definition transport_of :: "options \<Rightarrow> (go_error, transport) outcome" where
  "transport_of opt =
     (if network opt = NetworkWS then Ok NewWS
      else if network opt = NetworkWSS then NewWSS (tlsConfig opt)
      else if network opt = NetworkTCP then Ok NewTCP
      else if network opt = NetworkTLS then NewTLS (tlsConfig opt)
      else if network opt = NetworkUDP then Ok NewUDP
      else if network opt = NetworkQUIC then NewQUIC (quicConfig opt)
      else Panic)"

lemma transport_of_checks: "New_transport opt = omap (\<lambda>_. ()) (transport_of opt)"
  by (auto simp: New_transport_def transport_of_def NewWSS_def NewTLS_def NewQUIC_def assertTLS_def
    split: option.splits)

text \<open>
  \<open>Listen\<close>: the error when the socket cannot be opened, which \<open>transportQUIC\<close> drops. \<open>Close\<close> on a
  transport that is not listening uses a nil pointer; \<open>transportQUIC\<close> never stores its endpoint, and what
  \<open>Close\<close> of a nil endpoint of that library does is the argument \<open>nil_Close\<close>.
\<close>

fun Listen_failed :: "go_error \<Rightarrow> transport \<Rightarrow> go_error option" where
  "Listen_failed e (transportQUIC _ _) = None"
| "Listen_failed e _ = Some e"

fun transport_Close ::
  "(go_error, go_error option) outcome \<Rightarrow> bool \<Rightarrow> go_error option \<Rightarrow> transport \<Rightarrow> (go_error, go_error option) outcome" where
  "transport_Close nil_Close listening err (transportQUIC _ _) = nil_Close"
| "transport_Close nil_Close listening err _ = (if listening then Ok err else Panic)"

section \<open>Incoming connections\<close>

record incoming =
  in_wire :: "bytes list"
  in_payload :: "bytes list"
  in_addr :: gostring
  in_ip :: gostring
  in_realip :: gostring

definition ws_Handshake :: "gostring list \<Rightarrow> (go_error, unit) outcome" where
  "ws_Handshake protocols =
     (case protocols of
        [] \<Rightarrow> Panic
      | p # _ \<Rightarrow> if p \<noteq> gs ''cable'' then Err (OtherError ''invalid protocol'') else Ok ())"

text \<open>\<open>header\<close> is the value of \<open>X-Real-IP\<close>, empty when there is none.\<close>

definition getRealIP :: "gostring \<Rightarrow> gostring \<Rightarrow> gostring" where
  "getRealIP header addr = (if header = [] then getAddrIp addr else header)"

text \<open>
  What \<open>handleConn\<close> reads from and the address it reports. The loop of \<open>transportTCP.Listen\<close> calls \<open>Accept\<close>
  of the plain listener, also when it has made a TLS listener of it.
\<close>

fun accepted :: "transport \<Rightarrow> incoming \<Rightarrow> bytes list" where
  "accepted (transportTCP _ _) inc = in_wire inc"
| "accepted _ inc = in_payload inc"

fun remote_ip :: "transport \<Rightarrow> incoming \<Rightarrow> gostring" where
  "remote_ip (transportTCP _ _) inc = getAddrIp (in_addr inc)"
| "remote_ip (transportWebSocket _ _) inc = getRealIP (in_realip inc) (in_addr inc)"
| "remote_ip _ inc = in_ip inc"

fun has_delegate :: "transport \<Rightarrow> bool" where
  "has_delegate (transportTCP _ d) = d"
| "has_delegate (transportWebSocket _ d) = d"
| "has_delegate (transportQUIC _ d) = d"
| "has_delegate (transportUDP d) = d"

section \<open>Sessions\<close>

text \<open>
  \<open>doConnecton\<close>: the packets written directly, and the reference of the new connection with the rest of
  the stream when the login is accepted. Without a delegate the first call of one of its methods
  panics.
\<close>

definition stream_doConnecton ::
  "bool \<Rightarrow> transport \<Rightarrow> incoming \<Rightarrow> server \<Rightarrow>
     (go_error, packet list \<times> (nat \<times> bytes list) option \<times> server) outcome" where
  "stream_doConnecton timed_out t inc s =
     (if \<not> has_delegate t then Panic
      else case waitConnPacket timed_out (accepted t inc) of
             (_, Panic) \<Rightarrow> Panic
           | (out, Err e) \<Rightarrow> Ok (out, None, s)
           | (out, Ok (p, rest)) \<Rightarrow>
               obind (doConnecton (remote_ip t inc) False p s) (\<lambda>(code, s1).
                 Ok (out, if code = ConnectAccepted then Some (length (heap s), rest) else None, s1)))"

definition handleConn ::
  "(server_event list \<Rightarrow> server_event list) \<Rightarrow> bool \<Rightarrow> transport \<Rightarrow> incoming \<Rightarrow> server \<Rightarrow>
     (go_error, packet list \<times> server) outcome" where
  "handleConn sched timed_out t inc s =
     obind (stream_doConnecton timed_out t inc s) (\<lambda>(out, opened, s1).
       case opened of
         None \<Rightarrow> Ok (out, s1)
       | Some (r, rest) \<Rightarrow>
           (case handleConn_loop rest of
              (ps, None) \<Rightarrow> Panic
            | (ps, Some code) \<Rightarrow>
                omap (\<lambda>s2. (out, s2)) (server_run (sched (map (EvPacket r) ps @ [EvReadError r code])) s1)))"

text \<open>The same for one datagram on \<open>transportUDP\<close>.\<close>

definition udp_handleConn :: "gostring \<Rightarrow> bytes \<Rightarrow> server \<Rightarrow> (go_error, server) outcome" where
  "udp_handleConn ip datagram s =
     obind (udp_handle (\<lambda>cid. GetConn cid s) datagram) (\<lambda>act.
       case act of
         UdpDrop \<Rightarrow> Ok s
       | UdpConnect p \<Rightarrow> omap snd (doConnecton ip True p s)
       | UdpRecv r p \<Rightarrow> server_RecvPacket r p s)"

section \<open>Everything that can happen on the network\<close>

datatype net_event =
  NetStream "server_event list \<Rightarrow> server_event list" bool transport incoming
| NetDatagram gostring bytes
| NetServer server_event

fun net_do :: "net_event \<Rightarrow> server \<Rightarrow> (go_error, server) outcome" where
  "net_do (NetStream sched timed_out t inc) s = omap snd (handleConn sched timed_out t inc s)"
| "net_do (NetDatagram ip datagram) s = ignoring s (udp_handleConn ip datagram s)"
| "net_do (NetServer ev) s = server_do ev s"

fun net_run :: "net_event list \<Rightarrow> server \<Rightarrow> (go_error, server) outcome" where
  "net_run [] s = Ok s"
| "net_run (ev # evs) s = obind (net_do ev s) (net_run evs)"

end
