(* ===== verification/Transport_Safety.thy ===== *)
theory Transport_Safety
  imports Transport
begin

text \<open>
  What a server makes of its network: the table of connections is sound whatever bytes arrive, a
  client that keeps to the protocol is served, one that does not is turned away, and what the
  networks \<open>tls\<close> and \<open>quic\<close> really do.
\<close>

section \<open>The invariant\<close>

lemma server_inv_stream:
  assumes "stream_doConnecton timed_out t inc s = Ok (out, opened, s')" and "server_inv s"
  shows "server_inv s'"
  using assms server_inv_doConnecton [of "remote_ip t inc" False _ s]
  by (auto simp: stream_doConnecton_def outcome_Ok_obind split: if_splits outcome.splits prod.splits)

lemma server_inv_handleConn:
  assumes "handleConn sched timed_out t inc s = Ok (out, s')" and "server_inv s"
  shows "server_inv s'"
proof -
  obtain opened s1 where s1: "stream_doConnecton timed_out t inc s = Ok (out, opened, s1)"
    and s': "(case opened of None \<Rightarrow> s1 = s'
      | Some (r, rest) \<Rightarrow> \<exists>evs. server_run evs s1 = Ok s')"
    using assms(1) by (fastforce simp: handleConn_def outcome_Ok_obind omap_Ok split: option.splits prod.splits)
  from server_inv_stream [OF s1 assms(2)] s' show ?thesis by (auto dest: server_inv_run split: option.splits)
qed

lemma server_inv_datagram:
  assumes "udp_handleConn ip datagram s = Ok s'" and "server_inv s"
  shows "server_inv s'"
proof -
  from assms(1) obtain act where act: "udp_handle (\<lambda>cid. GetConn cid s) datagram = Ok act"
    and s': "(case act of UdpDrop \<Rightarrow> Ok s | UdpConnect p \<Rightarrow> omap snd (doConnecton ip True p s)
       | UdpRecv r p \<Rightarrow> server_RecvPacket r p s) = Ok s'"
    by (auto simp: udp_handleConn_def outcome_Ok_obind)
  show ?thesis
  proof (cases act)
    case (UdpRecv r p)
    with act obtain cid where "RMap_Get cid (conns s) = Some r"
      by (auto simp: udp_handle_def GetConn_def split: outcome.splits packet.splits option.splits)
    then have "r < length (heap s)" using registered [OF assms(2)] by blast
    with UdpRecv s' assms(2) show ?thesis by (auto intro: server_inv_RecvPacket)
  qed (use s' assms(2) in \<open>auto simp: omap_Ok intro: server_inv_doConnecton\<close>)
qed

lemma server_inv_net_do: "net_do ev s = Ok s' \<Longrightarrow> server_inv s \<Longrightarrow> server_inv s'"
  by (cases ev) (auto simp: omap_Ok intro: server_inv_handleConn server_inv_do
    dest: ignoring_inv [where P = server_inv, OF _ _ server_inv_datagram])

lemma server_inv_net_run: "net_run evs s = Ok s' \<Longrightarrow> server_inv s \<Longrightarrow> server_inv s'"
  by (induction evs arbitrary: s) (auto simp: outcome_Ok_obind intro: server_inv_net_do)

text \<open>
  C4. Whatever arrives, the table of connections is sound: after any sequence of streams and datagrams with
  any bytes in them, handled by the goroutines in any order, and of calls of the server's own interface,
  a client id in the table names an open connection that logged in with that id, so \<open>IsActive\<close> is just being
  in the table, \<open>ConnInfo\<close> never fails and reports that id, and \<open>ConnCount\<close> is the number of ids.
\<close>

theorem net_table_sound:
  assumes "server_New os = Ok s0" and "net_run evs s0 = Ok s"
  shows "(IsActive cid s \<longleftrightarrow> GetConn cid s \<noteq> None) \<and>
    (case ConnInfo cid s of
       Ok (Some info) \<Rightarrow> GetConn cid s \<noteq> None \<and> info_CID info = cid
     | Ok None \<Rightarrow> GetConn cid s = None
     | _ \<Rightarrow> False) \<and>
    ConnCount s = of_nat (card {k. GetConn k s \<noteq> None})"
  using server_inv_table [OF server_inv_net_run [OF assms(2) server_inv_New [OF assms(1)]]] .

theorem net_table_sound_witness:
  "\<exists>s. net_run [NetDatagram [] [0xFF, 0xFF], NetServer (EvConnect [] False (demo_connect ''u'' ''c''))] demo_empty = Ok s \<and>
     IsActive (gs ''c'') s"
proof -
  let ?evs = "[NetDatagram [] [0xFF, 0xFF], NetServer (EvConnect [] False (demo_connect ''u'' ''c''))]"
  have "is_Ok (net_run ?evs demo_empty)" by code_simp
  then have s: "net_run ?evs demo_empty = Ok (get_Ok (net_run ?evs demo_empty))" by (rule get_Ok)
  moreover have "GetConn (gs ''c'') (get_Ok (net_run ?evs demo_empty)) \<noteq> None" by code_simp
  ultimately show ?thesis using net_table_sound [OF demo_server_run(1) s, of "gs ''c''"] by blast
qed

section \<open>Sessions\<close>

lemma stream_login:
  assumes "has_delegate t" and "sendable (PConnect p)" and "accepted t inc = frame (PConnect p) # rest"
    and "doConnecton (remote_ip t inc) False p s = Ok (code, s1)"
  shows "stream_doConnecton False t inc s =
    Ok ([], if code = ConnectAccepted then Some (length (heap s), rest) else None, s1)"
  using assms ReadFrom_frame [OF assms(2), of rest] by (simp add: stream_doConnecton_def waitConnPacket_def)


definition demo_incoming :: "bytes list \<Rightarrow> incoming" where
  "demo_incoming chunks = \<lparr>in_wire = chunks, in_payload = [], in_addr = gs ''10.0.0.9:1'', in_ip = [], in_realip = []\<rparr>"


lemma intruder_cases:
  assumes "has_delegate t" and "timed_out \<or> (\<nexists>p rest. packet_ReadFrom (accepted t inc) = Ok (PConnect p, rest))"
  shows "handleConn sched timed_out t inc s = Panic \<or>
    (\<exists>code. handleConn sched timed_out t inc s = Ok ([PClose (NewClose code)], s))"
proof -
  have "snd (waitConnPacket timed_out (accepted t inc)) = Panic \<or>
      (\<exists>code e. waitConnPacket timed_out (accepted t inc) = ([PClose (NewClose code)], Err e))"
    using assms(2) by (auto simp: waitConnPacket_def split: outcome.splits packet.splits)
  then show ?thesis
    using assms(1) by (cases "waitConnPacket timed_out (accepted t inc)")
      (auto simp: handleConn_def stream_doConnecton_def)
qed



section \<open>The networks tls and quic\<close>

text \<open>The first byte of a TLS record reads as a CONNACK packet.\<close>

lemma ReadFrom_hello: "packet_ReadFrom ((0x16 # 0x03 # hello) # later) \<noteq> Ok (PConnect p, rest)"
proof -
  have "unpack [0x16, 0x03] data \<noteq> Ok (PConnect p)" for data
    by (auto simp: unpack_def unpack_as_def omap_Ok packet_types)
  then show ?thesis
    by (auto simp: packet_ReadFrom_def read_buf_def outcome_Ok_obind omap_Ok split: if_splits)
qed

lemma hello_refused:
  assumes "has_delegate t" and "accepted t inc = (0x16 # 0x03 # hello) # later"
    and "handleConn sched timed_out t inc s = Ok (out, s')"
  shows "s' = s"
  using intruder_cases [of t timed_out inc sched s] ReadFrom_hello assms by auto

text \<open>
  A listener of the network \<open>tls\<close> speaks plain text: a client that opens with a TLS record, whatever is in
  it, is never connected, while a client that sends its packets unencrypted is served as on \<open>tcp\<close>.
\<close>

theorem tls_serves_plaintext:
  assumes "NewTLS cfg = Ok t"
  shows "handleConn sched timed_out t inc s = handleConn sched timed_out NewTCP inc s \<and>
    (in_wire inc = (0x16 # 0x03 # hello) # later \<longrightarrow>
       (\<forall>out s'. handleConn sched timed_out t inc s = Ok (out, s') \<longrightarrow> s' = s))"
proof -
  from assms have t: "has_delegate t" "accepted t inc = in_wire inc" "remote_ip t inc = remote_ip NewTCP inc"
    by (auto simp: NewTLS_def NewTCP_def omap_Ok)
  have "stream_doConnecton timed_out t inc s = stream_doConnecton timed_out NewTCP inc s"
    using t by (simp add: stream_doConnecton_def NewTCP_def)
  moreover have "s' = s" if "in_wire inc = (0x16 # 0x03 # hello) # later" "handleConn sched timed_out t inc s = Ok (out, s')" for out s'
    using that hello_refused [of t inc hello later sched timed_out s out s'] t(1,2) by simp
  ultimately show ?thesis by (simp add: handleConn_def)
qed

theorem tls_serves_plaintext_witness:
  "handleConn id False (transportTCP (Some \<lparr>has_cert = True\<rparr>) True) (demo_incoming [[0x16, 0x03, 0x01, 0x02, 0x00]]) demo_server =
   handleConn id False NewTCP (demo_incoming [[0x16, 0x03, 0x01, 0x02, 0x00]]) demo_server"
  using tls_serves_plaintext [of "Some \<lparr>has_cert = True\<rparr>" "transportTCP (Some \<lparr>has_cert = True\<rparr>) True" id False
      "demo_incoming [[0x16, 0x03, 0x01, 0x02, 0x00]]" demo_server]
  by (simp add: NewTLS_def assertTLS_def)

text \<open>
  A listener of the network \<open>quic\<close> panics with the first connection, an address that cannot be opened is not
  reported, and shutting it down closes a nil endpoint.
\<close>

theorem quic_unusable:
  assumes "NewQUIC cfg = Ok t"
  shows "handleConn sched timed_out t inc s = Panic \<and> Listen_failed e t = None \<and>
    transport_Close nil_Close listening err t = nil_Close"
  using assms by (auto simp: NewQUIC_def omap_Ok handleConn_def stream_doConnecton_def split: option.splits)

theorem quic_unusable_witness:
  "handleConn id False (transportQUIC (Some \<lparr>has_cert = True\<rparr>) False) (demo_incoming []) demo_server = Panic"
  using quic_unusable [of "Some (Some \<lparr>has_cert = True\<rparr>)" "transportQUIC (Some \<lparr>has_cert = True\<rparr>) False" id False
      "demo_incoming []" demo_server]
  by (simp add: NewQUIC_def assertTLS_def)

end
