(* ===== verification/Stats.thy ===== *)
theory Stats
  imports Transport Config
begin

text \<open>
  The statistics: the records of src/stats/handler.go, \<open>statistics\<close> of src/cmd/cable/cable_stats.go, the
  wrappers of src/cmd/cable/cable_redis.go and the calls of the handler in src/server/server.go and in the
  transports.

  OpenTelemetry is not part of the repository: whether a span is recorded is up to the tracer, and whether a
  provider or an instrument can be made is an argument. An instrument keeps what was given to it;
  one that was never made is the zero value of its struct, whose embedded interface is nil. Times are
  nanoseconds since the zero time of Go; a sample keeps nanoseconds where the code divides them by a million.
\<close>

section \<open>Events\<close>

record conn_end =
  ce_BeginTime :: int
  ce_EndTime :: int
  ce_Error :: "go_error option"

record message_begin =
  mb_Kind :: byte
  mb_Inout :: gostring
  mb_Network :: gostring
  mb_BeginTime :: int
  mb_PayloadSize :: nat

record message_end =
  me_Kind :: byte
  me_Error :: "go_error option"
  me_Inout :: gostring
  me_Network :: gostring
  me_EndTime :: int
  me_BeginTime :: int

record request_begin =
  rb_Inout :: gostring
  rb_Method :: gostring
  rb_Network :: gostring
  rb_BodySize :: nat
  rb_BeginTime :: int

record request_end =
  re_Inout :: gostring
  re_Error :: "go_error option"
  re_EndTime :: int
  re_Method :: gostring
  re_Network :: gostring
  re_BodySize :: nat
  re_BeginTime :: int
  re_StatusCode :: byte

record redis_end =
  rd_Cmd :: gostring
  rd_Error :: "go_error option"
  rd_EndTime :: int
  rd_BeginTime :: int

record kafka_end =
  kf_Op :: gostring
  kf_Topic :: gostring
  kf_Error :: "go_error option"
  kf_EndTime :: int
  kf_BeginTime :: int

text \<open>\<open>Sub\<close> of two times gives the nearest duration there is.\<close>

definition time_Sub :: "int \<Rightarrow> int \<Rightarrow> int" where
  "time_Sub t u = max (- (2 ^ 63)) (min (2 ^ 63 - 1) (t - u))"

section \<open>Instruments and spans\<close>

datatype attr = AttrInt int | AttrString gostring | AttrBool bool

type_synonym labels = "(string \<times> attr) list"

datatype instrument = NilInstrument | Noop | Live "(int \<times> labels) list"

text \<open>\<open>newDuration\<close>, \<open>newCounter\<close> and \<open>newGauge\<close>: when the meter fails an instrument that does nothing is used.\<close>

definition new_instrument :: "go_error option \<Rightarrow> instrument" where
  "new_instrument err = (case err of Some e \<Rightarrow> Noop | None \<Rightarrow> Live [])"

text \<open>\<open>Record\<close> of \<open>milliDuration\<close> and \<open>queueGauge\<close> and \<open>Add\<close> of \<open>onlineCounter\<close>.\<close>

fun instrument_Record :: "int \<Rightarrow> labels \<Rightarrow> instrument \<Rightarrow> (go_error, instrument) outcome" where
  "instrument_Record v ls NilInstrument = Panic"
| "instrument_Record v ls Noop = Ok Noop"
| "instrument_Record v ls (Live xs) = Ok (Live (xs @ [(v, ls)]))"

datatype span_kind = SpanKindServer | SpanKindClient

record span =
  span_Name :: gostring
  span_Kind :: span_kind
  span_Attrs :: labels
  span_Recording :: bool

datatype span_status = StatusOfError go_error | StatusOfOk

section \<open>State\<close>

record statistics =
  tracer :: "(gostring \<Rightarrow> bool) option"
  spans :: "(span \<times> span_status) list"
  queueLength :: instrument
  onlineUsers :: instrument
  redisDuration :: instrument
  kafkaDuration :: instrument
  connectDuration :: instrument
  messageDuration :: instrument
  requestDuration :: instrument

text \<open>
  What OpenTelemetry makes of the configuration: the error of \<open>initTrace\<close> and of \<open>initMeter\<close>, and what the methods
  \<open>Tracer\<close> and \<open>Meter\<close> of the provider give; the provider is nil when there was an error, which is only logged.
\<close>

record telemetry =
  initTrace_err :: "go_error option"
  initMeter_err :: "go_error option"
  provider_Tracer :: "bool \<Rightarrow> (go_error, gostring \<Rightarrow> bool) outcome"
  provider_Meter :: "bool \<Rightarrow> (go_error, string \<Rightarrow> go_error option) outcome"

definition no_stats :: statistics where
  "no_stats = \<lparr>tracer = None, spans = [], queueLength = NilInstrument, onlineUsers = NilInstrument,
     redisDuration = NilInstrument, kafkaDuration = NilInstrument, connectDuration = NilInstrument,
     messageDuration = NilInstrument, requestDuration = NilInstrument\<rparr>"

definition newStats :: "telemetry \<Rightarrow> config \<Rightarrow> (go_error, statistics) outcome" where
  "newStats tel c =
     obind (if trace_Enabled (cfg_Trace c)
            then omap (\<lambda>t. no_stats\<lparr>tracer := Some t\<rparr>) (provider_Tracer tel (initTrace_err tel = None))
            else Ok no_stats) (\<lambda>s.
       if metrics_Enabled (cfg_Metrics c)
       then omap (\<lambda>meter. s\<lparr>queueLength := new_instrument (meter ''cable.queue.length''),
              onlineUsers := new_instrument (meter ''cable.online.users''),
              kafkaDuration := new_instrument (meter ''cable.kafka.duration''),
              redisDuration := new_instrument (meter ''cable.redis.duration''),
              connectDuration := new_instrument (meter ''cable.connect.duration''),
              messageDuration := new_instrument (meter ''cable.message.duration''),
              requestDuration := new_instrument (meter ''cable.request.duration'')\<rparr>)
            (provider_Meter tel (initMeter_err tel = None))
       else Ok s)"

text \<open>A context is the span it carries. Without a tracer the context is handed on.\<close>

type_synonym span_ctx = "span option"

definition start_span :: "gostring \<Rightarrow> span_kind \<Rightarrow> labels \<Rightarrow> span_ctx \<Rightarrow> statistics \<Rightarrow> span_ctx" where
  "start_span name kind attrs cx s =
     (case tracer s of
        None \<Rightarrow> cx
      | Some sampled \<Rightarrow>
          Some \<lparr>span_Name = name, span_Kind = kind, span_Attrs = attrs, span_Recording = sampled name\<rparr>)"

definition end_span :: "span_ctx \<Rightarrow> go_error option \<Rightarrow> statistics \<Rightarrow> statistics" where
  "end_span cx err s =
     (case (tracer s, cx) of
        (Some _, Some sp) \<Rightarrow>
          if span_Recording sp
          then s\<lparr>spans := spans s @ [(sp, case err of Some e \<Rightarrow> StatusOfError e | None \<Rightarrow> StatusOfOk)]\<rparr>
          else s
      | _ \<Rightarrow> s)"

section \<open>The handler\<close>

definition ConnectBegin :: "span_ctx \<Rightarrow> statistics \<Rightarrow> span_ctx" where
  "ConnectBegin = start_span (gs ''cable.connect.in'') SpanKindServer []"

definition ConnectEnd :: "span_ctx \<Rightarrow> conn_end \<Rightarrow> statistics \<Rightarrow> (go_error, statistics) outcome" where
  "ConnectEnd cx info s =
     (let s1 = end_span cx (ce_Error info) s
      in obind (if ce_Error info = None then instrument_Record 1 [] (onlineUsers s1) else Ok (onlineUsers s1)) (\<lambda>u.
         obind (instrument_Record (time_Sub (ce_EndTime info) (ce_BeginTime info)) [] (connectDuration s1)) (\<lambda>d.
           Ok (s1\<lparr>onlineUsers := u, connectDuration := d\<rparr>))))"

definition Disconnect :: "statistics \<Rightarrow> (go_error, statistics) outcome" where
  "Disconnect s = omap (\<lambda>u. s\<lparr>onlineUsers := u\<rparr>) (instrument_Record (- 1) [] (onlineUsers s))"

definition kind_of_inout :: "gostring \<Rightarrow> span_kind" where
  "kind_of_inout inout = (if inout = gs ''in'' then SpanKindServer else SpanKindClient)"

definition MessageBegin :: "span_ctx \<Rightarrow> message_begin \<Rightarrow> statistics \<Rightarrow> span_ctx" where
  "MessageBegin cx info =
     start_span (gs ''cable.message.'' @ mb_Inout info) (kind_of_inout (mb_Inout info))
       [(''cable.message.kind'', AttrInt (uint (mb_Kind info))),
        (''cable.message.network'', AttrString (mb_Network info))] cx"

definition MessageEnd :: "span_ctx \<Rightarrow> message_end \<Rightarrow> statistics \<Rightarrow> (go_error, statistics) outcome" where
  "MessageEnd cx info s =
     (let s1 = end_span cx (me_Error info) s
      in omap (\<lambda>d. s1\<lparr>messageDuration := d\<rparr>)
           (instrument_Record (time_Sub (me_EndTime info) (me_BeginTime info))
              [(''kind'', AttrInt (uint (me_Kind info))), (''isok'', AttrBool (me_Error info = None)),
               (''inout'', AttrString (me_Inout info)), (''network'', AttrString (me_Network info))]
              (messageDuration s1)))"

definition RequestBegin :: "span_ctx \<Rightarrow> request_begin \<Rightarrow> statistics \<Rightarrow> span_ctx" where
  "RequestBegin cx info =
     start_span (gs ''cable.request.'' @ rb_Inout info) (kind_of_inout (rb_Inout info))
       [(''cable.request.method'', AttrString (rb_Method info)),
        (''cable.request.network'', AttrString (rb_Network info))] cx"

definition RequestEnd :: "span_ctx \<Rightarrow> request_end \<Rightarrow> statistics \<Rightarrow> (go_error, statistics) outcome" where
  "RequestEnd cx info s =
     (let s1 = end_span cx (re_Error info) s
      in omap (\<lambda>d. s1\<lparr>requestDuration := d\<rparr>)
           (instrument_Record (time_Sub (re_EndTime info) (re_BeginTime info))
              [(''isok'', AttrBool (re_Error info = None)), (''method'', AttrString (re_Method info)),
               (''network'', AttrString (re_Network info)), (''inout'', AttrString (re_Inout info))]
              (requestDuration s1)))"

definition RedisBegin :: "span_ctx \<Rightarrow> gostring \<Rightarrow> statistics \<Rightarrow> span_ctx" where
  "RedisBegin cx cmd = start_span (gs ''cable.redis.'' @ cmd) SpanKindClient [] cx"

definition RedisEnd :: "span_ctx \<Rightarrow> redis_end \<Rightarrow> statistics \<Rightarrow> (go_error, statistics) outcome" where
  "RedisEnd cx info s =
     (let s1 = end_span cx (rd_Error info) s
      in omap (\<lambda>d. s1\<lparr>redisDuration := d\<rparr>)
           (instrument_Record (time_Sub (rd_EndTime info) (rd_BeginTime info))
              [(''isok'', AttrBool (rd_Error info = None)), (''cmd'', AttrString (rd_Cmd info))] (redisDuration s1)))"

definition KafkaBegin :: "span_ctx \<Rightarrow> gostring \<Rightarrow> gostring \<Rightarrow> statistics \<Rightarrow> span_ctx" where
  "KafkaBegin cx op topic =
     start_span (gs ''cable.kafka.'' @ op) SpanKindClient [(''cable.kafka.topic'', AttrString topic)] cx"

definition KafkaEnd :: "span_ctx \<Rightarrow> kafka_end \<Rightarrow> statistics \<Rightarrow> (go_error, statistics) outcome" where
  "KafkaEnd cx info s =
     (let s1 = end_span cx (kf_Error info) s
      in omap (\<lambda>d. s1\<lparr>kafkaDuration := d\<rparr>)
           (instrument_Record (time_Sub (kf_EndTime info) (kf_BeginTime info))
              [(''op'', AttrString (kf_Op info)), (''topic'', AttrString (kf_Topic info)),
               (''isok'', AttrBool (kf_Error info = None))] (kafkaDuration s1)))"

definition UpdateQueue :: "int \<Rightarrow> statistics \<Rightarrow> (go_error, statistics) outcome" where
  "UpdateQueue qsize s = omap (\<lambda>g. s\<lparr>queueLength := g\<rparr>) (instrument_Record qsize [] (queueLength s))"

text \<open>\<open>Shutdown\<close> of the providers: the last error of a provider that exists.\<close>

definition stats_Shutdown :: "go_error option option \<Rightarrow> go_error option option \<Rightarrow> go_error option" where
  "stats_Shutdown trace_provider meter_provider =
     (let err = (case trace_provider of None \<Rightarrow> None | Some e \<Rightarrow> e)
      in case meter_provider of None \<Rightarrow> err | Some e \<Rightarrow> e)"

section \<open>The wrappers of the redis client\<close>

text \<open>
  Each method of \<open>redisClient\<close> calls the client of the library, whose answer is an argument, between
  \<open>RedisBegin\<close> and \<open>RedisEnd\<close>; \<open>t0\<close> and \<open>t1\<close> are the times before and after.
\<close>

definition redis_call ::
  "string \<Rightarrow> string \<Rightarrow> int \<Rightarrow> int \<Rightarrow> span_ctx \<Rightarrow> (span_ctx \<Rightarrow> 'a \<times> go_error option) \<Rightarrow> statistics \<Rightarrow>
     (go_error, ('a \<times> go_error option) \<times> statistics) outcome" where
  "redis_call cmd end_cmd t0 t1 cx impl s =
     (let cx1 = RedisBegin cx (gs cmd) s; (i, err) = impl cx1
      in omap (\<lambda>s1. ((i, err), s1))
           (RedisEnd cx1 \<lparr>rd_Cmd = gs end_cmd, rd_Error = err, rd_EndTime = t1, rd_BeginTime = t0\<rparr> s))"

definition redis_Get :: "int \<Rightarrow> int \<Rightarrow> span_ctx \<Rightarrow> (span_ctx \<Rightarrow> gostring \<times> go_error option) \<Rightarrow> statistics \<Rightarrow>
    (go_error, (gostring \<times> go_error option) \<times> statistics) outcome" where
  "redis_Get = redis_call ''Get'' ''HDel''"

definition redis_Set :: "int \<Rightarrow> int \<Rightarrow> span_ctx \<Rightarrow> (span_ctx \<Rightarrow> unit \<times> go_error option) \<Rightarrow> statistics \<Rightarrow>
    (go_error, (unit \<times> go_error option) \<times> statistics) outcome" where
  "redis_Set = redis_call ''Set'' ''Set''"

definition redis_HDel :: "int \<Rightarrow> int \<Rightarrow> span_ctx \<Rightarrow> (span_ctx \<Rightarrow> int \<times> go_error option) \<Rightarrow> statistics \<Rightarrow>
    (go_error, (int \<times> go_error option) \<times> statistics) outcome" where
  "redis_HDel = redis_call ''HDel'' ''HDel''"

definition redis_HSet :: "int \<Rightarrow> int \<Rightarrow> span_ctx \<Rightarrow> (span_ctx \<Rightarrow> int \<times> go_error option) \<Rightarrow> statistics \<Rightarrow>
    (go_error, (int \<times> go_error option) \<times> statistics) outcome" where
  "redis_HSet = redis_call ''HSet'' ''HSet''"

definition redis_HGetAll ::
  "int \<Rightarrow> int \<Rightarrow> span_ctx \<Rightarrow> (span_ctx \<Rightarrow> (gostring, gostring) gomap \<times> go_error option) \<Rightarrow> statistics \<Rightarrow>
    (go_error, ((gostring, gostring) gomap \<times> go_error option) \<times> statistics) outcome" where
  "redis_HGetAll = redis_call ''HGetAll'' ''HGetAll''"

section \<open>The calls of the handler\<close>

text \<open>
  Around \<open>doConnecton\<close>: the arguments of a deferred call are evaluated by the \<open>defer\<close>, so the error that
  \<open>ConnectEnd\<close> gets is the nil of the declaration and the end time \<open>t1\<close> is read before the work begins. Every
  call of the close handler is followed by \<open>Disconnect\<close>.
\<close>

fun Disconnects :: "nat \<Rightarrow> statistics \<Rightarrow> (go_error, statistics) outcome" where
  "Disconnects 0 st = Ok st"
| "Disconnects (Suc n) st = obind (Disconnect st) (Disconnects n)"

definition disconnected :: "server \<Rightarrow> server \<Rightarrow> statistics \<Rightarrow> (go_error, statistics) outcome" where
  "disconnected s s' = Disconnects (length (closed_ids s') - length (closed_ids s))"

text \<open>
  The CONNECT packet of an attempt, when one arrives, for an event that makes the transport call
  \<open>doConnecton\<close>.
\<close>

fun attempt :: "net_event \<Rightarrow> server \<Rightarrow> connect option option" where
  "attempt (NetStream sched timed_out t inc) s =
     Some (case snd (waitConnPacket timed_out (accepted t inc)) of Ok (p, rest) \<Rightarrow> Some p | _ \<Rightarrow> None)"
| "attempt (NetDatagram ip datagram) s =
     (case udp_handle (\<lambda>cid. GetConn cid s) datagram of Ok (UdpConnect p) \<Rightarrow> Some (Some p) | _ \<Rightarrow> None)"
| "attempt (NetServer (EvConnect ip udp p)) s = Some (Some p)"
| "attempt (NetServer ev) s = None"

definition metered_do ::
  "int \<Rightarrow> int \<Rightarrow> net_event \<Rightarrow> statistics \<times> server \<Rightarrow> (go_error, statistics \<times> server) outcome" where
  "metered_do t0 t1 ev = (\<lambda>(st, s).
     obind (net_do ev s) (\<lambda>s'.
     obind (disconnected s s' st) (\<lambda>st1.
       if attempt ev s = None then Ok (st1, s')
       else omap (\<lambda>st2. (st2, s'))
              (ConnectEnd (ConnectBegin None st) \<lparr>ce_BeginTime = t0, ce_EndTime = t1, ce_Error = None\<rparr> st1))))"

fun metered_run ::
  "(int \<times> int \<times> net_event) list \<Rightarrow> statistics \<times> server \<Rightarrow> (go_error, statistics \<times> server) outcome" where
  "metered_run [] sts = Ok sts"
| "metered_run ((t0, t1, ev) # evs) sts = obind (metered_do t0 t1 ev sts) (metered_run evs)"

text \<open>\<open>SendMessage\<close>, \<open>OnMessage\<close>, \<open>SendRequest\<close> and \<open>OnRequest\<close> of the server, with the fields they fill in.\<close>

definition metered_SendMessage ::
  "int \<Rightarrow> int \<Rightarrow> ctx \<Rightarrow> gostring \<Rightarrow> message \<Rightarrow> statistics \<times> server \<Rightarrow>
     (go_error, (go_error, server) outcome \<times> statistics) outcome" where
  "metered_SendMessage t0 t1 cx cid p = (\<lambda>(st, s).
     let net = gs (network (opts s));
         span = MessageBegin None \<lparr>mb_Kind = Kind p, mb_Inout = gs ''out'', mb_Network = net, mb_BeginTime = t0,
           mb_PayloadSize = length (Payload p)\<rparr> st;
         res = server_SendMessage cx cid p s
     in omap (\<lambda>st'. (res, st'))
          (MessageEnd span \<lparr>me_Kind = 0, me_Error = None, me_Inout = gs ''out'', me_Network = net, me_EndTime = t1,
             me_BeginTime = t0\<rparr> st))"

definition metered_OnMessage ::
  "int \<Rightarrow> int \<Rightarrow> nat \<Rightarrow> message \<Rightarrow> statistics \<times> server \<Rightarrow> (go_error, (go_error, unit) outcome \<times> statistics) outcome" where
  "metered_OnMessage t0 t1 r p = (\<lambda>(st, s).
     let net = gs (network (opts s));
         span = MessageBegin None \<lparr>mb_Kind = Kind p, mb_Inout = gs ''in'', mb_Network = net, mb_BeginTime = t0,
           mb_PayloadSize = length (Payload p)\<rparr> st;
         res = OnMessage r p s
     in omap (\<lambda>st'. (res, st'))
          (MessageEnd span \<lparr>me_Kind = Kind p, me_Error = None, me_Inout = gs ''in'', me_Network = net, me_EndTime = t1,
             me_BeginTime = t0\<rparr> st))"

text \<open>
  The deferred call of the requests is a closure, so it sees the error and the response. \<open>answer\<close> is what the
  connection's \<open>SendRequest\<close> returns in the end; in \<open>OnRequest\<close> the error of the handler is overwritten by that
  of sending the response.
\<close>

definition metered_SendRequest ::
  "int \<Rightarrow> int \<Rightarrow> request \<Rightarrow> response option \<times> go_error option \<Rightarrow> statistics \<times> server \<Rightarrow> (go_error, statistics) outcome" where
  "metered_SendRequest t0 t1 p answer = (\<lambda>(st, s).
     let net = gs (network (opts s));
         span = RequestBegin None \<lparr>rb_Inout = gs ''out'', rb_Method = Method p, rb_Network = net,
           rb_BodySize = length (request_Body p), rb_BeginTime = t0\<rparr> st
     in RequestEnd span \<lparr>re_Inout = gs ''out'', re_Error = snd answer, re_EndTime = t1, re_Method = [], re_Network = net,
          re_BodySize = (case fst answer of Some res \<Rightarrow> length (response_Body res) | None \<Rightarrow> 0), re_BeginTime = t0,
          re_StatusCode = (case fst answer of Some res \<Rightarrow> response_Code res | None \<Rightarrow> 0)\<rparr> st)"

definition metered_OnRequest ::
  "int \<Rightarrow> int \<Rightarrow> ctx \<Rightarrow> nat \<Rightarrow> request \<Rightarrow> statistics \<times> server \<Rightarrow> (go_error, server \<times> statistics) outcome" where
  "metered_OnRequest t0 t1 cx r p = (\<lambda>(st, s).
     let net = gs (network (opts s));
         span = RequestBegin None \<lparr>rb_Inout = gs ''in'', rb_Method = Method p, rb_Network = net,
           rb_BodySize = length (request_Body p), rb_BeginTime = t0\<rparr> st;
         res = (case requestHandler (opts s) p (raw_ID (conn_of r s)) of
              Ok body \<Rightarrow> request_Response p StatusOK [body]
            | Err (StatusCodeError code) \<Rightarrow> request_Response p code []
            | _ \<Rightarrow> request_Response p StatusInternalError []);
         err = (case conn_SendPacket cx (PResponse res) (conn_of r s) of Err e \<Rightarrow> Some e | _ \<Rightarrow> None)
     in obind (OnRequest cx r p s) (\<lambda>s'. omap (\<lambda>st'. (s', st'))
          (RequestEnd span \<lparr>re_Inout = gs ''in'', re_Error = err, re_EndTime = t1, re_Method = Method p, re_Network = net,
             re_BodySize = length (response_Body res), re_BeginTime = t0, re_StatusCode = response_Code res\<rparr> st)))"

text \<open>\<open>SendToKafka\<close>: the time in \<open>BeginTime\<close> is not filled in; \<open>err\<close> is the producer's answer.\<close>

definition metered_SendToKafka :: "int \<Rightarrow> gostring \<Rightarrow> go_error option \<Rightarrow> statistics \<Rightarrow> (go_error, statistics) outcome" where
  "metered_SendToKafka t1 topic err st =
     KafkaEnd (KafkaBegin None (gs ''produce'') topic st)
       \<lparr>kf_Op = gs ''produce'', kf_Topic = topic, kf_Error = err, kf_EndTime = t1, kf_BeginTime = 0\<rparr> st"

end
