(* ===== verification/Stats_Safety.thy ===== *)
theory Stats_Safety
  imports Stats Transport_Safety
begin

text \<open>
  What the statistics say of the server: what the counter of the users that are online counts, which calls
  stop the process, and which samples are wrong.
\<close>

section \<open>Entries and closed connections\<close>

text \<open>Each entry that leaves the table is reported to the close handler.\<close>

definition balance :: "server \<Rightarrow> nat" where
  "balance s = length (rmap_m (conns s)) + length (closed_ids s)"

definition settled :: "server \<Rightarrow> server \<Rightarrow> bool" where
  "settled s s' \<longleftrightarrow> balance s' = balance s \<and> length (closed_ids s) \<le> length (closed_ids s')"

lemma settled_refl [simp]: "settled s s"
  by (simp add: settled_def)

lemma settled_trans: "settled s t \<Longrightarrow> settled t u \<Longrightarrow> settled s u"
  by (simp add: settled_def)

lemma settled_fields: "conns s' = conns s \<Longrightarrow> closed_ids s' = closed_ids s \<Longrightarrow> settled s s'"
  by (simp add: settled_def balance_def)

lemma settled_put [simp]: "settled s (put_conn r c s)"
  by (rule settled_fields) (simp_all add: put_conn_def)

lemma length_pos_map_of: "map_of m k = Some v \<Longrightarrow> 0 < length m"
  by (cases m) auto

lemma settled_OnClose: "RMap_ok (conns s) \<Longrightarrow> settled s (OnClose r s)"
  by (auto simp: settled_def balance_def OnClose_def RMap_Delete_def RMap_ok_def length_delete_go_map
    dest: length_pos_map_of split: option.splits)

lemma settled_after_Close: "RMap_ok (conns s) \<Longrightarrow> settled s (after_Close r res s)"
  using settled_OnClose [of "put_conn r (fst res) s" r] settled_put settled_trans
  by (fastforce simp: after_Close_def Let_def put_conn_def split: prod.splits)

lemma settled_do_Close: "RMap_ok (conns s) \<Longrightarrow> settled s (do_Close r s)"
  by (simp add: do_Close_def settled_after_Close)

lemma settled_do_CloseCode: "do_CloseCode code r s = Ok s' \<Longrightarrow> RMap_ok (conns s) \<Longrightarrow> settled s s'"
  by (auto simp: do_CloseCode_def omap_Ok settled_after_Close)

lemma settled_ConnackCode: "do_ConnackCode code r s = Ok s' \<Longrightarrow> settled s s'"
  by (auto simp: do_ConnackCode_def omap_Ok)

section \<open>Logins\<close>

definition fresh_login :: "connect \<Rightarrow> server \<Rightarrow> bool" where
  "fresh_login p s \<longleftrightarrow> connectHandler (opts s) p = ConnectAccepted \<and>
     (case Identity p of Some ident \<Rightarrow> GetConn (ClientID ident) s = None | None \<Rightarrow> False)"

definition counted :: "nat \<Rightarrow> server \<Rightarrow> server \<Rightarrow> bool" where
  "counted n s s' \<longleftrightarrow> balance s' = balance s + n \<and> length (closed_ids s) \<le> length (closed_ids s')"

lemma counted_0 [simp]: "counted 0 = settled"
  by (auto simp: counted_def settled_def fun_eq_iff)

lemma counted_trans: "counted n s t \<Longrightarrow> counted m t u \<Longrightarrow> counted (n + m) s u"
  by (simp add: counted_def)

lemma counted_settled: "counted n s t \<Longrightarrow> settled t u \<Longrightarrow> counted n s u"
  by (simp add: counted_def settled_def)

lemma RMap_ok_inv: "server_inv s \<Longrightarrow> RMap_ok (conns s)"
  by (simp add: server_inv_def)

lemma counted_doConnecton:
  assumes "doConnecton ip udp p s = Ok (code, s')" and inv: "server_inv s"
  shows "counted (of_bool (fresh_login p s)) s s'"
proof (cases "connectHandler (opts s) p = ConnectAccepted")
  case False
  then obtain c s1 where s1: "do_ConnackCode code (length (heap s)) (s\<lparr>heap := heap s @ [c]\<rparr>) = Ok s1"
    and s': "s' = do_Close (length (heap s)) s1"
    using assms(1) by (auto simp: doConnecton_def OnConnect_def Let_def outcome_Ok_obind)
  have "settled s (s\<lparr>heap := heap s @ [c]\<rparr>)" by (simp add: settled_fields)
  moreover have "settled s1 s'"
    using conns_ConnackCode [OF s1] inv by (simp add: s' settled_do_Close RMap_ok_inv)
  ultimately have "settled s s'" using settled_ConnackCode [OF s1] by (blast intro: settled_trans)
  with False show ?thesis by (simp add: fresh_login_def)
next
  case True
  with assms(1) obtain ident where ident: "Identity p = Some ident"
    by (auto simp: doConnecton_def OnConnect_def Let_def outcome_Ok_obind split: option.splits)
  let ?m = "snd (RMap_Set (ClientID ident) (length (heap s)) (conns s))"
  from login_accepted [OF assms(1) True ident inv] obtain c s1 where
    s1: "(case GetConn (ClientID ident) s of
          Some o' \<Rightarrow> do_CloseCode CloseDuplicateLogin o' (s\<lparr>heap := heap s @ [c], conns := ?m\<rparr>)
        | None \<Rightarrow> Ok (s\<lparr>heap := heap s @ [c], conns := ?m\<rparr>)) = Ok s1"
    and s': "do_ConnackCode ConnectAccepted (length (heap s)) s1 = Ok s'" .
  have "counted (of_bool (fresh_login p s)) s (s\<lparr>heap := heap s @ [c], conns := ?m\<rparr>)"
    using True ident
    by (auto simp: counted_def balance_def fresh_login_def GetConn_def RMap_Get_def RMap_Set_def Let_def
      length_update_go_map split: option.splits)
  moreover have "settled (s\<lparr>heap := heap s @ [c], conns := ?m\<rparr>) s1"
    using s1 rmap.ok_put [OF RMap_ok_inv [OF inv]] settled_do_CloseCode by (fastforce split: option.splits)
  ultimately show ?thesis using settled_ConnackCode [OF s'] by (blast intro: counted_settled)
qed

section \<open>Every other operation\<close>

lemma expel_range:
  assumes "Map_Range (\<lambda>key r st. (True, obind st (do_CloseCode code r))) m (Ok t) = Ok t'"
    and "server_inv t" and "go_map m" and "\<forall>(k, r) \<in> set m. RMap_Get k (conns t) = Some r"
  shows "settled t t' \<and> RMap_ok (conns t') \<and>
    (\<forall>k. RMap_Get k (conns t') = (if k \<in> fst ` set m then None else RMap_Get k (conns t)))"
  using assms
proof (induction m arbitrary: t)
  case Nil
  then show ?case by (simp add: RMap_ok_inv)
next
  case (Cons a m)
  obtain k r where a: "a = (k, r)" by (cases a)
  let ?f = "\<lambda>key r st. (True, obind st (do_CloseCode code r))"
  have "Map_Range ?f m (obind (Ok t) (do_CloseCode code r)) = Ok t'" using Cons.prems(1) a by simp
  moreover have "Map_Range ?f m e \<noteq> Ok t'" if "\<nexists>t. e = Ok t" for e
    using that by (cases e; induction m) (auto split: prod.splits)
  ultimately obtain t1 where t1: "do_CloseCode code r t = Ok t1" and rest: "Map_Range ?f m (Ok t1) = Ok t'"
    by (cases "do_CloseCode code r t") auto
  obtain ident where r: "r < length (heap t)" "\<not> conn_closed (heap t ! r)" "raw_ID (heap t ! r) = Some ident"
      "ClientID ident = k"
    using registered [OF Cons.prems(2), of k r] Cons.prems(4) a by auto
  obtain c where "t1 = after_Close r (c, True) t" "raw_ID c = Some ident"
    using t1 r by (auto simp: do_CloseCode_def omap_Ok conn_of_def dest!: CloseCode_closes)
  with after_Close_open [OF r(1) _ RMap_ok_inv [OF Cons.prems(2)], of c ident] r(4)
  have conns: "conns t1 = snd (RMap_Delete k (conns t))" by simp
  have get: "RMap_Get k' (conns t1) = (if k' = k then None else RMap_Get k' (conns t))" for k'
    using rmap.get_del [OF RMap_ok_inv [OF Cons.prems(2)]] by (simp add: conns)
  have "server_inv t1" using server_inv_do_CloseCode [OF t1 Cons.prems(2) r(1)] by simp
  moreover have "\<forall>(k', r') \<in> set m. RMap_Get k' (conns t1) = Some r'" "go_map m"
    using Cons.prems(3,4) a by (force simp: get go_map_def)+
  ultimately have "settled t1 t' \<and> RMap_ok (conns t') \<and>
      (\<forall>k'. RMap_Get k' (conns t') = (if k' \<in> fst ` set m then None else RMap_Get k' (conns t1)))"
    using Cons.IH [OF rest] by blast
  with settled_do_CloseCode [OF t1 RMap_ok_inv [OF Cons.prems(2)]] a show ?case
    by (auto simp: get intro: settled_trans)
qed

lemma settled_Expel:
  assumes "ExpelAllConns s = Ok s'" and inv: "server_inv s"
  shows "settled s s'"
proof -
  obtain t where t: "Map_Range (\<lambda>key r st. (True, obind st (do_CloseCode CloseServerExpeled r))) (rmap_m (conns s)) (Ok s) = Ok t"
    and s': "s' = t\<lparr>conns := empty_RMap\<rparr>"
    using assms(1) by (auto simp: ExpelAllConns_def RMap_Range_def omap_Ok)
  have m: "go_map (rmap_m (conns s))" using inv by (simp add: server_inv_def RMap_ok_def)
  then have "settled s t \<and> (\<forall>k. RMap_Get k (conns t) = None)"
    using expel_range [OF t inv m] by (auto simp: RMap_Get_def go_map_def map_of_eq_None_iff)
  moreover from this have "rmap_m (conns t) = []"
    by (metis RMap_Get_def map_of_eq_empty_iff ext)
  ultimately show ?thesis by (simp add: s' settled_def balance_def empty_RMap_def)
qed

lemma settled_Shutdown:
  assumes inv: "server_inv s"
  shows "settled s (snd (Shutdown terr cerr [] s))"
proof -
  let ?P = "\<lambda>s (n :: nat, t). server_inv t \<and> length (heap t) = length (heap s) \<and> settled s t"
  have "?P s (Map_Range (\<lambda>key r (active, st).
         (True, if conn_IsIdle (conn_of r st) then (active, do_Close r st) else (Suc active, st)))
       (rmap_m (conns s)) (0, s))" if "server_inv s" for s
    by (rule Map_Range_keeps)
      (use that in \<open>auto simp: do_Close_heap RMap_ok_inv dest!: registered_bound [OF that]
        intro!: server_inv_do_Close settled_trans [OF _ settled_do_Close] split: if_splits\<close>)
  from this [of "s\<lparr>server_closed := True\<rparr>"] inv show ?thesis
    by (auto simp: Shutdown_def Shutdown_round_def RMap_Range_def settled_def balance_def split: prod.splits)
qed

lemma settled_Brodcast:
  assumes "Brodcast cx p s = Ok (n, s')"
  shows "settled s s'"
proof -
  let ?f = "\<lambda>cid r acc. (True, obind acc (\<lambda>((total :: u32, success :: u32), st).
               case conn_SendMessage cx p (conn_of r st) of
                 Ok c \<Rightarrow> Ok ((total + 1, success + 1), put_conn r c st)
               | Err e \<Rightarrow> Ok ((total + 1, success), st)
               | Panic \<Rightarrow> Panic))"
  let ?P = "\<lambda>acc. \<forall>n t. acc = Ok (n, t) \<longrightarrow> settled s t"
  have step: "settled s t" if "settled s st"
    and "(case conn_SendMessage cx p (conn_of r st) of
        Ok c \<Rightarrow> Ok ((total + 1, success + 1), put_conn r c st)
      | Err e \<Rightarrow> Ok ((total + 1, success), st) | Panic \<Rightarrow> Panic) = Ok (n, t)"
    for r total success st n t
    using that by (cases "conn_SendMessage cx p (conn_of r st)") (auto intro: settled_trans [OF _ settled_put])
  have "?P (Map_Range ?f (rmap_m (conns s)) (Ok ((0, 0), s)))"
    by (rule Map_Range_keeps) (auto simp: outcome_Ok_obind intro: step)
  then show ?thesis
    using assms by (cases n) (auto simp: Brodcast_def RMap_Range_def split: if_splits)
qed

lemma settled_OnRequest:
  assumes "OnRequest cx r p s = Ok s'"
  shows "conns s' = conns s \<and> closed_ids s' = closed_ids s"
proof -
  obtain k where "(case conn_SendPacket cx (PResponse k) (conn_of r s) of Ok c \<Rightarrow> Ok (put_conn r c s)
     | Err e \<Rightarrow> log_identity r s s | Panic \<Rightarrow> Panic) = Ok s'"
    using assms by (auto simp: OnRequest_def outcome_Ok_obind)
  then show ?thesis
    by (cases "conn_SendPacket cx (PResponse k) (conn_of r s)") (auto simp: log_identity_def put_conn_def split: option.splits)
qed

lemma OnClose_ok: "RMap_ok (conns s) \<Longrightarrow> RMap_ok (conns (OnClose r s))"
  using rmap.ok_del [of "conns s"] by (auto simp: OnClose_def split: option.splits prod.splits) (metis snd_conv)

lemma settled_recv_call:
  assumes "do_recv_call cx r call s = Ok s'" and "RMap_ok (conns s)"
  shows "settled s s' \<and> RMap_ok (conns s')"
  using assms settled_OnRequest settled_OnClose OnClose_ok
  by (cases call) (auto simp: do_recv_call_def omap_Ok settled_fields)

lemma foldl_obind_step:
  assumes "foldl (\<lambda>st call. obind st (step call)) m calls = Ok t'"
    and "\<And>call t t'. step call t = Ok t' \<Longrightarrow> P t \<Longrightarrow> P t'" and "\<And>t. m = Ok t \<Longrightarrow> P t"
  shows "P t'"
  using assms(1,3)
proof (induction calls arbitrary: m)
  case (Cons call calls)
  from Cons.prems(1) have "foldl (\<lambda>st call. obind st (step call)) (obind m (step call)) calls = Ok t'" by simp
  then show ?case by (rule Cons.IH) (use Cons.prems(2) assms(2) in \<open>auto simp: outcome_Ok_obind\<close>)
qed simp

lemma settled_RecvPacket:
  assumes "server_RecvPacket r p s = Ok s'" and inv: "server_inv s"
  shows "settled s s'"
proof -
  obtain c calls where "foldl (\<lambda>st call. obind st (do_recv_call background r call)) (Ok (put_conn r c s)) calls = Ok s'"
    using assms(1) by (auto simp: server_RecvPacket_def outcome_Ok_obind)
  then have "settled s s' \<and> RMap_ok (conns s')"
    by (rule foldl_obind_step [where P = "\<lambda>t. settled s t \<and> RMap_ok (conns t)"])
      (use RMap_ok_inv [OF inv] in \<open>auto dest: settled_recv_call intro: settled_trans simp: put_conn_def settled_fields\<close>)
  then show ?thesis ..
qed

text \<open>What an event of the server adds to the balance.\<close>

lemma omap_Err: "omap f m = Err e \<longleftrightarrow> m = Err e"
  by (cases m) auto

lemma ignoring_Err [simp]: "ignoring x m \<noteq> Err e"
  by (cases m) auto

lemma doConnecton_no_err: "doConnecton ip udp p s \<noteq> Err e"
  by (auto simp: doConnecton_def newConn_def queue_New_def OnConnect_def do_ConnackCode_def do_CloseCode_def
    conn_CloseCode_def Let_def outcome_Err_obind omap_Err split: option.splits prod.splits if_splits)

lemma server_do_no_err: "server_do ev s \<noteq> Err e"
  by (simp add: server_do_def)

lemma server_run_no_err: "server_run evs s \<noteq> Err e"
  by (induction evs arbitrary: s) (auto simp: outcome_Err_obind server_do_no_err)

lemma settled_server_do:
  assumes "server_do ev s = Ok s'" and inv: "server_inv s" and "attempt (NetServer ev) s = None"
  shows "settled s s'"
  using assms(1) unfolding server_do_def
proof (rule ignoring_inv [where P = "settled s", OF _ settled_refl])
  assume *: "(case ev of
        EvConnect ip udp p \<Rightarrow> omap snd (doConnecton ip udp p s)
      | EvKick cid \<Rightarrow> omap snd (KickConn cid s)
      | EvExpel \<Rightarrow> ExpelAllConns s
      | EvShutdown terr cerr \<Rightarrow> Ok (snd (Shutdown terr cerr [] s))
      | EvBrodcast cx m \<Rightarrow> omap snd (Brodcast cx m s)
      | EvSend cx cid m \<Rightarrow> server_SendMessage cx cid m s
      | EvRequest cx cid q \<Rightarrow> Ok (snd (server_SendRequest cx cid q s))
      | EvPacket r p \<Rightarrow> if r < length (heap s) then server_RecvPacket r p s else Ok s
      | EvReadError r code \<Rightarrow> if r < length (heap s) then do_CloseCode code r s else Ok s
      | EvWork r \<Rightarrow> Ok (put_conn r (conn_work (conn_of r s)) s)) = Ok s'"
  note close = settled_do_CloseCode [OF _ RMap_ok_inv [OF inv]]
  from * assms(3) show ?thesis
    by (cases ev) (auto simp: omap_Ok KickConn_def server_SendMessage_def server_SendRequest_def settled_Shutdown [OF inv]
      split: if_splits option.splits prod.splits
      intro: close settled_Expel [OF _ inv] settled_Brodcast settled_RecvPacket [OF _ inv])
qed

lemma settled_server_run:
  "server_run evs s = Ok s' \<Longrightarrow> server_inv s \<Longrightarrow> \<forall>ev \<in> set evs. \<forall>s. attempt (NetServer ev) s = None \<Longrightarrow> settled s s'"
proof (induction evs arbitrary: s)
  case (Cons ev evs)
  then obtain t where t: "server_do ev s = Ok t" "server_run evs t = Ok s'" by (auto simp: outcome_Ok_obind)
  have "settled s t" using settled_server_do [OF t(1) Cons.prems(2)] Cons.prems(3) by simp
  moreover have "settled t s'" using Cons.IH [OF t(2) server_inv_do [OF t(1) Cons.prems(2)]] Cons.prems(3) by simp
  ultimately show ?case by (rule settled_trans)
qed simp

section \<open>The counter of the users that are online\<close>

definition gains :: "net_event \<Rightarrow> server \<Rightarrow> nat" where
  "gains ev s = (case attempt ev s of Some (Some p) \<Rightarrow> of_bool (fresh_login p s) | _ \<Rightarrow> 0)"

definition reorders :: "net_event \<Rightarrow> bool" where
  "reorders ev \<longleftrightarrow> (case ev of NetStream sched timed_out t inc \<Rightarrow> \<forall>es. mset (sched es) = mset es | _ \<Rightarrow> True)"

lemma counted_stream:
  assumes "stream_doConnecton timed_out t inc s = Ok (out, opened, s1)" and "server_inv s"
  shows "counted (gains (NetStream sched timed_out t inc) s) s s1"
  using assms counted_doConnecton [of "remote_ip t inc" False _ s]
  by (fastforce simp: stream_doConnecton_def outcome_Ok_obind gains_def split: if_splits outcome.splits prod.splits)

lemma counted_net_do:
  assumes "net_do ev s = Ok s'" and inv: "server_inv s" and "reorders ev"
  shows "counted (gains ev s) s s'"
proof (cases ev)
  case (NetStream sched timed_out t inc)
  with assms(1) obtain out opened s1 where s1: "stream_doConnecton timed_out t inc s = Ok (out, opened, s1)"
    and s': "(case opened of None \<Rightarrow> s1 = s'
      | Some (r, rest) \<Rightarrow> \<exists>ps code. server_run (sched (map (EvPacket r) ps @ [EvReadError r code])) s1 = Ok s')"
    by (fastforce simp: handleConn_def outcome_Ok_obind omap_Ok split: option.splits prod.splits)
  have "set (sched es) = set es" for es
    using assms(3) NetStream mset_eq_setD by (simp add: reorders_def) blast
  then have "\<forall>ev \<in> set (sched (map (EvPacket r) ps @ [EvReadError r code])). \<forall>s. attempt (NetServer ev) s = None" for r ps code
    by auto
  with s' server_inv_stream [OF s1 inv] have "settled s1 s'"
    by (auto split: option.splits intro: settled_server_run)
  with counted_stream [OF s1 inv] NetStream show ?thesis by (blast intro: counted_settled)
next
  case (NetDatagram ip datagram)
  let ?act = "udp_handle (\<lambda>cid. GetConn cid s) datagram"
  consider p where "?act = Ok (UdpConnect p)" | r p where "?act = Ok (UdpRecv r p)" | "?act = Ok UdpDrop"
    | "\<nexists>act. ?act = Ok act"
    by (metis udp_action.exhaust)
  then show ?thesis
  proof cases
    case (1 p)
    with NetDatagram assms(1) counted_doConnecton [of ip True p s, OF _ inv] doConnecton_no_err [of ip True p s] show ?thesis
      by (cases "doConnecton ip True p s") (auto simp: udp_handleConn_def gains_def)
  next
    case (2 r p)
    with NetDatagram assms(1) settled_RecvPacket [of r p s, OF _ inv] show ?thesis
      by (cases "server_RecvPacket r p s") (auto simp: udp_handleConn_def gains_def)
  next
    case 3
    with NetDatagram assms(1) show ?thesis by (simp add: udp_handleConn_def gains_def)
  next
    case 4
    with NetDatagram assms(1) show ?thesis by (cases ?act) (auto simp: udp_handleConn_def gains_def)
  qed
next
  case (NetServer sev)
  show ?thesis
  proof (cases "attempt ev s")
    case None
    with NetServer assms(1) settled_server_do [OF _ inv] show ?thesis by (simp add: gains_def)
  next
    case (Some q)
    with NetServer obtain ip udp p where "sev = EvConnect ip udp p" by (cases sev) auto
    with NetServer assms(1) counted_doConnecton [of ip udp p s, OF _ inv] doConnecton_no_err [of ip udp p s] show ?thesis
      by (cases "doConnecton ip udp p s") (auto simp: server_do_def gains_def)
  qed
qed

fun online_count :: "statistics \<Rightarrow> int" where
  "online_count st = (case onlineUsers st of Live xs \<Rightarrow> sum_list (map fst xs) | _ \<Rightarrow> 0)"

declare online_count.simps [simp del]

definition counting :: "statistics \<Rightarrow> bool" where
  "counting st \<longleftrightarrow> (\<exists>xs. onlineUsers st = Live xs) \<and> connectDuration st \<noteq> NilInstrument"

lemma end_span_instruments [simp]:
  "onlineUsers (end_span cx err st) = onlineUsers st" "connectDuration (end_span cx err st) = connectDuration st"
  "requestDuration (end_span cx err st) = requestDuration st" "redisDuration (end_span cx err st) = redisDuration st"
  "kafkaDuration (end_span cx err st) = kafkaDuration st"
  by (auto simp: end_span_def split: option.splits)

lemma ConnectEnd_counts:
  assumes "counting st" and "ce_Error info = None"
  obtains st' where "ConnectEnd cx info st = Ok st'" and "counting st'" and "online_count st' = online_count st + 1"
  using assms by (cases "connectDuration st") (auto simp: ConnectEnd_def counting_def online_count.simps Let_def)

lemma Disconnects_count:
  "counting st \<Longrightarrow> \<exists>st'. Disconnects n st = Ok st' \<and> counting st' \<and> online_count st' = online_count st - int n"
proof (induction n arbitrary: st)
  case (Suc n)
  from Suc.prems obtain st1 where st1: "Disconnect st = Ok st1" "counting st1" "online_count st1 = online_count st - 1"
    by (auto simp: Disconnect_def counting_def online_count.simps)
  with Suc.IH [OF st1(2)] show ?case by auto
qed simp

text \<open>The attempts to log in after which no client id was added to the table.\<close>

fun missed :: "net_event list \<Rightarrow> server \<Rightarrow> nat" where
  "missed [] s = 0"
| "missed (ev # evs) s =
     (case net_do ev s of
        Ok s' \<Rightarrow> of_bool (attempt ev s \<noteq> None) - gains ev s + missed evs s'
      | _ \<Rightarrow> 0)"

lemma gains_attempt: "gains ev s \<le> of_bool (attempt ev s \<noteq> None)"
  by (auto simp: gains_def split: option.splits)

lemma metered_step:
  assumes "metered_do t0 t1 ev (st, s) = Ok (st', s')" and "counting st" and "server_inv s" and "reorders ev"
  shows "net_do ev s = Ok s' \<and> counting st' \<and>
    online_count st' - int (length (rmap_m (conns s'))) =
      online_count st - int (length (rmap_m (conns s))) + int (of_bool (attempt ev s \<noteq> None) - gains ev s)"
proof -
  from assms(1) have net: "net_do ev s = Ok s'"
    by (auto simp: metered_do_def outcome_Ok_obind omap_Ok split: if_splits)
  obtain st1 where st1: "disconnected s s' st = Ok st1" "counting st1"
    "online_count st1 = online_count st - int (length (closed_ids s') - length (closed_ids s))"
    using Disconnects_count [OF assms(2)] by (auto simp: disconnected_def)
  let ?info = "\<lparr>ce_BeginTime = t0, ce_EndTime = t1, ce_Error = None\<rparr>"
  obtain st2 where st2: "ConnectEnd (ConnectBegin None st) ?info st1 = Ok st2" "counting st2" "online_count st2 = online_count st1 + 1"
    using ConnectEnd_counts [OF st1(2), of ?info] by auto
  have "st' = (if attempt ev s = None then st1 else st2)"
    using assms(1) net st1(1) st2(1) by (auto simp: metered_do_def split: if_splits)
  with st1(2) st2(2,3) have "counting st' \<and> online_count st' = online_count st1 + of_bool (attempt ev s \<noteq> None)" by simp
  with net st1(3) counted_net_do [OF net assms(3,4)] gains_attempt [of ev s] show ?thesis
    by (auto simp: counted_def balance_def of_nat_diff)
qed

lemma metered_drift:
  assumes "metered_run evs (st, s) = Ok (st', s')" and "counting st" and "server_inv s" and "list_all (reorders \<circ> snd \<circ> snd) evs"
  shows "server_inv s' \<and> online_count st' - int (length (rmap_m (conns s'))) =
    online_count st - int (length (rmap_m (conns s))) + int (missed (map (snd \<circ> snd) evs) s)"
  using assms
proof (induction evs arbitrary: st s)
  case (Cons e evs)
  obtain t0 t1 ev where e: "e = (t0, t1, ev)" by (cases e)
  with Cons.prems(1) obtain st1 s1 where step: "metered_do t0 t1 ev (st, s) = Ok (st1, s1)"
    and rest: "metered_run evs (st1, s1) = Ok (st', s')"
    by (auto simp: outcome_Ok_obind)
  have "reorders ev" using Cons.prems(4) e by simp
  from metered_step [OF step Cons.prems(2,3) this] have net: "net_do ev s = Ok s1" and "counting st1"
    and diff: "online_count st1 - int (length (rmap_m (conns s1))) =
      online_count st - int (length (rmap_m (conns s))) + int (of_bool (attempt ev s \<noteq> None) - gains ev s)"
    by blast+
  from Cons.IH [OF rest \<open>counting st1\<close> server_inv_net_do [OF net Cons.prems(3)]] Cons.prems(4) diff e net
  show ?case by simp
qed simp

lemma newStats_counting:
  assumes "newStats tel cfg = Ok st" and "metrics_Enabled (cfg_Metrics cfg)"
    and "provider_Meter tel (initMeter_err tel = None) = Ok (\<lambda>_. None)"
  shows "counting st \<and> online_count st = 0"
  using assms by (auto simp: newStats_def outcome_Ok_obind omap_Ok counting_def new_instrument_def online_count.simps)

text \<open>
  C23. With metrics on, the counter \<open>cable.online.users\<close> is the number of clients in the table plus the number of
  attempts to log in, since the server started, that did not add a client id: attempts without a CONNECT
  packet in time, with one that was refused, or with an id that was already in the table. The
  difference never falls, whatever the streams, datagrams and calls, because the error reported is always nil.
\<close>

theorem online_users_drift:
  assumes "server_New os = Ok s0" and "newStats tel cfg = Ok st0" and "metrics_Enabled (cfg_Metrics cfg)"
    and "provider_Meter tel (initMeter_err tel = None) = Ok (\<lambda>_. None)"
    and "list_all (reorders \<circ> snd \<circ> snd) evs" and "metered_run evs (st0, s0) = Ok (st, s)"
  shows "online_count st = int (card {k. GetConn k s \<noteq> None}) + int (missed (map (snd \<circ> snd) evs) s0)"
proof -
  have st0: "counting st0" "online_count st0 = 0" using newStats_counting [OF assms(2-4)] by auto
  have "rmap_m (conns s0) = []"
    using assms(1) by (auto simp: server_New_def Let_def outcome_Ok_obind empty_RMap_def)
  with metered_drift [OF assms(6) st0(1) server_inv_New [OF assms(1)] assms(5)] st0(2)
  have "server_inv s" "online_count st - int (length (rmap_m (conns s))) = int (missed (map (snd \<circ> snd) evs) s0)"
    by auto
  moreover from this have "length (rmap_m (conns s)) = card {k. GetConn k s \<noteq> None}"
    using dom_card [of "rmap_m (conns s)"] by (simp add: server_inv_def RMap_ok_def GetConn_def RMap_Get_def)
  ultimately show ?thesis by simp
qed

definition demo_telemetry :: telemetry where
  "demo_telemetry = \<lparr>initTrace_err = None, initMeter_err = None, provider_Tracer = (\<lambda>_. Ok (\<lambda>_. True)),
     provider_Meter = (\<lambda>_. Ok (\<lambda>_. None))\<rparr>"

definition demo_metrics :: config where
  "demo_metrics = (demo_config [demo_listener ''tcp''] (gs ''pass''))
     \<lparr>cfg_Metrics := \<lparr>metrics_Enabled = True, metrics_TenantID = gs ''t'', metrics_Interval = 1, metrics_OTLPEndpoint = gs ''e''\<rparr>\<rparr>"

definition demo_attempts :: "(int \<times> int \<times> net_event) list" where
  "demo_attempts = [(0, 1, NetServer (EvConnect [] False (demo_connect ''u'' ''c''))),
     (2, 3, NetServer (EvConnect [] False (demo_connect ''v'' ''c''))), (4, 5, NetStream id True NewTCP (demo_incoming []))]"

theorem online_users_drift_witness:
  "\<exists>st s. metered_run demo_attempts (get_Ok (newStats demo_telemetry demo_metrics), demo_empty) = Ok (st, s) \<and> online_count st = 2 \<and>
     card {k. GetConn k s \<noteq> None} = 0"
proof -
  let ?st0 = "get_Ok (newStats demo_telemetry demo_metrics)"
  let ?run = "metered_run demo_attempts (?st0, demo_empty)"
  have "is_Ok (newStats demo_telemetry demo_metrics)" by code_simp
  then have st0: "newStats demo_telemetry demo_metrics = Ok ?st0" by (rule get_Ok)
  have m: "metrics_Enabled (cfg_Metrics demo_metrics)"
    "provider_Meter demo_telemetry (initMeter_err demo_telemetry = None) = Ok (\<lambda>_. None)"
    by (simp_all add: demo_metrics_def demo_telemetry_def)
  have re: "list_all (reorders \<circ> snd \<circ> snd) demo_attempts" by (simp add: demo_attempts_def reorders_def)
  have "is_Ok ?run" by code_simp
  then have run: "?run = Ok (fst (get_Ok ?run), snd (get_Ok ?run))" using get_Ok [of ?run] by simp
  have "rmap_m (conns (snd (get_Ok ?run))) = []" by code_simp
  then have card: "card {k. GetConn k (snd (get_Ok ?run)) \<noteq> None} = 0" by (simp add: GetConn_def RMap_Get_def)
  have "missed (map (snd \<circ> snd) demo_attempts) demo_empty = 2" by code_simp
  with online_users_drift [OF demo_server_run(1) st0 m re run] run card show ?thesis
    by (intro exI [of _ "fst (get_Ok ?run)"] exI [of _ "snd (get_Ok ?run)"]) simp
qed

section \<open>Statistics without metrics\<close>

lemma stream_no_err: "stream_doConnecton timed_out t inc s \<noteq> Err e"
  by (auto simp: stream_doConnecton_def outcome_Err_obind doConnecton_no_err split: prod.splits outcome.splits)

lemma net_do_no_err: "net_do ev s \<noteq> Err e"
  by (cases ev) (auto simp: omap_Err handleConn_def outcome_Err_obind stream_no_err server_run_no_err server_do_no_err
    split: option.splits prod.splits)

lemma Disconnects_nil: "onlineUsers st = NilInstrument \<Longrightarrow> Disconnects n st = Panic \<or> Disconnects n st = Ok st"
  by (cases n) (auto simp: Disconnect_def)

lemma newStats_nil:
  "newStats tel cfg = Ok st \<Longrightarrow> \<not> metrics_Enabled (cfg_Metrics cfg) \<Longrightarrow>
     onlineUsers st = NilInstrument \<and> queueLength st = NilInstrument \<and> connectDuration st = NilInstrument"
  by (auto simp: newStats_def no_stats_def outcome_Ok_obind omap_Ok split: if_splits)



section \<open>Samples\<close>

text \<open>
  A request that the handler refuses is counted as a success when the response could be queued.
\<close>

lemma failed_request_is_ok:
  assumes "requestHandler (opts s) p (raw_ID (conn_of r s)) = Err e" and "requestDuration st = Live xs"
    and "metered_OnRequest t0 t1 cx r p (st, s) = Ok (s', st')" and "s' \<noteq> s"
  shows "\<exists>ls. requestDuration st' = Live (xs @ [(time_Sub t1 t0, (''isok'', AttrBool True) # ls)])"
proof -
  obtain code where code: "(case e of StatusCodeError code \<Rightarrow> request_Response p code []
      | _ \<Rightarrow> request_Response p StatusInternalError []) = request_Response p code []"
    by (cases e) auto
  let ?send = "conn_SendPacket cx (PResponse (request_Response p code [])) (conn_of r s)"
  have "OnRequest cx r p s = Ok s'"
    using assms(3) by (auto simp: metered_OnRequest_def Let_def outcome_Ok_obind omap_Ok)
  then have "(case ?send of Ok c \<Rightarrow> Ok (put_conn r c s) | Err e \<Rightarrow> log_identity r s s | Panic \<Rightarrow> Panic) = Ok s'"
    using assms(1) code by (cases e) (auto simp: OnRequest_def outcome_Ok_obind log_identity_def split: option.splits)
  with assms(4) obtain c where "?send = Ok c" by (cases ?send) (auto simp: log_identity_def split: option.splits)
  with assms(1-3) code show ?thesis
    by (cases e) (auto simp: metered_OnRequest_def RequestEnd_def Let_def outcome_Ok_obind omap_Ok)
qed

text \<open>The span and the sample of a failed message say it succeeded, and its kind is 0.\<close>

lemma failed_message_is_ok:
  assumes "messageDuration st = Live xs" and "metered_SendMessage t0 t1 cx cid p (st, s) = Ok (res, st')"
  shows "res = server_SendMessage cx cid p s \<and> (\<exists>net. messageDuration st' =
    Live (xs @ [(time_Sub t1 t0, [(''kind'', AttrInt 0), (''isok'', AttrBool True), (''inout'', AttrString (gs ''out'')), net])]))"
  using assms by (auto simp: metered_SendMessage_def MessageEnd_def Let_def omap_Ok end_span_def split: option.splits if_splits)

text \<open>A read of the key-value store is recorded as a deletion.\<close>

lemma redis_Get_recorded:
  assumes "redisDuration st = Live xs" and "redis_Get t0 t1 cx impl st = Ok (res, st')"
  shows "\<exists>ok. redisDuration st' = Live (xs @ [(time_Sub t1 t0, [ok, (''cmd'', AttrString (gs ''HDel''))])])"
  using assms by (auto simp: redis_Get_def redis_call_def RedisEnd_def Let_def omap_Ok split: prod.splits)

text \<open>Every message for Kafka takes the longest time there is, at any time after the year 293.\<close>

lemma kafka_duration:
  assumes "kafkaDuration st = Live xs" and "2 ^ 63 \<le> t1" and "metered_SendToKafka t1 topic err st = Ok st'"
  shows "\<exists>ls. kafkaDuration st' = Live (xs @ [(2 ^ 63 - 1, ls)])"
  using assms by (auto simp: metered_SendToKafka_def KafkaEnd_def Let_def omap_Ok time_Sub_def)

end
