(* ===== verification/End_To_End.thy ===== *)
theory End_To_End
  imports Login_Safety Node_Safety
begin

text \<open>
  From a login on one node to a message from another: the server and the broker of the node of the client,
  the log that carries the login, the registry of the other node and its routing, together.
\<close>

section \<open>The node of the client\<close>

text \<open>The worker of a client's connection writes the next thing in its queue.\<close>

definition node_work :: "gostring \<Rightarrow> gostring \<Rightarrow> 'cs node \<Rightarrow> 'cs node" where
  "node_work net cid nd =
     (case started_server net nd of
        Ok (Some s) \<Rightarrow>
          (case GetConn cid s of
             Some r \<Rightarrow> put_server net (put_conn r (conn_work (conn_of r s)) s) nd
           | None \<Rightarrow> nd)
      | _ \<Rightarrow> nd)"

text \<open>A new connection holds the CONNACK alone, and is idle as soon as it is written.\<close>

lemma connack_sendable: "sendable (PConnack (NewConnack code))"
  by (simp add: sendable_def NewConnack_def u8map_ok_def connack_wire_def u8map_wire_def MAX_LEN_def)

lemma new_conn_answers:
  assumes "newConn ident ip udp cap = Ok c" and "ignoring c (ConnackCode code c) = Ok c'"
  shows "conn_plain (conn_work c') \<and> sent (conn_work c') = [frame (PConnack (NewConnack code))]"
proof -
  have "packet_Marshal (PConnack (NewConnack code)) = Ok (frame (PConnack (NewConnack code)))"
    by (rule Marshal_sendable [OF connack_sendable])
  with assms show ?thesis
    by (auto simp: newConn_def queue_New_def ConnackCode_def jumpPacket_def conn_push_def conn_IsClosed_def background_def
      has_room_def cap_jumps_def accept_def push_select_def push_send_def conn_work_def start_jump_def WriteData_def
      conn_plain_def sent_def Let_def split: if_splits)
qed

text \<open>What an accepted login of a client id that is not in the table leaves behind.\<close>

lemma fresh_connection:
  assumes "server_inv s" and "doConnecton ip udp p s = Ok (code, s')"
    and "connectHandler (opts s) p = ConnectAccepted" and "Identity p = Some ident"
    and "GetConn (ClientID ident) s = None"
  shows "code = ConnectAccepted \<and> closed_ids s' = closed_ids s \<and> server_closed s' = server_closed s \<and>
    GetConn (ClientID ident) s' = Some (length (heap s)) \<and> length (heap s') = Suc (length (heap s)) \<and>
    conn_plain (conn_work (conn_of (length (heap s)) s')) \<and>
    sent (conn_work (conn_of (length (heap s)) s')) = [frame (PConnack (NewConnack ConnectAccepted))]"
proof -
  let ?r = "length (heap s)"
  have ok: "RMap_ok (conns s)" using assms(1) by (simp add: server_inv_def)
  from login_accepted [OF assms(2-4,1)] obtain c s1 where c: "newConn (Some ident) ip udp (queueCapacity (opts s)) = Ok c"
    and code: "code = ConnectAccepted"
    and s1_cases: "(case GetConn (ClientID ident) s of
          Some o' \<Rightarrow> do_CloseCode CloseDuplicateLogin o'
            (s\<lparr>heap := heap s @ [c], conns := snd (RMap_Set (ClientID ident) (length (heap s)) (conns s))\<rparr>)
        | None \<Rightarrow> Ok (s\<lparr>heap := heap s @ [c],
            conns := snd (RMap_Set (ClientID ident) (length (heap s)) (conns s))\<rparr>)) = Ok s1"
    and s': "do_ConnackCode ConnectAccepted ?r s1 = Ok s'" .
  have s1: "s1 = s\<lparr>heap := heap s @ [c], conns := snd (RMap_Set (ClientID ident) ?r (conns s))\<rparr>"
    using s1_cases assms(5) by simp
  obtain c' where c': "ignoring c (ConnackCode ConnectAccepted c) = Ok c'" and put: "s' = put_conn ?r c' s1"
    using s' by (auto simp: do_ConnackCode_def omap_Ok conn_of_def s1 nth_append)
  have "GetConn (ClientID ident) s' = Some ?r"
    using rmap.get_put [OF ok] by (simp add: put put_conn_def s1 GetConn_def)
  moreover have "conn_of ?r s' = c'" "length (heap s') = Suc ?r"
    by (simp_all add: put put_conn_def s1 conn_of_def nth_list_update)
  ultimately show ?thesis using new_conn_answers [OF c c'] code by (simp add: put put_conn_def s1)
qed

lemma login_fresh_node:
  assumes "w me = Some nd" and "raft_started (node_cluster nd)"
    and "userConnect nd p = ConnectAccepted" and ident: "Identity p = Some ident"
    and s: "started_server net nd = Ok (Some s)" "\<not> server_closed s" "GetConn (ClientID ident) s = None" and inv: "node_inv nd"
    and "NMap_ok (userClients (node_broker nd))"
    and "\<And>n. n \<noteq> node_id nd \<Longrightarrow> NGet n (UserID ident) (ClientID ident) (userClients (node_broker nd)) = None"
    and "login grpc me net ip udp p w = Ok (code, w')"
  obtains nd' c where "code = ConnectAccepted" and "w' = w(me \<mapsto> nd')"
    and "proposals (node_cluster nd') = proposals (node_cluster nd) @ [opt (opened_op nd net ident) # op_wire (opened_op nd net ident)]"
    and "node_inv (node_work net (ClientID ident) nd')"
    and "conn_at net (ClientID ident) (node_work net (ClientID ident) nd') = Some c"
    and "conn_plain c" and "sent c = [frame (PConnack (NewConnack ConnectAccepted))]"
proof -
  let ?nd1 = "submitted_op (opened_op nd net ident) nd" and ?s0 = "s\<lparr>opts := (opts s)\<lparr>connectHandler := \<lambda>_. ConnectAccepted\<rparr>\<rparr>"
  have sinv: "server_inv s" using s(1) inv by (auto simp: node_inv_def started_server_def split: option.splits if_splits)
  then have inv0: "server_inv ?s0" by (simp add: server_inv_def)
  from login_steps [OF assms(1-4) s(1) assms(9-11)] obtain s'
    where conn: "doConnecton ip udp p ?s0 = Ok (code, s')" and s1: "started_server net ?nd1 = Ok (Some s)"
    and w': "w' = w(me \<mapsto> fold onUserClosed (drop (length (closed_ids s)) (closed_ids s')) (put_server net (s'\<lparr>opts := opts s\<rparr>) ?nd1))" .
  have none: "GetConn (ClientID ident) ?s0 = None" using s(3) by (simp add: GetConn_def)
  note f = fresh_connection [OF inv0 conn _ ident none, simplified]
  let ?s' = "s'\<lparr>opts := opts s\<rparr>" let ?nd' = "put_server net ?s' ?nd1" let ?r = "length (heap s)"
  let ?c = "conn_work (conn_of ?r s')"
  have f': "GetConn (ClientID ident) ?s' = Some ?r" "conn_of ?r ?s' = conn_of ?r s'"
    using f by (simp_all add: GetConn_def conn_of_def)
  have st: "started_server net ?nd' = Ok (Some ?s')" by (simp add: started_put_server [OF s1])
  have work: "node_work net (ClientID ident) ?nd' = put_server net (put_conn ?r ?c ?s') ?nd'"
    by (simp add: node_work_def st f')
  have "server_inv ?s'" using server_inv_doConnecton [OF conn inv0] by (simp add: server_inv_def)
  moreover from this have "server_inv (put_conn ?r ?c ?s')"
    using server_inv_put [of ?s' ?r ?c] same_conn_work f'(2) by metis
  moreover have "node_inv ?nd1" using inv node_inv_cong [of ?nd1 nd] by simp
  ultimately have "node_inv (node_work net (ClientID ident) ?nd')" unfolding work by (intro node_inv_put_server)
  moreover have "conn_at net (ClientID ident) (node_work net (ClientID ident) ?nd') = Some ?c"
    unfolding work using s(2) f f' by (simp add: conn_at_put_server [OF st] conn_of_def put_conn_def GetConn_def)
  moreover have "w' = w(me \<mapsto> ?nd')" using w' f by simp
  moreover have "proposals (node_cluster ?nd') = proposals (node_cluster nd) @ [opt (opened_op nd net ident) # op_wire (opened_op nd net ident)]"
    by (simp add: submitted_op_def)
  ultimately show thesis using that [of ?nd' ?c] f by simp
qed

section \<open>The other node\<close>

lemma node_apply_op:
  assumes "entry_Type e = EntryNormal" and "entry_Data e = opt op # op_wire op" and "op_ok op" and "length (op_wire op) < 2 ^ 63"
  shows "node_apply dec f [e] nd = Ok (nd\<lparr>node_cluster := (node_cluster nd)\<lparr>
    broker := broker_apply (broker_op_of op) (node_broker nd), appliedIndex := entry_Index e\<rparr>\<rparr>)"
  using assms(1,2) by (simp add: node_apply_def applyEntries_def Let_def applyRaftOp_wire [OF assms(3,4)])

lemma NGet_opened:
  assumes "broker_ok b"
  shows "NMap_ok (userClients (broker_userOpened op b))"
    and "NGet n uid cid (userClients (broker_userOpened op b)) =
      (if n = opened_nodeID op \<and> cid = opened_cid op \<and> uid = opened_uid op then Some (opened_net op)
       else NGet n uid cid (userClients b))"
proof -
  from abs_opened [OF assms, of op] show "NMap_ok (userClients (broker_userOpened op b))" by (simp add: broker_ok_def)
  from abs_opened [OF assms, of op] have "users (abs_broker (broker_userOpened op b)) n uid cid =
      users (reg_opened op (abs_broker b)) n uid cid" by simp
  then show "NGet n uid cid (userClients (broker_userOpened op b)) =
      (if n = opened_nodeID op \<and> cid = opened_cid op \<and> uid = opened_uid op then Some (opened_net op)
       else NGet n uid cid (userClients b))"
    by (simp add: abs_broker_def reg_opened_def Let_def)
qed

section \<open>Properties\<close>

text \<open>
  C5. A user who logs in on one node can be reached from another: when the login is accepted and the entry that
  the client's node proposed last is applied on the other node, that node reports the user as online, and a
  message it sends to the user counts one client, reaches the connection of the login, exactly once and
  right after its CONNACK.
\<close>

theorem login_then_message:
  assumes w: "w a = Some nda" "w b = Some ndb" "a \<noteq> b" "node_id nda = a" "node_id ndb = b"
    and inv: "\<forall>n nd. w n = Some nd \<longrightarrow> node_inv nd"
    and raft: "raft_started (node_cluster nda)"
    and acc: "userConnect nda p = ConnectAccepted" "Identity p = Some ident" "UserID ident \<noteq> []"
    and s: "started_server net nda = Ok (Some s)" "\<not> server_closed s" "GetConn (ClientID ident) s = None"
    and alone: "NMap_ok (userClients (node_broker nda))"
      "\<forall>n. n \<noteq> a \<longrightarrow> NGet n (UserID ident) (ClientID ident) (userClients (node_broker nda)) = None"
    and op: "op_ok (opened_op nda net ident)" "length (op_wire (opened_op nda net ident)) < 2 ^ 63"
    and login: "login grpc a net ip udp p w = Ok (code, w1)"
    and e: "entry_Type e = EntryNormal" "entry_Data e = last (proposals (node_cluster (the (w1 a))))"
    and b: "broker_ok (node_broker ndb)" "\<forall>n cid. NGet n (UserID ident) cid (userClients (node_broker ndb)) = None"
      "reaches grpc (node_cluster ndb) a"
    and m: "sendable (PMessage m)"
  shows "code = ConnectAccepted \<and>
    (\<exists>nda' ndb' w' nd c. w1 a = Some nda' \<and> node_apply dec f [e] ndb = Ok ndb' \<and>
       IsOnline grpc b (UserID ident) (w1(a \<mapsto> node_work net (ClientID ident) nda', b \<mapsto> ndb')) = Ok True \<and>
       SendToUser grpc background b (UserID ident) m (w1(a \<mapsto> node_work net (ClientID ident) nda', b \<mapsto> ndb')) = Ok ((1, 1), w') \<and>
       w' a = Some nd \<and> conn_at net (ClientID ident) nd = Some c \<and>
       sent c = [frame (PConnack (NewConnack ConnectAccepted)), frame (PMessage m)])"
proof -
  let ?op = "opened_op nda net ident" and ?uid = "UserID ident" and ?cid = "ClientID ident"
  have alone2: "\<And>n. n \<noteq> node_id nda \<Longrightarrow> NGet n ?uid ?cid (userClients (node_broker nda)) = None"
    using alone(2) w(4) by simp
  have "node_inv nda" using inv w(1) by simp
  from login_fresh_node [OF w(1) raft acc(1,2) s this alone(1) alone2 login] obtain nda' c0
    where code: "code = ConnectAccepted" and w1: "w1 = w(a \<mapsto> nda')"
    and pr: "proposals (node_cluster nda') = proposals (node_cluster nda) @ [opt ?op # op_wire ?op]"
    and inva: "node_inv (node_work net ?cid nda')"
    and c0: "conn_at net ?cid (node_work net ?cid nda') = Some c0" "conn_plain c0" "sent c0 = [frame (PConnack (NewConnack ConnectAccepted))]" .
  define ndb' where "ndb' = ndb\<lparr>node_cluster := (node_cluster ndb)\<lparr>broker := broker_apply (broker_op_of ?op) (node_broker ndb),
    appliedIndex := entry_Index e\<rparr>\<rparr>"
  have ap: "node_apply dec f [e] ndb = Ok ndb'"
    unfolding ndb'_def by (rule node_apply_op) (use e op pr w1 in simp_all)
  define w2 where "w2 = w1(a \<mapsto> node_work net ?cid nda', b \<mapsto> ndb')"
  let ?t = "userClients (node_broker ndb')"
  have b': "w2 b = Some ndb'" "node_id ndb' = b" using w(5) by (simp_all add: w2_def ndb'_def)
  have ok: "NMap_ok ?t" and get: "NGet n ?uid cid ?t = (if n = a \<and> cid = ?cid then Some net else None)" for n cid
    using NGet_opened [OF b(1)] b(2) w(4) by (simp_all add: ndb'_def opened_op_def)
  have reach: "reaches grpc (node_cluster ndb') a" using b(3) by (simp add: reaches_def ndb'_def GetPeer_def)
  have invs: "node_inv nd" if "w2 n = Some nd" for n nd
    using that inv inva w(2) node_inv_cong [of ndb' ndb] by (auto simp: w2_def w1 ndb'_def split: if_splits)
  have a2: "w2 a = Some (node_work net ?cid nda')" using w(3) by (simp add: w2_def)
  have "active_at net ?cid (node_work net ?cid nda')"
    using c0(1,2) by (auto simp: conn_at_def active_at_def IsActive_def GetConn_def conn_IsClosed_def conn_plain_def Let_def
      split: outcome.splits option.splits if_splits)
  then have "online ?uid ?t w2" using a2 by (auto simp: online_def get)
  then have on: "IsOnline grpc b ?uid w2 = Ok True"
    using IsOnline_online [where w = w2, OF b' ok, of ?uid grpc] reach a2 inva by (auto simp: get split: if_splits)
  have T: "{(net', cid). NGet n ?uid cid ?t = Some net'} = (if n = a then {(net, ?cid)} else {})" for n by (auto simp: get)
  have ready: "ready_for {(net', cid). NGet n ?uid cid ?t = Some net'} nd" if "w2 n = Some nd" for n nd
    using that invs [OF that] c0 a2 by (auto simp: T ready_for_def)
  have "{(n, cid). NGet n ?uid cid ?t \<noteq> None} = {(a, ?cid)}" by (auto simp: get)
  then obtain w' where w': "SendToUser grpc background b ?uid m w2 = Ok ((1, 1), w')"
    "delivered_all m (\<lambda>n. {(net', cid). NGet n ?uid cid ?t = Some net'}) w2 w'"
    using to_user.fan_out_delivers [OF m ok b'(2), of ?uid grpc w2] reach a2 ready b'(1) acc(3)
    by (fastforce simp: SendToUser_def get split: if_splits)
  from a2 obtain nd where nd: "w' a = Some nd" "delivered m {(net, ?cid)} (node_work net ?cid nda') nd"
    using w'(2) [unfolded delivered_all_def T, THEN spec, of a] by auto
  from nd(2) have "\<exists>c c'. conn_at net ?cid (node_work net ?cid nda') = Some c \<and> conn_at net ?cid nd = Some c' \<and>
      sent c' = sent c @ [frame (PMessage m)]"
    unfolding delivered_def by (elim conjE allE [of _ net] allE [of _ ?cid]) auto
  then obtain c where "conn_at net ?cid nd = Some c" "sent c = sent c0 @ [frame (PMessage m)]"
    using c0(1) by auto
  with code ap on w'(1) nd(1) c0(3) w1 show ?thesis unfolding w2_def by (intro conjI exI [of _ nda'] exI [of _ ndb']) auto
qed

definition demo_e2e :: "byte \<times> unit world" where
  "demo_e2e = get_Ok (login (\<lambda>_. Answered 0) 1 (gs ''tcp'') [] False (demo_connect ''v'' ''d'') demo_world)"

definition demo_login_entry :: raft_entry where
  "demo_login_entry = \<lparr>entry_Type = EntryNormal, entry_Index = 1, entry_Data = last (proposals (node_cluster (the (snd demo_e2e 1))))\<rparr>"

theorem login_then_message_witness:
  "\<exists>nda' ndb' w'. snd demo_e2e 1 = Some nda' \<and> node_apply (\<lambda>_. None) (\<lambda>_. ()) [demo_login_entry] (demo_node 2) = Ok ndb' \<and>
     SendToUser (\<lambda>_. Answered 0) background 2 (gs ''v'') (NewMessage [1])
       ((snd demo_e2e)(1 \<mapsto> node_work (gs ''tcp'') (gs ''d'') nda', 2 \<mapsto> ndb')) = Ok ((1, 1), w')"
proof -
  let ?p = "demo_connect ''v'' ''d''" let ?i = "\<lparr>UserID = gs ''v'', ClientID = gs ''d'', Password = []\<rparr>"
  let ?op = "opened_op (demo_node 1) (gs ''tcp'') ?i"
  have w: "demo_world 1 = Some (demo_node 1)" "demo_world 2 = Some (demo_node 2)" "(1 :: u64) \<noteq> 2"
    "node_id (demo_node 1) = 1" "node_id (demo_node 2) = 2"
    by (simp_all add: demo_world_def)
  have inv: "\<forall>n nd. demo_world n = Some nd \<longrightarrow> node_inv nd"
    using demo_node_inv by (auto simp: demo_world_def split: if_splits)
  have acc: "raft_started (node_cluster (demo_node 1))" "userConnect (demo_node 1) ?p = ConnectAccepted" "Identity ?p = Some ?i"
    "UserID ?i \<noteq> []"
    by (simp_all add: demo_node_def demo_connect_def NewConnect_def gs_def)
  have s: "\<not> server_closed demo_idle" "GetConn (ClientID ?i) demo_idle = None"
    using demo_idle(5) by (simp, code_simp)
  have alone: "NMap_ok (userClients (node_broker (demo_node 1)))"
    "\<forall>n. n \<noteq> 1 \<longrightarrow> NGet n (UserID ?i) (ClientID ?i) (userClients (node_broker (demo_node 1))) = None"
    by (simp_all add: demo_tables demo_NGet)
  have op: "op_ok ?op" "length (op_wire ?op) < 2 ^ 63"
    by (simp_all add: opened_op_def op_ok_def demo_node_def newCluster_def str_map_ok_def go_map_def userOpened_wire_def
      data_wire_def gs_def uvarint_bytes.simps str_map_wire_def)
  have "is_Ok (login (\<lambda>_. Answered 0) 1 (gs ''tcp'') [] False ?p demo_world)" by code_simp
  then have "login (\<lambda>_. Answered 0) 1 (gs ''tcp'') [] False ?p demo_world = Ok demo_e2e"
    unfolding demo_e2e_def by (rule get_Ok)
  then have l: "login (\<lambda>_. Answered 0) 1 (gs ''tcp'') [] False ?p demo_world = Ok (fst demo_e2e, snd demo_e2e)" by simp
  have e: "entry_Type demo_login_entry = EntryNormal"
    "entry_Data demo_login_entry = last (proposals (node_cluster (the (snd demo_e2e 1))))"
    by (simp_all add: demo_login_entry_def)
  have b: "broker_ok (node_broker (demo_node 2))"
    "\<forall>n cid. NGet n (UserID ?i) cid (userClients (node_broker (demo_node 2))) = None"
    using demo_ok by (simp_all add: demo_NGet) (simp add: gs_def)
  from login_then_message [OF w inv acc demo_node_simps(3) s alone op l e b demo_reaches demo_sendable, of "\<lambda>_. None" "\<lambda>_. ()"]
  show ?thesis by auto
qed

end
