(* ===== verification/Keepalive.thy ===== *)
theory Keepalive
  imports Client
begin

text \<open>
  The keep-alive timers, src/internal/keepalive/keepalive.go, and the pings they send, \<open>sendPing\<close> of
  src/client/client.go and \<open>SendPing\<close> of src/internal/network/conn.go, whose bodies are the same.

  The first machine has time: a clock, the timers that are due to call \<open>run\<close>, and the pings that are under
  way, each with the time at which its context ends. The second machine has the goroutines that send
  pings and receive pongs on one connection, with the lock, the channel and its closing. Timers are on
  time: the clock does not pass a timer that has not run.
\<close>

section \<open>Timers\<close>

text \<open>
  \<open>ka_pings\<close>, \<open>ka_packets\<close> and \<open>ka_started\<close> record the pings, the packets and the last effective \<open>Start\<close>; the
  program does not have them.
\<close>

record timers =
  ka :: keepalive
  ka_clock :: int
  ka_due :: "int list"
  ka_busy :: "int list"
  ka_pings :: "int list"
  ka_packets :: "int list"
  ka_started :: int

definition ka_New :: "int \<Rightarrow> int \<Rightarrow> timers" where
  "ka_New n intv = \<lparr>ka = keepalive_New n intv, ka_clock = n, ka_due = [], ka_busy = [], ka_pings = [],
     ka_packets = [n], ka_started = n\<rparr>"

definition ka_Start :: "timers \<Rightarrow> timers" where
  "ka_Start t =
     (case keepalive_Start (ka t) of (k, spawned) \<Rightarrow>
        if spawned then t\<lparr>ka := k, ka_due := ka_clock t # ka_due t, ka_started := ka_clock t\<rparr> else t\<lparr>ka := k\<rparr>)"

definition ka_Stop :: "timers \<Rightarrow> timers" where
  "ka_Stop t = t\<lparr>ka := keepalive_Stop (ka t)\<rparr>"

definition ka_UpdateTime :: "timers \<Rightarrow> timers" where
  "ka_UpdateTime t = t\<lparr>ka := keepalive_UpdateTime (ka_clock t) (ka t), ka_packets := ka_clock t # ka_packets t\<rparr>"

text \<open>\<open>time.AfterFunc\<close> at the end of \<open>run\<close>.\<close>

definition ka_after :: "timers \<Rightarrow> timers" where
  "ka_after t = t\<lparr>ka_due := (ka_clock t + interval (ka t)) # ka_due t\<rparr>"

text \<open>\<open>run\<close>, called by the timer of time \<open>d\<close>, up to the call of the pinger, if there is one.\<close>

definition ka_run :: "int \<Rightarrow> int \<Rightarrow> timers \<Rightarrow> timers" where
  "ka_run timeout d t0 =
     (let t = t0\<lparr>ka_due := remove1 d (ka_due t0)\<rparr>
      in if stoped (ka t) then t
         else if keepalive_sendPing (ka_clock t) (ka t)
              then t\<lparr>ka_busy := (ka_clock t + timeout) # ka_busy t, ka_pings := ka_clock t # ka_pings t\<rparr>
              else ka_after t)"

text \<open>The rest of \<open>run\<close>, when the pinger returns.\<close>

definition ka_return :: "int \<Rightarrow> timers \<Rightarrow> timers" where
  "ka_return e t = ka_after (t\<lparr>ka_busy := remove1 e (ka_busy t)\<rparr>)"

datatype ka_event = Tick int | KStart | KStop | Packet | Fire int | Return int

text \<open>What can happen next, and what it does; a ping has the timeout of its context.\<close>

fun ka_enabled :: "ka_event \<Rightarrow> timers \<Rightarrow> bool" where
  "ka_enabled (Tick n) t \<longleftrightarrow> ka_clock t \<le> n \<and> (\<forall>d\<in>set (ka_due t) \<union> set (ka_busy t). n \<le> d)"
| "ka_enabled (Fire d) t \<longleftrightarrow> d \<in> set (ka_due t) \<and> d \<le> ka_clock t"
| "ka_enabled (Return e) t \<longleftrightarrow> e \<in> set (ka_busy t)"
| "ka_enabled _ t \<longleftrightarrow> True"

fun ka_effect :: "int \<Rightarrow> ka_event \<Rightarrow> timers \<Rightarrow> timers" where
  "ka_effect timeout (Tick n) t = t\<lparr>ka_clock := n\<rparr>"
| "ka_effect timeout KStart t = ka_Start t"
| "ka_effect timeout KStop t = ka_Stop t"
| "ka_effect timeout Packet t = ka_UpdateTime t"
| "ka_effect timeout (Fire d) t = ka_run timeout d t"
| "ka_effect timeout (Return e) t = ka_return e t"

text \<open>A run of the machine; \<open>None\<close> when an event is not possible.\<close>

fun ka_exec :: "int \<Rightarrow> ka_event list \<Rightarrow> timers \<Rightarrow> timers option" where
  "ka_exec timeout [] t = Some t"
| "ka_exec timeout (e # es) t = (if ka_enabled e t then ka_exec timeout es (ka_effect timeout e t) else None)"

text \<open>The goroutines and timers that will call \<open>run\<close> again, unless it is stopped.\<close>

definition ka_loops :: "timers \<Rightarrow> nat" where
  "ka_loops t = length (ka_due t) + length (ka_busy t)"

lemma ka_exec_induct [consumes 1, case_names Nil Step]:
  assumes "ka_exec timeout es t = Some t'"
    and "P t"
    and "\<And>e u. e \<in> set es \<Longrightarrow> ka_enabled e u \<Longrightarrow> P u \<Longrightarrow> P (ka_effect timeout e u)"
  shows "P t'"
  using assms by (induction timeout es t rule: ka_exec.induct) (auto split: if_splits)

lemma ka_exec_append:
  "ka_exec timeout (es @ fs) t = Option.bind (ka_exec timeout es t) (ka_exec timeout fs)"
  by (induction timeout es t rule: ka_exec.induct) auto

lemmas ka_ops = ka_Start_def ka_Stop_def ka_UpdateTime_def ka_after_def ka_run_def ka_return_def
  keepalive_Start_def keepalive_Stop_def keepalive_UpdateTime_def keepalive_sendPing_def Let_def

text \<open>
  \<open>newPinger\<close> of src/internal/network/conn.go, and the pinger that \<open>transport_udp.go\<close> starts for a new
  connection.
\<close>

definition newPinger :: "int \<Rightarrow> int \<Rightarrow> timers" where
  "newPinger n intv = ka_New n intv"

definition pingerTimeout :: int where
  "pingerTimeout = 5 * Second"

definition udp_pinger :: "int \<Rightarrow> timers" where
  "udp_pinger n = ka_Start (newPinger n (25 * Second))"

section \<open>How many loops there are\<close>

lemma length_remove1_mem: "x \<in> set xs \<Longrightarrow> Suc (length (remove1 x xs)) = length xs"
  by (induction xs) auto

text \<open>Nothing but a call of \<open>Stop\<close> ends a loop, and a \<open>Start\<close> that finds one running adds none.\<close>

lemma ka_loops_kept:
  assumes "ka_enabled e t" and "\<not> stoped (ka t)" and "e \<noteq> KStop"
  shows "ka_loops (ka_effect timeout e t) = ka_loops t \<and> \<not> stoped (ka (ka_effect timeout e t))"
  using assms by (cases e) (auto simp: ka_ops ka_loops_def dest: length_remove1_mem)

lemma ka_loops_exec:
  assumes "ka_exec timeout es t = Some t'" and "\<not> stoped (ka t)" and "KStop \<notin> set es"
  shows "ka_loops t' = ka_loops t \<and> \<not> stoped (ka t')"
proof -
  have "\<not> stoped (ka t') \<and> ka_loops t' = ka_loops t"
    using assms(1)
  proof (induction rule: ka_exec_induct)
    case Nil
    show ?case using assms(2) by simp
  next
    case (Step e u)
    then show ?case using ka_loops_kept [of e u] assms(3) by auto
  qed
  then show ?thesis by simp
qed

text \<open>A loop that is stopped and not started again ends when its timer fires, without a ping.\<close>

lemma ka_stopped_fire:
  assumes "stoped (ka t)" and "ka_enabled (Fire d) t"
  shows "ka_effect timeout (Fire d) t = t\<lparr>ka_due := remove1 d (ka_due t)\<rparr>"
    and "ka_loops (ka_effect timeout (Fire d) t) < ka_loops t"
  using assms length_remove1_mem [of d "ka_due t"] by (auto simp: ka_ops ka_loops_def)

end
