(* ===== verification/Keepalive_Safety.thy ===== *)
theory Keepalive_Safety
  imports Keepalive
begin

text \<open>
  What the keep-alive timers of src/internal/keepalive guarantee, and what the pings of several loops do
  to one another.
\<close>

section \<open>Pings are neither needless nor late\<close>

text \<open>
  With \<open>i\<close> the interval and \<open>l\<close> the time of the last packet: a timer that is due later than \<open>l + 2 * i\<close>,
  and a ping under way that no packet has followed, bear witness of a ping since \<open>l + i\<close>.
\<close>

definition pinged :: "timers \<Rightarrow> bool" where
  "pinged t \<longleftrightarrow> (\<exists>p\<in>set (ka_pings t). lastPacketTime (ka t) + interval (ka t) \<le> p)"

definition timers_inv :: "int \<Rightarrow> timers \<Rightarrow> bool" where
  "timers_inv timeout t \<longleftrightarrow>
     lastPacketTime (ka t) \<le> ka_clock t \<and> ka_started t \<le> ka_clock t \<and>
     (\<forall>u\<in>set (ka_packets t). u \<le> lastPacketTime (ka t)) \<and>
     (\<forall>p\<in>set (ka_pings t). p \<le> ka_clock t \<and> (\<forall>u\<in>set (ka_packets t). u < p \<longrightarrow> u + interval (ka t) \<le> p)) \<and>
     (\<forall>d\<in>set (ka_due t). ka_clock t \<le> d \<and> d \<le> ka_clock t + interval (ka t) \<and>
        (d \<le> ka_started t \<or> d < lastPacketTime (ka t) + 2 * interval (ka t) \<or> pinged t)) \<and>
     (\<forall>e\<in>set (ka_busy t). ka_clock t \<le> e \<and> e \<le> ka_clock t + timeout \<and>
        (e \<le> lastPacketTime (ka t) + timeout \<or> pinged t)) \<and>
     (\<not> stoped (ka t) \<longrightarrow> ka_loops t \<noteq> 0)"

lemma timers_inv_New: "0 < i \<Longrightarrow> timers_inv timeout (ka_New n i)"
  by (simp add: timers_inv_def ka_New_def keepalive_New_def)

lemma ka_effect_interval: "interval (ka (ka_effect timeout e t)) = interval (ka t)"
  by (cases e) (auto simp: ka_ops)

lemma in_remove1: "x \<in> set (remove1 y xs) \<Longrightarrow> x \<in> set xs"
  using set_remove1_subset by fast

lemma timers_inv_fire:
  assumes "timers_inv timeout t" and "ka_enabled (Fire d) t" and i: "0 < interval (ka t)"
    and "0 < timeout" and "timeout < interval (ka t)"
  shows "timers_inv timeout (ka_effect timeout (Fire d) t)"
proof -
  have d: "d = ka_clock t" "\<And>x. x \<in> set (remove1 d (ka_due t)) \<Longrightarrow> x \<in> set (ka_due t)"
    using assms(1,2) by (force simp: timers_inv_def dest: in_remove1)+
  show ?thesis
  proof (cases "stoped (ka t)")
    case True
    then have e: "ka_effect timeout (Fire d) t = t\<lparr>ka_due := remove1 d (ka_due t)\<rparr>"
      by (simp add: ka_run_def Let_def)
    show ?thesis using assms(1) True unfolding e by (auto simp: timers_inv_def pinged_def dest!: d(2))
  next
    case False
    note running = False
    show ?thesis
    proof (cases "keepalive_sendPing (ka_clock t) (ka t)")
      case True
      have e: "ka_effect timeout (Fire d) t = t\<lparr>ka_due := remove1 d (ka_due t),
          ka_busy := (ka_clock t + timeout) # ka_busy t, ka_pings := ka_clock t # ka_pings t\<rparr>" (is "_ = ?u")
        using running True by (simp add: ka_run_def Let_def)
      have "pinged ?u" using True by (simp add: pinged_def keepalive_sendPing_def)
      then show ?thesis
        using assms(1,4) d(2) True unfolding e by (fastforce simp: timers_inv_def ka_loops_def keepalive_sendPing_def)
    next
      case no: False
      have e: "ka_effect timeout (Fire d) t = t\<lparr>ka_due := (ka_clock t + interval (ka t)) # remove1 d (ka_due t)\<rparr>"
        using running no by (simp add: ka_run_def ka_after_def Let_def)
      then show ?thesis
        using assms d no by (auto simp: timers_inv_def ka_loops_def pinged_def keepalive_sendPing_def)
    qed
  qed
qed

lemma timers_inv_step:
  assumes "timers_inv timeout t" and "ka_enabled e t" and i: "0 < interval (ka t)"
    and "0 < timeout" and "timeout < interval (ka t)"
  shows "timers_inv timeout (ka_effect timeout e t)"
proof (cases e)
  case (Tick n)
  then show ?thesis using assms by (auto simp: timers_inv_def pinged_def ka_loops_def)
next
  case KStart
  then show ?thesis using assms by (fastforce simp: timers_inv_def pinged_def ka_ops ka_loops_def)
next
  case KStop
  then show ?thesis using assms by (auto simp: timers_inv_def pinged_def ka_ops ka_loops_def)
next
  case Packet
  then show ?thesis using assms by (force simp: timers_inv_def pinged_def ka_ops ka_loops_def)
next
  case (Fire d)
  then show ?thesis using assms timers_inv_fire by simp
next
  case (Return x)
  have e: "ka_effect timeout e t =
      t\<lparr>ka_busy := remove1 x (ka_busy t), ka_due := (ka_clock t + interval (ka t)) # ka_due t\<rparr>"
    by (simp add: Return ka_return_def ka_after_def)
  have "ka_clock t + interval (ka t) < lastPacketTime (ka t) + 2 * interval (ka t) \<or> pinged t"
    using assms Return by (fastforce simp: timers_inv_def)
  moreover have "\<And>y. y \<in> set (remove1 x (ka_busy t)) \<Longrightarrow> y \<in> set (ka_busy t)" by (rule in_remove1)
  ultimately show ?thesis
    using assms unfolding e by (auto simp: timers_inv_def ka_loops_def pinged_def)
qed

lemma timers_inv_exec:
  assumes "ka_exec timeout es (ka_New n i) = Some t" and "0 < timeout" and "timeout < i"
  shows "timers_inv timeout t \<and> interval (ka t) = i"
  using assms(1)
proof (induction rule: ka_exec_induct)
  case Nil
  show ?case using timers_inv_New [of i timeout n] assms by (simp add: ka_New_def keepalive_New_def)
next
  case (Step e u)
  then show ?case using timers_inv_step [of timeout u e] assms by (auto simp: ka_effect_interval)
qed



section \<open>Restarts\<close>

definition ka_restart :: "timers \<Rightarrow> timers" where
  "ka_restart t = ka_Start (ka_Stop t)"

lemma ka_restart_loops: "ka_loops (ka_restart t) = Suc (ka_loops t) \<and> \<not> stoped (ka (ka_restart t))"
  by (simp add: ka_restart_def ka_ops ka_loops_def)

text \<open>
  \<open>Stop\<close> leaves the pending timer in place, so that a \<open>Stop\<close> followed by a \<open>Start\<close>, as when a client
  connects again, adds a loop to those there are: after \<open>m\<close> of them there are \<open>m\<close> more, for ever, whatever
  else happens but a \<open>Stop\<close>. With one more loop than needed the connection is pinged twice per interval.
\<close>

theorem restart_adds_loop:
  assumes "ka_exec timeout es ((ka_restart ^^ m) t) = Some t'" and "\<not> stoped (ka t)" and "KStop \<notin> set es"
  shows "ka_loops t' = ka_loops t + m \<and> \<not> stoped (ka t')"
proof -
  have "ka_loops ((ka_restart ^^ m) t) = ka_loops t + m \<and> \<not> stoped (ka ((ka_restart ^^ m) t))"
    using assms(2) by (induction m) (auto simp: ka_restart_loops)
  with ka_loops_exec [OF assms(1) _ assms(3)] show ?thesis by simp
qed

theorem restart_adds_loop_witness:
  "\<exists>t t'. ka_exec 5 [KStart, Fire 0, Tick 10] (ka_New 0 25) = Some t \<and>
     ka_exec 5 [Fire 10, Tick 25, Fire 25, Tick 30, Return 30, Tick 35, Fire 35] ((ka_restart ^^ 1) t) = Some t' \<and>
     ka_pings t' = [35, 25] \<and> ka_loops t' = 2"
proof -
  obtain t where t: "ka_exec 5 [KStart, Fire 0, Tick 10] (ka_New 0 25) = Some t" "ka_loops t = 1" "\<not> stoped (ka t)"
    by (simp add: ka_New_def keepalive_New_def ka_ops ka_loops_def)
  let ?es = "[Fire 10, Tick 25, Fire 25, Tick 30, Return 30, Tick 35, Fire 35]"
  from t(1) have "t = \<lparr>ka = \<lparr>stoped = False, interval = 25, lastPacketTime = 0\<rparr>, ka_clock = 10, ka_due = [25],
      ka_busy = [], ka_pings = [], ka_packets = [0], ka_started = 0\<rparr>"
    by (simp add: ka_New_def keepalive_New_def ka_ops eq_commute)
  then obtain t' where t': "ka_exec 5 ?es ((ka_restart ^^ 1) t) = Some t'" "ka_pings t' = [35, 25]"
    by (simp add: ka_restart_def ka_ops)
  from restart_adds_loop [OF t'(1) t(3)] t t' show ?thesis by auto
qed

text \<open>The client restarts its keep-alive whenever it connects again.\<close>

lemma reconnect_restarts:
  assumes "c_status c = StatusOpened"
  shows "keepalive_Start (c_keepalive (setStatus StatusOpening c)) =
    (c_keepalive (setStatus StatusOpened (setStatus StatusOpening c)), True)"
  using assms by (simp add: setStatus_def keepalive_Start_def keepalive_Stop_def Let_def)

text \<open>Two loops that are close to each other ping at the same time when the first ping is slow.\<close>

lemma restart_overlaps:
  "map_option ka_busy (ka_exec 5 [KStart, Fire 0, Tick 2, KStop, KStart, Fire 2, Tick 25, Fire 25, Tick 27, Fire 27]
     (ka_New 0 25)) = Some [32, 30]"
  by (simp add: ka_New_def keepalive_New_def ka_ops)

section \<open>The pinger of a datagram connection\<close>

text \<open>
  A UDP connection of the server starts a pinger that nobody stops, not even when the connection is closed;
  its loop goes on for as long as the process does.
\<close>

lemma udp_pinger_never_ends:
  assumes "ka_exec pingerTimeout es (udp_pinger n) = Some t" and "KStop \<notin> set es"
  shows "ka_loops t = 1 \<and> \<not> stoped (ka t)"
  using ka_loops_exec [OF assms(1) _ assms(2)]
  by (simp add: udp_pinger_def newPinger_def ka_New_def keepalive_New_def ka_ops ka_loops_def)

end
