(* ===== verification/Pings.thy ===== *)
theory Pings
  imports Keepalive_Safety
begin

text \<open>
  The goroutines that send pings and receive pongs on one connection: \<open>sendPing\<close> and the case of a PONG
  packet of src/client/client.go, \<open>SendPing\<close> and \<open>recvPong\<close> of src/internal/network/conn.go.

  A sender makes a channel and stores it in the connection, sends the packet, and waits in a \<open>select\<close> on the
  channel that is stored by then; its deferred function closes the channel that is stored and
  removes it. Whoever receives a pong sends on the stored channel while holding \<open>pingLock\<close>. The channel has no
  buffer, so that the lock is held until a sender takes the value. What happens between a \<open>Lock\<close> and the
  \<open>Unlock\<close> after it is one step, but for that send.
\<close>

section \<open>The machine\<close>

text \<open>
  \<open>PSent\<close>: before the \<open>select\<close>; \<open>PWaiting\<close>: in it, on a channel, or on nil; \<open>PEnding\<close>: before the deferred
  function, with the answer or without; \<open>PReturned\<close>: after it.
\<close>

datatype ping_caller = PSent | PWaiting "nat option" | PEnding bool | PReturned bool

text \<open>
  \<open>pg_chan\<close> is \<open>pingChan\<close>, the number of the channel; \<open>pg_lock\<close> the channel on which a receiver of a pong is
  sending while it holds the lock; \<open>pg_shut\<close> the channels that are closed.
\<close>

record pingers =
  pg_chan :: "nat option"
  pg_made :: nat
  pg_lock :: "nat option"
  pg_shut :: "nat list"
  pg_callers :: "ping_caller list"
  pg_crashed :: bool

definition pg_New :: pingers where
  "pg_New = \<lparr>pg_chan = None, pg_made = 0, pg_lock = None, pg_shut = [], pg_callers = [], pg_crashed = False\<rparr>"

definition pg_set :: "nat \<Rightarrow> ping_caller \<Rightarrow> pingers \<Rightarrow> pingers" where
  "pg_set i x s = s\<lparr>pg_callers := (pg_callers s)[i := x]\<rparr>"

definition pg_at :: "pingers \<Rightarrow> nat \<Rightarrow> ping_caller option" where
  "pg_at s i = (if i < length (pg_callers s) then Some (pg_callers s ! i) else None)"

definition pg_begin :: "pingers \<Rightarrow> pingers" where
  "pg_begin s = s\<lparr>pg_chan := Some (pg_made s), pg_made := Suc (pg_made s), pg_callers := pg_callers s @ [PSent]\<rparr>"

text \<open>The deferred function: closing a nil channel panics.\<close>

definition pg_finish :: "nat \<Rightarrow> bool \<Rightarrow> pingers \<Rightarrow> pingers" where
  "pg_finish i ok s =
     (case pg_chan s of
        None \<Rightarrow> s\<lparr>pg_crashed := True\<rparr>
      | Some k \<Rightarrow> pg_set i (PReturned ok) (s\<lparr>pg_chan := None, pg_shut := k # pg_shut s\<rparr>))"

text \<open>A PONG packet: \<open>recvPong\<close> takes the lock and sends, if a channel is stored.\<close>

definition pg_pong :: "pingers \<Rightarrow> pingers" where
  "pg_pong s = s\<lparr>pg_lock := pg_chan s\<rparr>"

text \<open>
  The steps, with whether a new ping begins. A receive from a closed channel succeeds at once; the
  context of a sender may end at any time.
\<close>

inductive pg_step :: "bool \<Rightarrow> pingers \<Rightarrow> pingers \<Rightarrow> bool" where
  begins: "\<not> pg_crashed s \<Longrightarrow> pg_lock s = None \<Longrightarrow> pg_step True s (pg_begin s)"
| fails: "\<not> pg_crashed s \<Longrightarrow> pg_at s i = Some PSent \<Longrightarrow> pg_step False s (pg_set i (PEnding False) s)"
| selects: "\<not> pg_crashed s \<Longrightarrow> pg_at s i = Some PSent \<Longrightarrow> pg_step False s (pg_set i (PWaiting (pg_chan s)) s)"
| times_out: "\<not> pg_crashed s \<Longrightarrow> pg_at s i = Some (PWaiting k) \<Longrightarrow> pg_step False s (pg_set i (PEnding False) s)"
| sees_closed: "\<not> pg_crashed s \<Longrightarrow> pg_at s i = Some (PWaiting (Some k)) \<Longrightarrow> k \<in> set (pg_shut s) \<Longrightarrow>
    pg_step False s (pg_set i (PEnding True) s)"
| pong: "\<not> pg_crashed s \<Longrightarrow> pg_lock s = None \<Longrightarrow> pg_step False s (pg_pong s)"
| answered: "\<not> pg_crashed s \<Longrightarrow> pg_at s i = Some (PWaiting (Some k)) \<Longrightarrow> pg_lock s = Some k \<Longrightarrow>
    pg_step False s (pg_set i (PEnding True) (s\<lparr>pg_lock := None\<rparr>))"
| finishes: "\<not> pg_crashed s \<Longrightarrow> pg_at s i = Some (PEnding ok) \<Longrightarrow> pg_lock s = None \<Longrightarrow>
    pg_step False s (pg_finish i ok s)"

inductive_cases pg_step_FalseE: "pg_step False s s'"

text \<open>Runs in which no ping begins.\<close>

abbreviation pg_quiet :: "pingers \<Rightarrow> pingers \<Rightarrow> bool" where
  "pg_quiet \<equiv> (pg_step False)\<^sup>*\<^sup>*"

text \<open>The senders between their first step and their last.\<close>

definition pg_active :: "pingers \<Rightarrow> nat set" where
  "pg_active s = {i. i < length (pg_callers s) \<and> (\<forall>ok. pg_callers s ! i \<noteq> PReturned ok)}"

definition pg_all_returned :: "pingers \<Rightarrow> bool" where
  "pg_all_returned s \<longleftrightarrow> pg_active s = {}"

lemmas pg_ops = pg_set_def pg_at_def pg_begin_def pg_finish_def pg_pong_def

lemma pg_active_set:
  "i < length (pg_callers s) \<Longrightarrow>
   pg_active (pg_set i x s) = (if \<exists>ok. x = PReturned ok then pg_active s - {i} else insert i (pg_active s))"
  by (auto simp: pg_active_def pg_set_def nth_list_update)

lemma pg_active_upd [simp]:
  "pg_active (s\<lparr>pg_chan := c\<rparr>) = pg_active s" "pg_active (s\<lparr>pg_shut := h\<rparr>) = pg_active s"
  "pg_active (s\<lparr>pg_lock := l\<rparr>) = pg_active s" "pg_active (s\<lparr>pg_crashed := b\<rparr>) = pg_active s"
  by (simp_all add: pg_active_def)

lemma pg_at_active: "pg_at s i = Some x \<Longrightarrow> (\<forall>ok. x \<noteq> PReturned ok) \<Longrightarrow> i < length (pg_callers s) \<and> i \<in> pg_active s"
  by (auto simp: pg_at_def pg_active_def split: if_splits)

section \<open>One ping at a time\<close>

text \<open>A single keep-alive loop begins a ping only after the one before has returned.\<close>

inductive pg_alone :: "pingers \<Rightarrow> bool" where
  new: "pg_alone pg_New"
| next_ping: "pg_alone s \<Longrightarrow> pg_all_returned s \<Longrightarrow> pg_step True s s' \<Longrightarrow> pg_alone s'"
| other: "pg_alone s \<Longrightarrow> pg_step False s s' \<Longrightarrow> pg_alone s'"

definition alone_inv :: "pingers \<Rightarrow> bool" where
  "alone_inv s \<longleftrightarrow> \<not> pg_crashed s \<and> (\<forall>k\<in>set (pg_shut s). k < pg_made s) \<and>
     (case pg_chan s of
        None \<Rightarrow> pg_active s = {} \<and> pg_lock s = None
      | Some k \<Rightarrow> k < pg_made s \<and> k \<notin> set (pg_shut s) \<and> (pg_lock s = None \<or> pg_lock s = Some k) \<and>
          (\<exists>i<length (pg_callers s). pg_active s = {i} \<and>
             (pg_callers s ! i = PSent \<or> pg_callers s ! i = PWaiting (Some k) \<or> (\<exists>ok. pg_callers s ! i = PEnding ok))))"

text \<open>The one sender that is under way, and its channel.\<close>

lemma alone_invE:
  assumes "alone_inv s" and "pg_at s i = Some x" and "\<And>ok. x \<noteq> PReturned ok"
  obtains k where "pg_chan s = Some k" "k < pg_made s" "k \<notin> set (pg_shut s)" "pg_active s = {i}"
    "pg_callers s ! i = x" "i < length (pg_callers s)" "pg_lock s = None \<or> pg_lock s = Some k"
    "x = PSent \<or> x = PWaiting (Some k) \<or> (\<exists>ok. x = PEnding ok)"
proof -
  have i: "i \<in> pg_active s" "i < length (pg_callers s)" using pg_at_active [OF assms(2)] assms(3) by auto
  then obtain k where k: "pg_chan s = Some k" using assms(1) by (auto simp: alone_inv_def split: option.splits)
  with i assms(1,2) show thesis using that [of k] by (auto simp: alone_inv_def pg_at_def split: if_splits)
qed

lemma alone_inv_move:
  assumes "alone_inv s" and "pg_at s i = Some x" and "\<And>ok. x \<noteq> PReturned ok"
    and "y = PWaiting (pg_chan s) \<or> y = PEnding ok"
  shows "alone_inv (pg_set i y s)" and "alone_inv (pg_set i y (s\<lparr>pg_lock := None\<rparr>))"
proof -
  obtain k where k: "pg_chan s = Some k" "pg_active s = {i}" "i < length (pg_callers s)"
    using alone_invE [OF assms(1-3)] by blast
  then have "pg_active (pg_set i y s) = {i}" "pg_active (pg_set i y (s\<lparr>pg_lock := None\<rparr>)) = {i}"
    using pg_active_set [of i s y] pg_active_set [of i "s\<lparr>pg_lock := None\<rparr>" y] assms(4) by auto
  with k assms(1,4) show "alone_inv (pg_set i y s)" and "alone_inv (pg_set i y (s\<lparr>pg_lock := None\<rparr>))"
    by (auto simp: alone_inv_def pg_set_def)
qed

lemma alone_inv_begin:
  assumes "alone_inv s" and "pg_all_returned s" and "pg_lock s = None"
  shows "alone_inv (pg_begin s)"
proof -
  have "pg_active (pg_begin s) = {length (pg_callers s)}"
    using assms(2) by (auto simp: pg_all_returned_def pg_active_def pg_begin_def nth_append less_Suc_eq)
  then show ?thesis using assms by (auto simp: alone_inv_def pg_begin_def)
qed

lemma alone_inv_finish:
  assumes "alone_inv s" and "pg_at s i = Some (PEnding ok)" and "pg_lock s = None"
  shows "alone_inv (pg_finish i ok s)"
proof -
  obtain k where k: "pg_chan s = Some k" "k < pg_made s" "pg_active s = {i}" "i < length (pg_callers s)"
    using alone_invE [OF assms(1,2)] by blast
  let ?s = "s\<lparr>pg_chan := None, pg_shut := k # pg_shut s\<rparr>"
  have "pg_active (pg_set i (PReturned ok) ?s) = {}" using k pg_active_set [of i ?s "PReturned ok"] by auto
  with k assms show ?thesis by (auto simp: alone_inv_def pg_finish_def pg_set_def)
qed

lemma alone_inv_step:
  assumes "alone_inv s" and "pg_step False s s'"
  shows "alone_inv s'"
  using assms(2)
proof (rule pg_step_FalseE)
  assume "s' = pg_pong s" and "pg_lock s = None"
  then show ?thesis using assms(1) by (auto simp: alone_inv_def pg_pong_def split: option.splits)
qed (use alone_inv_move [OF assms(1)] alone_inv_finish [OF assms(1)] in auto)

lemma alone_inv_reachable: "pg_alone s \<Longrightarrow> alone_inv s"
proof (induction rule: pg_alone.induct)
  case new
  show ?case by (simp add: alone_inv_def pg_New_def pg_active_def)
next
  case (next_ping s s')
  from next_ping(3) show ?case by (cases rule: pg_step.cases) (use next_ping in \<open>auto intro: alone_inv_begin\<close>)
next
  case (other s s')
  then show ?case by (blast intro: alone_inv_step)
qed

text \<open>
  As long as pings are sent one at a time nothing panics: the deferred function finds the channel that its
  own call has made, and a sender waits on that channel, which is open until it returns.
\<close>

theorem one_ping_at_a_time:
  assumes "pg_alone s"
  shows "\<not> pg_crashed s \<and>
    (\<forall>i x. pg_at s i = Some x \<and> (\<forall>ok. x \<noteq> PReturned ok) \<longrightarrow>
       (\<exists>k. pg_chan s = Some k \<and> k \<notin> set (pg_shut s) \<and> (\<forall>c. x = PWaiting c \<longrightarrow> c = Some k)))"
  using alone_inv_reachable [OF assms] by (auto simp: alone_inv_def elim!: alone_invE [OF alone_inv_reachable [OF assms]])

lemma pg_one_ping: "pg_alone (pg_begin pg_New)"
  by (rule next_ping [OF new]) (auto intro: begins simp: pg_New_def pg_all_returned_def pg_active_def)

theorem one_ping_at_a_time_witness:
  "\<exists>k. pg_chan (pg_begin pg_New) = Some k \<and> k \<notin> set (pg_shut (pg_begin pg_New))"
proof -
  have "pg_at (pg_begin pg_New) 0 = Some PSent" by (simp add: pg_ops pg_New_def)
  with one_ping_at_a_time [OF pg_one_ping] show ?thesis by blast
qed

section \<open>Pings that overlap\<close>

text \<open>A sender can always give up: its packet is not queued in time, or no pong arrives in time.\<close>

lemma pg_gives_up:
  assumes "i \<in> pg_active s" and "\<not> pg_crashed s"
  obtains ok where "pg_quiet s (pg_set i (PEnding ok) s)"
proof (cases "pg_callers s ! i")
  case PSent
  with assms have "pg_step False s (pg_set i (PEnding False) s)"
    by (intro fails) (auto simp: pg_at_def pg_active_def)
  then show ?thesis by (rule that [OF r_into_rtranclp])
next
  case (PWaiting k)
  with assms have "pg_step False s (pg_set i (PEnding False) s)"
    by (intro times_out) (auto simp: pg_at_def pg_active_def)
  then show ?thesis by (rule that [OF r_into_rtranclp])
next
  case (PEnding ok)
  then have "pg_set i (PEnding ok) s = s" 
    using list_update_id [of "pg_callers s" i] by (simp add: pg_set_def)
  then show ?thesis using that [of ok] by simp
next
  case (PReturned ok)
  with assms(1) have False unfolding pg_active_def by blast
  then show ?thesis ..
qed

text \<open>... and then runs its deferred function, if nobody holds the lock.\<close>

lemma pg_ends:
  assumes "i \<in> pg_active s" and "\<not> pg_crashed s" and "pg_lock s = None"
  obtains ok where "pg_quiet s (pg_finish i ok (pg_set i (PEnding ok) s))"
proof -
  obtain ok where q: "pg_quiet s (pg_set i (PEnding ok) s)" using pg_gives_up [OF assms(1,2)] .
  have "pg_step False (pg_set i (PEnding ok) s) (pg_finish i ok (pg_set i (PEnding ok) s))"
    using assms by (intro finishes) (auto simp: pg_set_def pg_at_def pg_active_def)
  with q show thesis by (intro that [of ok]) auto
qed

definition pg_doomed :: "pingers \<Rightarrow> bool" where
  "pg_doomed s \<longleftrightarrow> pg_active s \<noteq> {} \<and> (pg_chan s = None \<or> 2 \<le> card (pg_active s))"

lemma pg_active_finite [simp]: "finite (pg_active s)"
  by (simp add: pg_active_def)

lemma pg_doomed_step:
  assumes "pg_doomed s" and "pg_step False s s'"
  shows "pg_doomed s'"
proof -
  have kept: "pg_doomed (pg_set i y t)"
    if "pg_at s i = Some x" "\<forall>ok. x \<noteq> PReturned ok" "\<forall>ok. y \<noteq> PReturned ok"
      "pg_active t = pg_active s" "pg_chan t = pg_chan s" "pg_callers t = pg_callers s" for i x y t
  proof -
    have "i < length (pg_callers t)" "insert i (pg_active t) = pg_active s"
      using pg_at_active [OF that(1,2)] that(4,6) by auto
    then show ?thesis using assms(1) that pg_active_set [of i t y] by (simp add: pg_doomed_def pg_set_def)
  qed
  show ?thesis
    using assms(2)
  proof (rule pg_step_FalseE)
    assume "s' = pg_pong s"
    then show ?thesis using assms(1) by (simp add: pg_doomed_def pg_pong_def)
  next
    fix i ok
    assume f: "s' = pg_finish i ok s" "pg_at s i = Some (PEnding ok)"
    have i: "i < length (pg_callers s)" "i \<in> pg_active s" using pg_at_active [OF f(2)] by auto
    show ?thesis
    proof (cases "pg_chan s")
      case None
      with f assms(1) show ?thesis by (simp add: pg_doomed_def pg_finish_def)
    next
      case (Some k)
      then have "card (pg_active s - {i}) \<noteq> 0" using assms(1) i by (simp add: pg_doomed_def)
      then have "pg_active s - {i} \<noteq> {}" by force
      then show ?thesis
        using f(1) Some i pg_active_set [of i "s\<lparr>pg_chan := None, pg_shut := k # pg_shut s\<rparr>" "PReturned ok"]
        by (simp add: pg_doomed_def pg_finish_def) (simp add: pg_set_def)
    qed
  qed (use kept in auto)
qed

lemma pg_doomed_quiet: "pg_quiet s s' \<Longrightarrow> pg_doomed s \<Longrightarrow> pg_doomed s'"
  by (induction rule: rtranclp_induct) (auto intro: pg_doomed_step)



section \<open>A late pong\<close>

text \<open>
  A pong that arrives after a ping was answered or has timed out, and before its deferred function has
  taken the lock, waits for ever for somebody to receive it and keeps the lock: no step is possible any
  more, the ping never returns, and so its keep-alive loop never sets its next timer. A second pong for one
  ping, which the peer or a repeated datagram can cause, is enough.
\<close>

theorem late_pong_blocks:
  assumes "pg_alone s" and "pg_at s i = Some (PEnding ok)" and "pg_lock s = None"
  shows "pg_step False s (pg_pong s) \<and> (\<forall>b s'. \<not> pg_step b (pg_pong s) s')"
proof -
  have inv: "alone_inv s" using alone_inv_reachable [OF assms(1)] .
  obtain k where k: "pg_chan s = Some k" "pg_active s = {i}" "pg_callers s ! i = PEnding ok"
    using alone_invE [OF inv assms(2)] by blast
  have others: "\<exists>ok'. pg_callers s ! j = PReturned ok'" if "j < length (pg_callers s)" "j \<noteq> i" for j
    using that k(2) by (auto simp: pg_active_def)
  have "\<not> pg_step b (pg_pong s) s'" for b s'
  proof
    assume "pg_step b (pg_pong s) s'"
    then show False
      using k others by (cases rule: pg_step.cases) (force simp: pg_pong_def pg_at_def split: if_splits)+
  qed
  moreover have "pg_step False s (pg_pong s)"
    using inv assms(3) by (intro pong) (auto simp: alone_inv_def)
  ultimately show ?thesis by simp
qed

theorem late_pong_blocks_witness:
  "\<exists>s. pg_alone s \<and> pg_at s 0 = Some (PEnding True) \<and> (\<forall>b s'. \<not> pg_step b (pg_pong s) s')"
proof -
  let ?s = "pg_begin pg_New"
  let ?w = "pg_set 0 (PWaiting (Some 0)) ?s"
  let ?a = "pg_set 0 (PEnding True) ((pg_pong ?w)\<lparr>pg_lock := None\<rparr>)"
  have w: "pg_alone ?w"
    using other [OF pg_one_ping selects [of ?s 0]] by (simp add: pg_ops pg_New_def)
  have p: "pg_alone (pg_pong ?w)"
    by (rule other [OF w pong]) (simp_all add: pg_ops pg_New_def)
  have a: "pg_alone ?a"
    by (rule other [OF p answered [of _ 0 0]]) (simp_all add: pg_ops pg_New_def)
  moreover have "pg_at ?a 0 = Some (PEnding True)" "pg_lock ?a = None" by (simp_all add: pg_ops pg_New_def)
  ultimately show ?thesis using late_pong_blocks [OF a] by blast
qed

end
