(* ===== verification/Backoff_Float.thy ===== *)
theory Backoff_Float
  imports Backoff "HOL-Library.Log_Nat"
begin

text \<open>
  The strategies of src/backoff/backoff.go that compute with \<open>float64\<close>: the exponential and the random one.

  A \<open>float64\<close> is a whole number over a power of two. Its operations round the exact result to 53 binary
  digits, to the nearest and on a tie to an even last digit; as the operations here neither overflow
  before the conversion to \<open>int64\<close> does nor come near the smallest numbers, the exponent has no bounds. A
  conversion to \<open>int64\<close> cuts off the fraction; what it makes of a number that does not fit is left
  to the machine, the argument \<open>huge\<close>.
\<close>

section \<open>Floating point\<close>

definition round_nat :: "nat \<Rightarrow> nat" where
  "round_nat m =
     (if m < 2 ^ 53 then m
      else let s = floorlog 2 m - 53; q = m div 2 ^ s; r = m mod 2 ^ s; half = 2 ^ (s - 1)
           in (if half < r \<or> (r = half \<and> odd q) then Suc q else q) * 2 ^ s)"

definition round53 :: "int \<Rightarrow> int" where
  "round53 m = (if m < 0 then - int (round_nat (nat (- m))) else int (round_nat (nat m)))"

text \<open>\<open>FL m e\<close> is \<open>m / 2 ^ e\<close>.\<close>

datatype float64 = FL int nat

definition float_of_int64 :: "int \<Rightarrow> float64" where
  "float_of_int64 i = FL (round53 i) 0"

fun fmul :: "float64 \<Rightarrow> float64 \<Rightarrow> float64" where
  "fmul (FL m a) (FL n b) = FL (round53 (m * n)) (a + b)"

fun fadd :: "float64 \<Rightarrow> float64 \<Rightarrow> float64" where
  "fadd (FL m a) (FL n b) = FL (round53 (m * 2 ^ b + n * 2 ^ a)) (a + b)"

text \<open>The quotient truncates towards zero.\<close>

fun int64_of_float :: "int \<Rightarrow> float64 \<Rightarrow> int" where
  "int64_of_float huge (FL m e) =
     (let i = sgn m * (\<bar>m\<bar> div 2 ^ e) in if - (2 ^ 63) \<le> i \<and> i < 2 ^ 63 then i else huge)"

text \<open>\<open>math.Pow\<close> for a whole exponent that is not negative: repeated squaring, least digit first.\<close>

fun math_Pow_loop :: "float64 \<Rightarrow> float64 \<Rightarrow> nat \<Rightarrow> float64" where
  "math_Pow_loop a x n = (if n = 0 then a else math_Pow_loop (if odd n then fmul a x else a) (fmul x x) (n div 2))"

declare math_Pow_loop.simps [simp del]

definition math_Pow :: "float64 \<Rightarrow> nat \<Rightarrow> float64" where
  "math_Pow x n = math_Pow_loop (FL 1 0) x n"

section \<open>Rounding\<close>

lemma round_nat_small: "m \<le> 2 ^ 53 \<Longrightarrow> round_nat m = m"
proof (cases "m = 2 ^ 53")
  case True
  have "floorlog 2 (1 * 2 ^ 53) = 54" by (subst floorlog_power) (simp_all add: floorlog_def)
  then show ?thesis using True by (simp add: round_nat_def)
qed (simp add: round_nat_def)

lemma round_nat_big:
  assumes "2 ^ 53 \<le> m"
  obtains s where "2 ^ (52 + s) \<le> m" and "m div 2 ^ s * 2 ^ s \<le> round_nat m"
    and "round_nat m \<le> Suc (m div 2 ^ s) * 2 ^ s" and "m mod 2 ^ s = 0 \<Longrightarrow> round_nat m = m"
proof
  define s where "s = floorlog 2 m - 53"
  have fl: "2 ^ (floorlog 2 m - 1) \<le> m" "m < 2 ^ floorlog 2 m"
    using floorlog_bounds [of m 2] assms by (auto intro: gr0I)
  have "\<not> floorlog 2 m \<le> 53"
    using assms fl(2) power_increasing [of "floorlog 2 m" 53 "2::nat"] by fastforce
  then show "2 ^ (52 + s) \<le> m" using fl(1) by (simp add: s_def)
  have r: "round_nat m = (if 2 ^ (s - 1) < m mod 2 ^ s \<or> (m mod 2 ^ s = 2 ^ (s - 1) \<and> odd (m div 2 ^ s))
      then Suc (m div 2 ^ s) else m div 2 ^ s) * 2 ^ s"
    using assms by (simp add: round_nat_def Let_def s_def)
  then show "m div 2 ^ s * 2 ^ s \<le> round_nat m" "round_nat m \<le> Suc (m div 2 ^ s) * 2 ^ s" by simp_all
  show "round_nat m = m" if "m mod 2 ^ s = 0" using r that by auto
qed

text \<open>
  A number of at most 53 digits times a power of two is not passed by rounding, from neither side.
\<close>

lemma round_nat_ge:
  assumes "a \<le> 2 ^ 53" and "a * 2 ^ t \<le> m"
  shows "a * 2 ^ t \<le> round_nat m"
proof (cases "m < 2 ^ 53")
  case True
  then show ?thesis using assms by (simp add: round_nat_def)
next
  case False
  then obtain s where lo: "2 ^ (52 + s) \<le> m" and q: "m div 2 ^ s * 2 ^ s \<le> round_nat m"
    using round_nat_big [of m] by (metis linorder_not_less)
  show ?thesis
  proof (cases "s \<le> t")
    case True
    then have eq: "a * 2 ^ t = a * 2 ^ (t - s) * 2 ^ s" by (simp flip: power_add)
    have "a * 2 ^ (t - s) \<le> m div 2 ^ s" using assms(2) unfolding eq by (simp add: less_eq_div_iff_mult_less_eq)
    then have "a * 2 ^ (t - s) * 2 ^ s \<le> m div 2 ^ s * 2 ^ s" by (rule mult_le_mono1)
    with q eq show ?thesis by linarith
  next
    case False
    have "a * 2 ^ t \<le> 2 ^ (53 + t)" using assms(1) by (simp add: power_add)
    also have "\<dots> \<le> 2 ^ (52 + s)" using False by (intro power_increasing) auto
    also have "\<dots> = 2 ^ 52 * 2 ^ s" by (simp add: power_add)
    also have "\<dots> \<le> m div 2 ^ s * 2 ^ s"
      using lo by (intro mult_le_mono1) (simp add: less_eq_div_iff_mult_less_eq power_add)
    finally show ?thesis using q by simp
  qed
qed

lemma round_nat_le:
  assumes "a \<le> 2 ^ 53" and "m \<le> a * 2 ^ t"
  shows "round_nat m \<le> a * 2 ^ t"
proof (cases "m < 2 ^ 53")
  case True
  then show ?thesis using assms by (simp add: round_nat_def)
next
  case False
  then obtain s where lo: "2 ^ (52 + s) \<le> m" and up: "round_nat m \<le> Suc (m div 2 ^ s) * 2 ^ s"
    and exact: "m mod 2 ^ s = 0 \<Longrightarrow> round_nat m = m"
    using round_nat_big [of m] by (metis linorder_not_less)
  show ?thesis
  proof (cases "s \<le> t")
    case True
    then have eq: "a * 2 ^ t = a * 2 ^ (t - s) * 2 ^ s" by (simp flip: power_add)
    show ?thesis
    proof (cases "m = a * 2 ^ t")
      case True
      then show ?thesis using exact unfolding eq by simp
    next
      case False
      then have "m < a * 2 ^ (t - s) * 2 ^ s" using assms(2) unfolding eq by simp
      then have "Suc (m div 2 ^ s) \<le> a * 2 ^ (t - s)" by (simp add: Suc_le_eq less_mult_imp_div_less)
      then have "Suc (m div 2 ^ s) * 2 ^ s \<le> a * 2 ^ (t - s) * 2 ^ s" by (rule mult_le_mono1)
      with up eq show ?thesis by linarith
    qed
  next
    case False
    have "a * 2 ^ t \<le> 2 ^ (53 + t)" using assms(1) by (simp add: power_add)
    also have "\<dots> \<le> 2 ^ (52 + s)" using False by (intro power_increasing) auto
    finally have "m = 2 ^ (52 + s)" using lo assms(2) by linarith
    then have "m mod 2 ^ s = 0" by (simp add: power_add)
    with exact assms(2) show ?thesis by simp
  qed
qed

lemma round53_bounds:
  assumes "0 \<le> a" and "a * 2 ^ t \<le> m" and "m \<le> b * 2 ^ u" and "a \<le> 2 ^ 53" and "b \<le> 2 ^ 53"
  shows "a * 2 ^ t \<le> round53 m" and "round53 m \<le> b * 2 ^ u"
proof -
  have m: "0 \<le> m" using assms(1,2) by (meson order_trans mult_nonneg_nonneg zero_le_numeral zero_le_power)
  then have "0 \<le> b * 2 ^ u" using assms(3) by linarith
  then have b: "0 \<le> b" by (simp add: zero_le_mult_iff)
  have "int (nat a * 2 ^ t) \<le> int (nat m)" "int (nat m) \<le> int (nat b * 2 ^ u)" using assms m b by simp_all
  then have "nat a * 2 ^ t \<le> nat m" "nat m \<le> nat b * 2 ^ u" by (simp_all only: of_nat_le_iff)
  then have "nat a * 2 ^ t \<le> round_nat (nat m)" "round_nat (nat m) \<le> nat b * 2 ^ u"
    using assms by (auto intro!: round_nat_ge round_nat_le)
  then have "int (nat a * 2 ^ t) \<le> int (round_nat (nat m))" "int (round_nat (nat m)) \<le> int (nat b * 2 ^ u)"
    by (simp_all only: of_nat_le_iff)
  then show "a * 2 ^ t \<le> round53 m" and "round53 m \<le> b * 2 ^ u" using m b assms(1) by (simp_all add: round53_def)
qed

lemma round53_id: "\<bar>m\<bar> \<le> 2 ^ 53 \<Longrightarrow> round53 m = m"
  by (auto simp: round53_def round_nat_small)

lemma round53_exact:
  assumes "0 \<le> a" and "a \<le> 2 ^ 53"
  shows "round53 (a * 2 ^ t) = a * 2 ^ t"
  using round53_bounds [of a t "a * 2 ^ t" a t] assms by simp

section \<open>Strategies\<close>

text \<open>\<open>rand.Float64\<close> is a whole number \<open>k\<close> below \<open>2 ^ 53\<close> over \<open>2 ^ 53\<close>, drawn at each call.\<close>

definition Random :: "int \<Rightarrow> nat \<Rightarrow> int \<Rightarrow> int \<Rightarrow> backoff" where
  "Random huge k mn mx n =
     int64_of_float huge
       (fadd (float_of_int64 mn) (fmul (float_of_int64 (int64_of (mx - mn))) (FL (int k) 53)))"

definition RandomD :: "int \<Rightarrow> nat \<Rightarrow> backoff" where
  "RandomD huge k = Random huge k (2 * Second) (5 * Second)"

text \<open>The count is not negative: \<open>Retry\<close> passes the number of the retry.\<close>

definition Exponential :: "int \<Rightarrow> int \<Rightarrow> float64 \<Rightarrow> backoff" where
  "Exponential huge base x n = int64_of_float huge (fmul (float_of_int64 base) (math_Pow x (nat n)))"

definition ExponentialD :: "int \<Rightarrow> backoff" where
  "ExponentialD huge = Exponential huge Second (FL 2 0)"

definition Default :: "int \<Rightarrow> backoff" where
  "Default huge = ExponentialD huge"

text \<open>The strategy of a client without options: one second and the factor 1.5.\<close>

definition client_default_backoff :: "int \<Rightarrow> backoff" where
  "client_default_backoff huge = Exponential huge Second (FL 3 1)"

section \<open>The random strategy\<close>

lemma int64_of_float_bounds:
  assumes "0 \<le> a" and "a * 2 ^ e \<le> m" and "m \<le> b * 2 ^ e" and "b < 2 ^ 63"
  shows "a \<le> int64_of_float huge (FL m e) \<and> int64_of_float huge (FL m e) \<le> b"
proof -
  have "0 \<le> a * 2 ^ e" using assms(1) by simp
  then have m: "0 \<le> m" using assms(2) by linarith
  have "a \<le> m div 2 ^ e" using zdiv_mono1 [OF assms(2), of "2 ^ e"] by simp
  moreover have "m div 2 ^ e \<le> b" using zdiv_mono1 [OF assms(3), of "2 ^ e"] by simp
  moreover have "sgn m * (\<bar>m\<bar> div 2 ^ e) = m div 2 ^ e" using m by (cases "m = 0") auto
  ultimately show ?thesis using assms(1,4) by (simp add: Let_def)
qed

text \<open>
  A random delay is between the two bounds, in spite of the rounding, for bounds of up to \<open>2 ^ 53\<close>
  nanoseconds, a hundred days.
\<close>

theorem random_backoff_bounds:
  assumes "0 \<le> mn" and "mn \<le> mx" and "mx \<le> 2 ^ 53" and "k < 2 ^ 53"
  shows "mn \<le> Random huge k mn mx n \<and> Random huge k mn mx n \<le> mx"
proof -
  let ?d = "mx - mn"
  let ?p = "round53 (?d * int k)"
  have d: "int64_of ?d = ?d" "round53 ?d = ?d" "round53 mn = mn"
    using assms by (auto simp: int64_of_id round53_id)
  have "int k \<le> 2 ^ 53" using assms(4) by (simp flip: of_nat_less_iff)
  then have "?d * int k \<le> ?d * 2 ^ 53" using assms(2) by (intro mult_left_mono) auto
  then have p: "0 \<le> ?p" "?p \<le> ?d * 2 ^ 53"
    using round53_bounds [of 0 0 "?d * int k" ?d 53] assms by auto
  have "mn * 2 ^ 53 \<le> mn * 2 ^ 53 + ?p" "mn * 2 ^ 53 + ?p \<le> mx * 2 ^ 53" using p by (simp_all add: left_diff_distrib)
  then have "mn * 2 ^ 53 \<le> round53 (mn * 2 ^ 53 + ?p)" "round53 (mn * 2 ^ 53 + ?p) \<le> mx * 2 ^ 53"
    using round53_bounds [of mn 53 "mn * 2 ^ 53 + ?p" mx 53] assms by auto
  then show ?thesis
    using int64_of_float_bounds [of mn 53 "round53 (mn * 2 ^ 53 + ?p)" mx huge] assms
    unfolding Random_def float_of_int64_def d by simp
qed

theorem random_backoff_bounds_witness: "2 * Second \<le> RandomD 0 7 1 \<and> RandomD 0 7 1 \<le> 5 * Second"
  unfolding RandomD_def by (rule random_backoff_bounds) (simp_all add: Second_def)

section \<open>The exponential strategy\<close>

lemma math_Pow_loop_two: "math_Pow_loop (FL (2 ^ j) 0) (FL (2 ^ i) 0) n = FL (2 ^ (j + i * n)) 0"
proof (induction n arbitrary: i j rule: less_induct)
  case (less n)
  have sq: "fmul (FL (2 ^ i) 0) (FL (2 ^ i) 0) = FL (2 ^ (2 * i)) 0"
    using round53_exact [of 1 "i + i"] by (simp add: power_add mult_2)
  have ml: "fmul (FL (2 ^ j) 0) (FL (2 ^ i) 0) = FL (2 ^ (j + i)) 0"
    using round53_exact [of 1 "j + i"] by (simp add: power_add)
  show ?case
  proof (cases "n = 0")
    case False
    then have rec: "math_Pow_loop (FL (2 ^ j') 0) (FL (2 ^ (2 * i)) 0) (n div 2) = FL (2 ^ (j' + 2 * i * (n div 2))) 0" for j'
      using less [of "n div 2" j' "2 * i"] by simp
    show ?thesis
    proof (cases "odd n")
      case True
      then have "j + i + 2 * i * (n div 2) = j + i * n" by (auto elim!: oddE)
      then show ?thesis using False True sq ml rec [of "j + i"] by (subst math_Pow_loop.simps) simp
    next
      case even: False
      then have "j + 2 * i * (n div 2) = j + i * n" by (auto elim!: evenE)
      then show ?thesis using False even sq rec [of j] by (subst math_Pow_loop.simps) simp
    qed
  qed (simp add: math_Pow_loop.simps)
qed

lemma ExponentialD_value: "ExponentialD huge n = int64_of_float huge (FL (Second * 2 ^ nat n) 0)"
  using math_Pow_loop_two [of 0 1 "nat n"] round53_exact [of Second "nat n"] round53_id [of Second]
  by (simp add: ExponentialD_def Exponential_def math_Pow_def float_of_int64_def Second_def)

lemma ExponentialD_exact:
  assumes "0 \<le> n" and "n \<le> 33"
  shows "ExponentialD huge n = Second * 2 ^ nat n"
proof -
  have "(2::int) ^ nat n \<le> 2 ^ 33" using assms by (intro power_increasing) auto
  then have "0 \<le> Second * 2 ^ nat n" "Second * 2 ^ nat n < 2 ^ 63" by (simp_all add: Second_def)
  then show ?thesis
    using int64_of_float_bounds [of "Second * 2 ^ nat n" 0 "Second * 2 ^ nat n" "Second * 2 ^ nat n" huge]
    unfolding ExponentialD_value by (simp only: power_0 mult_1_right) simp
qed

interpretation exponential_default: growing_backoff "ExponentialD huge" 33 for huge
proof
  show "ExponentialD huge m \<le> ExponentialD huge n" if "0 \<le> m" "m \<le> n" "n \<le> 33" for m n
    using that by (simp add: ExponentialD_exact Second_def nat_mono)
  show "0 \<le> ExponentialD huge n" if "0 \<le> n" "n \<le> 33" for n
    using that by (simp add: ExponentialD_exact Second_def)
qed

text \<open>
  The default strategy is the formula of its comment, and grows, up to the delay of \<open>2 ^ 33\<close> seconds; from
  the next one on the number does not fit and the delay is whatever the machine makes of it.
\<close>

theorem exponential_backoff:
  "(\<forall>n. 0 \<le> n \<and> n \<le> 33 \<longrightarrow> Default huge n = Second * 2 ^ nat n) \<and>
   sorted (map (\<lambda>i. Default huge (int i)) [0..<Suc 33]) \<and>
   (\<forall>n. 34 \<le> n \<longrightarrow> Default huge n = huge)"
proof (intro conjI allI impI)
  show "Default huge n = Second * 2 ^ nat n" if "0 \<le> n \<and> n \<le> 33" for n
    using that by (simp add: Default_def ExponentialD_exact)
  show "sorted (map (\<lambda>i. Default huge (int i)) [0..<Suc 33])"
    unfolding Default_def by (rule exponential_default.sorted_delays) simp
  show "Default huge n = huge" if "34 \<le> n" for n
  proof -
    have "(2::int) ^ 34 \<le> 2 ^ nat n" using that by (intro power_increasing) auto
    then show ?thesis by (simp add: Default_def ExponentialD_value Second_def Let_def sgn_mult)
  qed
qed

theorem exponential_backoff_witness: "Default 0 5 = 32 * Second"
  using exponential_backoff [THEN conjunct1, THEN spec, of 5 0] by simp

section \<open>The delays of a client without options\<close>

text \<open>The answers of \<open>Retry\<close> to \<open>n\<close> losses in a row.\<close>

fun retry_delays :: "nat \<Rightarrow> go_error \<Rightarrow> retrier \<Rightarrow> int option list" where
  "retry_delays 0 e r = []"
| "retry_delays (Suc n) e r = (case Retry e r of (d, r') \<Rightarrow> d # retry_delays n e r')"

lemma retry_delays_unfold:
  assumes "retrier_ok r" and "r_filter r = None"
  shows "retry_delays n e r =
    map (\<lambda>i. if i < budget r then Some (r_backoff r (r_count r + 1 + int i)) else None) [0..<n]"
  using assms
proof (induction n arbitrary: r)
  case (Suc n)
  show ?case
  proof (cases "budget r = 0")
    case True
    then have "Retry e r = (None, r)" using Suc.prems by (simp add: Retry_cases)
    with True Suc show ?thesis by (simp add: upt_conv_Cons map_Suc_upt [symmetric] del: upt_Suc)
  next
    case False
    define r' where "r' = r\<lparr>r_count := r_count r + 1\<rparr>"
    have r: "Retry e r = (Some (r_backoff r (r_count r + 1)), r')"
      using False Suc.prems by (simp add: Retry_cases filtered_def r'_def)
    have r': "retrier_ok r'" "r_filter r' = None" "budget r = Suc (budget r')" "r_count r' = r_count r + 1"
        "r_backoff r' = r_backoff r"
      using Retry_yes [OF r Suc.prems(1)] Suc.prems(2) by simp_all
    show ?thesis
      using r r' Suc.IH [OF r'(1,2)]
      by (simp add: upt_conv_Cons map_Suc_upt [symmetric] add.assoc del: upt_Suc)
  qed
qed simp

lemma client_default_delays:
  "map (\<lambda>i. client_default_backoff huge (1 + int i)) [0..<10] =
     [1500000000, 2250000000, 3375000000, 5062500000, 7593750000, 11390625000, 17085937500, 25628906250,
      38443359375, 57665039062]"
proof -
  have p: "math_Pow_loop a x 0 = a"
    "math_Pow_loop a x (Suc 0) = fmul a x"
    "math_Pow_loop a x (numeral (num.Bit0 m)) = math_Pow_loop a (fmul x x) (numeral m)"
    "math_Pow_loop a x (numeral (num.Bit1 m)) = math_Pow_loop (fmul a x) (fmul x x) (numeral m)"
    "math_Pow_loop a x (numeral num.One) = fmul a x" for a x m
    by (subst math_Pow_loop.simps, simp add: math_Pow_loop.simps [of _ _ 0])+
  have u: "[0..<10] = [0, 1, 2, 3, 4, 5, 6, 7, 8, 9]" by (simp add: upt_rec)
  show ?thesis
    unfolding u client_default_backoff_def Exponential_def math_Pow_def float_of_int64_def
    by (simp add: p Second_def round53_id)
qed

text \<open>
  A client without options waits ten times, from one and a half seconds to almost a minute and each time half
  as long again, less than three minutes in all, and then gives up.
\<close>

theorem client_default_retries:
  "retry_delays 11 e (NewRetrier 10 (client_default_backoff huge)) =
     map Some [1500000000, 2250000000, 3375000000, 5062500000, 7593750000, 11390625000, 17085937500, 25628906250,
       38443359375, 57665039062] @ [None] \<and>
   sum_list (map (\<lambda>i. client_default_backoff huge (1 + int i)) [0..<10]) < 180 * Second"
proof
  let ?r = "NewRetrier 10 (client_default_backoff huge)"
  have r: "retrier_ok ?r" "r_filter ?r = None" "budget ?r = 10" "r_count ?r = 0"
    "r_backoff ?r = client_default_backoff huge"
    by (simp_all add: NewRetrier_def retrier_ok_def budget_def)
  have "[0..<11] = [0..<10] @ [10]" by (simp add: upt_rec)
  then have "retry_delays 11 e ?r = map Some (map (\<lambda>i. client_default_backoff huge (1 + int i)) [0..<10]) @ [None]"
    unfolding retry_delays_unfold [OF r(1,2)] r by simp
  then show "retry_delays 11 e ?r = map Some [1500000000, 2250000000, 3375000000, 5062500000, 7593750000,
      11390625000, 17085937500, 25628906250, 38443359375, 57665039062] @ [None]"
    by (simp only: client_default_delays)
  show "sum_list (map (\<lambda>i. client_default_backoff huge (1 + int i)) [0..<10]) < 180 * Second"
    unfolding client_default_delays by (simp add: Second_def)
qed

end
