(* ===== verification/Logging.thy ===== *)
theory Logging
  imports Config
begin

text \<open>
  Loggers: src/xlog/zap.go, and the cores and the choice of a logger in src/cmd/cable/config.go.

  The logging library, zap with its exporter, is the argument \<open>lib\<close>: which levels a core of the library
  takes, whether it adds itself to an entry, and what a core becomes when fields are attached to it. The two
  kinds of core that config.go defines wrap another core. Writing is the list of what the cores of the
  library get.
\<close>

section \<open>Levels and fields\<close>

definition LevelDebug :: int where "LevelDebug = 0"
definition LevelInfo :: int where "LevelInfo = 2"
definition LevelWarn :: int where "LevelWarn = 4"
definition LevelError :: int where "LevelError = 8"
definition LevelFatal :: int where "LevelFatal = 16"

lemmas levels = LevelDebug_def LevelInfo_def LevelWarn_def LevelError_def LevelFatal_def

text \<open>The levels of the library: Debug -1, Info 0, Warn 1, Error 2, Fatal 5.\<close>

definition Level_Level :: "int \<Rightarrow> int" where
  "Level_Level l =
     (if l = LevelDebug then -1 else if l = LevelInfo then 0 else if l = LevelWarn then 1
      else if l = LevelError then 2 else if l = LevelFatal then 5 else 0)"

definition ParseLevel :: "gostring \<Rightarrow> int" where
  "ParseLevel level =
     (if level = gs ''debug'' then LevelDebug else if level = gs ''info'' then LevelInfo
      else if level = gs ''warn'' then LevelWarn else if level = gs ''error'' then LevelError
      else if level = gs ''fatal'' then LevelFatal else LevelInfo)"

text \<open>
  A context carries the ids of its trace and its span when the span is recording. The constructors for
  numbers widen them.
\<close>

datatype attr_value = VStr gostring | VInt int | VUint nat | VContext "(gostring \<times> gostring) option" | VAny

type_synonym attr = "string \<times> attr_value"

definition Str :: "string \<Rightarrow> gostring \<Rightarrow> attr" where "Str key s = (key, VStr s)"
definition I16 :: "string \<Rightarrow> 16 word \<Rightarrow> attr" where "I16 key i = (key, VInt (sint i))"
definition U16 :: "string \<Rightarrow> 16 word \<Rightarrow> attr" where "U16 key i = (key, VUint (unat i))"
definition I32 :: "string \<Rightarrow> 32 word \<Rightarrow> attr" where "I32 key i = (key, VInt (sint i))"
definition U32 :: "string \<Rightarrow> 32 word \<Rightarrow> attr" where "U32 key i = (key, VUint (unat i))"
definition U64 :: "string \<Rightarrow> 64 word \<Rightarrow> attr" where "U64 key i = (key, VUint (unat i))"
definition Uid :: "gostring \<Rightarrow> attr" where "Uid i = Str ''userId'' i"
definition Cid :: "gostring \<Rightarrow> attr" where "Cid i = Str ''clientId'' i"
definition Msg :: "gostring \<Rightarrow> attr" where "Msg m = Str ''message'' m"
definition Peer_attr :: "64 word \<Rightarrow> attr" where "Peer_attr i = U64 ''peerId'' i"
definition Channel_attr :: "gostring \<Rightarrow> attr" where "Channel_attr ch = Str ''channelId'' ch"
definition Ctx_attr :: "(gostring \<times> gostring) option \<Rightarrow> attr" where "Ctx_attr cx = (''context'', VContext cx)"

section \<open>Cores\<close>

record log_entry =
  le_Level :: int
  le_Message :: string

record 'c zap_lib =
  lib_Enabled :: "'c \<Rightarrow> int \<Rightarrow> bool"
  lib_Check :: "'c \<Rightarrow> log_entry \<Rightarrow> bool"
  lib_With :: "attr list \<Rightarrow> 'c \<Rightarrow> 'c"

datatype 'c core = LibCore 'c | CtxCore "'c core" | LvlCore "'c core" int

fun core_Enabled :: "('c, 'x) zap_lib_scheme \<Rightarrow> 'c core \<Rightarrow> int \<Rightarrow> bool" where
  "core_Enabled lib (LibCore c) l \<longleftrightarrow> lib_Enabled lib c l"
| "core_Enabled lib (CtxCore k) l \<longleftrightarrow> core_Enabled lib k l"
| "core_Enabled lib (LvlCore k level) l \<longleftrightarrow> level \<le> l"

text \<open>\<open>Check\<close>: the cores that add themselves to the entry.\<close>

fun core_Check :: "('c, 'x) zap_lib_scheme \<Rightarrow> 'c core \<Rightarrow> log_entry \<Rightarrow> 'c core list" where
  "core_Check lib (LibCore c) e = (if lib_Check lib c e then [LibCore c] else [])"
| "core_Check lib (CtxCore k) e = (if core_Enabled lib (CtxCore k) (le_Level e) then [CtxCore k] else [])"
| "core_Check lib (LvlCore k level) e = (if level \<le> le_Level e then [LvlCore k level] else [])"

text \<open>
  \<open>With\<close>: a core that embeds the interface without a method of its own has that of the core inside, and the
  method of \<open>ctxCore\<close> returns what the core inside returns.
\<close>

fun core_With :: "('c, 'x) zap_lib_scheme \<Rightarrow> attr list \<Rightarrow> 'c core \<Rightarrow> 'c core" where
  "core_With lib fs (LibCore c) = LibCore (lib_With lib fs c)"
| "core_With lib fs (CtxCore k) = core_With lib fs k"
| "core_With lib fs (LvlCore k level) = core_With lib fs k"

definition trace_fields :: "(gostring \<times> gostring) option \<Rightarrow> attr list" where
  "trace_fields cx = (case cx of None \<Rightarrow> [] | Some (trace, span) \<Rightarrow> [Str ''trace_id'' trace, Str ''span_id'' span])"

fun core_Write :: "'c core \<Rightarrow> log_entry \<Rightarrow> attr list \<Rightarrow> ('c \<times> log_entry \<times> attr list) list" where
  "core_Write (LibCore c) e attrs = [(c, e, attrs)]"
| "core_Write (CtxCore k) e attrs =
     (case attrs of
        [] \<Rightarrow> core_Write k e attrs
      | (key, v) # rest \<Rightarrow>
          (case v of VContext cx \<Rightarrow> core_Write k e (rest @ trace_fields cx) | _ \<Rightarrow> core_Write k e attrs))"
| "core_Write (LvlCore k level) e attrs = core_Write k e attrs"

text \<open>How a logger uses its core: the cores that \<open>Check\<close> adds are written.\<close>

definition core_log :: "('c, 'x) zap_lib_scheme \<Rightarrow> 'c core \<Rightarrow> log_entry \<Rightarrow> attr list \<Rightarrow> ('c \<times> log_entry \<times> attr list) list" where
  "core_log lib k e attrs = concat (map (\<lambda>k'. core_Write k' e attrs) (core_Check lib k e))"

section \<open>The choice of a logger\<close>

text \<open>
  \<open>console\<close> makes the core of the library for an encoding and a level, \<open>otlp\<close> is the core of the exporter or its
  error. A logger is its core, or nil.
\<close>

definition consoleLogger :: "(string \<Rightarrow> int \<Rightarrow> 'c) \<Rightarrow> config \<Rightarrow> 'c core" where
  "consoleLogger console c =
     (let level = Level_Level (ParseLevel (logger_Level (cfg_Logger c)))
      in if logger_Format (cfg_Logger c) = gs ''json'' then CtxCore (LibCore (console ''json'' level))
         else CtxCore (LibCore (console ''console'' level)))"

definition otlpLogger :: "(go_error, 'c) outcome \<Rightarrow> config \<Rightarrow> (go_error, 'c core) outcome" where
  "otlpLogger otlp c = omap (\<lambda>k. LvlCore (LibCore k) (Level_Level (ParseLevel (logger_Level (cfg_Logger c))))) otlp"

text \<open>\<open>GetLogger\<close> without a stored logger: a failed exporter leaves a logger around nil.\<close>

definition GetLogger :: "(string \<Rightarrow> int \<Rightarrow> 'c) \<Rightarrow> (go_error, 'c) outcome \<Rightarrow> config \<Rightarrow> 'c core option" where
  "GetLogger console otlp c =
     (if logger_OTLPEndpoint (cfg_Logger c) = [] then Some (consoleLogger console c)
      else case otlpLogger otlp c of Ok k \<Rightarrow> Some k | _ \<Rightarrow> None)"

text \<open>\<open>With\<close> of a logger, as \<open>NewBroker\<close> uses it for the logger of the broker.\<close>

definition Logger_With :: "('c, 'x) zap_lib_scheme \<Rightarrow> attr list \<Rightarrow> 'c core option \<Rightarrow> (go_error, 'c core) outcome" where
  "Logger_With lib fs l = (case l of None \<Rightarrow> Panic | Some k \<Rightarrow> Ok (core_With lib fs k))"

section \<open>What is logged\<close>

text \<open>The names that \<open>validate\<close> accepts are told apart and ordered; every other name means Info.\<close>

lemma ParseLevel_order:
  "map (Level_Level \<circ> ParseLevel \<circ> gs) [''debug'', ''info'', ''warn'', ''error'', ''fatal''] = [-1, 0, 1, 2, 5]"
  by (simp add: ParseLevel_def Level_Level_def levels gs_def)

lemma ParseLevel_other:
  "name \<notin> gs ` {''debug'', ''info'', ''warn'', ''error'', ''fatal''} \<Longrightarrow> ParseLevel name = LevelInfo"
  by (auto simp: ParseLevel_def)

text \<open>The logger of the exporter takes exactly the entries of the configured level and above.\<close>

lemma otlp_logger_filters:
  assumes "logger_OTLPEndpoint (cfg_Logger c) \<noteq> []"
  shows "\<exists>k. GetLogger console (Ok x) c = Some k \<and>
    core_log lib k e attrs =
      (if Level_Level (ParseLevel (logger_Level (cfg_Logger c))) \<le> le_Level e then [(x, e, attrs)] else [])"
  using assms by (simp add: GetLogger_def otlpLogger_def core_log_def)

text \<open>The console logger replaces a context, if it is the first field, by the ids of its trace.\<close>

lemma console_logger_traces:
  assumes "logger_OTLPEndpoint (cfg_Logger c) = []" and "\<And>x. lib_Enabled lib x (le_Level e)"
  shows "\<exists>k x. GetLogger console otlp c = Some k \<and>
    core_log lib k e (Ctx_attr (Some (t, s)) # attrs) = [(x, e, attrs @ [Str ''trace_id'' t, Str ''span_id'' s])]"
  using assms
  by (auto simp: GetLogger_def consoleLogger_def core_log_def Let_def Ctx_attr_def trace_fields_def)

text \<open>
  A logger with fields of its own, such as the broker's, is only the library's core: with an exporter it
  no longer filters by the configured level, with the console it no longer turns a context into the ids
  of its trace.
\<close>

theorem derived_logger_unfiltered:
  assumes "GetLogger console otlp c = Some k" and "Logger_With lib fs (Some k) = Ok k'"
    and "\<And>x e. lib_Check lib x e"
  shows "\<exists>x. k' = LibCore x \<and> (\<forall>e attrs. core_log lib k' e attrs = [(x, e, attrs)])"
proof -
  have "\<exists>x. core_With lib fs k = LibCore x"
    by (induction k) auto
  then show ?thesis using assms(2,3) by (auto simp: Logger_With_def core_log_def)
qed

definition demo_zap :: "attr list zap_lib" where
  "demo_zap = \<lparr>lib_Enabled = \<lambda>_ _. True, lib_Check = \<lambda>_ _. True, lib_With = \<lambda>fs c. c @ fs\<rparr>"

theorem derived_logger_unfiltered_witness:
  "\<exists>k k' x. GetLogger (\<lambda>_ _. []) (Ok []) ((demo_config [] [])\<lparr>cfg_Logger :=
       \<lparr>logger_Level = gs ''error'', logger_Format = gs ''json'', logger_OTLPEndpoint = gs ''h:4317''\<rparr>\<rparr>) = Some k \<and>
     core_log demo_zap k \<lparr>le_Level = -1, le_Message = ''m''\<rparr> [] = [] \<and>
     Logger_With demo_zap [U64 ''BROKER'' 1] (Some k) = Ok k' \<and>
     core_log demo_zap k' \<lparr>le_Level = -1, le_Message = ''m''\<rparr> [] = [(x, \<lparr>le_Level = -1, le_Message = ''m''\<rparr>, [])]"
proof -
  let ?c = "(demo_config [] [])\<lparr>cfg_Logger :=
       \<lparr>logger_Level = gs ''error'', logger_Format = gs ''json'', logger_OTLPEndpoint = gs ''h:4317''\<rparr>\<rparr>"
  let ?k = "LvlCore (LibCore []) 2"
  have k: "GetLogger (\<lambda>_ _. []) (Ok []) ?c = Some ?k"
    by (simp add: GetLogger_def otlpLogger_def ParseLevel_def Level_Level_def levels gs_def)
  obtain k' where k': "Logger_With demo_zap [U64 ''BROKER'' 1] (Some ?k) = Ok k'" by (simp add: Logger_With_def)
  have "lib_Check demo_zap x e" for x e by (simp add: demo_zap_def)
  from derived_logger_unfiltered [OF k k' this] k k' show ?thesis by (force simp: core_log_def)
qed

text \<open>An exporter that cannot be made leaves no logger, not even the console's: the first use panics.\<close>

theorem failed_exporter_panics:
  assumes "logger_OTLPEndpoint (cfg_Logger c) \<noteq> []"
  shows "GetLogger console (Err e) c = None \<and> Logger_With lib fs (GetLogger console (Err e) c) = Panic"
  using assms by (simp add: GetLogger_def otlpLogger_def Logger_With_def)

theorem failed_exporter_panics_witness:
  "GetLogger (\<lambda>_ _. ()) (Err (OtherError ''dial'')) ((demo_config [] [])\<lparr>cfg_Logger :=
     \<lparr>logger_Level = [], logger_Format = [], logger_OTLPEndpoint = gs ''h:4317''\<rparr>\<rparr>) = None"
  by (rule failed_exporter_panics [THEN conjunct1]) (simp add: gs_def)

end
