(* ===== verification/Loggers.thy ===== *)
theory Loggers
  imports Logging
begin

text \<open>
  The constructors and methods of the loggers of src/xlog/zap.go, and how they make the console's logger of
  src/cmd/cable/config.go. \<open>build\<close> stands for \<open>Build\<close> of the logging library: the core it makes from a configuration,
  around which the options wrap others, or its error.
\<close>

section \<open>Construction\<close>

record zap_config =
  zc_Level :: int
  zc_Initial :: nat
  zc_Thereafter :: nat
  zc_Encoding :: string
  zc_DisableStacktrace :: bool
  zc_OutputPaths :: "string list"
  zc_ErrorOutputPaths :: "string list"

definition zap_Config :: "string \<Rightarrow> int \<Rightarrow> zap_config" where
  "zap_Config encoding level =
     \<lparr>zc_Level = Level_Level level, zc_Initial = 100, zc_Thereafter = 100, zc_Encoding = encoding,
      zc_DisableStacktrace = True, zc_OutputPaths = [''stdout''], zc_ErrorOutputPaths = [''stderr'']\<rparr>"

definition NewText :: "(zap_config \<Rightarrow> 'c option) \<Rightarrow> int \<Rightarrow> ('c core \<Rightarrow> 'c core) list \<Rightarrow> (go_error, 'c core) outcome" where
  "NewText build level os =
     (case build (zap_Config ''console'' level) of None \<Rightarrow> Panic | Some c \<Rightarrow> Ok (foldl (\<lambda>k f. f k) (LibCore c) os))"

definition NewJSON :: "(zap_config \<Rightarrow> 'c option) \<Rightarrow> int \<Rightarrow> ('c core \<Rightarrow> 'c core) list \<Rightarrow> (go_error, 'c core) outcome" where
  "NewJSON build level os =
     (case build (zap_Config ''json'' level) of None \<Rightarrow> Panic | Some c \<Rightarrow> Ok (foldl (\<lambda>k f. f k) (LibCore c) os))"

section \<open>Methods\<close>

definition exit_code :: int where "exit_code = 1"

text \<open>Each method of a logger around nil panics. \<open>Fatal\<close> ends the program with this exit code after the entry is written.\<close>

definition logger_log ::
  "int \<Rightarrow> ('c, 'x) zap_lib_scheme \<Rightarrow> 'c core option \<Rightarrow> string \<Rightarrow> attr list \<Rightarrow>
     (go_error, ('c \<times> log_entry \<times> attr list) list) outcome" where
  "logger_log level lib l msg fs =
     (case l of None \<Rightarrow> Panic | Some k \<Rightarrow> Ok (core_log lib k \<lparr>le_Level = level, le_Message = msg\<rparr> fs))"

definition Logger_Debug where "Logger_Debug lib l msg fs = logger_log (-1) lib l msg fs"
definition Logger_Info where "Logger_Info lib l msg fs = logger_log 0 lib l msg fs"
definition Logger_Warn where "Logger_Warn lib l msg fs = logger_log 1 lib l msg fs"
definition Logger_Error where "Logger_Error lib l msg fs = logger_log 2 lib l msg fs"

definition Logger_Fatal where
  "Logger_Fatal lib l msg fs = omap (\<lambda>ws. (ws, exit_code)) (logger_log 5 lib l msg fs)"

section \<open>The console's logger\<close>

text \<open>\<open>consoleLogger\<close> through the constructors.\<close>

lemma consoleLogger_New:
  assumes "\<And>e l. build (zap_Config e l) = Some (console e (Level_Level l))"
  shows "Ok (consoleLogger console c) =
    (let new = (if logger_Format (cfg_Logger c) = gs ''json'' then NewJSON build else NewText build)
     in new (ParseLevel (logger_Level (cfg_Logger c))) [CtxCore])"
  using assms by (simp add: consoleLogger_def NewJSON_def NewText_def Let_def)

text \<open>
  The constructors ask the library to sample, 100 entries of a kind in a second and then every hundredth; the library
  samples in the \<open>Check\<close> of its core. The core that config.go wraps around it never calls this method: the console's
  logger writes every entry of an enabled level, and only a logger derived from it is sampled.
\<close>

theorem console_not_sampled:
  assumes "logger_OTLPEndpoint (cfg_Logger c) = []" and "Logger_With lib fs (GetLogger console otlp c) = Ok k'"
  shows "\<exists>k x. GetLogger console otlp c = Some k \<and>
    (\<forall>e. length (core_log lib k e attrs) = (if lib_Enabled lib x (le_Level e) then 1 else 0)) \<and>
    (\<forall>e. length (core_log lib k' e attrs) = (if lib_Check lib (lib_With lib fs x) e then 1 else 0))"
proof -
  obtain x where "GetLogger console otlp c = Some (CtxCore (LibCore x))"
    using assms(1) by (cases "logger_Format (cfg_Logger c) = gs ''json''") (simp_all add: GetLogger_def consoleLogger_def Let_def)
  moreover from this assms(2) have "k' = LibCore (lib_With lib fs x)" by (simp add: Logger_With_def)
  moreover have "length (core_Write (CtxCore (LibCore x)) e attrs) = 1" for e
    by (simp split: list.split attr_value.split)
  ultimately show ?thesis by (intro exI [of _ "CtxCore (LibCore x)"] exI [of _ x]) (simp add: core_log_def)
qed

definition demo_sampled :: "attr list zap_lib" where
  "demo_sampled = \<lparr>lib_Enabled = \<lambda>_ _. True, lib_Check = \<lambda>_ _. False, lib_With = \<lambda>fs c. c @ fs\<rparr>"

theorem console_not_sampled_witness:
  "\<exists>k k'. GetLogger (\<lambda>_ _. []) (Err (OtherError ''none'')) (demo_config [] []) = Some k \<and>
     Logger_With demo_sampled [U64 ''BROKER'' 1] (Some k) = Ok k' \<and>
     length (core_log demo_sampled k \<lparr>le_Level = 0, le_Message = ''m''\<rparr> []) = 1 \<and>
     core_log demo_sampled k' \<lparr>le_Level = 0, le_Message = ''m''\<rparr> [] = []"
proof -
  have c: "logger_OTLPEndpoint (cfg_Logger (demo_config [] [])) = []" by (simp add: demo_config_def)
  obtain k' where k': "Logger_With demo_sampled [U64 ''BROKER'' 1]
      (GetLogger (\<lambda>_ _. []) (Err (OtherError ''none'')) (demo_config [] [])) = Ok k'"
    using c by (simp add: GetLogger_def Logger_With_def)
  from console_not_sampled [OF c k', of "[]"] k' show ?thesis by (fastforce simp: demo_sampled_def)
qed

end
