(* ===== verification/Client_Timers.thy ===== *)
theory Client_Timers
  imports Client_Safety Keepalive_Safety
begin

text \<open>
  The client of src/client together with the timers of its keep-alive, src/internal/keepalive. The status
  machine starts and stops the keep-alive; each start that finds it stopped sets a timer for a loop of its own.
\<close>

section \<open>Changes to \<open>StatusOpened\<close>\<close>

text \<open>How often the client was told that it is open.\<close>

definition opened :: "client \<Rightarrow> nat" where
  "opened c = count_list (c_calls c) StatusOpened"

lemma opened_setStatus [simp]:
  "opened (setStatus st c) = opened c + (if st = StatusOpened \<and> c_status c \<noteq> StatusOpened then 1 else 0)"
  by (auto simp: opened_def setStatus_def Let_def split: status.split)

lemma opened_upd [simp]:
  "opened (c\<lparr>c_retrier := r\<rparr>) = opened c" "opened (c\<lparr>c_retrying := b\<rparr>) = opened c"
  "opened (c\<lparr>c_timers := ts\<rparr>) = opened c" "opened (c\<lparr>c_open := b\<rparr>) = opened c"
  "opened (c\<lparr>c_out := out\<rparr>) = opened c" "opened (c\<lparr>c_queue := q\<rparr>) = opened c"
  "opened (c\<lparr>c_keepalive := k\<rparr>) = opened c" "opened (c\<lparr>c_pingChan := b\<rparr>) = opened c"
  "opened (c\<lparr>c_loops := n\<rparr>) = opened c" "opened (c\<lparr>c_closed := b\<rparr>) = opened c"
  "opened (c\<lparr>c_requestTasks := m\<rparr>) = opened c"
  by (simp_all add: opened_def)

lemma opened_tryClose [simp]: "opened (tryClose e c) = opened c"
  by (auto simp: tryClose_def Let_def split: option.split prod.split)

text \<open>A step that does not open the client leaves a stopped keep-alive stopped.\<close>

definition not_opening :: "client \<Rightarrow> client \<Rightarrow> bool" where
  "not_opening c c' \<longleftrightarrow> opened c' = opened c \<and> (stoped (c_keepalive c) \<longrightarrow> stoped (c_keepalive c'))"

lemma tryClose_stoped: "stoped (c_keepalive c) \<Longrightarrow> stoped (c_keepalive (tryClose e c))"
  by (auto simp: tryClose_def Let_def setStatus_stoped split: option.split prod.split)

lemma same_life_opened: "same_life c c' \<Longrightarrow> opened c' = opened c \<and> stoped (c_keepalive c') = stoped (c_keepalive c)"
  by (simp add: same_life_def opened_def)

lemma life_not_opening: "life_or_close c c' \<Longrightarrow> not_opening c c'"
  by (auto simp: life_or_close_def not_opening_def same_life_opened tryClose_stoped)

text \<open>
  Of the client's own steps only a reconnect that succeeds opens it; that was the last one, as from then
  on it ignores the loss of its connection.
\<close>

lemma own_step_opens:
  assumes "own_step c c'" and "client_inv c"
  shows "not_opening c c' \<or> opened c' = Suc (opened c) \<and> stoped (c_keepalive c) \<and> \<not> deaf c \<and> deaf c'"
  using assms
proof (induction rule: own_step.induct)
  case (timer l c c')
  show ?case
  proof (cases "c_timers c")
    case Nil
    then show ?thesis using timer by (simp add: fire_def not_opening_def)
  next
    case (Cons d ts)
    then have c: "ts = []" "c_status c = StatusOpening" "c_retrying c" "stoped (c_keepalive c)"
      using timer(2) by (auto simp: client_inv_defs)
    then obtain err c1 where r: "reconnect l (c\<lparr>c_timers := []\<rparr>) = Ok (err, c1)"
      using timer(1) Cons by (auto simp: fire_def Let_def outcome_Ok_obind)
    show ?thesis
    proof (cases err)
      case None
      then have "c' = c1" using timer(1) Cons c r by (simp add: fire_def Let_def)
      then show ?thesis using r None c
        by (auto simp: reconnect_def deaf_def Let_def split: option.splits outcome.splits packet.splits if_splits)
    next
      case (Some e)
      then have c': "c' = tryClose e (c1\<lparr>c_retrying := False\<rparr>)" using timer(1) Cons c r by (simp add: fire_def Let_def)
      have "same_life (c\<lparr>c_timers := []\<rparr>) c1" using r Some by (auto dest: reconnect_shape)
      then show ?thesis
        using c(4) tryClose_stoped [of "c1\<lparr>c_retrying := False\<rparr>" e] unfolding c' not_opening_def
        by (auto dest: same_life_opened)
    qed
  qed
next
  case (shut c)
  then show ?case by (simp add: not_opening_def client_Close_def keepalive_Stop_def)
qed (blast intro: life_not_opening life_or_closeI sendPacket_life request_life ping_life work_life handle_life
  recv_err_life client_SendPing_life)+

text \<open>A call of \<open>Connect\<close> opens it at most once, and does nothing to a client that is open or opening.\<close>

lemma Connect_opens:
  assumes "Connect l c = Ok c'" and "client_inv c"
  shows "not_opening c c' \<and> (deaf c \<longrightarrow> c' = c) \<or> opened c' = Suc (opened c) \<and> stoped (c_keepalive c) \<and> \<not> deaf c"
proof (cases "c_status c = StatusOpened \<or> c_status c = StatusOpening")
  case True
  then show ?thesis using assms(1) by (auto simp: Connect_def not_opening_def)
next
  case False
  let ?c = "setStatus StatusOpening c"
  have c: "stoped (c_keepalive c)" "\<not> deaf c" "opened ?c = opened c" "stoped (c_keepalive ?c)"
    using False assms(2) by (auto simp: client_inv_defs deaf_def setStatus_stoped)
  obtain err c1 where r: "reconnect l ?c = Ok (err, c1)"
    using assms(1) False by (auto simp: Connect_def outcome_Ok_obind)
  show ?thesis
  proof (cases err)
    case None
    then have "c' = c1" using assms(1) False r by (simp add: Connect_def)
    moreover obtain c2 where c2: "c1 = setStatus StatusOpened c2" "same_life ?c c2"
      using r None by (auto dest: reconnect_shape)
    moreover have "c_status c2 = StatusOpening" using c2(2) by (simp add: same_life_def)
    ultimately have "opened c' = Suc (opened c)"
      using c(3) same_life_opened [OF c2(2)] by simp
    with c show ?thesis by simp
  next
    case (Some e)
    then obtain r' where "c' = tryClose e (c1\<lparr>c_retrying := False, c_retrier := r'\<rparr>)"
      using assms(1) False r by (auto simp: Connect_def split: option.splits)
    moreover have "same_life ?c c1" using r Some by (auto dest: reconnect_shape)
    ultimately have "opened c' = opened c" "stoped (c_keepalive c')"
      using c(3,4) tryClose_stoped [of "c1\<lparr>c_retrying := False, c_retrier := r'\<rparr>" e]
      by (auto dest: same_life_opened)
    with c show ?thesis by (simp add: not_opening_def)
  qed
qed

section \<open>The client with its timers\<close>

text \<open>
  A step of the client sets the keep-alive of the timers; when it was stopped and runs now, a
  goroutine was started for it. By the two lemmas above no step stops and starts it at once.
\<close>

definition ka_sync :: "keepalive \<Rightarrow> timers \<Rightarrow> timers" where
  "ka_sync k t =
     (if stoped (ka t) \<and> \<not> stoped k
      then t\<lparr>ka := k, ka_due := ka_clock t # ka_due t, ka_started := ka_clock t\<rparr> else t\<lparr>ka := k\<rparr>)"

record timed_client =
  tc_client :: client
  tc_timers :: timers
  tc_connects :: nat

definition timed_New :: "int \<Rightarrow> client \<Rightarrow> timed_client" where
  "timed_New n c = \<lparr>tc_client = c, tc_timers = (ka_New n 0)\<lparr>ka := c_keepalive c\<rparr>, tc_connects = 0\<rparr>"

definition timed_upd :: "client \<Rightarrow> timed_client \<Rightarrow> timed_client" where
  "timed_upd c' s = s\<lparr>tc_client := c', tc_timers := ka_sync (c_keepalive c') (tc_timers s)\<rparr>"

fun clock_event :: "ka_event \<Rightarrow> bool" where
  "clock_event (Tick n) = True"
| "clock_event (Fire d) = True"
| "clock_event (Return e) = True"
| "clock_event _ = False"

inductive timed_step :: "int \<Rightarrow> timed_client \<Rightarrow> timed_client \<Rightarrow> bool" for timeout where
  connects: "Connect l (tc_client s) = Ok c' \<Longrightarrow>
    timed_step timeout s ((timed_upd c' s)\<lparr>tc_connects := Suc (tc_connects s)\<rparr>)"
| steps: "own_step (tc_client s) c' \<Longrightarrow> timed_step timeout s (timed_upd c' s)"
| clock: "clock_event e \<Longrightarrow> ka_enabled e (tc_timers s) \<Longrightarrow>
    timed_step timeout s (s\<lparr>tc_timers := ka_effect timeout e (tc_timers s)\<rparr>)"

definition timed_inv :: "timed_client \<Rightarrow> bool" where
  "timed_inv s \<longleftrightarrow> client_inv (tc_client s) \<and> ka (tc_timers s) = c_keepalive (tc_client s) \<and>
     ka_loops (tc_timers s) \<le> opened (tc_client s) \<and>
     opened (tc_client s) \<le> tc_connects s + (if deaf (tc_client s) then 1 else 0)"

lemma ka_sync_loops:
  "ka_loops (ka_sync k t) = ka_loops t + (if stoped (ka t) \<and> \<not> stoped k then 1 else 0) \<and> ka (ka_sync k t) = k"
  by (simp add: ka_sync_def ka_loops_def)

lemma clock_event_loops:
  assumes "clock_event e" and "ka_enabled e t"
  shows "ka_loops (ka_effect timeout e t) \<le> ka_loops t \<and> ka (ka_effect timeout e t) = ka t"
  using assms by (cases e) (auto simp: ka_ops ka_loops_def dest: length_remove1_mem)

lemma timed_inv_step:
  assumes "timed_step timeout s s'" and "timed_inv s"
  shows "timed_inv s'"
  using assms
proof (induction rule: timed_step.induct)
  case (connects l s c')
  then have inv: "client_inv (tc_client s)" by (simp add: timed_inv_def)
  show ?case
    using Connect_opens [OF connects(1) inv] Connect_inv [OF connects(1) inv] connects(2)
      ka_sync_loops [of "c_keepalive c'" "tc_timers s"]
    by (auto simp: timed_inv_def timed_upd_def not_opening_def split: if_splits)
next
  case (steps s c')
  then have inv: "client_inv (tc_client s)" by (simp add: timed_inv_def)
  show ?case
    using own_step_opens [OF steps(1) inv] own_step_inv [OF steps(1) inv] deaf_own_step [OF steps(1)] steps(2)
      ka_sync_loops [of "c_keepalive c'" "tc_timers s"]
    by (auto simp: timed_inv_def timed_upd_def not_opening_def split: if_splits)
next
  case (clock e s)
  then show ?case using clock_event_loops [OF clock(1,2), of timeout] by (auto simp: timed_inv_def)
qed

text \<open>
  C37. However often the connection is lost, a client has at most one keep-alive loop more than there were
  calls of \<open>Connect\<close>; so at most two when its user has connected it once.
\<close>

theorem client_loops_bounded:
  assumes "client_New resolves exponential now endpoint os = Ok c0"
    and "\<forall>r. c_retrier c0 = Some r \<longrightarrow> retrier_ok r" and "(timed_step timeout)\<^sup>*\<^sup>* (timed_New now c0) s"
  shows "ka_loops (tc_timers s) \<le> Suc (tc_connects s) \<and> ka (tc_timers s) = c_keepalive (tc_client s)"
proof -
  have "opened c0 = 0"
    using assms(1) by (auto simp: client_New_def Let_def outcome_Ok_obind opened_def)
  then have "timed_inv (timed_New now c0)"
    using New_inv [OF assms(1,2)] by (simp add: timed_inv_def timed_New_def ka_New_def ka_loops_def)
  with assms(3) have "timed_inv s" by (induction rule: rtranclp_induct) (auto intro: timed_inv_step)
  then show ?thesis by (auto simp: timed_inv_def split: if_splits)
qed

text \<open>An attempt that succeeds, and the loss of a connection.\<close>

lemma accepting_reconnect:
  assumes "c_id c = Some sample_identity" and "c_kind c = StreamConn"
  obtains data where "reconnect accepting c =
    Ok (None, setStatus StatusOpened (c\<lparr>c_open := True, c_out := c_out c @ [data]\<rparr>))"
proof -
  obtain data where "packet_Marshal (PConnect (NewConnect (Some sample_identity))) = Ok data"
    using sample_connect_marshals by blast
  then show thesis
    using assms that by (simp add: reconnect_def accepting_def WritePacket_def NewConnack_def Let_def)
qed

theorem client_loops_bounded_witness:
  "\<exists>c0 s. sample_New = Ok c0 \<and> (timed_step 5)\<^sup>*\<^sup>* (timed_New 0 c0) s \<and> tc_connects s = 1 \<and>
     ka_loops (tc_timers s) = 2 \<and> ka_loops (tc_timers s) \<le> Suc (tc_connects s)"
proof -
  obtain c0 where c0: "sample_New = Ok c0" "c_id c0 = Some sample_identity" "c_kind c0 = StreamConn"
    "c_status c0 = Status_Unknown" "\<not> c_retrying c0" "c_retrier c0 = Some sample_retrier"
    "c_timers c0 = []" "client_inv c0" by (rule sample_client)
  let ?o = "setStatus StatusOpening c0"
  obtain d1 where r1: "reconnect accepting ?o =
      Ok (None, setStatus StatusOpened (?o\<lparr>c_open := True, c_out := c_out ?o @ [d1]\<rparr>))"
    using accepting_reconnect [of ?o] c0 by auto
  define c1 where "c1 = setStatus StatusOpened (?o\<lparr>c_open := True, c_out := c_out ?o @ [d1]\<rparr>)"
  have c1: "Connect accepting c0 = Ok c1" using r1 c0(4) by (simp add: Connect_def c1_def)
  define c2 where "c2 = recv_err (OtherError ''EOF'') c1"
  have k: "c_id c1 = Some sample_identity" "c_kind c1 = StreamConn" "c_status c1 = StatusOpened" "\<not> c_retrying c1"
      "c_retrier c1 = Some sample_retrier" "c_timers c1 = []" "\<not> stoped (c_keepalive c1)"
    using c0 by (simp_all add: c1_def setStatus_stoped)
  have c2: "c_id c2 = Some sample_identity" "c_kind c2 = StreamConn" "c_status c2 = StatusOpening"
      "c_timers c2 = [6 * Second]" "stoped (c_keepalive c2)"
    using k by (simp_all add: c2_def recv_err_def tryClose_def Retry_def sample_retrier_def NewRetrier_def
        filtered_def int64_of_def LinearD_def Linear_def Second_def Let_def setStatus_stoped)
  obtain d2 where r2: "reconnect accepting (c2\<lparr>c_timers := []\<rparr>) =
      Ok (None, setStatus StatusOpened (c2\<lparr>c_timers := [], c_open := True, c_out := c_out c2 @ [d2]\<rparr>))"
    using accepting_reconnect [of "c2\<lparr>c_timers := []\<rparr>"] c2 by auto
  define c3 where "c3 = setStatus StatusOpened (c2\<lparr>c_timers := [], c_open := True, c_out := c_out c2 @ [d2]\<rparr>)"
  have c3: "fire accepting c2 = Ok c3" "\<not> stoped (c_keepalive c3)"
    using r2 c2 by (simp_all add: fire_def c3_def setStatus_stoped)
  let ?s0 = "timed_New 0 c0"
  let ?s1 = "(timed_upd c1 ?s0)\<lparr>tc_connects := Suc (tc_connects ?s0)\<rparr>"
  let ?s3 = "timed_upd c3 (timed_upd c2 ?s1)"
  have "timed_step 5 ?s0 ?s1" by (rule connects [of accepting]) (simp add: timed_New_def c1)
  moreover have "timed_step 5 ?s1 (timed_upd c2 ?s1)"
    by (rule steps) (simp add: timed_upd_def c2_def read_error)
  moreover have "timed_step 5 (timed_upd c2 ?s1) ?s3"
    by (rule steps) (simp add: timed_upd_def timer [OF c3(1)])
  ultimately have run: "(timed_step 5)\<^sup>*\<^sup>* ?s0 ?s3" by (meson converse_rtranclp_into_rtranclp rtranclp.rtrancl_refl)
  have "stoped (c_keepalive c0)" using c0(4,8) by (auto simp: client_inv_defs)
  then have two: "ka_loops (tc_timers ?s3) = 2" "tc_connects ?s3 = 1"
    using c2(5) c3(2) k(7) by (simp_all add: timed_upd_def timed_New_def ka_sync_def ka_New_def ka_loops_def)
  have "\<forall>r. c_retrier c0 = Some r \<longrightarrow> retrier_ok r" using c0(6) by (simp add: sample_retrier_def NewRetrier_def retrier_ok_def)
  from client_loops_bounded [OF c0(1) [unfolded sample_New_def] this run] c0(1) run two show ?thesis by blast
qed

end
