(* ===== verification/Programs.thy ===== *)
theory Programs
  imports Api_Safety Client
begin

text \<open>
  The two programs beside the server: src/cmd/tester, which opens clients and lets them send random
  messages, and src/cmd/cli, which calls the gRPC interface once.

  A value of \<open>rand.IntN\<close> is an argument, taken modulo the bound; a bound that is not positive panics. Flags and
  the JSON file are values; logging is what the commands of the second program report.
\<close>

section \<open>The load generator\<close>

record tester_config =
  tc_LogLevel :: gostring
  tc_MaxConns :: int
  tc_ConnSpeed :: int
  tc_LogFormat :: gostring
  tc_Endpoints :: "gostring list"
  tc_MaxUserID :: int
  tc_MaxChannelID :: int
  tc_MessageInterval :: int
  tc_MessageRoute :: "(byte, gostring) gomap"

definition SendTypeUser :: gostring where "SendTypeUser = gs ''user''"
definition SendTypeChannel :: gostring where "SendTypeChannel = gs ''channel''"

definition tester_validate :: "tester_config \<Rightarrow> go_error option" where
  "tester_validate c =
     first_error
       ([(\<not> one_of [''debug'', ''info'', ''warn'', ''error''] (tc_LogLevel c), ''invalid log level''),
         (\<not> one_of [''text'', ''json''] (tc_LogFormat c), ''invalid log format''),
         (tc_MaxConns c \<le> 0, ''invalid max conns''),
         (tc_ConnSpeed c \<le> 0, ''invalid conn speed''),
         (tc_Endpoints c = [], ''invalid endpoints''),
         (tc_MaxUserID c \<le> 0, ''invalid max user id''),
         (tc_MaxChannelID c \<le> 0, ''invalid max channel id''),
         (tc_MessageRoute c = [], ''invalid message route'')] @
        concat (map (\<lambda>(k, v). [(k > 63, ''invalid message kind''),
                               (v \<noteq> SendTypeUser \<and> v \<noteq> SendTypeChannel, ''invalid send type'')]) (tc_MessageRoute c)) @
        [(tc_MessageInterval c \<le> 0, ''invalid message speed'')])"

definition tester_readConfig :: "(go_error, tester_config) outcome \<Rightarrow> (go_error, tester_config) outcome" where
  "tester_readConfig parsed =
     obind parsed (\<lambda>c. case tester_validate c of None \<Rightarrow> Ok c | Some e \<Rightarrow> Err e)"

definition IntN :: "nat \<Rightarrow> int \<Rightarrow> (go_error, nat) outcome" where
  "IntN rnd n = (if n \<le> 0 then Panic else Ok (rnd mod nat n))"

definition randomUserID :: "nat \<Rightarrow> tester_config \<Rightarrow> (go_error, gostring) outcome" where
  "randomUserID rnd c = omap (\<lambda>i. gs ''u'' @ itoa i) (IntN rnd (tc_MaxUserID c))"

definition randomChannelID :: "nat \<Rightarrow> tester_config \<Rightarrow> (go_error, gostring) outcome" where
  "randomChannelID rnd c = omap (\<lambda>i. gs ''channel'' @ itoa i) (IntN rnd (tc_MaxChannelID c))"

definition randomEndpoint :: "nat \<Rightarrow> tester_config \<Rightarrow> (go_error, gostring) outcome" where
  "randomEndpoint rnd c =
     (if length (tc_Endpoints c) = 1 then Ok (tc_Endpoints c ! 0)
      else omap (\<lambda>i. tc_Endpoints c ! i) (IntN rnd (int (length (tc_Endpoints c)))))"

definition randomKind :: "nat \<Rightarrow> tester_config \<Rightarrow> (go_error, byte) outcome" where
  "randomKind rnd c =
     (let keys = map fst (tc_MessageRoute c) in omap (\<lambda>i. keys ! i) (IntN rnd (int (length keys))))"

text \<open>A kind without a route has the empty send type.\<close>

definition randomMessage :: "nat \<Rightarrow> nat \<Rightarrow> tester_config \<Rightarrow> (go_error, message) outcome" where
  "randomMessage rnd rnd' c =
     obind (randomKind rnd c) (\<lambda>kind.
       let sendType = (case map_of (tc_MessageRoute c) kind of Some t \<Rightarrow> t | None \<Rightarrow> []);
           msg = (NewMessage (gs ''hello this message is send to '' @ sendType @ gs '':''))\<lparr>Kind := kind\<rparr>
       in if sendType = SendTypeUser then
            omap (\<lambda>u. msg\<lparr>message_props := props_Set PropertyUserID u (message_props msg)\<rparr>) (randomUserID rnd' c)
          else if sendType = SendTypeChannel then
            omap (\<lambda>ch. msg\<lparr>message_props := props_Set PropertyChannel ch (message_props msg)\<rparr>) (randomChannelID rnd' c)
          else Ok msg)"

text \<open>
  \<open>main\<close>: for how long clients are opened, and how long the ticker waits between two of them; the division is
  that of whole numbers, and a ticker without a pause panics. A tick at the very end may lose
  against the end.
\<close>

definition tester_duration :: "tester_config \<Rightarrow> int" where
  "tester_duration c = int64_of (Second * (tc_MaxConns c div tc_ConnSpeed c))"

definition tester_period :: "tester_config \<Rightarrow> (go_error, int) outcome" where
  "tester_period c = (let p = Second div tc_ConnSpeed c in if p \<le> 0 then Panic else Ok p)"

definition tester_ticks :: "tester_config \<Rightarrow> (go_error, int) outcome" where
  "tester_ticks c = omap (\<lambda>p. tester_duration c div p) (tester_period c)"

section \<open>The command line client\<close>

record cli_flags =
  fl_endpoint :: gostring
  fl_cmd :: string
  fl_uid :: gostring
  fl_network :: gostring
  fl_nodeId :: u64

datatype cli_log = LogInfo string | LogError string

text \<open>No flag sets the channels: the map is nil.\<close>

definition cli_chs :: "(gostring, gostring) gomap" where
  "cli_chs = []"

definition cli_report ::
  "string \<Rightarrow> string \<Rightarrow> (go_error, (go_error, 'a) outcome \<times> 's) outcome \<Rightarrow> (go_error, cli_log \<times> 's) outcome" where
  "cli_report good bad res =
     obind res (\<lambda>(r, st). case r of Ok _ \<Rightarrow> Ok (LogInfo good, st) | Err _ \<Rightarrow> Ok (LogError bad, st) | Panic \<Rightarrow> Panic)"

definition cli_main where
  "cli_main conn_err call grpc transport_err propose_err sv me fl st =
     (let c = snd (api_Connect conn_err (NewClient (fl_endpoint fl)));
          uid = fl_uid fl;
          need_uid = (\<lambda>k. if uid = [] then Ok (LogError ''uid is empty'', st) else k)
      in if fl_cmd fl = ''startListener'' then
           cli_report ''start listener success'' ''start listener failed''
             (api_StartListener call c grpc me (fl_network fl) st)
         else if fl_cmd fl = ''stopListener'' then
           cli_report ''stop listener success'' ''stop listener failed''
             (api_StopListener call c grpc transport_err me (fl_network fl) st)
         else if fl_cmd fl = ''joinChannel'' then
           need_uid (cli_report ''join channel success'' ''join channel failed''
             (api_JoinChannel call c sv me uid cli_chs st))
         else if fl_cmd fl = ''leaveChannel'' then
           need_uid (cli_report ''leave channel success'' ''leave channel failed''
             (api_LeaveChannel call c sv me uid cli_chs st))
         else if fl_cmd fl = ''listChannels'' then
           need_uid (cli_report ''list channel success'' ''list channel failed'' (api_ListChannels call c sv uid st))
         else if fl_cmd fl = ''kickNode'' then
           (if fl_nodeId fl = 0 then Ok (LogError ''nodeId is empty'', st)
            else cli_report ''kick node success'' ''kick node failed''
                   (api_KickNode call c propose_err me (fl_nodeId fl) st))
         else Ok (LogError ''unknown command'', st))"

section \<open>What the load generator sends\<close>

lemma tester_validated:
  assumes "tester_validate c = None"
  shows "0 < tc_MaxConns c" "0 < tc_ConnSpeed c" "tc_Endpoints c \<noteq> []" "0 < tc_MaxUserID c" "0 < tc_MaxChannelID c"
    "tc_MessageRoute c \<noteq> []"
    "\<And>k v. (k, v) \<in> set (tc_MessageRoute c) \<Longrightarrow> k \<le> 63 \<and> (v = SendTypeUser \<or> v = SendTypeChannel)"
  using assms by (auto simp: tester_validate_def first_errors not_less split: if_splits prod.splits)

text \<open>
  A validated configuration makes messages that the server can route, whatever is drawn: of a kind
  of at most 63 that has a route, with the user or the channel that the route asks for.
\<close>

theorem tester_message:
  assumes "tester_validate c = None"
  shows "\<exists>m. randomMessage rnd rnd' c = Ok m \<and> Kind m \<le> 63 \<and> packet_ok (PMessage m) \<and>
    ((\<exists>i<nat (tc_MaxUserID c). map_of (tc_MessageRoute c) (Kind m) = Some SendTypeUser \<and>
        props_Get PropertyUserID (message_props m) = Some (gs ''u'' @ itoa i)) \<or>
     (\<exists>i<nat (tc_MaxChannelID c). map_of (tc_MessageRoute c) (Kind m) = Some SendTypeChannel \<and>
        props_Get PropertyChannel (message_props m) = Some (gs ''channel'' @ itoa i)))"
proof -
  note v = tester_validated [OF assms]
  let ?keys = "map fst (tc_MessageRoute c)"
  define kind where "kind = ?keys ! (rnd mod length ?keys)"
  have len: "0 < length ?keys" using v(6) by simp
  then have k: "randomKind rnd c = Ok kind" by (simp add: randomKind_def IntN_def kind_def Let_def)
  have "kind \<in> set ?keys" unfolding kind_def by (rule nth_mem) (use len in simp)
  then obtain t where t: "map_of (tc_MessageRoute c) kind = Some t"
    by (metis map_of_eq_None_iff option.exhaust set_map)
  then have b: "kind \<le> 63" "t = SendTypeUser \<or> t = SendTypeChannel" using v(7) [OF map_of_SomeD [OF t]] by auto
  let ?u = "rnd' mod nat (tc_MaxUserID c)"
  let ?ch = "rnd' mod nat (tc_MaxChannelID c)"
  have i: "?u < nat (tc_MaxUserID c)" "?ch < nat (tc_MaxChannelID c)" using v(4,5) by simp_all
  have ids: "randomUserID rnd' c = Ok (gs ''u'' @ itoa ?u)" "randomChannelID rnd' c = Ok (gs ''channel'' @ itoa ?ch)"
    using v(4,5) by (simp_all add: randomUserID_def randomChannelID_def IntN_def)
  have ne: "SendTypeUser \<noteq> SendTypeChannel" by (simp add: SendTypeUser_def SendTypeChannel_def gs_def)
  from b(2) show ?thesis
  proof
    assume "t = SendTypeUser"
    with k t b ids i(1) show ?thesis
      by (auto simp: randomMessage_def Let_def NewMessage_def props_Set_def props_Get_def u8map_ok_def go_map_def)
  next
    assume "t = SendTypeChannel"
    with k t b ids i(2) ne show ?thesis
      by (auto simp: randomMessage_def Let_def NewMessage_def props_Set_def props_Get_def u8map_ok_def go_map_def)
  qed
qed

definition demo_tester :: tester_config where
  "demo_tester = \<lparr>tc_LogLevel = gs ''info'', tc_MaxConns = 10, tc_ConnSpeed = 4, tc_LogFormat = gs ''json'',
     tc_Endpoints = [gs ''tcp://h:1''], tc_MaxUserID = 3, tc_MaxChannelID = 5, tc_MessageInterval = 1,
     tc_MessageRoute = [(1, SendTypeUser), (2, SendTypeChannel)]\<rparr>"

lemma demo_tester_valid: "tester_validate demo_tester = None"
  by (simp add: tester_validate_def demo_tester_def one_of_def SendTypeUser_def SendTypeChannel_def gs_def)

theorem tester_message_witness:
  "\<exists>m. randomMessage 0 7 demo_tester = Ok m \<and> Kind m \<le> 63 \<and> packet_ok (PMessage m)"
  using tester_message [OF demo_tester_valid] by blast

text \<open>
  The generator opens at most as many clients as configured when its speed divides a second, but only
  whole batches of them: what remains of the number divided by the speed is left out, and with a number below
  the speed no client is opened at all.
\<close>

theorem tester_clients:
  assumes "tester_validate c = None" and "tc_ConnSpeed c dvd Second" and "tc_MaxConns c < 2 ^ 33"
  shows "tester_ticks c = Ok (tc_MaxConns c - tc_MaxConns c mod tc_ConnSpeed c)"
proof -
  let ?s = "tc_ConnSpeed c"
  have s: "0 < ?s" "0 < tc_MaxConns c" using tester_validated [OF assms(1)] by auto
  from assms(2) obtain p where p: "Second = ?s * p" ..
  have "0 < ?s * p" using p by (simp add: Second_def)
  with s have pos: "0 < p" by (simp add: zero_less_mult_iff)
  have per: "tester_period c = Ok p" using s pos by (simp add: tester_period_def p Let_def)
  have "0 \<le> tc_MaxConns c div ?s" "tc_MaxConns c div ?s \<le> tc_MaxConns c"
    using s zdiv_mono2 [of "tc_MaxConns c" 1 ?s] by (simp_all add: pos_imp_zdiv_nonneg_iff)
  then have "tester_duration c = Second * (tc_MaxConns c div ?s)"
    unfolding tester_duration_def using assms(3) by (intro int64_of_id) (simp_all add: Second_def)
  then have "tester_duration c div p = ?s * (tc_MaxConns c div ?s)"
    using pos by (simp add: p)
  then show ?thesis by (simp add: tester_ticks_def per minus_mod_eq_mult_div)
qed

theorem tester_clients_witness:
  "tester_ticks demo_tester = Ok 8 \<and> tester_ticks (demo_tester\<lparr>tc_MaxConns := 3\<rparr>) = Ok 0"
proof
  have d: "tc_ConnSpeed demo_tester = 4" "tc_MaxConns demo_tester = 10" by (simp_all add: demo_tester_def)
  show "tester_ticks demo_tester = Ok 8"
    using tester_clients [OF demo_tester_valid] by (simp add: d Second_def)
  have "tester_validate (demo_tester\<lparr>tc_MaxConns := 3\<rparr>) = None"
    using demo_tester_valid by (simp add: tester_validate_def demo_tester_def)
  from tester_clients [OF this] show "tester_ticks (demo_tester\<lparr>tc_MaxConns := 3\<rparr>) = Ok 0"
    by (simp add: d Second_def)
qed

section \<open>What the command line client does\<close>

lemma handle_times_same:
  assumes "h st = Ok (r, st)"
  shows "handle_times (Suc k) h st = Ok (Ok r, st)"
  using assms by (induction k) auto

lemma api_rpc_same:
  assumes "h st = Ok (r, st)"
  obtains "api_rpc call c h st = Ok (Ok r, st)" | e where "api_rpc call c h st = Ok (Err e, st)"
proof (cases "api_ready c")
  case True
  show ?thesis
  proof (cases call)
    case (Answered k)
    then show ?thesis using that True handle_times_same [of h, OF assms] by (simp add: api_rpc_def)
  next
    case (Failed k e)
    then show ?thesis using that True handle_times_same [of h, OF assms] by (cases k) (simp_all add: api_rpc_def)
  qed
next
  case False
  then show ?thesis using that by (simp add: api_rpc_def)
qed

text \<open>
  The command \<open>joinChannel\<close> never joins a channel, as no flag names one. Redis refuses the command without
  fields, which is reported as a failure; without Redis nothing happens and, when the call gets through,
  success is reported.
\<close>

theorem cli_join_nothing:
  assumes "\<And>key r. redis_HSet sv key [] r = Err e" and "w me = Some nd" and "fl_cmd fl = ''joinChannel''"
  shows "\<exists>log. cli_main conn_err call grpc transport_err propose_err sv me fl (b, w) = Ok (log, b, w) \<and>
    (bt_redis b \<noteq> None \<longrightarrow> (\<exists>msg. log = LogError msg))"
proof (cases "fl_uid fl = []")
  case True
  then show ?thesis using assms(3) by (simp add: cli_main_def Let_def)
next
  case False
  let ?c = "snd (api_Connect conn_err (NewClient (fl_endpoint fl)))"
  let ?h = "grpc_JoinChannel sv me (fl_uid fl) cli_chs"
  define res where "res = (if bt_redis b = None then None else Some e)"
  have h: "?h (b, w) = Ok (res, b, w)"
    using assms(1,2)
    by (auto simp: grpc_JoinChannel_def booter_JoinChannel_def cli_chs_def res_def fun_upd_idem split: option.split)
  have main: "cli_main conn_err call grpc transport_err propose_err sv me fl (b, w) =
      cli_report ''join channel success'' ''join channel failed'' (error_result (api_rpc call ?c ?h (b, w)))"
    using assms(3) False by (simp add: cli_main_def Let_def api_JoinChannel_def)
  show ?thesis
  proof (rule api_rpc_same [of ?h, OF h, of call ?c])
    assume "api_rpc call ?c ?h (b, w) = Ok (Ok res, b, w)"
    then show ?thesis unfolding main by (auto simp: error_result_def cli_report_def res_def)
  next
    fix e' assume "api_rpc call ?c ?h (b, w) = Ok (Err e', b, w)"
    then show ?thesis unfolding main by (auto simp: error_result_def cli_report_def)
  qed
qed

theorem cli_join_nothing_witness:
  "\<exists>log. cli_main None (Answered 0) (\<lambda>_. Answered 0) (\<lambda>_. None) None
       (no_services\<lparr>redis_HSet := \<lambda>key m r. if m = [] then Err (OtherError ''wrong number of arguments'') else Ok r\<rparr>) 2
       \<lparr>fl_endpoint = [], fl_cmd = ''joinChannel'', fl_uid = gs ''u'', fl_network = [], fl_nodeId = 0\<rparr>
       (demo_booter\<lparr>bt_redis := Some ()\<rparr>, demo_ready) =
     Ok (log, demo_booter\<lparr>bt_redis := Some ()\<rparr>, demo_ready) \<and> (\<exists>msg. log = LogError msg)"
proof -
  obtain nd where nd: "demo_ready 2 = Some nd" by (simp add: demo_ready_def demo_world_def)
  let ?sv = "no_services\<lparr>redis_HSet := \<lambda>key m r. if m = [] then Err (OtherError ''wrong number of arguments'') else Ok r\<rparr>"
  let ?fl = "\<lparr>fl_endpoint = [], fl_cmd = ''joinChannel'', fl_uid = gs ''u'', fl_network = [], fl_nodeId = 0\<rparr>"
  have sv: "redis_HSet ?sv key [] r = Err (OtherError ''wrong number of arguments'')" for key r by simp
  have "fl_cmd ?fl = ''joinChannel''" by simp
  from cli_join_nothing [where sv = ?sv and me = 2 and w = demo_ready and fl = ?fl and nd = nd
      and b = "demo_booter\<lparr>bt_redis := Some ()\<rparr>", OF sv nd this]
  show ?thesis by fastforce
qed

end
