(* ===== verification/Tester_Client.thy ===== *)
theory Tester_Client
  imports Client_Timers Programs
begin

text \<open>
  A client of the load generator, src/cmd/tester/main.go: \<open>newClient\<close>, the handler's \<open>OnStatus\<close>, which starts a
  goroutine with the loop \<open>run\<close>, and the loop. The client library calls \<open>OnStatus\<close> in a goroutine for every
  change of the status, so the call may come when the status is another one.
\<close>

section \<open>Operations\<close>

definition tester_newClient ::
  "(gostring \<Rightarrow> bool) \<Rightarrow> backoff \<Rightarrow> int \<Rightarrow> nat \<Rightarrow> nat \<Rightarrow> gostring \<Rightarrow> tester_config \<Rightarrow> (go_error, client) outcome" where
  "tester_newClient resolves exponential now rnd rnd' cid conf =
     obind (randomUserID rnd conf) (\<lambda>uid. obind (randomEndpoint rnd' conf) (\<lambda>endpoint.
       client_New resolves exponential now endpoint
         [client_WithID (Some \<lparr>UserID = uid, ClientID = cid, Password = []\<rparr>),
          client_WithKeepAlive (5 * Second) (60 * Second)]))"

text \<open>One iteration of \<open>run\<close>, and whether the loop goes on; \<open>None\<close> while the send waits. An error is logged.\<close>

definition tester_run :: "nat \<Rightarrow> nat \<Rightarrow> tester_config \<Rightarrow> client \<Rightarrow> (go_error, bool \<times> client) outcome option" where
  "tester_run rnd rnd' conf c =
     (if \<not> IsReady c then Some (Ok (False, c))
      else case randomMessage rnd rnd' conf of
             Ok m \<Rightarrow>
               (case client_SendMessage background m c of
                  None \<Rightarrow> None
                | Some (Ok c') \<Rightarrow> Some (Ok (True, c'))
                | Some (Err e) \<Rightarrow> Some (Ok (True, c))
                | Some Panic \<Rightarrow> Some Panic)
           | _ \<Rightarrow> Some Panic)"

text \<open>\<open>OnStatus\<close> looks at the client and not at its argument.\<close>

definition tester_OnStatus :: "client \<Rightarrow> nat \<Rightarrow> nat" where
  "tester_OnStatus c runs = (if IsReady c then Suc runs else runs)"

definition tester_OnRequest :: "request \<Rightarrow> (go_error, bytes) outcome" where
  "tester_OnRequest req = Err (OtherError ''unsupported request'')"

section \<open>The client with its loops\<close>

text \<open>The calls of \<open>OnStatus\<close> that are due, and the loops that run.\<close>

record tester =
  ts_client :: client
  ts_due :: nat
  ts_runs :: nat

definition tester_upd :: "client \<Rightarrow> tester \<Rightarrow> tester" where
  "tester_upd c s = s\<lparr>ts_client := c, ts_due := ts_due s + (length (c_calls c) - length (c_calls (ts_client s)))\<rparr>"

inductive tester_step :: "tester_config \<Rightarrow> tester \<Rightarrow> tester \<Rightarrow> bool" for conf where
  client_moves: "client_step (ts_client s) c \<Longrightarrow> tester_step conf s (tester_upd c s)"
| status_told: "ts_due s = Suc n \<Longrightarrow>
    tester_step conf s (s\<lparr>ts_due := n, ts_runs := tester_OnStatus (ts_client s) (ts_runs s)\<rparr>)"
| run_sends: "0 < ts_runs s \<Longrightarrow> tester_run rnd rnd' conf (ts_client s) = Some (Ok (True, c)) \<Longrightarrow>
    tester_step conf s (tester_upd c s)"
| run_returns: "ts_runs s = Suc n \<Longrightarrow> tester_run rnd rnd' conf (ts_client s) = Some (Ok (False, c)) \<Longrightarrow>
    tester_step conf s (s\<lparr>ts_runs := n\<rparr>)"

section \<open>How many loops there are\<close>

text \<open>Calls of \<open>OnStatus\<close> are only added.\<close>

abbreviation calls_kept :: "client \<Rightarrow> client \<Rightarrow> bool" where
  "calls_kept c c' \<equiv> length (c_calls c) \<le> length (c_calls c')"

lemma calls_setStatus [simp]: "c_calls (setStatus st c) = c_calls c @ (if c_status c = st then [] else [st])"
  by (simp add: setStatus_def Let_def split: status.split)

lemma calls_tryClose: "calls_kept c (tryClose e c)"
  by (auto simp: tryClose_def Let_def split: option.split prod.split)

lemma calls_same_life: "same_life c c' \<Longrightarrow> c_calls c' = c_calls c"
  by (simp add: same_life_def)

lemma calls_life: "life_or_close c c' \<Longrightarrow> calls_kept c c'"
  using calls_tryClose by (auto simp: life_or_close_def dest!: calls_same_life) metis+

lemma calls_reconnect: "reconnect l c = Ok (err, c1) \<Longrightarrow> calls_kept c c1"
  by (auto dest!: reconnect_shape calls_same_life)

lemma calls_step: "client_step c c' \<Longrightarrow> calls_kept c c'"
proof (induction rule: client_step.induct)
  case (connect l c c')
  show ?case
  proof (cases "c_status c = StatusOpened \<or> c_status c = StatusOpening")
    case True
    then show ?thesis using connect by (auto simp: Connect_def)
  next
    case False
    then obtain err c1 where r: "reconnect l (setStatus StatusOpening c) = Ok (err, c1)"
      using connect by (auto simp: Connect_def outcome_Ok_obind)
    have 1: "calls_kept c c1" using calls_reconnect [OF r] by simp
    show ?thesis
    proof (cases err)
      case None
      then show ?thesis using connect False r 1 by (simp add: Connect_def)
    next
      case (Some e)
      then obtain r' where "c' = tryClose e (c1\<lparr>c_retrying := False, c_retrier := r'\<rparr>)"
        using connect False r by (auto simp: Connect_def split: option.splits)
      then show ?thesis using 1 calls_tryClose [of "c1\<lparr>c_retrying := False, c_retrier := r'\<rparr>" e] by simp
    qed
  qed
next
  case (own c c')
  then show ?case
  proof (induction rule: own_step.induct)
    case (timer l c c')
    have "calls_kept c c1 \<and> calls_kept c (tryClose e (c1\<lparr>c_retrying := b\<rparr>))"
      if "reconnect l (c\<lparr>c_timers := ts\<rparr>) = Ok (err, c1)" for ts err c1 e b
      using calls_reconnect [OF that] calls_tryClose [of "c1\<lparr>c_retrying := b\<rparr>" e] by simp
    then show ?case using timer by (auto simp: fire_def Let_def outcome_Ok_obind split: list.splits if_splits option.splits)
  next
    case (shut c)
    then show ?case by (simp add: client_Close_def)
  qed (blast intro: calls_life life_or_closeI sendPacket_life request_life ping_life work_life handle_life
    recv_err_life client_SendPing_life)+
qed

text \<open>
  A client of the load generator has at most as many sending loops as its status changed, not one: a change
  to \<open>StatusOpening\<close> that is told late starts a loop too, and the loop of an earlier connection goes on when the client
  has connected again before it wakes up.
\<close>

theorem tester_loops_bounded:
  assumes "tester_newClient resolves exponential now rnd rnd' cid conf = Ok c0"
    and "(tester_step conf)\<^sup>*\<^sup>* \<lparr>ts_client = c0, ts_due = 0, ts_runs = 0\<rparr> s"
  shows "ts_runs s + ts_due s \<le> length (c_calls (ts_client s))"
  using assms(2)
proof (induction rule: rtranclp_induct)
  case (step s s')
  from step(2,3) show ?case
  proof (induction rule: tester_step.induct)
    case (client_moves s c)
    then show ?case using calls_step [OF client_moves(1)] by (simp add: tester_upd_def)
  next
    case (run_sends s rnd rnd' c)
    have "calls_kept (ts_client s) c"
      using run_sends(2) by (auto simp: tester_run_def client_SendMessage_def dest!: sendPacket_life calls_same_life
        split: if_splits outcome.splits option.splits)
    then show ?case using run_sends(3) by (simp add: tester_upd_def)
  qed (auto simp: tester_OnStatus_def)
qed simp

definition demo_tester_id :: identity where
  "demo_tester_id = \<lparr>UserID = gs ''u0'', ClientID = gs ''c'', Password = []\<rparr>"

lemma demo_tester_client:
  obtains c0 where "tester_newClient (\<lambda>_. True) LinearD 0 0 0 (gs ''c'') demo_tester = Ok c0"
    and "c_id c0 = Some demo_tester_id" and "c_kind c0 = StreamConn" and "c_status c0 = Status_Unknown" and "c_calls c0 = []"
proof -
  have "go_Split (gs ''://'') (gs ''tcp://h:1'') = [gs ''tcp'', gs ''h:1'']" by code_simp
  moreover have "gs ''tcp'' \<noteq> gs ''ws''" "gs ''tcp'' \<noteq> gs ''wss''" by (simp_all add: gs_def)
  moreover have "randomUserID 0 demo_tester = Ok (gs ''u0'')"
    by (simp add: randomUserID_def IntN_def demo_tester_def itoa.simps gs_def)
  moreover have "randomEndpoint 0 demo_tester = Ok (gs ''tcp://h:1'')" by (simp add: randomEndpoint_def demo_tester_def)
  ultimately show thesis using that
    by (simp add: tester_newClient_def client_New_def client_newOptions_def client_WithID_def client_WithKeepAlive_def
        client_conn_def queue_New_def demo_tester_id_def Let_def)
qed

lemma demo_tester_connects:
  assumes "c_id c0 = Some demo_tester_id" "c_kind c0 = StreamConn" "c_status c0 = Status_Unknown" "c_calls c0 = []"
  obtains c1 where "Connect accepting c0 = Ok c1" "c_calls c1 = [StatusOpening, StatusOpened]" "IsReady c1"
proof -
  have "\<exists>data. packet_Marshal (PConnect (NewConnect (Some demo_tester_id))) = Ok data"
    by (simp add: Marshal_frame NewConnect_def u8map_ok_def demo_tester_id_def gs_def connect_wire_def
      identity_wire_def data_wire_def uvarint_bytes.simps u8map_wire_def MAX_LEN_def)
  then show thesis using assms that
    by (auto simp: Connect_def reconnect_def accepting_def WritePacket_def NewConnack_def IsReady_def)
qed

theorem tester_loops_bounded_witness:
  "\<exists>c0 s. tester_newClient (\<lambda>_. True) LinearD 0 0 0 (gs ''c'') demo_tester = Ok c0 \<and>
     (tester_step demo_tester)\<^sup>*\<^sup>* \<lparr>ts_client = c0, ts_due = 0, ts_runs = 0\<rparr> s \<and>
     c_calls (ts_client s) = [StatusOpening, StatusOpened] \<and> ts_runs s = 2 \<and>
     ts_runs s + ts_due s \<le> length (c_calls (ts_client s))"
proof -
  obtain c0 where c0: "tester_newClient (\<lambda>_. True) LinearD 0 0 0 (gs ''c'') demo_tester = Ok c0"
    "c_id c0 = Some demo_tester_id" "c_kind c0 = StreamConn" "c_status c0 = Status_Unknown" "c_calls c0 = []"
    by (rule demo_tester_client)
  obtain c1 where c1: "Connect accepting c0 = Ok c1" "c_calls c1 = [StatusOpening, StatusOpened]" "IsReady c1"
    by (rule demo_tester_connects [OF c0(2-5)])
  let ?s = "\<lambda>c due runs. \<lparr>ts_client = c, ts_due = due, ts_runs = runs\<rparr>"
  have a: "tester_step demo_tester (?s c0 0 0) (?s c1 2 0)"
    using client_moves [of "?s c0 0 0" c1 demo_tester] connect [OF c1(1)] c0(5) c1(2)
    by (simp add: tester_upd_def numeral_2_eq_2)
  have b: "tester_step demo_tester (?s c1 2 0) (?s c1 1 1)"
    using status_told [of "?s c1 2 0" 1 demo_tester] c1(3) by (simp add: tester_OnStatus_def numeral_2_eq_2)
  have c: "tester_step demo_tester (?s c1 1 1) (?s c1 0 2)"
    using status_told [of "?s c1 1 1" 0 demo_tester] c1(3) by (simp add: tester_OnStatus_def numeral_2_eq_2)
  have run: "(tester_step demo_tester)\<^sup>*\<^sup>* (?s c0 0 0) (?s c1 0 2)"
    using a b c by (blast intro: converse_rtranclp_into_rtranclp rtranclp.rtrancl_refl)
  from tester_loops_bounded [OF c0(1) run] run c0(1) c1(2) show ?thesis by fastforce
qed

end
