(* ===== verification/Printing.thy ===== *)
theory Printing
  imports Framing Strconv
begin

text \<open>
  The \<open>String\<close> methods of the packets, src/packet. They use \<open>fmt.Sprintf\<close>: \<open>%d\<close> prints a number, \<open>%s\<close> a string or
  the text of a code, and \<open>%v\<close> a map with its keys in ascending order.
\<close>

section \<open>Formats\<close>

text \<open>\<open>map[k1:v1 k2:v2]\<close>; the property keys are numbers without a \<open>String\<close> method.\<close>

fun join_with :: "gostring \<Rightarrow> gostring list \<Rightarrow> gostring" where
  "join_with sep [] = []"
| "join_with sep [x] = x"
| "join_with sep (x # y # xs) = x @ sep @ join_with sep (y # xs)"

definition print_props :: "props \<Rightarrow> gostring" where
  "print_props ps =
     gs ''map['' @ join_with (gs '' '') (map (\<lambda>(k, v). itoa (unat k) @ gs '':'' @ v) (sort_key fst ps)) @ gs '']''"

section \<open>Packets\<close>

definition identity_String :: "identity \<Rightarrow> gostring" where
  "identity_String i = gs ''uid='' @ UserID i @ gs '', cid='' @ ClientID i"

text \<open>The method of a nil identity reads its fields.\<close>

definition connect_String :: "connect \<Rightarrow> (go_error, gostring) outcome" where
  "connect_String p =
     (case Identity p of
        None \<Rightarrow> Panic
      | Some i \<Rightarrow> Ok (gs ''CONNECT(Version='' @ itoa (unat (Version p)) @ gs '', '' @ identity_String i @
          gs '', Props='' @ print_props (connect_props p) @ gs '')''))"

definition connack_String :: "connack \<Rightarrow> gostring" where
  "connack_String p =
     gs ''CONNACK(Code='' @ gs (ConnectCode_String (connack_Code p)) @ gs '',Props='' @ print_props (connack_props p) @ gs '')''"

definition message_String :: "message \<Rightarrow> gostring" where
  "message_String p =
     gs ''MESSAGE(Kind='' @ itoa (unat (Kind p)) @ gs '', Props='' @ print_props (message_props p) @
     gs '', Payload='' @ itoa (length (Payload p)) @ gs '')''"

definition request_String :: "request \<Rightarrow> gostring" where
  "request_String p =
     gs ''REQUEST(ID='' @ itoa (unat (request_ID p)) @ gs '', Method='' @ Method p @ gs '', Props='' @
     print_props (request_props p) @ gs '', Content='' @ itoa (length (request_Body p)) @ gs '')''"

definition response_String :: "response \<Rightarrow> gostring" where
  "response_String p =
     gs ''RESPONSE(ID='' @ itoa (unat (response_id p)) @ gs '', Code='' @ itoa (unat (response_Code p)) @
     gs '', Props='' @ print_props (response_props p) @ gs '', Content='' @ itoa (length (response_Body p)) @ gs '')''"

definition ping_String :: "props \<Rightarrow> gostring" where
  "ping_String ps = gs ''PING('' @ print_props ps @ gs '')''"

definition pong_String :: "props \<Rightarrow> gostring" where
  "pong_String ps = gs ''PONG(Props='' @ print_props ps @ gs '')''"

definition close_String :: "close \<Rightarrow> gostring" where
  "close_String p =
     gs ''CLOSE(Code='' @ gs (CloseCode_String (close_Code p)) @ gs '', Props='' @ print_props (close_props p) @ gs '')''"

text \<open>As errors the codes have the same texts.\<close>

definition ConnectCode_Error :: "byte \<Rightarrow> string" where
  "ConnectCode_Error c = ConnectCode_String c"

definition StatusCode_Error :: "byte \<Rightarrow> string" where
  "StatusCode_Error c = StatusCode_String c"

definition CloseCode_Error :: "byte \<Rightarrow> string" where
  "CloseCode_Error c = CloseCode_String c"

fun packet_String :: "packet \<Rightarrow> (go_error, gostring) outcome" where
  "packet_String (PConnect p) = connect_String p"
| "packet_String (PConnack p) = Ok (connack_String p)"
| "packet_String (PMessage p) = Ok (message_String p)"
| "packet_String (PRequest p) = Ok (request_String p)"
| "packet_String (PResponse p) = Ok (response_String p)"
| "packet_String (PPing ps) = Ok (ping_String ps)"
| "packet_String (PPong ps) = Ok (pong_String ps)"
| "packet_String (PClose p) = Ok (close_String p)"

lemmas packet_Strings = connect_String_def connack_String_def message_String_def request_String_def
  response_String_def ping_String_def pong_String_def close_String_def

section \<open>Equal packets are printed alike\<close>

text \<open>The order in which a map is visited does not show.\<close>

lemma print_props_order:
  assumes "go_map ps" and "go_map qs" and "maps_equal ps qs"
  shows "print_props ps = print_props qs"
proof -
  have d: "distinct (map fst ps)" "distinct (map fst qs)" using assms(1,2) by (simp_all add: go_map_def)
  have "map_of ps = map_of qs" using assms by (simp add: maps_equal_iff)
  then have "set ps = set qs" using d by (metis map_of_inject_set)
  then have "mset ps = mset qs" using d by (metis distinct_map set_eq_iff_mset_eq_distinct)
  moreover have "inj_on fst (set ps)" using d(1) by (simp add: distinct_map)
  ultimately have "sort_key fst ps = sort_key fst qs"
    by (intro sort_key_inj_key_eq) (simp_all add: sorted_sort_key)
  then show ?thesis by (simp add: print_props_def)
qed

text \<open>
  Packets that \<open>Equal\<close> takes for equal are printed alike, in whatever order their property maps are visited; and
  every well-formed packet can be printed.
\<close>

theorem equal_packets_print_alike:
  assumes "packet_ok p" and "packet_ok q" and "packet_Equal p (Some q) = Ok True"
  shows "packet_String p = packet_String q \<and> packet_String p \<noteq> Panic"
proof -
  have "go_map (packet_props p)" "go_map (packet_props q)"
    using assms(1,2) by (cases p; cases q; simp add: u8map_ok_def)+
  moreover have "maps_equal (packet_props p) (packet_props q)"
    using assms(3) by (cases p; cases q) (auto simp: packet_Equals split: if_splits)
  ultimately have "print_props (packet_props p) = print_props (packet_props q)" by (rule print_props_order)
  then show ?thesis
    using assms
    by (cases p; cases q)
      (auto simp: packet_Equals packet_Strings identity_Equal_def identity_String_def split: if_splits option.splits)
qed

theorem equal_packets_print_alike_witness:
  "packet_String (PPing [(2, gs ''b''), (1, gs ''a'')]) = packet_String (PPing [(1, gs ''a''), (2, gs ''b'')]) \<and>
   packet_String (PPing [(1, gs ''a''), (2, gs ''b'')]) = Ok (gs ''PING(map[1:a 2:b])'')"
proof
  have "packet_ok (PPing [(2, gs ''b''), (1, gs ''a'')])" "packet_ok (PPing [(1, gs ''a''), (2, gs ''b'')])"
    by (simp_all add: u8map_ok_def go_map_def)
  moreover have "packet_Equal (PPing [(2, gs ''b''), (1, gs ''a'')]) (Some (PPing [(1, gs ''a''), (2, gs ''b'')])) = Ok True"
    by (simp add: packet_Equals maps_equal_def)
  ultimately show "packet_String (PPing [(2, gs ''b''), (1, gs ''a'')]) = packet_String (PPing [(1, gs ''a''), (2, gs ''b'')])"
    using equal_packets_print_alike by blast
  show "packet_String (PPing [(1, gs ''a''), (2, gs ''b'')]) = Ok (gs ''PING(map[1:a 2:b])'')"
    by (simp add: ping_String_def print_props_def itoa.simps gs_def)
qed

text \<open>The text of a CONNECT packet does not depend on the password; one without an identity cannot be printed.\<close>

lemma password_not_printed:
  "connect_String (p\<lparr>Identity := map_option (\<lambda>i. i\<lparr>Password := w\<rparr>) (Identity p)\<rparr>) = connect_String p"
  by (auto simp: connect_String_def identity_String_def split: option.split)

lemma connect_String_nil: "connect_String (NewConnect None) = Panic"
  by (simp add: connect_String_def NewConnect_def)

end
