(* ===== verification/Pool.thy ===== *)
theory Pool
  imports Coder
begin

text \<open>
  The generic pool of src/internal/pool/poll.go, a typed wrapper of \<open>sync.Pool\<close>, and the results of
  src/internal/result/result.go. The pool of encoders (src/coder/poll.go, theory \<open>Coder\<close>) is an instance of
  the generic one.

  \<open>Get\<close> may return any pooled object or a new one, and the runtime may drop pooled objects at any time.
\<close>

section \<open>Pools\<close>

record 'a Pool =
  pool_New :: 'a
  pool_items :: "'a list"

definition Pool_New :: "'a \<Rightarrow> 'a Pool" where
  "Pool_New x = \<lparr>pool_New = x, pool_items = []\<rparr>"

definition Pool_Get :: "nat option \<Rightarrow> 'a Pool \<Rightarrow> 'a \<times> 'a Pool" where
  "Pool_Get pick p =
     (case pick of
        Some i \<Rightarrow> if i < length (pool_items p)
                 then (pool_items p ! i, p\<lparr>pool_items := take i (pool_items p) @ drop (Suc i) (pool_items p)\<rparr>)
                 else (pool_New p, p)
      | None \<Rightarrow> (pool_New p, p))"

definition Pool_Put :: "'a \<Rightarrow> 'a Pool \<Rightarrow> 'a Pool" where
  "Pool_Put x p = p\<lparr>pool_items := x # pool_items p\<rparr>"

text \<open>A run of a pool: what was taken, in order, with the objects that its users put back.\<close>

inductive pool_run :: "'a Pool \<Rightarrow> 'a list \<Rightarrow> 'a list \<Rightarrow> 'a Pool \<Rightarrow> bool" for p where
  pool_start: "pool_run p [] [] p"
| pool_gets: "pool_run p got put q \<Longrightarrow> Pool_Get pick q = (x, q') \<Longrightarrow> pool_run p (got @ [x]) put q'"
| pool_puts: "pool_run p got put q \<Longrightarrow> pool_run p got (put @ [x]) (Pool_Put x q)"
| pool_drops: "pool_run p got put q \<Longrightarrow> set items \<subseteq> set (pool_items q) \<Longrightarrow>
    pool_run p got put (q\<lparr>pool_items := items\<rparr>)"

text \<open>What a pool promises to its users: they get what is clean as long as they put back what is clean.\<close>

locale clean_pool =
  fixes clean :: "'a \<Rightarrow> bool" and fresh :: 'a
  assumes clean_fresh: "clean fresh"
begin

lemma run_clean:
  assumes "pool_run (Pool_New fresh) got put q" and "\<forall>x \<in> set put. clean x"
  shows "(\<forall>x \<in> set got. clean x) \<and> (\<forall>x \<in> set (pool_items q). clean x) \<and> pool_New q = fresh"
  using assms
proof (induction rule: pool_run.induct)
  case (pool_gets got put q pick x q')
  then show ?case
    using clean_fresh by (fastforce simp: Pool_Get_def split: option.splits if_splits dest: in_set_takeD in_set_dropD)
qed (auto simp: Pool_New_def Pool_Put_def)

end

interpretation encoders: clean_pool "\<lambda>e. ebuf e = []" new_encoder
  by unfold_locales (simp add: new_encoder_def)

text \<open>The pool of encoders is the generic pool whose new objects are empty encoders.\<close>

lemma encoder_pool_generic:
  "pool_get pick ps = (let (e, p) = Pool_Get pick \<lparr>pool_New = new_encoder, pool_items = ps\<rparr> in (e, pool_items p))"
  "pool_put e ps = pool_items (Pool_Put e \<lparr>pool_New = new_encoder, pool_items = ps\<rparr>)"
  by (simp_all add: pool_get_def pool_put_def Pool_Get_def Pool_Put_def split: option.split)

text \<open>
  Whatever the runtime does with the pool of encoders, one that is taken from it is empty, because \<open>free\<close> empties
  an encoder before it goes back.
\<close>

theorem pooled_encoders_empty:
  assumes "pool_run (Pool_New new_encoder) got put q" and "put = map (\<lambda>e. hd (free e [])) used"
  shows "\<forall>e \<in> set got. ebuf e = []"
  using encoders.run_clean [OF assms(1)] assms(2) by (auto simp: free_def pool_put_def)

theorem pooled_encoders_empty_witness:
  "pool_run (Pool_New new_encoder) [new_encoder] [\<lparr>ebuf = []\<rparr>] \<lparr>pool_New = new_encoder, pool_items = []\<rparr> \<and>
   (\<forall>e \<in> set [new_encoder]. ebuf e = [])"
proof -
  let ?p = "Pool_New new_encoder"
  have "pool_run ?p [] ([] @ [\<lparr>ebuf = []\<rparr>]) (Pool_Put \<lparr>ebuf = []\<rparr> ?p)" by (intro pool_puts pool_start)
  then have "pool_run ?p ([] @ [new_encoder]) [\<lparr>ebuf = []\<rparr>] \<lparr>pool_New = new_encoder, pool_items = []\<rparr>"
    by (intro pool_gets [of _ _ _ "Pool_Put \<lparr>ebuf = []\<rparr> ?p" "Some 0"])
      (simp_all add: Pool_Get_def Pool_Put_def Pool_New_def new_encoder_def)
  then have run: "pool_run ?p [new_encoder] [\<lparr>ebuf = []\<rparr>] \<lparr>pool_New = new_encoder, pool_items = []\<rparr>" by simp
  have "[\<lparr>ebuf = []\<rparr>] = map (\<lambda>e. hd (free e [])) [\<lparr>ebuf = [1]\<rparr>]" by (simp add: free_def pool_put_def)
  from pooled_encoders_empty [OF run this] run show ?thesis by simp
qed

section \<open>Results\<close>

text \<open>The error of a result of \<open>OK\<close> is nil; \<open>Err\<close> leaves the value zero. The error given to \<open>Err\<close> may itself be nil.\<close>

record ('e, 'v) Result =
  result_err :: "'e option"
  result_value :: 'v

definition result_OK :: "'v \<Rightarrow> ('e, 'v) Result" where
  "result_OK v = \<lparr>result_err = None, result_value = v\<rparr>"

definition result_Err :: "'v \<Rightarrow> 'e option \<Rightarrow> ('e, 'v) Result" where
  "result_Err zero e = \<lparr>result_err = e, result_value = zero\<rparr>"

definition IsOk :: "('e, 'v) Result \<Rightarrow> bool" where
  "IsOk r \<longleftrightarrow> result_err r = None"

definition IsErr :: "('e, 'v) Result \<Rightarrow> bool" where
  "IsErr r \<longleftrightarrow> result_err r \<noteq> None"

lemma result_cases: "IsOk r \<longleftrightarrow> \<not> IsErr r" "IsOk (result_OK v)" "IsErr (result_Err zero e) \<longleftrightarrow> e \<noteq> None"
  by (simp_all add: IsOk_def IsErr_def result_OK_def result_Err_def)

end
