(* ===== verification/Discovery_Loops.thy ===== *)
theory Discovery_Loops
  imports Etcd
begin

text \<open>
  The goroutines of the multicast discovery, src/discovery/discovery.go: \<open>Start\<close> starts the loops \<open>listen\<close> and
  \<open>watch\<close> and the one that sends heartbeats, \<open>Shutdown\<close> closes the sockets and the channel. What the loops make of
  a datagram is in theory \<open>Discovery\<close>; here they are interleaved with each other and with \<open>Shutdown\<close>. At the
  end, the loop that renews the lease of a node in etcd.

  A nil socket is \<open>None\<close>, an open one \<open>Some True\<close>. Reading a datagram and handling it are two steps, so that
  \<open>Shutdown\<close> can come between them. A method call on a nil socket panics, as does closing a closed channel.
\<close>

section \<open>State\<close>

datatype disc_loop = NotStarted | Spawned | Reading | Handling bytes | Returned

record disc_run =
  dr_disc :: discovery
  dr_conn :: "bool option"
  dr_listener :: "bool option"
  dr_stopped :: bool
  dr_listen :: disc_loop
  dr_watch :: disc_loop
  dr_ticking :: bool
  dr_calls :: "disc_call list"
  dr_out :: "bytes list"
  dr_handled :: nat

text \<open>\<open>getLocalIP\<close> of discovery.go with its errors: nothing when the interfaces cannot be read.\<close>

definition muticast_getLocalIP :: "iface list option \<Rightarrow> (go_error, gostring) outcome" where
  "muticast_getLocalIP ifaces =
     (case ifaces of
        None \<Rightarrow> Err (OtherError ''interfaces'')
      | Some fs \<Rightarrow> (case getLocalIP fs of None \<Rightarrow> Err (OtherError ''no network interface found'') | Some ip \<Rightarrow> Ok ip))"

definition disc_run_New :: "u64 \<Rightarrow> u16 \<Rightarrow> iface list option \<Rightarrow> (go_error, disc_run) outcome" where
  "disc_run_New i port ifaces =
     (case muticast_getLocalIP ifaces of
        Ok ip \<Rightarrow> Ok \<lparr>dr_disc = NewMuticast i (ip @ gs '':'' @ itoa (unat port)), dr_conn = None, dr_listener = None,
                    dr_stopped = False, dr_listen = NotStarted, dr_watch = NotStarted, dr_ticking = False,
                    dr_calls = [], dr_out = [], dr_handled = 0\<rparr>
      | _ \<Rightarrow> Panic)"

section \<open>Operations\<close>

definition disc_run_Start :: "disc_run \<Rightarrow> disc_run" where
  "disc_run_Start s = s\<lparr>dr_listen := Spawned, dr_watch := Spawned, dr_ticking := True\<rparr>"

text \<open>\<open>listen\<close>: the socket, a datagram with the reply, and the end after an error of the read.\<close>

definition listen_open :: "bool \<Rightarrow> disc_run \<Rightarrow> disc_run" where
  "listen_open ok s = (if ok then s\<lparr>dr_listener := Some True, dr_listen := Reading\<rparr> else s\<lparr>dr_listen := Returned\<rparr>)"

definition listen_handle :: "int \<Rightarrow> bytes \<Rightarrow> disc_run \<Rightarrow> (go_error, disc_run) outcome" where
  "listen_handle now data s =
     obind (disc_listen now data (dr_disc s)) (\<lambda>(calls, reply, d).
       Ok (s\<lparr>dr_disc := d, dr_calls := dr_calls s @ calls,
             dr_out := dr_out s @ (case reply of Some r \<Rightarrow> if dr_listener s = Some True then [r] else [] | None \<Rightarrow> []),
             dr_listen := Reading, dr_handled := Suc (dr_handled s)\<rparr>))"

definition listen_return :: "disc_run \<Rightarrow> disc_run" where
  "listen_return s = s\<lparr>dr_listener := Some False, dr_listen := Returned\<rparr>"

definition watch_open :: "bool \<Rightarrow> disc_run \<Rightarrow> disc_run" where
  "watch_open ok s = (if ok then s\<lparr>dr_conn := Some True, dr_watch := Reading\<rparr> else s\<lparr>dr_watch := Returned\<rparr>)"

definition watch_handle :: "int \<Rightarrow> bytes \<Rightarrow> disc_run \<Rightarrow> (go_error, disc_run) outcome" where
  "watch_handle now data s =
     obind (disc_watch now data (dr_disc s)) (\<lambda>(calls, d).
       Ok (s\<lparr>dr_disc := d, dr_calls := dr_calls s @ calls, dr_watch := Reading, dr_handled := Suc (dr_handled s)\<rparr>))"

definition watch_return :: "disc_run \<Rightarrow> disc_run" where
  "watch_return s = s\<lparr>dr_conn := Some False, dr_watch := Returned\<rparr>"

text \<open>A tick: an error of the heartbeat is logged.\<close>

definition disc_tick :: "disc_run \<Rightarrow> (go_error, disc_run) outcome" where
  "disc_tick s =
     (case heartbeat (dr_disc s) of
        Panic \<Rightarrow> Panic
      | Err e \<Rightarrow> Ok s
      | Ok data \<Rightarrow>
          (case dr_conn s of
             None \<Rightarrow> Panic
           | Some alive \<Rightarrow> Ok (if alive then s\<lparr>dr_out := dr_out s @ [data]\<rparr> else s)))"

text \<open>\<open>Shutdown\<close> returns the error of the second close; closing a socket that is closed is an error.\<close>

definition disc_Shutdown :: "disc_run \<Rightarrow> (go_error, go_error option \<times> disc_run) outcome" where
  "disc_Shutdown s =
     (if dr_conn s = None \<or> dr_listener s = None \<or> dr_stopped s then Panic
      else Ok (if dr_listener s = Some True then None else Some (OtherError ''use of closed network connection''),
               s\<lparr>dr_conn := Some False, dr_listener := Some False, dr_stopped := True\<rparr>))"

lemmas disc_run_ops = disc_run_Start_def listen_open_def listen_handle_def listen_return_def watch_open_def
  watch_handle_def watch_return_def disc_tick_def disc_Shutdown_def

text \<open>
  The steps. A read succeeds only on an open socket and may fail at any time; \<open>Start\<close> is called once. When the
  channel is closed and the ticker fires, \<open>select\<close> takes either.
\<close>

inductive disc_run_step :: "disc_run \<Rightarrow> disc_run \<Rightarrow> bool" where
  start: "dr_listen s = NotStarted \<Longrightarrow> dr_watch s = NotStarted \<Longrightarrow> disc_run_step s (disc_run_Start s)"
| listen_opens: "dr_listen s = Spawned \<Longrightarrow> disc_run_step s (listen_open ok s)"
| listen_reads: "dr_listen s = Reading \<Longrightarrow> dr_listener s = Some True \<Longrightarrow>
    disc_run_step s (s\<lparr>dr_listen := Handling data\<rparr>)"
| listen_handles: "dr_listen s = Handling data \<Longrightarrow> listen_handle now data s = Ok s' \<Longrightarrow> disc_run_step s s'"
| listen_returns: "dr_listen s = Reading \<Longrightarrow> disc_run_step s (listen_return s)"
| watch_opens: "dr_watch s = Spawned \<Longrightarrow> disc_run_step s (watch_open ok s)"
| watch_reads: "dr_watch s = Reading \<Longrightarrow> dr_conn s = Some True \<Longrightarrow> disc_run_step s (s\<lparr>dr_watch := Handling data\<rparr>)"
| watch_handles: "dr_watch s = Handling data \<Longrightarrow> watch_handle now data s = Ok s' \<Longrightarrow> disc_run_step s s'"
| watch_returns: "dr_watch s = Reading \<Longrightarrow> disc_run_step s (watch_return s)"
| ticks: "dr_ticking s \<Longrightarrow> disc_tick s = Ok s' \<Longrightarrow> disc_run_step s s'"
| stops: "dr_ticking s \<Longrightarrow> dr_stopped s \<Longrightarrow> disc_run_step s (s\<lparr>dr_ticking := False\<rparr>)"
| shuts: "disc_Shutdown s = Ok (err, s') \<Longrightarrow> disc_run_step s s'"

section \<open>Invariant\<close>

text \<open>A loop that has its socket has set it; one that has not run yet has not.\<close>

fun before_open :: "disc_loop \<Rightarrow> bool" where
  "before_open NotStarted = True"
| "before_open Spawned = True"
| "before_open _ = False"

fun in_loop :: "disc_loop \<Rightarrow> bool" where
  "in_loop Reading = True"
| "in_loop (Handling data) = True"
| "in_loop _ = False"

definition sock_inv :: "disc_loop \<Rightarrow> bool option \<Rightarrow> bool" where
  "sock_inv l sock \<longleftrightarrow> (before_open l \<longrightarrow> sock = None) \<and> (in_loop l \<longrightarrow> sock \<noteq> None)"

definition disc_run_inv :: "disc_run \<Rightarrow> bool" where
  "disc_run_inv s \<longleftrightarrow> sock_inv (dr_listen s) (dr_listener s) \<and> sock_inv (dr_watch s) (dr_conn s)"

lemma sock_inv_simps [simp]:
  "sock_inv NotStarted sock \<longleftrightarrow> sock = None" "sock_inv Spawned sock \<longleftrightarrow> sock = None"
  "sock_inv Reading sock \<longleftrightarrow> sock \<noteq> None" "sock_inv (Handling data) sock \<longleftrightarrow> sock \<noteq> None" "sock_inv Returned sock"
  by (simp_all add: sock_inv_def)

lemma sock_inv_Some: "sock_inv l (Some b) \<longleftrightarrow> \<not> before_open l"
  by (cases l) simp_all

lemma disc_run_New_inv: "disc_run_New i port ifaces = Ok s \<Longrightarrow> disc_run_inv s"
  by (auto simp: disc_run_New_def disc_run_inv_def split: outcome.splits)

lemma disc_run_step_inv:
  assumes "disc_run_step s s'" and "disc_run_inv s"
  shows "disc_run_inv s'"
  using assms
proof (induction rule: disc_run_step.induct)
  case (shuts s err s')
  then show ?case by (auto simp: disc_Shutdown_def disc_run_inv_def sock_inv_Some split: if_splits)
next
  case (ticks s s')
  then show ?case by (auto simp: disc_tick_def disc_run_inv_def split: outcome.splits option.splits)
qed (auto simp: disc_run_ops disc_run_inv_def outcome_Ok_obind)

lemma disc_run_reachable_inv:
  assumes "disc_run_New i port ifaces = Ok s0" and "disc_run_step\<^sup>*\<^sup>* s0 s"
  shows "disc_run_inv s"
  using assms(2) by (induction rule: rtranclp_induct) (auto intro: disc_run_New_inv [OF assms(1)] disc_run_step_inv)

section \<open>After \<open>Shutdown\<close>\<close>

text \<open>What is left to do: a loop that holds a datagram handles it, reads from the closed socket and returns.\<close>

fun loop_work :: "disc_loop \<Rightarrow> nat" where
  "loop_work (Handling data) = 2"
| "loop_work Reading = 1"
| "loop_work _ = 0"

fun loop_pending :: "disc_loop \<Rightarrow> nat" where
  "loop_pending (Handling data) = 1"
| "loop_pending _ = 0"

definition disc_work :: "disc_run \<Rightarrow> nat" where
  "disc_work s = loop_work (dr_listen s) + loop_work (dr_watch s) + (if dr_ticking s then 1 else 0)"

definition disc_quiet :: "disc_run \<Rightarrow> bool" where
  "disc_quiet s \<longleftrightarrow> dr_conn s = Some False \<and> dr_listener s = Some False \<and> dr_stopped s \<and>
     \<not> before_open (dr_listen s) \<and> \<not> before_open (dr_watch s)"

lemma Shutdown_quiet:
  assumes "disc_run_inv s" and "disc_Shutdown s = Ok (err, s')"
  shows "disc_quiet s' \<and> dr_out s' = dr_out s \<and> dr_handled s' = dr_handled s"
  using assms by (auto simp: disc_Shutdown_def disc_quiet_def disc_run_inv_def sock_inv_Some split: if_splits)

text \<open>
  A step in such a state sends nothing, and does some of the work that is left or is a heartbeat that fails.
\<close>

definition quiet_step :: "disc_run \<Rightarrow> disc_run \<Rightarrow> bool" where
  "quiet_step s s' \<longleftrightarrow> disc_quiet s' \<and> dr_out s' = dr_out s \<and> (s' = s \<or> disc_work s' < disc_work s) \<and>
     dr_handled s' + loop_pending (dr_listen s') + loop_pending (dr_watch s') =
       dr_handled s + loop_pending (dr_listen s) + loop_pending (dr_watch s)"

lemma disc_quiet_step:
  assumes "disc_run_step s s'" and "disc_quiet s"
  shows "quiet_step s s'"
  using assms
proof (induction rule: disc_run_step.induct)
  case (shuts s err s')
  then show ?case by (simp add: disc_Shutdown_def disc_quiet_def)
next
  case (ticks s s')
  then show ?case by (auto simp: disc_tick_def disc_quiet_def quiet_step_def split: outcome.splits)
qed (auto simp: disc_run_ops disc_quiet_def quiet_step_def disc_work_def outcome_Ok_obind split: option.splits)

lemma disc_quiet_steps:
  assumes "disc_run_step\<^sup>*\<^sup>* s s'" and "disc_quiet s"
  shows "disc_quiet s' \<and> dr_out s' = dr_out s \<and> disc_work s' \<le> disc_work s \<and>
     dr_handled s' + loop_pending (dr_listen s') + loop_pending (dr_watch s') =
       dr_handled s + loop_pending (dr_listen s) + loop_pending (dr_watch s)"
  using assms
proof (induction rule: rtranclp_induct)
  case (step y z)
  then show ?case using disc_quiet_step [OF step(2)] by (auto simp: quiet_step_def)
qed simp

lemma loop_pending_le: "loop_pending l \<le> 1"
  by (cases l) simp_all

text \<open>
  Once \<open>Shutdown\<close> has returned no datagram is sent any more, and each of the two reading loops handles at most the
  one datagram that it had read before.
\<close>

theorem discovery_shutdown_silent:
  assumes "disc_run_New i port ifaces = Ok s0" and "disc_run_step\<^sup>*\<^sup>* s0 s"
    and "disc_Shutdown s = Ok (err, s1)" and "disc_run_step\<^sup>*\<^sup>* s1 s2"
  shows "dr_out s2 = dr_out s \<and> dr_handled s2 \<le> dr_handled s + 2 \<and> dr_conn s2 = Some False \<and> dr_listener s2 = Some False"
proof -
  have q: "disc_quiet s1 \<and> dr_out s1 = dr_out s \<and> dr_handled s1 = dr_handled s"
    by (rule Shutdown_quiet [OF disc_run_reachable_inv [OF assms(1,2)] assms(3)])
  then have "disc_quiet s2" "dr_out s2 = dr_out s1" and h: "dr_handled s2 + loop_pending (dr_listen s2) +
      loop_pending (dr_watch s2) = dr_handled s1 + loop_pending (dr_listen s1) + loop_pending (dr_watch s1)"
    using disc_quiet_steps [OF assms(4)] by blast+
  moreover have "dr_handled s2 \<le> dr_handled s1 + 2"
    using h loop_pending_le [of "dr_listen s1"] loop_pending_le [of "dr_watch s1"] by linarith
  ultimately show ?thesis using q by (simp add: disc_quiet_def)
qed

text \<open>A datagram that makes the decoder panic ends the whole program.\<close>

definition disc_crashes :: "disc_run \<Rightarrow> bool" where
  "disc_crashes s \<longleftrightarrow> (\<exists>now data. dr_listen s = Handling data \<and> listen_handle now data s = Panic) \<or>
     (\<exists>now data. dr_watch s = Handling data \<and> watch_handle now data s = Panic)"

lemma disc_no_Err: "disc_listen now data d \<noteq> Err e" "disc_watch now data d \<noteq> Err e"
  by (auto simp: disc_listen_def disc_watch_def split: outcome.splits packet.splits prod.splits if_splits)

lemma listen_progress:
  assumes "0 < loop_work (dr_listen s)" and "disc_quiet s" and "\<not> disc_crashes s"
  shows "\<exists>s'. disc_run_step s s' \<and> disc_work s' < disc_work s"
proof (cases "dr_listen s")
  case Reading
  then have "disc_work (listen_return s) < disc_work s" by (simp add: disc_work_def listen_return_def)
  with listen_returns [OF Reading] show ?thesis by blast
next
  case (Handling data)
  then have "listen_handle 0 data s \<noteq> Panic" using assms(3) by (auto simp: disc_crashes_def)
  then obtain s' where s': "listen_handle 0 data s = Ok s'"
    using disc_no_Err(1) [of 0 data "dr_disc s"] by (cases "disc_listen 0 data (dr_disc s)") (auto simp: listen_handle_def)
  then have "disc_work s' < disc_work s"
    using Handling by (auto simp: listen_handle_def disc_work_def outcome_Ok_obind)
  with listen_handles [OF Handling s'] show ?thesis by blast
qed (use assms(1) in simp_all)

lemma watch_progress:
  assumes "0 < loop_work (dr_watch s)" and "disc_quiet s" and "\<not> disc_crashes s"
  shows "\<exists>s'. disc_run_step s s' \<and> disc_work s' < disc_work s"
proof (cases "dr_watch s")
  case Reading
  then have "disc_work (watch_return s) < disc_work s" by (simp add: disc_work_def watch_return_def)
  with watch_returns [OF Reading] show ?thesis by blast
next
  case (Handling data)
  then have "watch_handle 0 data s \<noteq> Panic" using assms(3) by (auto simp: disc_crashes_def)
  then obtain s' where s': "watch_handle 0 data s = Ok s'"
    using disc_no_Err(2) [of 0 data "dr_disc s"] by (cases "disc_watch 0 data (dr_disc s)") (auto simp: watch_handle_def)
  then have "disc_work s' < disc_work s"
    using Handling by (auto simp: watch_handle_def disc_work_def outcome_Ok_obind)
  with watch_handles [OF Handling s'] show ?thesis by blast
qed (use assms(1) in simp_all)

lemma disc_work_zero:
  "disc_quiet s \<Longrightarrow> disc_work s = 0 \<longleftrightarrow> dr_listen s = Returned \<and> dr_watch s = Returned \<and> \<not> dr_ticking s"
  by (cases "dr_listen s"; cases "dr_watch s") (simp_all add: disc_quiet_def disc_work_def)

lemma disc_progress:
  assumes "disc_quiet s" and "\<not> disc_crashes s" and "0 < disc_work s"
  shows "\<exists>s'. disc_run_step s s' \<and> disc_work s' < disc_work s"
proof (cases "dr_ticking s")
  case True
  then have "disc_run_step s (s\<lparr>dr_ticking := False\<rparr>)" using assms(1) by (simp add: stops disc_quiet_def)
  then show ?thesis using True by (intro exI [of _ "s\<lparr>dr_ticking := False\<rparr>"]) (simp add: disc_work_def)
next
  case False
  then have "0 < loop_work (dr_listen s) \<or> 0 < loop_work (dr_watch s)" using assms(3) by (auto simp: disc_work_def)
  then show ?thesis using listen_progress watch_progress assms(1,2) by blast
qed

text \<open>
  C35. After \<open>Shutdown\<close> at most five steps of the loops change anything: each step does nothing or some of what is left,
  and as long as a loop runs there is such a step, unless a datagram read before makes the decoder panic.
\<close>

theorem discovery_loops_end:
  assumes "disc_run_New i port ifaces = Ok s0" and "disc_run_step\<^sup>*\<^sup>* s0 s"
    and "disc_Shutdown s = Ok (err, s1)" and "disc_run_step\<^sup>*\<^sup>* s1 s2"
  shows "disc_work s2 \<le> 5 \<and> (\<forall>s3. disc_run_step s2 s3 \<longrightarrow> s3 = s2 \<or> disc_work s3 < disc_work s2) \<and>
     (disc_crashes s2 \<or> dr_listen s2 = Returned \<and> dr_watch s2 = Returned \<and> \<not> dr_ticking s2 \<or>
       (\<exists>s3. disc_run_step s2 s3 \<and> disc_work s3 < disc_work s2))"
proof -
  have "disc_quiet s1" using Shutdown_quiet [OF disc_run_reachable_inv [OF assms(1,2)] assms(3)] by blast
  then have q: "disc_quiet s2" using disc_quiet_steps [OF assms(4)] by blast
  have "loop_work l \<le> 2" for l by (cases l) simp_all
  then have "disc_work s2 \<le> 5"
    using add_mono [of "loop_work (dr_listen s2)" 2 "loop_work (dr_watch s2)" 2] by (simp add: disc_work_def)
  moreover have "\<forall>s3. disc_run_step s2 s3 \<longrightarrow> s3 = s2 \<or> disc_work s3 < disc_work s2"
    using disc_quiet_step q unfolding quiet_step_def by blast
  ultimately show ?thesis using disc_progress [OF q] disc_work_zero [OF q] by blast
qed

section \<open>Sockets that are not there\<close>

text \<open>
  When the socket of \<open>watch\<close> cannot be opened the error is only logged: the next tick panics, and so does
  \<open>Shutdown\<close>.
\<close>

lemma missing_socket_panics:
  assumes "disc_run_New i port ifaces = Ok s0" and "heartbeat (dr_disc s0) = Ok data"
  defines "s \<equiv> watch_open False (disc_run_Start s0)"
  shows "disc_run_step\<^sup>*\<^sup>* s0 s \<and> dr_ticking s \<and> disc_tick s = Panic \<and> disc_Shutdown s = Panic"
proof -
  have n: "dr_listen s0 = NotStarted" "dr_watch s0 = NotStarted" "dr_conn s0 = None"
    using assms(1) by (auto simp: disc_run_New_def split: outcome.splits)
  then have "disc_run_step s0 (disc_run_Start s0)" by (simp add: start)
  moreover have "disc_run_step (disc_run_Start s0) s"
    unfolding s_def by (rule watch_opens) (simp add: disc_run_Start_def)
  ultimately have "disc_run_step\<^sup>*\<^sup>* s0 s" by (meson converse_rtranclp_into_rtranclp rtranclp.rtrancl_refl)
  then show ?thesis using n assms(2) by (simp add: s_def disc_run_ops)
qed

text \<open>A second \<open>Shutdown\<close> closes a closed channel.\<close>

lemma second_Shutdown_panics: "disc_Shutdown s = Ok (err, s') \<Longrightarrow> disc_Shutdown s' = Panic"
  by (auto simp: disc_Shutdown_def split: if_splits)

section \<open>A run\<close>

definition demo_ifaces :: "iface list" where
  "demo_ifaces = [\<lparr>if_up = True, if_loopback = True, if_addrs = Some [Some (gs ''127.0.0.1'')]\<rparr>,
     \<lparr>if_up = True, if_loopback = False, if_addrs = Some [None, Some (gs ''10.0.0.1'')]\<rparr>]"

definition demo_reading :: disc_run where
  "demo_reading = \<lparr>dr_disc = NewMuticast 1 (gs ''10.0.0.1:4567''), dr_conn = Some True, dr_listener = Some True,
     dr_stopped = False, dr_listen = Handling [], dr_watch = Reading, dr_ticking = True,
     dr_calls = [], dr_out = [], dr_handled = 0\<rparr>"

lemma demo_reading_reached: "\<exists>s0. disc_run_New 1 4567 (Some demo_ifaces) = Ok s0 \<and> disc_run_step\<^sup>*\<^sup>* s0 demo_reading"
proof (intro exI conjI)
  let ?s0 = "demo_reading\<lparr>dr_conn := None, dr_listener := None, dr_listen := NotStarted, dr_watch := NotStarted,
    dr_ticking := False\<rparr>"
  show "disc_run_New 1 4567 (Some demo_ifaces) = Ok ?s0"
    by (simp add: disc_run_New_def muticast_getLocalIP_def demo_ifaces_def demo_reading_def itoa.simps gs_def)
  let ?s1 = "disc_run_Start ?s0"
  let ?s2 = "listen_open True ?s1"
  let ?s3 = "watch_open True ?s2"
  have r: "disc_run_step ?s0 ?s1" by (rule start) (simp_all add: demo_reading_def)
  have r2: "disc_run_step ?s1 ?s2" by (rule listen_opens) (simp add: disc_run_Start_def)
  have r3: "disc_run_step ?s2 ?s3" by (rule watch_opens) (simp add: disc_run_ops)
  have r4: "disc_run_step ?s3 (?s3\<lparr>dr_listen := Handling []\<rparr>)" by (rule listen_reads) (simp_all add: disc_run_ops)
  have "?s3\<lparr>dr_listen := Handling []\<rparr> = demo_reading" by (simp add: disc_run_ops demo_reading_def)
  with r4 have "disc_run_step ?s3 demo_reading" by simp
  with r r2 r3 show "disc_run_step\<^sup>*\<^sup>* ?s0 demo_reading"
    by (blast intro: converse_rtranclp_into_rtranclp rtranclp.rtrancl_refl)
qed

definition demo_shut :: disc_run where
  "demo_shut = demo_reading\<lparr>dr_conn := Some False, dr_listener := Some False, dr_stopped := True\<rparr>"

lemma demo_Shutdown: "disc_Shutdown demo_reading = Ok (None, demo_shut)"
  by (simp add: disc_Shutdown_def demo_reading_def demo_shut_def)

lemma Unmarshal_empty: "packet_Unmarshal [] = Err (CoderError ErrBufferTooShort)"
  by (simp add: packet_Unmarshal_def ReadBytes_def NewDecoder_def len64_def)

lemma demo_handles: "disc_run_step\<^sup>*\<^sup>* demo_shut (demo_shut\<lparr>dr_listen := Reading, dr_handled := 1\<rparr>)"
  by (rule r_into_rtranclp, rule listen_handles [of _ "[]" 0])
    (simp_all add: demo_shut_def demo_reading_def listen_handle_def disc_listen_def Unmarshal_empty)

theorem discovery_shutdown_silent_witness:
  "disc_Shutdown demo_reading = Ok (None, demo_shut) \<and>
   disc_run_step\<^sup>*\<^sup>* demo_shut (demo_shut\<lparr>dr_listen := Reading, dr_handled := 1\<rparr>) \<and>
   dr_out (demo_shut\<lparr>dr_listen := Reading, dr_handled := 1\<rparr>) = dr_out demo_reading"
proof -
  obtain s0 where s0: "disc_run_New 1 4567 (Some demo_ifaces) = Ok s0" "disc_run_step\<^sup>*\<^sup>* s0 demo_reading"
    using demo_reading_reached by blast
  show ?thesis
    using discovery_shutdown_silent [OF s0 demo_Shutdown demo_handles] demo_Shutdown demo_handles by simp
qed

theorem discovery_loops_end_witness:
  "disc_Shutdown demo_reading = Ok (None, demo_shut) \<and> disc_work demo_shut = 4 \<and>
   (\<exists>s3. disc_run_step demo_shut s3 \<and> disc_work s3 < 4)"
proof -
  obtain s0 where s0: "disc_run_New 1 4567 (Some demo_ifaces) = Ok s0" "disc_run_step\<^sup>*\<^sup>* s0 demo_reading"
    using demo_reading_reached by blast
  have w: "disc_work demo_shut = 4" by (simp add: disc_work_def demo_shut_def demo_reading_def)
  have "\<not> disc_crashes demo_shut"
    by (simp add: disc_crashes_def demo_shut_def demo_reading_def listen_handle_def disc_listen_def Unmarshal_empty)
  moreover have "dr_listen demo_shut \<noteq> Returned" by (simp add: demo_shut_def demo_reading_def)
  ultimately show ?thesis
    using discovery_loops_end [OF s0 demo_Shutdown rtranclp.rtrancl_refl] demo_Shutdown unfolding w by blast
qed

section \<open>The renewal of an etcd lease\<close>

text \<open>
  \<open>keepaliveLeaseLoop\<close> of src/cmd/cable/discovery_etcd.go on what \<open>select\<close> delivers: the end of the discovery, an answer of
  the store, or nil when the library closes the channel. \<open>None\<close> while the loop waits; otherwise whether it ended
  with the discovery or gave the lease up.
\<close>

datatype lease_event = LeaseStop | LeaseDone | LeaseAnswer | LeaseNil

datatype lease_end = EndedWithNode | LeaseGivenUp

fun lease_select :: "lease_event list \<Rightarrow> lease_end option" where
  "lease_select [] = None"
| "lease_select (LeaseStop # es) = Some EndedWithNode"
| "lease_select (LeaseDone # es) = Some EndedWithNode"
| "lease_select (LeaseAnswer # es) = lease_select es"
| "lease_select (LeaseNil # es) = Some LeaseGivenUp"

definition keepaliveLeaseLoop :: "go_error option \<Rightarrow> lease_event list \<Rightarrow> etcdDiscovery \<Rightarrow> lease_end option" where
  "keepaliveLeaseLoop start_err es e =
     (if \<not> ed_client e then Some EndedWithNode
      else case start_err of Some _ \<Rightarrow> Some LeaseGivenUp | None \<Rightarrow> lease_select es)"

text \<open>
  The loop gives the lease up for good: one answer that is missing ends it while the node goes on, whatever
  follows, so the key of the node expires and is not put again.
\<close>

lemma lease_given_up:
  assumes "ed_client e"
  shows "keepaliveLeaseLoop None (replicate n LeaseAnswer) e = None"
    and "keepaliveLeaseLoop None (replicate n LeaseAnswer @ LeaseNil # es) e = Some LeaseGivenUp"
proof -
  have "lease_select (replicate n LeaseAnswer @ es') = lease_select es'" for es' by (induction n) simp_all
  from this [of "[]"] this [of "LeaseNil # es"]
  show "keepaliveLeaseLoop None (replicate n LeaseAnswer) e = None"
    and "keepaliveLeaseLoop None (replicate n LeaseAnswer @ LeaseNil # es) e = Some LeaseGivenUp"
    using assms by (simp_all add: keepaliveLeaseLoop_def)
qed

end
