(* ===== verification/Lifecycle.thy ===== *)
theory Lifecycle
  imports Discovery_Loops Booter Stats Node_Safety
begin

text \<open>
  The life of the server program, src/cmd/cable: \<open>main\<close> in cable.go reads the configuration, makes the services
  (\<open>newBooter\<close>), starts them and, after a signal, shuts them down (booter.go), with \<open>Start\<close> and \<open>Shutdown\<close> of the broker
  (src/cluster/broker.go), the cluster (src/cluster/cluster.go), the peer server (src/cluster/peer_server.go) and
  the two discoveries, and \<open>Serve\<close> of the HTTP and gRPC interfaces.

  What the operating system and the libraries answer is in \<open>boot_env\<close>. Services that were shut down are listed
  in the order of the calls; a field of the program keeps its pointer after the service is closed.
\<close>

section \<open>State\<close>

datatype serving = NotServing | Serving | Stopped

datatype node_discovery = MulticastRun disc_run | EtcdRun etcdDiscovery

datatype closing =
    RedisClient | KafkaProducer | KafkaClient | TraceProvider | MeterProvider
  | NodeListener gostring | PeerServer | NodeDiscovery | RaftNode

record ('r, 'cs) program =
  pg_booter :: "'r booter"
  pg_kafka :: bool
  pg_trace :: bool
  pg_meter :: bool
  pg_stats :: statistics
  pg_node :: "'cs node"
  pg_peer :: serving
  pg_discovery :: node_discovery
  pg_raftStopped :: bool
  pg_grpc :: serving
  pg_http :: serving
  pg_closed :: "closing list"

record 'r boot_env =
  env_hostname :: "gostring option"
  env_rnd :: u64
  env_parsed :: "(go_error, config) outcome"
  env_ifaces :: "iface list option"
  env_load :: "gostring \<Rightarrow> gostring \<Rightarrow> bool"
  env_telemetry :: telemetry
  env_store :: 'r
  env_kafka :: bool
  env_producer :: bool
  env_peer_listen :: "go_error option"
  env_etcd :: etcd_answers

section \<open>Construction\<close>

definition new_discovery :: "iface list option \<Rightarrow> discovery_kind \<Rightarrow> (go_error, node_discovery) outcome" where
  "new_discovery ifaces k =
     (case k of
        Multicast i port \<Rightarrow> omap MulticastRun (disc_run_New i port ifaces)
      | Etcd i port endpoints \<Rightarrow> omap (\<lambda>e. EtcdRun (SetHandler True e)) (newEtcdDiscovery i port ifaces))"

text \<open>
  \<open>newBooter\<close>. Its methods are the handler of the broker; what they do is in theory \<open>Booter\<close>, here they are arguments.
\<close>

definition newBooter ::
  "'r boot_env \<Rightarrow> (connect \<Rightarrow> byte) \<Rightarrow> (message \<Rightarrow> identity option \<Rightarrow> (go_error, unit) outcome) \<Rightarrow>
   (gostring \<Rightarrow> (gostring, gostring) gomap \<times> go_error option) \<Rightarrow> config \<Rightarrow> (go_error, ('r, 'cs) program) outcome" where
  "newBooter env connect message channels c =
     obind (newStats (env_telemetry env) c) (\<lambda>st.
     obind (case GetDiscovery c of None \<Rightarrow> Panic | Some k \<Rightarrow> new_discovery (env_ifaces env) k) (\<lambda>d.
     obind (NewBroker (env_hostname env) (env_rnd env) (boot_options (env_load env) connect message channels c)) (\<lambda>nd.
       Ok \<lparr>pg_booter = \<lparr>bt_config = c, bt_redis = None, bt_producer = False\<rparr>, pg_kafka = False,
           pg_trace = (trace_Enabled (cfg_Trace c) \<and> initTrace_err (env_telemetry env) = None),
           pg_meter = (metrics_Enabled (cfg_Metrics c) \<and> initMeter_err (env_telemetry env) = None),
           pg_stats = st, pg_node = nd, pg_peer = NotServing, pg_discovery = d, pg_raftStopped = False,
           pg_grpc = NotServing, pg_http = NotServing, pg_closed = []\<rparr>)))"

section \<open>Start\<close>

text \<open>The error of \<open>Listen\<close> is logged, and the server does not serve.\<close>

definition api_Serve :: "go_error option \<Rightarrow> serving \<Rightarrow> serving" where
  "api_Serve listen_err s = (case listen_err of None \<Rightarrow> Serving | Some e \<Rightarrow> s)"

definition discovery_Start :: "etcd_answers \<Rightarrow> node_discovery \<Rightarrow> disc_call list \<times> node_discovery" where
  "discovery_Start ans d =
     (case d of
        MulticastRun s \<Rightarrow> ([], MulticastRun (disc_run_Start s))
      | EtcdRun e \<Rightarrow> (case etcd_Start ans e of (_, calls, e') \<Rightarrow> (calls, EtcdRun e')))"

text \<open>\<open>Start\<close> of the broker, with the calls that the discovery makes before it returns.\<close>

definition broker_Start :: "'r boot_env \<Rightarrow> ('r, 'cs) program \<Rightarrow> disc_call list \<times> ('r, 'cs) program" where
  "broker_Start env p =
     (case discovery_Start (env_etcd env) (pg_discovery p) of (calls, d) \<Rightarrow>
        (calls, p\<lparr>pg_peer := api_Serve (env_peer_listen env) (pg_peer p), pg_discovery := d\<rparr>))"

definition start_services :: "'r boot_env \<Rightarrow> ('r, 'cs) program \<Rightarrow> ('r, 'cs) program" where
  "start_services env p =
     (let b = startKafka (env_kafka env) (env_producer env) (startRedis (env_store env) (pg_booter p))
      in p\<lparr>pg_booter := b, pg_kafka := (kafka_Enabled (cfg_Kafka (bt_config b)) \<and> env_kafka env)\<rparr>)"

definition booter_Start :: "'r boot_env \<Rightarrow> ('r, 'cs) program \<Rightarrow> disc_call list \<times> ('r, 'cs) program" where
  "booter_Start env p = broker_Start env (start_services env p)"

text \<open>\<open>OnClusterReady\<close> of the booter: both interfaces are served.\<close>

definition booter_OnClusterReady ::
  "go_error option \<Rightarrow> go_error option \<Rightarrow> ('r, 'cs) program \<Rightarrow> ('r, 'cs) program" where
  "booter_OnClusterReady grpc_err http_err p =
     p\<lparr>pg_grpc := api_Serve grpc_err (pg_grpc p), pg_http := api_Serve http_err (pg_http p)\<rparr>"

text \<open>\<open>main\<close> up to the signal.\<close>

definition cable_main ::
  "'r boot_env \<Rightarrow> (connect \<Rightarrow> byte) \<Rightarrow> (message \<Rightarrow> identity option \<Rightarrow> (go_error, unit) outcome) \<Rightarrow>
   (gostring \<Rightarrow> (gostring, gostring) gomap \<times> go_error option) \<Rightarrow>
   (go_error, disc_call list \<times> ('r, 'cs) program) outcome" where
  "cable_main env connect message channels =
     (case readConfig (env_hostname env) (env_rnd env) (env_parsed env) of
        Ok c \<Rightarrow> omap (booter_Start env) (newBooter env connect message channels c)
      | _ \<Rightarrow> Panic)"

section \<open>Shutdown\<close>

definition discovery_Shutdown ::
  "go_error option \<Rightarrow> node_discovery \<Rightarrow> (go_error, go_error option \<times> node_discovery) outcome" where
  "discovery_Shutdown close_err d =
     (case d of
        MulticastRun s \<Rightarrow> omap (\<lambda>(err, s'). (err, MulticastRun s')) (disc_Shutdown s)
      | EtcdRun e \<Rightarrow> omap (\<lambda>((_, err), e'). (err, EtcdRun e')) (etcd_Shutdown close_err e))"

definition started_networks :: "'cs node \<Rightarrow> gostring list" where
  "started_networks nd = map fst (filter (\<lambda>(net, l). l_started l) (listeners nd))"

text \<open>
  \<open>Shutdown\<close> of the broker: the listeners, the peer server, the discovery, and raft when it was started;
  closing \<open>stoped\<close> twice panics. The error is the one of the peer server, which is nil.
\<close>

definition broker_Stop ::
  "(gostring \<Rightarrow> go_error option) \<Rightarrow> go_error option \<Rightarrow> ('r, 'cs) program \<Rightarrow>
     (go_error, go_error option \<times> ('r, 'cs) program) outcome" where
  "broker_Stop transport_err close_err p =
     obind (broker_Shutdown transport_err (pg_node p)) (\<lambda>nd.
     obind (discovery_Shutdown close_err (pg_discovery p)) (\<lambda>(_, d).
       if raft_started (node_cluster nd) \<and> pg_raftStopped p then Panic
       else Ok (None,
         p\<lparr>pg_node := nd, pg_peer := Stopped, pg_discovery := d, pg_raftStopped := raft_started (node_cluster nd),
           pg_closed := pg_closed p @ map NodeListener (started_networks (pg_node p)) @ [PeerServer, NodeDiscovery] @
             (if raft_started (node_cluster nd) then [RaftNode] else [])\<rparr>)))"

definition service_closings :: "('r, 'cs) program \<Rightarrow> closing list" where
  "service_closings p =
     (if bt_redis (pg_booter p) \<noteq> None then [RedisClient] else []) @
     (if bt_producer (pg_booter p) then [KafkaProducer] else []) @
     (if pg_kafka p then [KafkaClient] else []) @
     (if pg_trace p then [TraceProvider] else []) @
     (if pg_meter p then [MeterProvider] else [])"

text \<open>\<open>Shutdown\<close> of the booter: Redis, Kafka, the statistics, whose errors are dropped, and the broker.\<close>

definition booter_Shutdown ::
  "(gostring \<Rightarrow> go_error option) \<Rightarrow> go_error option \<Rightarrow> ('r, 'cs) program \<Rightarrow>
     (go_error, go_error option \<times> ('r, 'cs) program) outcome" where
  "booter_Shutdown transport_err close_err p =
     broker_Stop transport_err close_err (p\<lparr>pg_closed := pg_closed p @ service_closings p\<rparr>)"

section \<open>The node after its shutdown\<close>

text \<open>A listener that was stopped: its server is closed and has no connection.\<close>

definition stopped_listener :: "listener \<Rightarrow> listener \<Rightarrow> bool" where
  "stopped_listener l l' \<longleftrightarrow> \<not> l_started l' \<and>
     (if l_started l then \<exists>s'. l_server l' = Some s' \<and> server_closed s' \<and> conns s' = empty_RMap else l' = l)"

lemma Listener_Shutdown_stops:
  assumes "l_started l \<longrightarrow> l_server l \<noteq> None"
  obtains err l' where "Listener_Shutdown terr ctx_e [] l = Ok (err, l')" "stopped_listener l l'"
proof (cases "l_started l")
  case True
  then obtain s where s: "l_server l = Some s" using assms by auto
  obtain s1 where s1: "ExpelAllConns s = Ok s1" "conns s1 = empty_RMap" using ExpelAllConns_total by blast
  obtain err s2 where sh: "Shutdown terr ctx_e [] s1 = (err, s2)" by fastforce
  then have "server_closed s2" "conns s2 = empty_RMap"
    using s1(2) by (auto simp: Shutdown_def Shutdown_round_def RMap_Range_def empty_RMap_def split: if_splits)
  then have "stopped_listener l (l\<lparr>l_started := False, l_server := Some s2\<rparr>)" using True by (simp add: stopped_listener_def)
  then show thesis using that True s s1(1) sh by (simp add: Listener_Shutdown_def)
next
  case False
  then show thesis using that by (simp add: Listener_Shutdown_def stopped_listener_def)
qed

definition listeners_ok :: "'cs node \<Rightarrow> bool" where
  "listeners_ok nd \<longleftrightarrow> go_map (listeners nd) \<and> list_all (\<lambda>(net, l). l_started l \<longrightarrow> l_server l \<noteq> None) (listeners nd)"

definition stopped_of :: "go_error option \<Rightarrow> listener \<Rightarrow> listener" where
  "stopped_of terr l = snd (get_Ok (Listener_Shutdown terr ContextCanceled [] l))"

lemma stopped_of: "l_started l \<longrightarrow> l_server l \<noteq> None \<Longrightarrow> stopped_listener l (stopped_of terr l)"
  by (rule Listener_Shutdown_stops [of l terr ContextCanceled]) (auto simp: stopped_of_def get_Ok_def)

lemma stopListener_each:
  assumes "map_of (listeners st) net = Some l" and "l_started l \<longrightarrow> l_server l \<noteq> None"
  shows "\<exists>st'. omap snd (stopListener terr net st) = Ok st' \<and>
    map_of (listeners st') = (map_of (listeners st))(net \<mapsto> stopped_of terr l)"
proof -
  obtain err l' where "Listener_Shutdown terr ContextCanceled [] l = Ok (err, l')"
    using Listener_Shutdown_stops [OF assms(2)] by blast
  then show ?thesis
    using assms(1) by (simp add: stopListener_def stopped_of_def get_Ok_def put_listener_def onUserClosed_fold update_conv')
qed

lemma stopListener_go_map:
  assumes "stopListener terr net nd = Ok (err, nd')" and "go_map (listeners nd)"
  shows "go_map (listeners nd')"
proof -
  obtain l where "map_of (listeners nd) net = Some l"
    using assms(1) by (cases "map_of (listeners nd) net") (simp_all add: stopListener_def)
  then obtain l' ids where "nd' = fold onUserClosed ids (put_listener net l' nd)"
    using assms(1) by (auto simp: stopListener_def outcome_Ok_obind Let_def)
  then show ?thesis using assms(2) by (simp add: onUserClosed_fold put_listener_def)
qed

lemma stopListener_proposed:
  assumes "stopListener terr net nd = Ok (err, nd')"
  shows "proposed (node_cluster nd) (node_cluster nd')"
proof -
  obtain l where "map_of (listeners nd) net = Some l"
    using assms by (cases "map_of (listeners nd) net") (simp_all add: stopListener_def)
  then obtain l' ids where "nd' = fold onUserClosed ids (put_listener net l' nd)"
    using assms by (auto simp: stopListener_def outcome_Ok_obind Let_def)
  moreover have "node_cluster (put_listener net l' nd) = node_cluster nd" by (simp add: put_listener_def)
  ultimately show ?thesis using onUserClosed_fold_proposed [of "put_listener net l' nd" ids] by simp
qed

lemma broker_Shutdown_raft:
  assumes "broker_Shutdown terr nd = Ok nd'"
  shows "raft_started (node_cluster nd') = raft_started (node_cluster nd)"
proof -
  obtain nd1 where nd1: "foldl (\<lambda>acc (net, l). obind acc (\<lambda>st. omap snd (stopListener (terr net) net st))) (Ok nd)
      (listeners nd) = Ok nd1" and nd': "nd' = nd1\<lparr>node_cluster := cluster_Stop (node_cluster nd1)\<rparr>"
    using assms by (auto simp: broker_Shutdown_def omap_Ok)
  have "proposed (node_cluster nd) (node_cluster nd1)"
    by (rule listener_loop [OF nd1]) (auto simp: omap_Ok intro: proposed_trans dest: stopListener_proposed)
  then show ?thesis using nd' by (auto simp: proposed_def cluster_Stop_def)
qed

text \<open>
  \<open>Shutdown\<close> of a broker does not fail: afterwards the node is not ready, no listener is started, the servers of
  those that were are closed, and no connection is left in a table.
\<close>

lemma node_shutdown:
  assumes "listeners_ok nd"
  shows "\<exists>nd'. broker_Shutdown terr nd = Ok nd' \<and> \<not> ready (node_cluster nd') \<and>
    (\<forall>net l. map_of (listeners nd) net = Some l \<longrightarrow>
       (\<exists>l'. map_of (listeners nd') net = Some l' \<and> stopped_listener l l')) \<and>
    dom (map_of (listeners nd')) = dom (map_of (listeners nd)) \<and> go_map (listeners nd')"
proof -
  let ?f = "\<lambda>net (l :: listener) st. omap snd (stopListener (terr net) net st)"
  have m: "go_map (listeners nd)" and ok: "\<And>net l. (net, l) \<in> set (listeners nd) \<Longrightarrow> l_started l \<longrightarrow> l_server l \<noteq> None"
    using assms by (auto simp: listeners_ok_def list_all_iff)
  have "\<exists>nd'. foldl (\<lambda>acc (net, l). obind acc (\<lambda>st. ?f net l st)) (Ok nd) (listeners nd) = Ok nd' \<and>
      map_of (listeners nd') = (\<lambda>net. case map_of (listeners nd) net of Some l \<Rightarrow> Some (stopped_of (terr net) l)
        | None \<Rightarrow> map_of (listeners nd) net)"
  proof (rule listener_loop_each)
    show "\<exists>st'. ?f net l st = Ok st' \<and> map_of (listeners st') = (map_of (listeners st))(net \<mapsto> stopped_of (terr net) l)"
      if "(net, l) \<in> set (listeners nd)" "map_of (listeners st) net = Some l" for net l st
      using stopListener_each [OF that(2) ok [OF that(1)]] .
  qed (use own_listeners [OF m] m in \<open>simp_all add: go_map_def\<close>)
  then obtain nd1 where nd1: "foldl (\<lambda>acc (net, l). obind acc (\<lambda>st. ?f net l st)) (Ok nd) (listeners nd) = Ok nd1"
    and ls: "map_of (listeners nd1) = (\<lambda>net. case map_of (listeners nd) net of Some l \<Rightarrow> Some (stopped_of (terr net) l)
        | None \<Rightarrow> map_of (listeners nd) net)" by blast
  have "broker_Shutdown terr nd = Ok (nd1\<lparr>node_cluster := cluster_Stop (node_cluster nd1)\<rparr>)"
    using nd1 by (simp add: broker_Shutdown_def)
  moreover have "\<exists>l'. map_of (listeners nd1) net = Some l' \<and> stopped_listener l l'"
    if "map_of (listeners nd) net = Some l" for net l
    using that ls ok [OF map_of_SomeD [OF that]] stopped_of by auto
  moreover have "dom (map_of (listeners nd1)) = dom (map_of (listeners nd))"
    using ls by (auto simp: dom_def split: option.splits)
  moreover have "go_map (listeners nd) \<longrightarrow> go_map (listeners nd1)"
    by (rule listener_loop [OF nd1]) (auto simp: omap_Ok dest: stopListener_go_map)
  ultimately show ?thesis using m by (auto simp: cluster_Stop_def)
qed

text \<open>So none of its networks is started.\<close>

lemma stopped_networks:
  assumes "\<forall>net l. map_of (listeners nd) net = Some l \<longrightarrow> (\<exists>l'. map_of (listeners nd') net = Some l' \<and> stopped_listener l l')"
    and "dom (map_of (listeners nd')) = dom (map_of (listeners nd))" and "go_map (listeners nd')"
  shows "started_networks nd' = []"
proof -
  have "\<not> l_started l'" if "(net, l') \<in> set (listeners nd')" for net l'
  proof -
    have l': "map_of (listeners nd') net = Some l'" using that assms(3) by (simp add: go_map_def)
    then obtain l where "map_of (listeners nd) net = Some l" using assms(2) by blast
    with assms(1) l' show ?thesis by (fastforce simp: stopped_listener_def)
  qed
  then have "filter (\<lambda>(net, l). l_started l) (listeners nd') = []" by (auto simp: filter_empty_conv)
  then show ?thesis by (simp add: started_networks_def)
qed

section \<open>The program after its shutdown\<close>

definition discovery_running :: "node_discovery \<Rightarrow> bool" where
  "discovery_running d =
     (case d of
        MulticastRun s \<Rightarrow> dr_conn s \<noteq> None \<and> dr_listener s \<noteq> None \<and> \<not> dr_stopped s
      | EtcdRun e \<Rightarrow> \<not> ed_stopped e)"

definition discovery_stopped :: "node_discovery \<Rightarrow> bool" where
  "discovery_stopped d =
     (case d of
        MulticastRun s \<Rightarrow> dr_conn s = Some False \<and> dr_listener s = Some False \<and> dr_stopped s
      | EtcdRun e \<Rightarrow> ed_stopped e)"

lemma discovery_Shutdown_iff:
  "(\<exists>err d'. discovery_Shutdown close_err d = Ok (err, d')) \<longleftrightarrow> discovery_running d"
  by (cases d) (auto simp: discovery_Shutdown_def discovery_running_def disc_Shutdown_def etcd_Shutdown_def Let_def omap_Ok)

lemma discovery_Shutdown_stops: "discovery_Shutdown close_err d = Ok (err, d') \<Longrightarrow> discovery_stopped d'"
  by (cases d) (auto simp: discovery_Shutdown_def discovery_stopped_def disc_Shutdown_def etcd_Shutdown_def Let_def omap_Ok
      split: if_splits)

lemma discovery_stopped_panics: "discovery_stopped d \<Longrightarrow> discovery_Shutdown close_err d = Panic"
  by (cases d) (auto simp: discovery_stopped_def discovery_Shutdown_def disc_Shutdown_def etcd_Shutdown_def)

text \<open>\<open>Shutdown\<close> of a program whose discovery has its sockets.\<close>

lemma booter_stops:
  assumes "listeners_ok (pg_node p)" and "discovery_running (pg_discovery p)" and "\<not> pg_raftStopped p"
  shows "\<exists>p'. booter_Shutdown terr cerr p = Ok (None, p') \<and>
     (\<forall>net l. map_of (listeners (pg_node p)) net = Some l \<longrightarrow>
        (\<exists>l'. map_of (listeners (pg_node p')) net = Some l' \<and> stopped_listener l l')) \<and>
     started_networks (pg_node p') = [] \<and> \<not> ready (node_cluster (pg_node p')) \<and> pg_peer p' = Stopped \<and>
     discovery_stopped (pg_discovery p') \<and> pg_raftStopped p' = raft_started (node_cluster (pg_node p)) \<and>
     pg_closed p' = pg_closed p @ service_closings p @ map NodeListener (started_networks (pg_node p)) @
       [PeerServer, NodeDiscovery] @ (if raft_started (node_cluster (pg_node p)) then [RaftNode] else []) \<and>
     pg_grpc p' = pg_grpc p \<and> pg_http p' = pg_http p"
proof -
  obtain nd where nd: "broker_Shutdown terr (pg_node p) = Ok nd" "\<not> ready (node_cluster nd)"
    and ls: "\<forall>net l. map_of (listeners (pg_node p)) net = Some l \<longrightarrow>
       (\<exists>l'. map_of (listeners nd) net = Some l' \<and> stopped_listener l l')"
      "dom (map_of (listeners nd)) = dom (map_of (listeners (pg_node p)))" "go_map (listeners nd)"
    using node_shutdown [OF assms(1), of terr] by blast
  obtain err d where d: "discovery_Shutdown cerr (pg_discovery p) = Ok (err, d)"
    using assms(2) discovery_Shutdown_iff by blast
  have "started_networks nd = []" by (rule stopped_networks [OF ls])
  then show ?thesis
    using nd ls d discovery_Shutdown_stops [OF d] broker_Shutdown_raft [OF nd(1)] assms(3)
    by (simp add: booter_Shutdown_def broker_Stop_def)
qed


text \<open>A second \<open>Shutdown\<close> panics in the discovery.\<close>

lemma second_shutdown_panics:
  assumes "listeners_ok (pg_node p)" and "discovery_stopped (pg_discovery p)"
  shows "booter_Shutdown terr cerr p = Panic"
  using node_shutdown [OF assms(1), of terr] discovery_stopped_panics [OF assms(2), of cerr]
  by (auto simp: booter_Shutdown_def broker_Stop_def)

section \<open>The program after its start\<close>

lemma boot_table_idle:
  assumes "listeners nd = boot_table load c"
  shows "listeners_ok nd \<and> started_networks nd = []"
proof -
  have g: "go_map (listeners nd)" using boot_listeners(1) [of "[]" load "cfg_Listeners c"] assms by (simp add: boot_table_def)
  have "\<not> l_started l" if "(net, l) \<in> set (listeners nd)" for net l
  proof -
    have "map_of (boot_table load c) net = Some l" using that g assms by (simp add: go_map_def)
    then show ?thesis
      using boot_listeners(2) [of "[]" load "cfg_Listeners c" net l]
      by (auto simp: boot_table_def boot_listener_def NewListener_def)
  qed
  then have "list_all (\<lambda>(net, l). \<not> l_started l) (listeners nd)" "filter (\<lambda>(net, l). l_started l) (listeners nd) = []"
    by (auto simp: list_all_iff filter_empty_conv)
  then show ?thesis using g by (auto simp: listeners_ok_def started_networks_def list_all_iff)
qed

lemma newStats_total:
  assumes "initTrace_err tel = None" and "initMeter_err tel = None"
    and "provider_Tracer tel True = Ok tr" and "provider_Meter tel True = Ok me"
  shows "\<exists>st. newStats tel c = Ok st"
  using assms by (simp add: newStats_def)

lemma new_discovery_total:
  assumes "muticast_getLocalIP ifaces = Ok ip"
  shows "\<exists>d. new_discovery ifaces k = Ok d \<and> (discovery_running d \<longleftrightarrow> (\<exists>i port endpoints. k = Etcd i port endpoints)) \<and>
     (\<forall>ans. discovery_running (snd (discovery_Start ans d)) = discovery_running d)"
proof -
  obtain fs where fs: "ifaces = Some fs" "getLocalIP fs = Some ip"
    using assms by (auto simp: muticast_getLocalIP_def split: option.splits)
  have "ed_stopped (snd (snd (etcd_Start ans e))) = ed_stopped e" for ans e
    by (simp add: etcd_Start_def Let_def split: outcome.split)
  then show ?thesis using assms fs
    by (cases k) (auto simp: new_discovery_def disc_run_New_def newEtcdDiscovery_def discovery_running_def
        discovery_Start_def disc_run_Start_def SetHandler_def case_prod_beta' split: prod.split)
qed

lemma start_services_fields:
  "pg_booter (start_services env p) = startKafka (env_kafka env) (env_producer env) (startRedis (env_store env) (pg_booter p))"
  "pg_node (start_services env p) = pg_node p" "pg_discovery (start_services env p) = pg_discovery p"
  "pg_grpc (start_services env p) = pg_grpc p" "pg_http (start_services env p) = pg_http p"
  "pg_raftStopped (start_services env p) = pg_raftStopped p" "pg_closed (start_services env p) = pg_closed p"
  by (simp_all add: start_services_def Let_def)

lemma booter_Start_fields:
  "pg_node (snd (booter_Start env p)) = pg_node p"
  "pg_discovery (snd (booter_Start env p)) = snd (discovery_Start (env_etcd env) (pg_discovery p))"
  "pg_grpc (snd (booter_Start env p)) = pg_grpc p" "pg_http (snd (booter_Start env p)) = pg_http p"
  "pg_raftStopped (snd (booter_Start env p)) = pg_raftStopped p" "pg_closed (snd (booter_Start env p)) = pg_closed p"
  "bt_redis (pg_booter p) = None \<Longrightarrow> bt_redis (pg_booter (snd (booter_Start env p))) \<noteq> None \<longleftrightarrow>
     redis_Enabled (cfg_Redis (bt_config (pg_booter p)))"
  "\<not> bt_producer (pg_booter p) \<Longrightarrow> bt_producer (pg_booter (snd (booter_Start env p))) \<longleftrightarrow>
     kafka_Enabled (cfg_Kafka (bt_config (pg_booter p))) \<and> env_kafka env \<and> env_producer env"
  by (simp_all add: booter_Start_def broker_Start_def case_prod_beta' start_services_fields)
    (auto simp: startKafka_def startRedis_def)

text \<open>
  What the program needs: a file with a configuration that passes \<open>validate\<close>, an address of the host, and the
  providers of OpenTelemetry.
\<close>

definition bootable :: "'r boot_env \<Rightarrow> config \<Rightarrow> bool" where
  "bootable env c \<longleftrightarrow> env_parsed env = Ok c \<and> validate c = None \<and> (\<exists>ip. muticast_getLocalIP (env_ifaces env) = Ok ip) \<and>
     initTrace_err (env_telemetry env) = None \<and> initMeter_err (env_telemetry env) = None \<and>
     (\<exists>tr. provider_Tracer (env_telemetry env) True = Ok tr) \<and> (\<exists>me. provider_Meter (env_telemetry env) True = Ok me)"

lemma main_starts:
  assumes "bootable env c"
  obtains calls p k where "cable_main env connect message channels = Ok (calls, p :: ('r, 'cs) program)"
    "listeners (pg_node p) = boot_table (env_load env) c" "\<not> ready (node_cluster (pg_node p))"
    "pg_grpc p = NotServing" "pg_http p = NotServing" "\<not> pg_raftStopped p" "pg_closed p = []"
    "bt_redis (pg_booter p) \<noteq> None \<longleftrightarrow> redis_Enabled (cfg_Redis c)"
    "bt_producer (pg_booter p) \<longleftrightarrow> kafka_Enabled (cfg_Kafka c) \<and> env_kafka env \<and> env_producer env"
    "GetDiscovery c = Some k" "discovery_running (pg_discovery p) \<longleftrightarrow> (\<exists>i port endpoints. k = Etcd i port endpoints)"
proof -
  obtain ip tr me where e: "env_parsed env = Ok c" "validate c = None" "muticast_getLocalIP (env_ifaces env) = Ok ip"
      "initTrace_err (env_telemetry env) = None" "initMeter_err (env_telemetry env) = None"
      "provider_Tracer (env_telemetry env) True = Ok tr" "provider_Meter (env_telemetry env) True = Ok me"
    using assms by (auto simp: bootable_def)
  obtain i where c: "readConfig (env_hostname env) (env_rnd env) (env_parsed env) = Ok (c\<lparr>cfg_NodeId := i\<rparr>)"
    using e(1,2) by (cases "cfg_NodeId c = 0") (auto simp: readConfig_def intro: that [of "cfg_NodeId c"])
  let ?c = "c\<lparr>cfg_NodeId := i\<rparr>"
  obtain st where st: "newStats (env_telemetry env) ?c = Ok st" using newStats_total [OF e(4-7)] by blast
  obtain k k' where k: "GetDiscovery c = Some k" "GetDiscovery ?c = Some k'"
      "(\<exists>i port endpoints. k' = Etcd i port endpoints) \<longleftrightarrow> (\<exists>i port endpoints. k = Etcd i port endpoints)"
    using validate_None(1) [OF e(2)] by (auto simp: GetDiscovery_def split: if_splits)
  obtain d where d: "new_discovery (env_ifaces env) k' = Ok d"
      "discovery_running d \<longleftrightarrow> (\<exists>i port endpoints. k' = Etcd i port endpoints)"
      "\<forall>ans. discovery_running (snd (discovery_Start ans d)) = discovery_running d"
    using new_discovery_total [OF e(3), of k'] by auto
  obtain nd :: "'cs node" where nd: "NewBroker (env_hostname env) (env_rnd env)
      (boot_options (env_load env) connect message channels ?c) = Ok nd"
      "listeners nd = boot_table (env_load env) ?c" "\<not> ready (node_cluster nd)" "\<not> raft_started (node_cluster nd)"
    by (rule boot_broker [of ?c]) (use k(2) in simp)
  obtain p0 :: "('r, 'cs) program" where p0: "newBooter env connect message channels ?c = Ok p0"
      "pg_booter p0 = \<lparr>bt_config = ?c, bt_redis = None, bt_producer = False\<rparr>" "pg_node p0 = nd" "pg_discovery p0 = d"
      "pg_grpc p0 = NotServing" "pg_http p0 = NotServing" "\<not> pg_raftStopped p0" "pg_closed p0 = []"
    using st k(2) d(1) nd(1) by (simp add: newBooter_def)
  obtain calls p where p: "booter_Start env p0 = (calls, p)" by fastforce
  note props = booter_Start_fields [where env = env and p = p0]
  show thesis
    by (rule that [of calls p k]) (use c p p0 props nd k d in \<open>simp_all add: cable_main_def boot_table_def\<close>)
qed

text \<open>
  Such a program starts. It has the clients of Redis and Kafka that are enabled; no listener and no
  interface serves before the cluster is ready. With multicast the goroutines open the sockets of the discovery: a
  signal that comes before panics in \<open>Shutdown\<close>.
\<close>

theorem valid_program_starts:
  assumes "bootable env c"
  shows "\<exists>calls (p :: ('r, 'cs) program). cable_main env connect message channels = Ok (calls, p) \<and>
     listeners_ok (pg_node p) \<and> started_networks (pg_node p) = [] \<and> pg_grpc p = NotServing \<and> pg_http p = NotServing \<and>
     (bt_redis (pg_booter p) \<noteq> None \<longleftrightarrow> redis_Enabled (cfg_Redis c)) \<and>
     (bt_producer (pg_booter p) \<longleftrightarrow> kafka_Enabled (cfg_Kafka c) \<and> env_kafka env \<and> env_producer env) \<and>
     (disc_Type (cfg_Discovery c) = gs ''multicast'' \<longrightarrow> booter_Shutdown terr cerr p = Panic)"
proof -
  obtain calls k and p :: "('r, 'cs) program" where p: "cable_main env connect message channels = Ok (calls, p)"
    "listeners (pg_node p) = boot_table (env_load env) c" "\<not> ready (node_cluster (pg_node p))"
    "pg_grpc p = NotServing" "pg_http p = NotServing" "\<not> pg_raftStopped p" "pg_closed p = []"
    "bt_redis (pg_booter p) \<noteq> None \<longleftrightarrow> redis_Enabled (cfg_Redis c)"
    "bt_producer (pg_booter p) \<longleftrightarrow> kafka_Enabled (cfg_Kafka c) \<and> env_kafka env \<and> env_producer env"
    and k: "GetDiscovery c = Some k" "discovery_running (pg_discovery p) \<longleftrightarrow> (\<exists>i port endpoints. k = Etcd i port endpoints)"
    by (rule main_starts [OF assms])
  have idle: "listeners_ok (pg_node p)" "started_networks (pg_node p) = []" using boot_table_idle [OF p(2)] by blast+
  have "booter_Shutdown terr cerr p = Panic" if "disc_Type (cfg_Discovery c) = gs ''multicast''"
  proof -
    have "\<not> discovery_running (pg_discovery p)" using k that by (auto simp: GetDiscovery_def)
    then have "discovery_Shutdown cerr (pg_discovery p) = Panic"
      by (cases "pg_discovery p") (auto simp: discovery_running_def discovery_Shutdown_def disc_Shutdown_def etcd_Shutdown_def)
    then show ?thesis
      using node_shutdown [OF idle(1), of terr] by (auto simp: booter_Shutdown_def broker_Stop_def)
  qed
  then show ?thesis using p idle by blast
qed

definition demo_env :: "unit boot_env" where
  "demo_env = \<lparr>env_hostname = None, env_rnd = 0, env_parsed = Ok (demo_config [demo_listener ''tcp''] (gs ''pass'')),
     env_ifaces = Some demo_ifaces, env_load = (\<lambda>_ _. False),
     env_telemetry = \<lparr>initTrace_err = None, initMeter_err = None, provider_Tracer = \<lambda>_. Ok (\<lambda>_. False),
       provider_Meter = \<lambda>_. Ok (\<lambda>_. None)\<rparr>,
     env_store = (), env_kafka = False, env_producer = False, env_peer_listen = None,
     env_etcd = \<lparr>ans_New = None, ans_Grant = Ok 1, ans_Put = None, ans_Get = Ok []\<rparr>\<rparr>"

lemma demo_bootable: "bootable demo_env (demo_config [demo_listener ''tcp''] (gs ''pass''))"
proof -
  have "validate (demo_config [demo_listener ''tcp''] (gs ''pass'')) = None" by code_simp
  then show ?thesis by (simp add: bootable_def demo_env_def demo_ifaces_def muticast_getLocalIP_def)
qed

theorem valid_program_starts_witness:
  "\<exists>calls (p :: (unit, unit) program). cable_main demo_env (\<lambda>_. ConnectAccepted) (\<lambda>_ _. Ok ()) (\<lambda>_. ([], None)) = Ok (calls, p) \<and>
     started_networks (pg_node p) = [] \<and> booter_Shutdown (\<lambda>_. None) None p = Panic"
proof -
  have "disc_Type (cfg_Discovery (demo_config [demo_listener ''tcp''] (gs ''pass''))) = gs ''multicast''"
    by (simp add: demo_config_def)
  then show ?thesis using valid_program_starts [OF demo_bootable] by blast
qed

text \<open>A program whose multicast discovery has its sockets, and one with a Redis client.\<close>

definition demo_program :: "(unit, unit) program" where
  "demo_program = \<lparr>pg_booter = \<lparr>bt_config = demo_config [] (gs ''redis''), bt_redis = Some (), bt_producer = False\<rparr>,
     pg_kafka = False, pg_trace = False, pg_meter = False, pg_stats = no_stats,
     pg_node = get_Ok (startListener (gs ''tcp'') (get_Ok (boot_demo (demo_config [demo_listener ''tcp''] (gs ''pass''))))),
     pg_peer = Serving, pg_discovery = MulticastRun demo_reading, pg_raftStopped = False,
     pg_grpc = Serving, pg_http = Serving, pg_closed = []\<rparr>"

lemma demo_program_listeners:
  "listeners_ok (pg_node demo_program) \<and> started_networks (pg_node demo_program) = [gs ''tcp''] \<and>
   \<not> raft_started (node_cluster (pg_node demo_program))"
  by code_simp


section \<open>From start to stop\<close>



end
