(* ===== verification/Telemetry.thy ===== *)
theory Telemetry
  imports Lifecycle Backoff
begin

text \<open>
  How the providers of the statistics are made, \<open>initTrace\<close> and \<open>initMeter\<close> of src/cmd/cable/cable_stats.go, and what
  the program does when they cannot be made. The exporter and the resource are the library's: an argument says
  whether it could make them.
\<close>

section \<open>Providers\<close>

definition initTrace :: "go_error option \<Rightarrow> go_error option \<Rightarrow> (go_error, unit) outcome" where
  "initTrace exporter_err resource_err =
     (case exporter_err of
        Some e \<Rightarrow> Err e
      | None \<Rightarrow> (case resource_err of Some e \<Rightarrow> Err e | None \<Rightarrow> Ok ()))"

text \<open>\<open>initMeter\<close> reads every \<open>Interval\<close> seconds; the product is a duration of 64 bits.\<close>

definition initMeter ::
  "go_error option \<Rightarrow> go_error option \<Rightarrow> metrics_config \<Rightarrow> (go_error, int) outcome" where
  "initMeter exporter_err resource_err conf =
     (case exporter_err of
        Some e \<Rightarrow> Err e
      | None \<Rightarrow>
          (case resource_err of
             Some e \<Rightarrow> Err e
           | None \<Rightarrow> Ok (int64_of (metrics_Interval conf * Second))))"

definition outcome_err :: "(go_error, 'a) outcome \<Rightarrow> go_error option" where
  "outcome_err r = (case r of Err e \<Rightarrow> Some e | _ \<Rightarrow> None)"

text \<open>What \<open>newStats\<close> meets; the methods of a provider that was made are the library's, those of a nil provider panic.\<close>

definition telemetry_of ::
  "go_error option \<Rightarrow> go_error option \<Rightarrow> go_error option \<Rightarrow> go_error option \<Rightarrow> (gostring \<Rightarrow> bool) \<Rightarrow>
     (string \<Rightarrow> go_error option) \<Rightarrow> metrics_config \<Rightarrow> telemetry" where
  "telemetry_of texp tres mexp mres tr me conf =
     \<lparr>initTrace_err = outcome_err (initTrace texp tres), initMeter_err = outcome_err (initMeter mexp mres conf),
      provider_Tracer = (\<lambda>made. if made then Ok tr else Panic), provider_Meter = (\<lambda>made. if made then Ok me else Panic)\<rparr>"

section \<open>Failures\<close>

lemma outcome_err_init:
  "outcome_err (initTrace texp tres) = None \<longleftrightarrow> texp = None \<and> tres = None"
  "outcome_err (initMeter mexp mres conf) = None \<longleftrightarrow> mexp = None \<and> mres = None"
  by (auto simp: outcome_err_def initTrace_def initMeter_def split: option.split)

text \<open>
  The code logs an error of \<open>initTrace\<close> or \<open>initMeter\<close> and goes on, but with a nil provider: the program starts exactly
  when every provider that is enabled was made, and otherwise it panics.
\<close>

theorem telemetry_decides_start:
  assumes "env_parsed env = Ok c" and "validate c = None" and "muticast_getLocalIP (env_ifaces env) = Ok ip"
    and "env_telemetry env = telemetry_of texp tres mexp mres tr me (cfg_Metrics c)"
  shows "(cable_main env connect message channels :: (go_error, disc_call list \<times> ('r, 'cs) program) outcome) \<noteq> Panic \<longleftrightarrow>
     (trace_Enabled (cfg_Trace c) \<longrightarrow> texp = None \<and> tres = None) \<and>
     (metrics_Enabled (cfg_Metrics c) \<longrightarrow> mexp = None \<and> mres = None)"
proof -
  obtain i where c: "readConfig (env_hostname env) (env_rnd env) (env_parsed env) = Ok (c\<lparr>cfg_NodeId := i\<rparr>)"
    using assms(1,2) by (cases "cfg_NodeId c = 0") (auto simp: readConfig_def intro: that [of "cfg_NodeId c"])
  let ?c = "c\<lparr>cfg_NodeId := i\<rparr>"
  obtain k where k: "GetDiscovery ?c = Some k"
    using validate_None(1) [OF assms(2)] by (auto simp: GetDiscovery_def split: if_splits)
  obtain d where d: "new_discovery (env_ifaces env) k = Ok d" using new_discovery_total [OF assms(3)] by blast
  obtain nd :: "'cs node" where nd: "NewBroker (env_hostname env) (env_rnd env)
      (boot_options (env_load env) connect message channels ?c) = Ok nd"
    by (rule boot_broker [of ?c]) (use k in simp_all)
  have "newStats (env_telemetry env) ?c \<noteq> Panic \<longleftrightarrow>
     (trace_Enabled (cfg_Trace c) \<longrightarrow> texp = None \<and> tres = None) \<and>
     (metrics_Enabled (cfg_Metrics c) \<longrightarrow> mexp = None \<and> mres = None)"
    by (auto simp: assms(4) newStats_def telemetry_of_def outcome_err_init)
  moreover have "newStats (env_telemetry env) ?c \<noteq> Err e" for e
    by (auto simp: assms(4) newStats_def telemetry_of_def)
  ultimately show ?thesis
    using c k d nd by (cases "newStats (env_telemetry env) ?c") (auto simp: cable_main_def newBooter_def)
qed

theorem telemetry_decides_start_witness:
  "cable_main (demo_env\<lparr>env_parsed := Ok ((demo_config [demo_listener ''tcp''] (gs ''pass''))\<lparr>cfg_Trace := \<lparr>trace_Enabled = True, trace_OTLPEndpoint = gs ''h:4317''\<rparr>\<rparr>),
       env_telemetry := telemetry_of (Some (OtherError ''dial'')) None None None (\<lambda>_. True) (\<lambda>_. None)
         (cfg_Metrics (demo_config [demo_listener ''tcp''] (gs ''pass'')))\<rparr>)
     (\<lambda>_. ConnectAccepted) (\<lambda>_ _. Ok ()) (\<lambda>_. ([], None)) =
   (Panic :: (go_error, disc_call list \<times> (unit, unit) program) outcome)"
proof -
  let ?c = "(demo_config [demo_listener ''tcp''] (gs ''pass''))\<lparr>cfg_Trace := \<lparr>trace_Enabled = True, trace_OTLPEndpoint = gs ''h:4317''\<rparr>\<rparr>"
  let ?env = "demo_env\<lparr>env_parsed := Ok ?c, env_telemetry := telemetry_of (Some (OtherError ''dial'')) None None None
    (\<lambda>_. True) (\<lambda>_. None) (cfg_Metrics (demo_config [demo_listener ''tcp''] (gs ''pass'')))\<rparr>"
  have v: "validate ?c = None" by code_simp
  have ip: "muticast_getLocalIP (env_ifaces ?env) = Ok (gs ''10.0.0.1'')"
    by (simp add: demo_env_def demo_ifaces_def muticast_getLocalIP_def)
  have e: "env_parsed ?env = Ok ?c" by simp
  have t: "env_telemetry ?env = telemetry_of (Some (OtherError ''dial'')) None None None (\<lambda>_. True) (\<lambda>_. None) (cfg_Metrics ?c)"
    by simp
  have "trace_Enabled (cfg_Trace ?c)" by simp
  then show ?thesis
    using telemetry_decides_start [OF e v ip t, where connect = "\<lambda>_. ConnectAccepted" and message = "\<lambda>_ _. Ok ()"
        and channels = "\<lambda>_. ([], None)" and 'cs = unit] by blast
qed

end
