(* ===== verification/Spec2Isabelle.thy ===== *)
theory Spec2Isabelle
  imports Decoder_Safety Client_Safety Client_Conn Etcd Api_Safety Transport_Safety Stats_Safety End_To_End
    Pings Backoff_Float Loggers Tester_Client Printing Pool Telemetry
begin

text \<open>
  A verification of Cable, a distributed message broker written in Go. Clients connect to a node
  over TCP, UDP, WebSocket or QUIC and exchange binary packets with it; the nodes of a cluster keep a
  registry of users, clients and channels that is replicated by raft; a message for a user or a channel
  goes to every client of it, on whatever node it is connected. An HTTP and a gRPC interface let other
  programs send messages and manage channels, nodes and listeners.

  \<^bold>\<open>How the parts fit together.\<close> A packet is encoded by the coder (src/coder), framed and read from
  a stream or a datagram (src/packet), queued and written by a connection (src/internal/queue,
  src/internal/network), and handled by a server (src/server), which keeps the table of its connections. A
  broker (src/cluster/broker.go) owns one server per listener and the tables of the registry
  (src/internal/safe). A login, a close, a join and a leave are proposed to raft
  (src/cluster/cluster_raft.go) and applied by every node; messages, kicks and questions go to the nodes that
  the registry names, through the peer service (peer_client.go, peer_server.go). Nodes find each other by
  multicast (src/discovery) or through the keys of an etcd store (src/cmd/cable/discovery_etcd.go). The
  program src/cmd/cable puts this together from a configuration, adds authentication, routes for messages,
  Redis and Kafka, counts logins, messages and requests in its statistics (cable_stats.go), and serves the
  two interfaces. src/client is the library for clients, src/api the one for programs that use the gRPC
  interface.

  \<^bold>\<open>Values.\<close> Machine integers are words of their width, so that sums wrap around as in Go; times and
  durations are integers, with the wrap-around of 64 bits written out where it matters. A Go string is its
  list of bytes. A Go map is a list of pairs with distinct keys, in the order in which a \<open>range\<close> visits it;
  the theorems hold for every order. A result is an \<open>outcome\<close>: \<open>Ok\<close> with a value, \<open>Err\<close> with an error
  value, or \<open>Panic\<close>. A Go pointer is an option, or an index into a heap where several places share the
  object. What lies outside the repository (gRPC, raft, Redis, Kafka, JWT, sockets, clocks, random numbers)
  is an argument of the definitions, with what is assumed of it as a hypothesis of the theorem.

  \<^bold>\<open>The theories.\<close>
  \<^item> \<open>Prelude\<close>: the values above, lemmas on words, maps and outcomes, Go's \<open>strings.Cut\<close> and \<open>Split\<close>;
    \<open>Errors\<close>: src/xerr; \<open>Strconv\<close>: number parsing and \<open>TrimSpace\<close>, with \<open>ParseKind\<close> and \<open>GetNodeId\<close>.
  \<^item> \<open>Coder\<close>, \<open>Decoder_Safety\<close>: src/coder. The locale of a codec (what is written is read back, whatever
    follows) is interpreted for every pair of a writer and a reader; which reads are safe for every
    input, and which length makes the decoder panic.
  \<^item> \<open>Packet\<close>, \<open>Framing\<close>, \<open>Printing\<close>: src/packet. Frames are read back for every packet, their size, what the
    decoder accepts, reads from a stream, the CONNECT frame that panics; the texts of packets.
  \<^item> \<open>Pool\<close>: src/internal/pool and src/internal/result. The locale \<open>clean_pool\<close> states what the users of a pool rely
    on, and is interpreted for the pool of encoders.
  \<^item> \<open>Safe_Map\<close>, \<open>Queue\<close>: src/internal/safe and src/internal/queue. The maps against plain maps, interleaved
    callers of the counter; the queue as a transition system of callers and worker: order, bound, priority of
    jump tasks, termination of the worker after a close.
  \<^item> \<open>Conn\<close>, \<open>Conn_Safety\<close>: src/internal/network/conn.go, the TCP and UDP transports and
    the state of src/internal/keepalive. What is sent is read by the peer, in order; requests and their ids; a
    deadlock.
  \<^item> \<open>Keepalive\<close>, \<open>Keepalive_Safety\<close>, \<open>Pings\<close>: src/internal/keepalive as a machine with a clock and the timers
    that are due, and the goroutines that send pings and receive pongs on one connection: when a silent
    connection is pinged, how restarts add loops, what pings that overlap and pongs that are late do.
  \<^item> \<open>Server\<close>, \<open>Server_Safety\<close>: src/server. The table is sound after every sequence of events; logins, replies,
    broadcasts, kicks.
  \<^item> \<open>Transport\<close>, \<open>Transport_Safety\<close>: the transports of src/internal/network: which one an option makes, the
    session of a stream from its CONNECT packet to its close, and the datagrams of UDP, all on one server. Its
    table stays sound whatever the network delivers; a connection that is refused is never served.
  \<^item> \<open>Broker_State\<close>, \<open>Registry\<close>: the tables of broker.go and the operations on them, as a refinement of an
    abstract registry of connections and memberships; invariants, agreement of replicas whatever the order of
    their maps.
  \<^item> \<open>Peer\<close>, \<open>Raft\<close>, \<open>Raft_Safety\<close>: peer_client.go's connection, cluster.go and cluster_raft.go. Encoding and
    application of operations, configuration changes, snapshots with the suffix of the log.
  \<^item> \<open>Routing\<close>, \<open>Routing_Safety\<close>, \<open>Login_Safety\<close>: broker.go and listener.go over all nodes. A \<open>world\<close> maps
    node ids to nodes, and a call to a peer is delivered, repeated or lost as the argument \<open>grpc\<close> says. The
    locale \<open>peer_send\<close> states what a call must do for the shared loop of the sends, and is interpreted for
    users and channels.
  \<^item> \<open>Node\<close>, \<open>Node_Safety\<close>: options, construction, start, shutdown, status, and one iteration of the raft loop
    as a function of the batch that the raft library hands out.
  \<^item> \<open>Discovery\<close>, \<open>Etcd\<close>, \<open>Discovery_Loops\<close>: src/discovery and discovery_etcd.go, how a cluster forms from
    announcements or from the keys of a store that all nodes share, and the goroutines of the multicast discovery
    with their sockets: when they end, and what a socket that is missing does.
  \<^item> \<open>Backoff\<close>, \<open>Backoff_Float\<close>, \<open>Client\<close>, \<open>Client_Safety\<close>, \<open>Client_Timers\<close>, \<open>Client_Conn\<close>: src/backoff and src/client, as
    a machine of its status, its retries and its timers; composed with the server's datagram transport and with
    the timers of its keep-alive; the sockets that its connections hold over a sequence of attempts.
  \<^item> \<open>Config\<close>, \<open>Booter\<close>, \<open>Booter_Safety\<close>: src/cmd/cable: validation and what it guarantees, authentication,
    routes, Kafka messages, channels in Redis. \<open>Lifecycle\<close>: what \<open>main\<close> makes, starts and shuts down, with the
    discovery, the broker and the services, and what is left after it.
  \<^item> \<open>Api\<close>, \<open>Api_Safety\<close>: the HTTP handlers, the gRPC service and its client.
  \<^item> \<open>Stats\<close>, \<open>Stats_Safety\<close>: src/stats and cable_stats.go: the instruments, what the calls around logins,
    messages, requests, Redis and Kafka record, and how the counter of users drifts. \<open>Telemetry\<close>: how its providers
    are made, and that the program starts only with them.
  \<^item> \<open>Logging\<close>, \<open>Loggers\<close>: src/xlog and the cores of config.go: what the configured logger writes, and what a
    logger derived from it does. \<open>Programs\<close>, \<open>Tester_Client\<close>: src/cmd/tester and src/cmd/cli.
  \<^item> \<open>End_To_End\<close>: a login through raft, followed by a message from another node.

  \<^bold>\<open>What is shown.\<close> Encodings are inverted by their decodings (packets, operations, announcements); the
  connection table, the queue, the client's status and the registry keep their invariants under every
  sequence of steps; the registry's tables refine the abstract registry; replicas agree, however the log
  is cut into batches and whether it starts from a snapshot; a message for a user reaches every client
  exactly once and nothing else changes, from the client library, from a route and from the interfaces;
  a program with a valid configuration starts, opens its listeners and closes them again; a cluster forms from announcements in any order, and from
  the keys of an etcd store; a connection that is silent for two intervals is pinged; a client has at most one
  keep-alive loop more than calls of \<open>Connect\<close>; the goroutines of the discovery end after \<open>Shutdown\<close>; a user who logs
  in on one node gets the messages that are sent on another. Where the code does not do what it means to, the
  theorem states what it does: what happens when a client logs in twice, when a request times out, when a node
  is removed, when a frame lies about its length, when the program shuts down.

  \<^bold>\<open>Bounds.\<close> Packets have at most \<open>MAX_LEN\<close> bytes, as the code checks; tables hold fewer than \<open>2 ^ 31\<close>
  entries where a 32-bit counter is compared. No definition of the model uses fuel: loops over data are
  structural or have a measure, and the loops of the queue, the client and the raft library are step
  relations or functions of one iteration. An attempt of the client to connect, and a handler of the
  peer service, are one step.

  \<^bold>\<open>Not modelled.\<close> Sockets, timers and goroutines as such: their effects are arguments or steps; the
  libraries for WebSocket, QUIC, etcd, Redis, Kafka and OpenTelemetry are arguments too. A panic in a WebSocket
  session is recovered by net/http, in the other sessions it ends the program. The logging library is an argument, and so are traces, which are written and never read. Floating
  point is modelled only in the backoff strategies. The generated protocol code, the documentation pages (docs.go)
  and src/xlog/slog.go, which is commented out, carry no logic of the broker; accessors that return a field are
  the field. Data races (the tables of the discovery, the slice
  of \<open>Inspects\<close>) are outside the model, in which a step is atomic.
\<close>

end
